(* ===== verification/Go_Prelude.thy ===== *)
theory Go_Prelude
  imports Main "HOL-Library.Word"
begin

text \<open>
  The shared vocabulary of the development: results of Go functions (a value, an error, a run-time
  panic, a loop that never ends), byte slices and Go strings, the 64-bit wrap-around of Go's
  \<open>int\<close>, the key/value tables behind \<^verbatim>\<open>node/database\<close>, and the generic lemmas and simp collections
  that the component theories use.
\<close>

named_theorems res_simps \<open>equations that run and invert the result combinators\<close>
named_theorems go_defs \<open>definitions of the model that proofs unfold to evaluate\<close>

section \<open>Bytes, strings and integers\<close>

type_synonym byte = "8 word"
type_synonym bytes = "8 word list"

text \<open>A Go string is a sequence of bytes; \<open>char\<close> has exactly 256 values.\<close>

definition bytes_of_string :: "string \<Rightarrow> bytes" where
  "bytes_of_string s = map (\<lambda>c. word_of_nat (of_char c)) s"

definition string_of_bytes :: "bytes \<Rightarrow> string" where
  "string_of_bytes b = map (\<lambda>w. char_of (unat w)) b"

lemma char_of_word_of_char: "char_of (unat (word_of_nat (of_char c :: nat) :: 8 word)) = c"
proof -
  have "(of_char c :: nat) < 256"
    by (cases c) (auto simp: of_char_def intro: le_less_trans)
  then have "unat (word_of_nat (of_char c :: nat) :: 8 word) = of_char c"
    by (simp add: unat_of_nat take_bit_nat_eq_self)
  then show ?thesis by simp
qed

lemma string_of_bytes_of_string [simp]: "string_of_bytes (bytes_of_string s) = s"
  by (induction s) (simp_all add: string_of_bytes_def bytes_of_string_def char_of_word_of_char)

lemma bytes_of_string_inject [simp]: "bytes_of_string s = bytes_of_string t \<longleftrightarrow> s = t"
  by (metis string_of_bytes_of_string)

lemma bytes_of_string_append [simp]:
  "bytes_of_string (s @ t) = bytes_of_string s @ bytes_of_string t"
  by (simp add: bytes_of_string_def)

lemma length_bytes_of_string [simp]: "length (bytes_of_string s) = length s"
  by (simp add: bytes_of_string_def)

lemma bytes_of_string_Nil [simp]: "bytes_of_string [] = []"
  by (simp add: bytes_of_string_def)

lemma bytes_of_string_eq_Nil [simp]: "bytes_of_string s = [] \<longleftrightarrow> s = []"
  by (simp add: bytes_of_string_def)

text \<open>Go's \<open>int\<close> and \<open>int64\<close> on a 64-bit platform: the value of a HOL \<open>int\<close> wrapped to 64 bits.\<close>

definition wrap64 :: "int \<Rightarrow> int" where
  "wrap64 x = (x + 2 ^ 63) mod 2 ^ 64 - 2 ^ 63"

definition in64 :: "int \<Rightarrow> bool" where
  "in64 x \<longleftrightarrow> - (2 ^ 63) \<le> x \<and> x < 2 ^ 63"

lemma wrap64_id [simp]: "in64 x \<Longrightarrow> wrap64 x = x"
  by (simp add: wrap64_def in64_def)

lemma in64_wrap64: "in64 (wrap64 x)"
proof -
  have "0 \<le> (x + 2 ^ 63) mod (2 ^ 64 :: int)" and "(x + 2 ^ 63) mod (2 ^ 64 :: int) < 2 ^ 64"
    by (rule pos_mod_sign pos_mod_bound, simp)+
  then show ?thesis unfolding wrap64_def in64_def by auto
qed

text \<open>\<open>binary.Write\<close> with \<open>BigEndian\<close> of an \<open>int64\<close> and of an \<open>int32\<close>.\<close>

fun be_bytes :: "nat \<Rightarrow> int \<Rightarrow> bytes" where
  "be_bytes 0 x = []"
| "be_bytes (Suc n) x = be_bytes n (x div 256) @ [word_of_int x]"

lemma length_be_bytes [simp]: "length (be_bytes n x) = n"
  by (induction n arbitrary: x) simp_all

lemma be_bytes_eq_iff: "be_bytes n x = be_bytes n y \<longleftrightarrow> x mod 256 ^ n = y mod 256 ^ n"
proof (induction n arbitrary: x y)
  case 0
  then show ?case by simp
next
  case (Suc n)
  have w: "(word_of_int x :: 8 word) = word_of_int y \<longleftrightarrow> x mod 256 = y mod 256"
    by (simp add: word_of_int_eq_iff take_bit_eq_mod)
  have d: "z mod 256 ^ Suc n = 256 * (z div 256 mod 256 ^ n) + z mod 256" for z :: int
    by (simp add: zmod_zmult2_eq)
  show ?case
  proof
    assume "be_bytes (Suc n) x = be_bytes (Suc n) y"
    then have "x div 256 mod 256 ^ n = y div 256 mod 256 ^ n" and "x mod 256 = y mod 256"
      using Suc.IH w by auto
    then show "x mod 256 ^ Suc n = y mod 256 ^ Suc n" unfolding d by simp
  next
    assume *: "x mod 256 ^ Suc n = y mod 256 ^ Suc n"
    have lo: "z mod 256 ^ Suc n mod 256 = z mod 256" for z :: int
      by (simp add: mod_mod_cancel)
    from * have "x mod 256 = y mod 256" using lo by metis
    moreover from this * have "x div 256 mod 256 ^ n = y div 256 mod 256 ^ n"
      unfolding d by simp
    ultimately show "be_bytes (Suc n) x = be_bytes (Suc n) y" using Suc.IH w by simp
  qed
qed

section \<open>Results of Go functions\<close>

text \<open>
  The custom error types of the packages are constructors that keep the fields the code inspects
  (\<open>kind\<close> and \<open>TX\<close>); an \<open>errors.New\<close> error keeps its literal text, and the values interpolated into
  it by \<open>Sprintf\<close> are dropped.
\<close>

datatype err =
    ErrNew string
  | ErrDB string
  | ErrTXVerify string bytes
  | ErrTXNotFound string
  | ErrTXPrepare string
  | ErrTXPool string
  | ErrNet string

datatype 'a res = Ok 'a | Err err | Panic | Diverge

fun bindR :: "'a res \<Rightarrow> ('a \<Rightarrow> 'b res) \<Rightarrow> 'b res" where
  "bindR (Ok x) f = f x"
| "bindR (Err e) f = Err e"
| "bindR Panic f = Panic"
| "bindR Diverge f = Diverge"

lemma bindR_cong [fundef_cong]:
  assumes "r = s" and "\<And>x. s = Ok x \<Longrightarrow> f x = g x"
  shows "bindR r f = bindR s g"
  using assms by (cases s) auto

lemma bindR_eq_Ok [res_simps]: "bindR r f = Ok y \<longleftrightarrow> (\<exists>x. r = Ok x \<and> f x = Ok y)"
  by (cases r) auto

lemma bindR_eq_Err [res_simps]:
  "bindR r f = Err e \<longleftrightarrow> r = Err e \<or> (\<exists>x. r = Ok x \<and> f x = Err e)"
  by (cases r) auto

lemma bindR_eq_Panic [res_simps]: "bindR r f = Panic \<longleftrightarrow> r = Panic \<or> (\<exists>x. r = Ok x \<and> f x = Panic)"
  by (cases r) auto

lemma bindR_eq_Diverge [res_simps]:
  "bindR r f = Diverge \<longleftrightarrow> r = Diverge \<or> (\<exists>x. r = Ok x \<and> f x = Diverge)"
  by (cases r) auto

text \<open>Operations that change the state return the result and the state, which a failure keeps.\<close>

fun bindS :: "'a res \<times> 's \<Rightarrow> ('a \<Rightarrow> 's \<Rightarrow> 'b res \<times> 's) \<Rightarrow> 'b res \<times> 's" where
  "bindS (Ok x, s) f = f x s"
| "bindS (Err e, s) f = (Err e, s)"
| "bindS (Panic, s) f = (Panic, s)"
| "bindS (Diverge, s) f = (Diverge, s)"

lemma bindS_cong [fundef_cong]:
  assumes "r = r'" and "\<And>x s. r' = (Ok x, s) \<Longrightarrow> f x s = g x s"
  shows "bindS r f = bindS r' g"
  using assms by (cases r'; cases "fst r'") auto

text \<open>A call whose error the source ignores; a panic or an endless loop is not an error value.\<close>

fun ignoreS :: "'a res \<times> 's \<Rightarrow> ('s \<Rightarrow> 'b res \<times> 's) \<Rightarrow> 'b res \<times> 's" where
  "ignoreS (Ok x, s) f = f s"
| "ignoreS (Err e, s) f = f s"
| "ignoreS (Panic, s) f = (Panic, s)"
| "ignoreS (Diverge, s) f = (Diverge, s)"

lemma ignoreS_cong [fundef_cong]:
  assumes "r = r'" and "\<And>s. f s = g s"
  shows "ignoreS r f = ignoreS r' g"
  using assms by (cases r'; cases "fst r'") auto

lemma bindS_eq_Ok [res_simps]:
  "bindS r f = (Ok y, t) \<longleftrightarrow> (\<exists>x s. r = (Ok x, s) \<and> f x s = (Ok y, t))"
  by (cases r; cases "fst r") auto

text \<open>A \<open>for\<close> loop over a slice that stops at the first error.\<close>

fun forS :: "('x \<Rightarrow> 's \<Rightarrow> unit res \<times> 's) \<Rightarrow> 'x list \<Rightarrow> 's \<Rightarrow> unit res \<times> 's" where
  "forS f [] s = (Ok (), s)"
| "forS f (x # xs) s = bindS (f x s) (\<lambda>_ s. forS f xs s)"

lemma forS_append: "forS f (xs @ ys) s = bindS (forS f xs s) (\<lambda>_. forS f ys)"
proof (induction xs arbitrary: s)
  case (Cons x xs)
  show ?case by (cases "f x s"; cases "fst (f x s)") (auto simp: Cons.IH)
qed simp

lemma forS_invariant:
  assumes "I s" and "\<And>x s r t. I s \<Longrightarrow> x \<in> set xs \<Longrightarrow> f x s = (r, t) \<Longrightarrow> I t"
  shows "forS f xs s = (r, t) \<Longrightarrow> I t"
  using assms
proof (induction xs arbitrary: s)
  case (Cons x xs)
  obtain r1 s1 where f: "f x s = (r1, s1)" by fastforce
  then have "I s1" using Cons.prems(2,3) by (meson list.set_intros(1))
  show ?case
  proof (cases r1)
    case (Ok u)
    with f Cons.prems(1) have "forS f xs s1 = (r, t)" by simp
    moreover have "I t'" if "I s'" "x' \<in> set xs" "f x' s' = (r', t')" for x' s' r' t'
      using Cons.prems(3)[OF that(1) _ that(3)] that(2) by simp
    ultimately show ?thesis using Cons.IH \<open>I s1\<close> by blast
  qed (use f Cons.prems(1) \<open>I s1\<close> in auto)
qed simp

text \<open>Indexing a slice; out of range is a panic.\<close>

definition index :: "'a list \<Rightarrow> int \<Rightarrow> 'a res" where
  "index xs i = (if 0 \<le> i \<and> i < int (length xs) then Ok (xs ! nat i) else Panic)"

lemma index_eq_Ok [res_simps]:
  "index xs i = Ok x \<longleftrightarrow> 0 \<le> i \<and> i < int (length xs) \<and> x = xs ! nat i"
  by (auto simp: index_def)

text \<open>Dereferencing a pointer; \<open>nil\<close> is a panic.\<close>

fun deref :: "'a option \<Rightarrow> 'a res" where
  "deref None = Panic"
| "deref (Some x) = Ok x"

lemma deref_eq_Ok [res_simps]: "deref p = Ok x \<longleftrightarrow> p = Some x"
  by (cases p) auto

section \<open>Key/value tables\<close>

text \<open>
  The tables of \<^verbatim>\<open>node/database\<close> (and the in-memory maps) as association lists without duplicate
  keys; the order of the list is the order in which a cursor visits the records.
\<close>

type_synonym 'v table = "(bytes \<times> 'v) list"

fun tget :: "('k \<times> 'v) list \<Rightarrow> 'k \<Rightarrow> 'v option" where
  "tget [] k = None"
| "tget ((k', v) # t) k = (if k' = k then Some v else tget t k)"

fun tput :: "('k \<times> 'v) list \<Rightarrow> 'k \<Rightarrow> 'v \<Rightarrow> ('k \<times> 'v) list" where
  "tput [] k v = [(k, v)]"
| "tput ((k', v') # t) k v = (if k' = k then (k, v) # t else (k', v') # tput t k v)"

definition tdel :: "('k \<times> 'v) list \<Rightarrow> 'k \<Rightarrow> ('k \<times> 'v) list" where
  "tdel t k = filter (\<lambda>p. fst p \<noteq> k) t"

lemma tget_tput: "tget (tput t k v) k' = (if k' = k then Some v else tget t k')"
  by (induction t k v rule: tput.induct) auto

lemma tget_tdel: "tget (tdel t k) k' = (if k' = k then None else tget t k')"
  by (induction t) (auto simp: tdel_def)

lemma tget_None: "tget t k = None \<longleftrightarrow> k \<notin> fst ` set t"
proof (induction t)
  case (Cons p t)
  then show ?case by (cases p) auto
qed simp

lemma tget_Some_in: "tget t k = Some v \<Longrightarrow> (k, v) \<in> set t"
  by (induction t) (auto split: if_splits)

lemma tget_in: "distinct (map fst t) \<Longrightarrow> (k, v) \<in> set t \<Longrightarrow> tget t k = Some v"
  by (induction t) (auto simp: rev_image_eqI)

lemma keys_tput: "fst ` set (tput t k v) = insert k (fst ` set t)"
  by (induction t k v rule: tput.induct) auto

lemma distinct_tput: "distinct (map fst t) \<Longrightarrow> distinct (map fst (tput t k v))"
proof (induction t k v rule: tput.induct)
  case (2 k' v' t k v)
  then show ?case using keys_tput[of t k v] by auto
qed simp

lemma distinct_tdel: "distinct (map fst t) \<Longrightarrow> distinct (map fst (tdel t k))"
  by (induction t) (auto simp: tdel_def)

text \<open>What the callers rely on when they use a table.\<close>

locale kv_store =
  fixes get :: "'t \<Rightarrow> 'k \<Rightarrow> 'v option"
    and put :: "'t \<Rightarrow> 'k \<Rightarrow> 'v \<Rightarrow> 't"
    and del :: "'t \<Rightarrow> 'k \<Rightarrow> 't"
  assumes get_put: "get (put t k v) k' = (if k' = k then Some v else get t k')"
    and get_del: "get (del t k) k' = (if k' = k then None else get t k')"
begin

lemma get_put_same [simp]: "get (put t k v) k = Some v"
  by (simp add: get_put)

lemma get_put_other: "k' \<noteq> k \<Longrightarrow> get (put t k v) k' = get t k'"
  by (simp add: get_put)

lemma get_del_same [simp]: "get (del t k) k = None"
  by (simp add: get_del)

lemma get_del_other: "k' \<noteq> k \<Longrightarrow> get (del t k) k' = get t k'"
  by (simp add: get_del)

lemma get_put_put: "get (put (put t k v) k w) = get (put t k w)"
  by (rule ext) (simp add: get_put)

lemma get_del_put: "get t k = None \<Longrightarrow> get (del (put t k v) k) = get t"
  by (rule ext) (simp add: get_put get_del)

lemma get_put_commute: "k \<noteq> l \<Longrightarrow> get (put (put t k v) l w) = get (put (put t l w) k v)"
  by (rule ext) (simp add: get_put)

lemma get_foldl_put_notin:
  "k \<notin> fst ` set ps \<Longrightarrow> get (foldl (\<lambda>t p. put t (fst p) (snd p)) t ps) k = get t k"
  by (induction ps arbitrary: t) (auto simp: get_put)

end

interpretation tbl: kv_store tget tput tdel
  by unfold_locales (simp_all add: tget_tput tget_tdel)

lemmas table_simps = tbl.get_put tbl.get_del

section \<open>Slices\<close>

text \<open>The first position whose element satisfies a test, the shape of a searching \<open>for\<close> loop.\<close>

fun find_pos :: "('a \<Rightarrow> bool) \<Rightarrow> 'a list \<Rightarrow> nat option" where
  "find_pos P [] = None"
| "find_pos P (x # xs) = (if P x then Some 0 else map_option Suc (find_pos P xs))"

lemma find_pos_Some: "find_pos P xs = Some i \<Longrightarrow> i < length xs \<and> P (xs ! i) \<and> (\<forall>j<i. \<not> P (xs ! j))"
proof (induction xs arbitrary: i)
  case (Cons x xs)
  then show ?case by (auto split: if_splits simp: nth_Cons split: nat.splits)
qed simp

lemma find_pos_None: "find_pos P xs = None \<longleftrightarrow> (\<forall>x\<in>set xs. \<not> P x)"
  by (induction xs) auto

end
