(* ===== verification/Lib_Utils.thy ===== *)
theory Lib_Utils
  imports Go_Prelude
begin

text \<open>
  \<^verbatim>\<open>lib/utils\<close>: the Merkle tree (\<^verbatim>\<open>merkle_tree.go\<close>), signatures and their DER-like envelope
  (\<^verbatim>\<open>crypt.go\<close>), addresses and string helpers (\<^verbatim>\<open>utils.go\<close>). The cryptographic primitives of Go's
  \<^verbatim>\<open>crypto\<close> packages and the base58 codec of a third-party package are the fields of the record
  \<open>crypto\<close>, an argument of every definition that uses them.
\<close>

record 'k crypto =
  sha256 :: "bytes \<Rightarrow> bytes"
  sha1 :: "bytes \<Rightarrow> bytes"
  ripemd160 :: "bytes \<Rightarrow> bytes"
  ecdsa_verify :: "nat \<Rightarrow> nat \<Rightarrow> bytes \<Rightarrow> nat \<Rightarrow> nat \<Rightarrow> bool"
  ecdsa_sign :: "nat \<Rightarrow> 'k \<Rightarrow> bytes \<Rightarrow> (bytes \<times> bytes) option"
  base58_encode :: "bytes \<Rightarrow> string"
  base58_decode :: "string \<Rightarrow> bytes"

text \<open>
  \<open>ecdsa_verify x y digest r s\<close> is \<open>ecdsa.Verify\<close> on the curve P-256; \<open>ecdsa_sign i k digest\<close> is the
  \<open>i\<close>-th call of \<open>ecdsa.Sign\<close> with the key \<open>k\<close> (the call draws randomness, so two calls may differ),
  \<open>None\<close> its error.
\<close>

section \<open>The Merkle tree\<close>

datatype merkle_node =
  MNode (mLeft: "merkle_node option") (mRight: "merkle_node option") (mData: bytes)

fun NewMerkleNode :: "'k crypto \<Rightarrow> merkle_node option \<Rightarrow> merkle_node option \<Rightarrow> bytes \<Rightarrow> merkle_node res" where
  "NewMerkleNode cr None None data = Ok (MNode None None (sha256 cr data))"
| "NewMerkleNode cr left right data =
     bindR (deref left) (\<lambda>l. bindR (deref right) (\<lambda>r.
       Ok (MNode left right (sha256 cr (mData l @ mData r)))))"

text \<open>The inner loop over \<open>j\<close>: the next level, two nodes at a time.\<close>

fun merkle_pairs :: "'k crypto \<Rightarrow> merkle_node list \<Rightarrow> merkle_node list res" where
  "merkle_pairs cr [] = Ok []"
| "merkle_pairs cr [x] = Panic"
| "merkle_pairs cr (x # y # xs) =
     bindR (NewMerkleNode cr (Some x) (Some y) []) (\<lambda>n.
     bindR (merkle_pairs cr xs) (\<lambda>ns. Ok (n # ns)))"

text \<open>An odd level repeats its last element.\<close>

definition merkle_even :: "'a list \<Rightarrow> 'a list" where
  "merkle_even xs = (if odd (length xs) then xs @ [last xs] else xs)"

fun merkle_levels :: "'k crypto \<Rightarrow> nat \<Rightarrow> merkle_node list \<Rightarrow> merkle_node list res" where
  "merkle_levels cr 0 nodes = Ok nodes"
| "merkle_levels cr (Suc n) nodes =
     bindR (merkle_pairs cr nodes) (\<lambda>newLevel. merkle_levels cr n (merkle_even newLevel))"

definition NewMerkleTree :: "'k crypto \<Rightarrow> bytes list \<Rightarrow> merkle_node res" where
  "NewMerkleTree cr data =
     (let data = merkle_even data;
          nodes = map (\<lambda>d. MNode None None (sha256 cr d)) data
      in bindR (merkle_levels cr (length data div 2) nodes) (\<lambda>nodes. index nodes 0))"

subsection \<open>The hashes of the levels\<close>

fun hash_pairs :: "'k crypto \<Rightarrow> bytes list \<Rightarrow> bytes list" where
  "hash_pairs cr (x # y # xs) = sha256 cr (x @ y) # hash_pairs cr xs"
| "hash_pairs cr xs = []"

fun hash_levels :: "'k crypto \<Rightarrow> nat \<Rightarrow> bytes list \<Rightarrow> bytes list" where
  "hash_levels cr 0 hs = hs"
| "hash_levels cr (Suc n) hs = hash_levels cr n (merkle_even (hash_pairs cr hs))"

lemma even_merkle_even [simp]: "even (length (merkle_even xs))"
  by (simp add: merkle_even_def)

lemma map_merkle_even: "map f (merkle_even xs) = merkle_even (map f xs)"
  by (cases xs rule: rev_cases) (auto simp: merkle_even_def last_map)

lemma merkle_even_idem [simp]: "even (length xs) \<Longrightarrow> merkle_even xs = xs"
  by (simp add: merkle_even_def)

lemma length_merkle_even: "length (merkle_even xs) = length xs + length xs mod 2"
  by (auto simp: merkle_even_def odd_iff_mod_2_eq_one)

lemma merkle_pairs_hash:
  "even (length ns) \<Longrightarrow> \<exists>ms. merkle_pairs cr ns = Ok ms \<and> map mData ms = hash_pairs cr (map mData ns)"
  by (induction cr ns rule: merkle_pairs.induct) auto

lemma merkle_levels_hash:
  "even (length ns) \<Longrightarrow>
   \<exists>ms. merkle_levels cr n ns = Ok ms \<and> map mData ms = hash_levels cr n (map mData ns)"
proof (induction n arbitrary: ns)
  case (Suc n)
  from merkle_pairs_hash[OF Suc.prems, of cr] obtain ms where
    ms: "merkle_pairs cr ns = Ok ms" "map mData ms = hash_pairs cr (map mData ns)" by blast
  then show ?case using Suc.IH[of "merkle_even ms"] by (simp add: map_merkle_even)
qed simp

lemma length_hash_pairs: "length (hash_pairs cr hs) = length hs div 2"
  by (induction cr hs rule: hash_pairs.induct) auto

lemma length_hash_level:
  "even (length hs) \<Longrightarrow> 2 \<le> length hs \<Longrightarrow>
   2 \<le> length (merkle_even (hash_pairs cr hs)) \<and>
   length (merkle_even (hash_pairs cr hs)) \<le> max 2 (length hs - 2)"
  by (auto simp: length_merkle_even length_hash_pairs) presburger+

lemma hash_levels_pair:
  assumes "even (length hs)" and "2 \<le> length hs" and "length hs \<le> 2 * n"
  shows "\<exists>r. hash_levels cr n hs = [r, r]"
  using assms
proof (induction n arbitrary: hs)
  case (Suc n)
  let ?l = "merkle_even (hash_pairs cr hs)"
  have len: "2 \<le> length ?l" "length ?l \<le> max 2 (length hs - 2)"
    using length_hash_level[OF Suc.prems(1,2)] by blast+
  show ?case
  proof (cases n)
    case 0
    with Suc.prems have "length hs = 2" by simp
    then obtain x y where "hs = [x, y]" by (auto simp: length_Suc_conv numeral_2_eq_2)
    with 0 show ?thesis by (simp add: merkle_even_def)
  next
    case (Suc m)
    with len Suc.prems have "length ?l \<le> 2 * n" by auto
    with Suc.IH[of ?l] len Suc.prems show ?thesis by simp
  qed
qed simp

text \<open>Every byte string that is hashed while the tree of \<open>data\<close> is built.\<close>

fun pair_inputs :: "bytes list \<Rightarrow> bytes list" where
  "pair_inputs (x # y # xs) = (x @ y) # pair_inputs xs"
| "pair_inputs xs = []"

fun level_inputs :: "'k crypto \<Rightarrow> nat \<Rightarrow> bytes list \<Rightarrow> bytes list" where
  "level_inputs cr 0 hs = []"
| "level_inputs cr (Suc n) hs =
     pair_inputs hs @ level_inputs cr n (merkle_even (hash_pairs cr hs))"

definition merkle_inputs :: "'k crypto \<Rightarrow> bytes list \<Rightarrow> bytes list" where
  "merkle_inputs cr data =
     (let data = merkle_even data
      in data @ level_inputs cr (length data div 2) (map (sha256 cr) data))"

lemma hash_pairs_map: "hash_pairs cr hs = map (sha256 cr) (pair_inputs hs)"
  by (induction cr hs rule: hash_pairs.induct) auto

lemma merkle_even_inject:
  "length xs = length ys \<Longrightarrow> merkle_even xs = merkle_even ys \<longleftrightarrow> xs = ys"
  by (auto simp: merkle_even_def)

lemma merkle_even_Nil_iff [simp]: "merkle_even xs = [] \<longleftrightarrow> xs = []"
  by (auto simp: merkle_even_def)

lemma set_merkle_even [simp]: "set (merkle_even xs) = set xs"
  by (cases xs rule: rev_cases) (auto simp: merkle_even_def)

lemma pair_inputs_inject:
  assumes "length xs = length ys" and "even (length xs)"
    and "\<forall>x\<in>set xs. length x = n" and "\<forall>y\<in>set ys. length y = n"
  shows "pair_inputs xs = pair_inputs ys \<longleftrightarrow> xs = ys"
  using assms
proof (induction xs arbitrary: ys rule: pair_inputs.induct)
  case (1 x y xs)
  then obtain u v us where "ys = u # v # us"
    by (cases ys; cases "tl ys") auto
  with 1 show ?case by auto
qed (simp_all, metis One_nat_def odd_one)

lemma hash_levels_inject:
  assumes "hash_levels cr n xs = hash_levels cr n ys"
    and "length xs = length ys" and "even (length xs)"
    and "\<forall>x\<in>set xs. length x = k" and "\<forall>y\<in>set ys. length y = k"
    and "\<forall>x. length (sha256 cr x) = k"
    and "inj_on (sha256 cr) (set (level_inputs cr n xs) \<union> set (level_inputs cr n ys))"
  shows "xs = ys"
  using assms
proof (induction n arbitrary: xs ys)
  case (Suc n)
  let ?X = "merkle_even (hash_pairs cr xs)" and ?Y = "merkle_even (hash_pairs cr ys)"
  have len: "length (hash_pairs cr xs) = length (hash_pairs cr ys)"
    using Suc.prems(2) by (simp add: length_hash_pairs)
  have inj: "inj_on (sha256 cr) (set (pair_inputs xs) \<union> set (pair_inputs ys))"
    by (rule inj_on_subset[OF Suc.prems(7)]) auto
  have "?X = ?Y"
  proof (rule Suc.IH)
    show "inj_on (sha256 cr) (set (level_inputs cr n ?X) \<union> set (level_inputs cr n ?Y))"
      by (rule inj_on_subset[OF Suc.prems(7)]) auto
  qed (use Suc.prems len in \<open>auto simp: length_merkle_even hash_pairs_map\<close>)
  then have "map (sha256 cr) (pair_inputs xs) = map (sha256 cr) (pair_inputs ys)"
    using len by (simp add: merkle_even_inject hash_pairs_map)
  then have "pair_inputs xs = pair_inputs ys"
    using inj by (simp add: inj_on_map_eq_map)
  then show ?case using pair_inputs_inject[OF Suc.prems(2-5)] by blast
qed simp

lemma NewMerkleTree_root:
  assumes "data \<noteq> []"
  shows "\<exists>root. NewMerkleTree cr data = Ok root \<and>
           hash_levels cr (length (merkle_even data) div 2) (map (sha256 cr) (merkle_even data))
             = [mData root, mData root]"
proof -
  let ?d = "merkle_even data" and ?nodes = "map (\<lambda>d. MNode None None (sha256 cr d)) (merkle_even data)"
  have len: "even (length ?d)" "2 \<le> length ?d"
    using assms by (cases data; cases "tl data"; auto simp: length_merkle_even)+
  obtain ms where ms: "merkle_levels cr (length ?d div 2) ?nodes = Ok ms"
    "map mData ms = hash_levels cr (length ?d div 2) (map (sha256 cr) ?d)"
    using merkle_levels_hash[of ?nodes cr "length ?d div 2"] len by (auto simp: comp_def)
  obtain r where r: "map mData ms = [r, r]"
    using hash_levels_pair[of "map (sha256 cr) ?d" "length ?d div 2" cr] ms(2) len by auto
  then obtain m m' where "ms = [m, m']" "mData m = r" "mData m' = r" by auto
  then show ?thesis using ms r by (auto simp: NewMerkleTree_def Let_def index_def)
qed

lemma NewMerkleTree_inject:
  assumes "xs \<noteq> []" and "length xs = length ys"
    and "\<forall>x. length (sha256 cr x) = 32"
    and "inj_on (sha256 cr) (set (merkle_inputs cr xs) \<union> set (merkle_inputs cr ys))"
    and "NewMerkleTree cr xs = Ok r" and "NewMerkleTree cr ys = Ok s" and "mData r = mData s"
  shows "xs = ys"
proof -
  let ?x = "merkle_even xs" and ?y = "merkle_even ys"
  have "ys \<noteq> []" using assms(1,2) by auto
  have len: "length ?x = length ?y" using assms(2) by (simp add: length_merkle_even)
  have "map (sha256 cr) ?x = map (sha256 cr) ?y"
  proof (rule hash_levels_inject[where n = "length ?x div 2" and k = 32 and cr = cr])
    show "hash_levels cr (length ?x div 2) (map (sha256 cr) ?x) =
          hash_levels cr (length ?x div 2) (map (sha256 cr) ?y)"
      using NewMerkleTree_root[OF assms(1), of cr] NewMerkleTree_root[OF \<open>ys \<noteq> []\<close>, of cr]
        assms(5-7) len by auto
    show "inj_on (sha256 cr) (set (level_inputs cr (length ?x div 2) (map (sha256 cr) ?x)) \<union>
            set (level_inputs cr (length ?x div 2) (map (sha256 cr) ?y)))"
      by (rule inj_on_subset[OF assms(4)]) (use len in \<open>auto simp: merkle_inputs_def Let_def\<close>)
  qed (use len assms(3) in auto)
  moreover have "inj_on (sha256 cr) (set ?x \<union> set ?y)"
    by (rule inj_on_subset[OF assms(4)]) (auto simp: merkle_inputs_def Let_def)
  ultimately have "?x = ?y" by (simp add: inj_on_map_eq_map)
  then show ?thesis using assms(2) by (simp add: merkle_even_inject)
qed

lemma NewMerkleTree_empty: "NewMerkleTree cr [] = Panic"
  by (simp add: NewMerkleTree_def merkle_even_def index_def)

text \<open>The padding is part of the tree: a list and the list with its last element repeated agree.\<close>

lemma NewMerkleTree_padding: "odd (length xs) \<Longrightarrow> NewMerkleTree cr (xs @ [last xs]) = NewMerkleTree cr xs"
  by (simp add: NewMerkleTree_def merkle_even_def)

end
