(* ===== verification/Lib_Crypt.thy ===== *)
theory Lib_Crypt
  imports Lib_Utils
begin

text \<open>
  \<^verbatim>\<open>lib/utils/crypt.go\<close> (signing, verification and the envelope that packs the two halves of a
  signature) and the address and string helpers of \<^verbatim>\<open>lib/utils/utils.go\<close>.
\<close>

section \<open>Signature envelope\<close>

text \<open>Go's \<open>uint8(len(x))\<close>.\<close>

definition len8 :: "bytes \<Rightarrow> byte" where
  "len8 b = word_of_nat (length b)"

definition signatureToDER :: "bytes \<Rightarrow> bytes \<Rightarrow> bytes" where
  "signatureToDER r s =
     (let sig = [0x02, len8 r] @ r @ [0x02, len8 s] @ s
      in [0x30, len8 sig] @ sig)"

text \<open>A slice expression \<open>x[i:j]\<close>.\<close>

definition slice :: "'a list \<Rightarrow> nat \<Rightarrow> nat \<Rightarrow> 'a list res" where
  "slice xs i j = (if i \<le> j \<and> j \<le> length xs then Ok (take (j - i) (drop i xs)) else Panic)"

definition signatureFromDER :: "bytes \<Rightarrow> (bytes \<times> bytes) res" where
  "signatureFromDER dersig =
     (if length dersig < 4 then Err (ErrNew ''Wrong signature length'')
      else bindR (index dersig 3) (\<lambda>b3.
        let lenR = unat b3
        in if length dersig < 7 + lenR then Err (ErrNew ''Wrong signature length'')
           else bindR (slice dersig 4 (4 + lenR)) (\<lambda>r.
             bindR (index dersig (int (5 + lenR))) (\<lambda>b5.
             let lenS = unat b5
             in if length dersig < 6 + lenR + lenS then Err (ErrNew ''Wrong signature length'')
                else bindR (slice dersig (6 + lenR) (6 + lenR + lenS)) (\<lambda>s. Ok (r, s))))))"

lemma unat_len8: "length b < 256 \<Longrightarrow> unat (len8 b) = length b"
  by (simp add: len8_def unat_of_nat take_bit_nat_eq_self)

text \<open>\<open>big.Int.SetBytes\<close>: the big-endian value of a byte slice.\<close>

definition be_nat :: "bytes \<Rightarrow> nat" where
  "be_nat b = foldl (\<lambda>n w. n * 256 + unat w) 0 b"

definition SignData :: "'k crypto \<Rightarrow> nat \<Rightarrow> 'k \<Rightarrow> bytes \<Rightarrow> bytes res" where
  "SignData cr i privKey dataToSign =
     (case ecdsa_sign cr i privKey (sha1 cr dataToSign) of
        None \<Rightarrow> Err (ErrNew ''ecdsa.Sign'')
      | Some (r, s) \<Rightarrow> Ok (signatureToDER r s))"

definition VerifySignature :: "'k crypto \<Rightarrow> bytes \<Rightarrow> bytes \<Rightarrow> bytes \<Rightarrow> bool res" where
  "VerifySignature cr signature message PubKey =
     bindR (signatureFromDER signature) (\<lambda>(sigR, sigS).
       let keyLen = length PubKey;
           x = be_nat (take (keyLen div 2) PubKey);
           y = be_nat (drop (keyLen div 2) PubKey)
       in Ok (ecdsa_verify cr x y (sha1 cr message) (be_nat sigR) (be_nat sigS)))"

definition SignDataByPubKey :: "'k crypto \<Rightarrow> nat \<Rightarrow> bytes \<Rightarrow> 'k \<Rightarrow> bytes \<Rightarrow> bytes res" where
  "SignDataByPubKey cr i PubKey privKey dataToSign =
     bindR (SignData cr i privKey dataToSign) (\<lambda>signature.
     bindR (VerifySignature cr signature dataToSign PubKey) (\<lambda>v.
       if \<not> v then Err (ErrNew ''Just created signature looks wrong!'') else Ok signature))"

text \<open>
  \<^verbatim>\<open>SignDataSet\<close> signs every element in a \<open>for\<close> loop without a \<open>break\<close>: \<open>fuel\<close> bounds the number of
  rounds, and \<open>i\<close> counts the calls of \<open>ecdsa.Sign\<close>.
\<close>

fun sign_forever :: "'k crypto \<Rightarrow> nat \<Rightarrow> nat \<Rightarrow> bytes \<Rightarrow> 'k \<Rightarrow> bytes \<Rightarrow> bytes res" where
  "sign_forever cr 0 i PubKey privKey d = Diverge"
| "sign_forever cr (Suc fuel) i PubKey privKey d =
     bindR (SignData cr i privKey d) (\<lambda>signature.
     bindR (VerifySignature cr signature d PubKey) (\<lambda>v.
       if \<not> v then Err (ErrNew ''Just created signature looks wrong!'')
       else sign_forever cr fuel (Suc i) PubKey privKey d))"

fun SignDataSet :: "'k crypto \<Rightarrow> nat \<Rightarrow> nat \<Rightarrow> bytes \<Rightarrow> 'k \<Rightarrow> bytes list \<Rightarrow> bytes list res" where
  "SignDataSet cr fuel i PubKey privKey [] = Ok []"
| "SignDataSet cr fuel i PubKey privKey (d # ds) =
     bindR (sign_forever cr fuel i PubKey privKey d) (\<lambda>signature.
     bindR (SignDataSet cr fuel i PubKey privKey ds) (\<lambda>ss. Ok (signature # ss)))"

lemma signatureFromDER_total: "signatureFromDER d \<noteq> Panic \<and> signatureFromDER d \<noteq> Diverge"
  by (auto simp: signatureFromDER_def Let_def index_def slice_def simp del: of_nat_unat)

lemma signature_roundtrip:
  assumes "length r < 256" and "length s < 256" and "s \<noteq> []"
  shows "signatureFromDER (signatureToDER r s) = Ok (r, s)"
proof -
  let ?d = "signatureToDER r s"
  have d: "?d = [0x30, len8 ([0x02, len8 r] @ r @ [0x02, len8 s] @ s), 0x02, len8 r] @ r @ [0x02, len8 s] @ s"
    by (simp add: signatureToDER_def Let_def)
  have len: "length ?d = 6 + length r + length s" unfolding d by simp
  have i3: "index ?d 3 = Ok (len8 r)" unfolding d by (simp add: index_def)
  have i5: "index ?d (int (5 + length r)) = Ok (len8 s)"
    unfolding d by (simp add: index_def nth_append nat_add_distrib)
  have sr: "slice ?d 4 (4 + length r) = Ok r" unfolding d by (simp add: slice_def)
  have "drop (6 + length r) ?d = s"
    using append_eq_conv_conj[of "take (6 + length r) ?d" "drop (6 + length r) ?d"]
    by (simp add: d drop_Cons')
  then have ss: "slice ?d (6 + length r) (6 + length r + length s) = Ok s"
    using len by (simp add: slice_def)
  have "1 \<le> length s" using assms(3) by (cases s) auto
  then show ?thesis
    using assms by (simp add: signatureFromDER_def len i3 unat_len8 sr i5[simplified] i5 ss Let_def)
qed

lemma sign_forever_not_Ok: "sign_forever cr fuel i pk k d \<noteq> Ok sig"
  by (induction fuel arbitrary: i) (auto simp: res_simps)

lemma SignDataByPubKey_verifies:
  "SignDataByPubKey cr i pk k d = Ok sig \<Longrightarrow> VerifySignature cr sig d pk = Ok True"
  by (auto simp: SignDataByPubKey_def res_simps split: if_splits)

section \<open>Addresses\<close>

definition Version :: byte where "Version = 0"
definition AddressChecksumLen :: nat where "AddressChecksumLen = 4"
definition NullAddressString :: string where "NullAddressString = ''NULLADDRESS''"

definition Checksum :: "'k crypto \<Rightarrow> bytes \<Rightarrow> bytes" where
  "Checksum cr payload = take AddressChecksumLen (sha256 cr (sha256 cr payload))"

definition HashPubKey :: "'k crypto \<Rightarrow> bytes \<Rightarrow> bytes" where
  "HashPubKey cr pubKey = ripemd160 cr (sha256 cr pubKey)"

definition AddresBToPubKeyHash :: "'k crypto \<Rightarrow> bytes \<Rightarrow> bytes res" where
  "AddresBToPubKeyHash cr address =
     (let pubKeyHash = base58_decode cr (string_of_bytes address)
      in if length pubKeyHash < 10 then Err (ErrNew ''Wrong address'')
         else slice pubKeyHash 1 (length pubKeyHash - 4))"

definition AddresToPubKeyHash :: "'k crypto \<Rightarrow> string \<Rightarrow> bytes res" where
  "AddresToPubKeyHash cr address = AddresBToPubKeyHash cr (bytes_of_string address)"

definition PubKeyHashToAddres :: "'k crypto \<Rightarrow> bytes \<Rightarrow> string" where
  "PubKeyHashToAddres cr pubKeyHash =
     (if pubKeyHash = [] then NullAddressString
      else let versionedPayload = [Version] @ pubKeyHash
           in base58_encode cr (versionedPayload @ Checksum cr versionedPayload))"

definition PubKeyToAddres :: "'k crypto \<Rightarrow> bytes \<Rightarrow> string" where
  "PubKeyToAddres cr pubKey =
     (let versionedPayload = [Version] @ HashPubKey cr pubKey
      in base58_encode cr (versionedPayload @ Checksum cr versionedPayload))"

lemma address_roundtrip:
  assumes "\<And>x. base58_decode cr (base58_encode cr x) = x"
    and "\<And>x. length (sha256 cr x) = 32" and "5 \<le> length h"
  shows "AddresToPubKeyHash cr (PubKeyHashToAddres cr h) = Ok h"
proof -
  have "h \<noteq> []" using assms(3) by auto
  then show ?thesis
    using assms by (simp add: AddresToPubKeyHash_def AddresBToPubKeyHash_def
        PubKeyHashToAddres_def Let_def Checksum_def AddressChecksumLen_def slice_def)
qed

lemma PubKeyToAddres_hash:
  "HashPubKey cr k \<noteq> [] \<Longrightarrow> PubKeyToAddres cr k = PubKeyHashToAddres cr (HashPubKey cr k)"
  by (simp add: PubKeyToAddres_def PubKeyHashToAddres_def)

section \<open>Small helpers\<close>

definition IntToHex :: "int \<Rightarrow> bytes" where
  "IntToHex num = be_bytes 8 num"

lemma IntToHex_inject: "in64 a \<Longrightarrow> in64 b \<Longrightarrow> IntToHex a = IntToHex b \<longleftrightarrow> a = b"
proof -
  assume ab: "in64 a" "in64 b"
  have "a mod 2 ^ 64 = b mod 2 ^ 64 \<Longrightarrow> a = b"
  proof -
    assume "a mod 2 ^ 64 = b mod 2 ^ 64"
    then obtain q where q: "a = b + 2 ^ 64 * q" by (metis mod_eq_dvd_iff dvdE diff_add_cancel add.commute)
    with ab have "- 1 < q" "q < 1" by (auto simp: in64_def)
    with q show "a = b" by simp
  qed
  then show ?thesis by (auto simp: IntToHex_def be_bytes_eq_iff)
qed

text \<open>The swapping loop of \<^verbatim>\<open>ReverseBytes\<close> and of \<^verbatim>\<open>ReverseBlocksSlice\<close>.\<close>

fun swap_loop :: "nat \<Rightarrow> nat \<Rightarrow> 'a list \<Rightarrow> 'a list" where
  "swap_loop 0 m xs = xs"
| "swap_loop (Suc i) m xs =
     (let ys = swap_loop i m xs in ys[i := ys ! (m - i), m - i := ys ! i])"

definition ReverseBytes :: "'a list \<Rightarrow> 'a list" where
  "ReverseBytes data = swap_loop (length data div 2) (length data - 1) data"

lemma length_swap_loop [simp]: "length (swap_loop n l xs) = length xs"
  by (induction n) (simp_all add: Let_def)

lemma swap_loop_nth:
  assumes "n \<le> length xs div 2" and "j < length xs"
  shows "swap_loop n (length xs - 1) xs ! j =
    (if j < n \<or> length xs - 1 - j < n then xs ! (length xs - 1 - j) else xs ! j)"
  using assms
proof (induction n arbitrary: j)
  case (Suc n)
  let ?l = "length xs - 1" and ?ys = "swap_loop n (length xs - 1) xs"
  have n: "n < length xs" "?l - n < length xs" "n < ?l - n" using Suc.prems(1) by auto
  have "?ys ! (?l - n) = xs ! (?l - n)" "?ys ! n = xs ! n"
    using Suc.IH[of "?l - n"] Suc.IH[of n] n Suc.prems(1) by auto
  then show ?case
    using Suc.IH[of j] Suc.prems n by (auto simp: Let_def nth_list_update)
qed simp

lemma ReverseBytes_rev: "ReverseBytes xs = rev xs"
proof (rule nth_equalityI)
  fix i assume i: "i < length (ReverseBytes xs)"
  then have "i < length xs" by (simp add: ReverseBytes_def)
  then have "ReverseBytes xs ! i =
      (if i < length xs div 2 \<or> length xs - 1 - i < length xs div 2
       then xs ! (length xs - 1 - i) else xs ! i)"
    unfolding ReverseBytes_def by (intro swap_loop_nth) auto
  moreover have "\<not> (i < length xs div 2 \<or> length xs - 1 - i < length xs div 2) \<Longrightarrow> length xs - 1 - i = i"
    using \<open>i < length xs\<close> by linarith
  ultimately show "ReverseBytes xs ! i = rev xs ! i"
    using \<open>i < length xs\<close> by (auto simp: rev_nth)
qed (simp add: ReverseBytes_def)

definition CopyBytes :: "bytes \<Rightarrow> bytes" where
  "CopyBytes source = (if length source > 0 then source else [])"

lemma CopyBytes_id [simp]: "CopyBytes b = b"
  by (simp add: CopyBytes_def)

fun StringInSlice :: "string \<Rightarrow> string list \<Rightarrow> bool" where
  "StringInSlice a [] = False"
| "StringInSlice a (b # list) = (if b = a then True else StringInSlice a list)"

lemma StringInSlice_iff: "StringInSlice a list \<longleftrightarrow> a \<in> set list"
  by (induction list) auto

text \<open>\<open>strings.Replace(s, old, new, -1)\<close> for a non-empty \<open>old\<close>.\<close>

fun go_replace :: "nat \<Rightarrow> string \<Rightarrow> string \<Rightarrow> string \<Rightarrow> string" where
  "go_replace fuel old new [] = []"
| "go_replace 0 old new s = s"
| "go_replace (Suc fuel) old new (c # s) =
     (if take (length old) (c # s) = old \<and> old \<noteq> []
      then new @ go_replace fuel old new (drop (length old) (c # s))
      else c # go_replace fuel old new s)"

definition replace_all :: "string \<Rightarrow> string \<Rightarrow> string \<Rightarrow> string" where
  "replace_all s old new = go_replace (length s) old new s"

lemma go_replace_char:
  "length s \<le> fuel \<Longrightarrow> go_replace fuel [c] new s = concat (map (\<lambda>d. if d = c then new else [d]) s)"
  by (induction fuel "[c]" new s rule: go_replace.induct) auto

lemma replace_all_char: "replace_all s [c] new = concat (map (\<lambda>d. if d = c then new else [d]) s)"
  by (simp add: replace_all_def go_replace_char)

text \<open>
  \<^verbatim>\<open>DBQuote\<close>: the backslash first, then the pairs of a Go map, whose iteration order is not
  specified: \<open>order\<close> is the order of this run.
\<close>

definition quotePairs :: "(char \<times> string) list" where
  "quotePairs =
     [(CHR 0x00, [CHR 0x5C, CHR ''0'']), (CHR 0x0A, [CHR 0x5C, CHR ''n'']),
      (CHR 0x0D, [CHR 0x5C, CHR ''r'']), (CHR 0x27, [CHR 0x5C, CHR 0x27]),
      (CHR 0x22, [CHR 0x5C, CHR 0x22]), (CHR 0x1A, [CHR 0x5C, CHR ''Z''])]"

definition DBQuote :: "(char \<times> string) list \<Rightarrow> string \<Rightarrow> string" where
  "DBQuote order str =
     foldl (\<lambda>s p. replace_all s [fst p] (snd p))
       (replace_all str [CHR 0x5C] [CHR 0x5C, CHR 0x5C]) order"

text \<open>The escape of one character, and the reading of an escaped string.\<close>

definition quote_char :: "char \<Rightarrow> string" where
  "quote_char c =
     (if c = CHR 0x5C then [CHR 0x5C, CHR 0x5C]
      else case map_of quotePairs c of Some q \<Rightarrow> q | None \<Rightarrow> [c])"

definition quote_with :: "(char \<times> string) list \<Rightarrow> char \<Rightarrow> string" where
  "quote_with ps c =
     (if c = CHR 0x5C then [CHR 0x5C, CHR 0x5C]
      else case map_of ps c of Some q \<Rightarrow> q | None \<Rightarrow> [c])"

lemma quotePairs_disjoint:
  "(c, q) \<in> set quotePairs \<Longrightarrow> (d, r) \<in> set quotePairs \<Longrightarrow> c \<noteq> d \<Longrightarrow> d \<notin> set q \<and> d \<noteq> CHR 0x5C"
  by (auto simp: quotePairs_def)

lemma quotePairs_key: "(d, r) \<in> set quotePairs \<Longrightarrow> d \<noteq> CHR 0x5C"
  by (auto simp: quotePairs_def)

lemma concat_replace_notin: "d \<notin> set q \<Longrightarrow> concat (map (\<lambda>x. if x = d then r else [x]) q) = q"
  by (induction q) auto

lemma replace_quote_with:
  assumes "set ps \<subseteq> set quotePairs" and "(d, r) \<in> set quotePairs" and "d \<notin> fst ` set ps"
  shows "concat (map (\<lambda>x. if x = d then r else [x]) (quote_with ps c)) = quote_with (ps @ [(d, r)]) c"
proof (cases "map_of ps c")
  case None
  then show ?thesis
    using quotePairs_key[OF assms(2)] by (auto simp: quote_with_def map_add_def)
next
  case (Some q)
  then have q: "(c, q) \<in> set ps" by (rule map_of_SomeD)
  then have "c \<noteq> d" using assms(3) by force
  with q assms(1,2) have "d \<notin> set q" using quotePairs_disjoint by blast
  then show ?thesis
    using quotePairs_key[OF assms(2)] Some \<open>c \<noteq> d\<close>
    by (auto simp: quote_with_def map_add_def concat_replace_notin)
qed

lemma replace_concat_map:
  "replace_all (concat (map g str)) [d] r
     = concat (map (\<lambda>c. concat (map (\<lambda>x. if x = d then r else [x]) (g c))) str)"
  unfolding replace_all_char by (induction str) simp_all

lemma foldl_quote:
  assumes "set (ds @ ps) \<subseteq> set quotePairs" and "distinct (map fst (ds @ ps))"
  shows "foldl (\<lambda>s p. replace_all s [fst p] (snd p)) (concat (map (quote_with ds) str)) ps
         = concat (map (quote_with (ds @ ps)) str)"
  using assms
proof (induction ps arbitrary: ds)
  case (Cons p ps)
  obtain d r where p: "p = (d, r)" by fastforce
  have "replace_all (concat (map (quote_with ds) str)) [d] r = concat (map (quote_with (ds @ [p])) str)"
    using Cons.prems p replace_quote_with[of ds d r]
    by (simp add: replace_concat_map)
  then show ?case using Cons.IH[of "ds @ [p]"] Cons.prems p by simp
qed simp

lemma DBQuote_order:
  assumes "set order = set quotePairs" and "distinct (map fst order)"
  shows "DBQuote order str = concat (map quote_char str)"
proof -
  have "map_of order = map_of quotePairs"
    using assms by (subst map_of_inject_set) (auto simp: quotePairs_def)
  moreover have "replace_all str [CHR 0x5C] [CHR 0x5C, CHR 0x5C] = concat (map (quote_with []) str)"
    by (simp add: replace_all_char quote_with_def [abs_def] cong: if_cong)
  ultimately show ?thesis
    using foldl_quote[of "[]" order str] assms
    by (simp add: DBQuote_def quote_with_def [abs_def] quote_char_def [abs_def] cong: if_cong)
qed

text \<open>Reading an escaped string back.\<close>

definition unquote_char :: "char \<Rightarrow> char" where
  "unquote_char c = (case find (\<lambda>p. snd p = [CHR 0x5C, c]) quotePairs of Some p \<Rightarrow> fst p | None \<Rightarrow> c)"

fun unquote :: "string \<Rightarrow> string" where
  "unquote (a # b # s) =
     (if a = CHR 0x5C then unquote_char b # unquote s else a # unquote (b # s))"
| "unquote s = s"

lemma unquote_quote_char: "unquote (quote_char c @ s) = c # unquote s"
proof (cases "c = CHR 0x5C \<or> c \<in> fst ` set quotePairs")
  case True
  then show ?thesis
    by (auto simp: quote_char_def quotePairs_def unquote_char_def)
next
  case False
  then have "quote_char c = [c]" "c \<noteq> CHR 0x5C"
    by (auto simp: quote_char_def map_of_eq_None_iff [symmetric] split: option.split)
  then show ?thesis by (cases s) auto
qed

lemma unquote_quote: "unquote (concat (map quote_char s)) = s"
  by (induction s) (simp_all add: unquote_quote_char)

text \<open>The quoted text does not depend on the order of the pairs, and reading it gives the text back.\<close>

lemma DBQuote_roundtrip:
  assumes "set order = set quotePairs" and "distinct (map fst order)"
  shows "DBQuote order str = DBQuote quotePairs str \<and> unquote (DBQuote order str) = str"
proof -
  have "distinct (map fst quotePairs)" by (simp add: quotePairs_def)
  then show ?thesis using DBQuote_order[OF assms] DBQuote_order[of quotePairs] by (simp add: unquote_quote)
qed

lemma SignDataSet_Ok: "SignDataSet cr fuel i pk k ds = Ok sigs \<longleftrightarrow> ds = [] \<and> sigs = []"
  by (cases ds) (auto simp: res_simps sign_forever_not_Ok)

end
