(* ===== verification/Go_Regexp.thy ===== *)
theory Go_Regexp
  imports Lib_Crypt
begin

text \<open>
  The part of Go's \<^verbatim>\<open>regexp\<close> and \<^verbatim>\<open>strings\<close> packages that the SQL parser uses. A pattern is a tree; \<open>ms\<close>
  lists its matches at a position in the order of preference of the package (leftmost-first: the first
  alternative first, greedy repetition as long as possible first, lazy as short as possible first), so
  the head of the list is the match the package finds. Text is a sequence of bytes; case mapping and
  white space are those of ASCII.
\<close>

section \<open>Characters and strings\<close>

definition in_range :: "nat \<Rightarrow> nat \<Rightarrow> char \<Rightarrow> bool" where
  "in_range a b c \<longleftrightarrow> a \<le> of_char c \<and> of_char c \<le> b"

definition lower_char :: "char \<Rightarrow> char" where
  "lower_char c = (if in_range 65 90 c then char_of (of_char c + 32 :: nat) else c)"

definition ToLower :: "string \<Rightarrow> string" where
  "ToLower s = map lower_char s"

text \<open>\<open>\s\<close> of the package, and the white space that \<^verbatim>\<open>strings.TrimSpace\<close> removes (with vertical tab).\<close>

definition re_space :: "char \<Rightarrow> bool" where
  "re_space c \<longleftrightarrow> c \<in> {CHR 0x20, CHR 0x09, CHR 0x0A, CHR 0x0C, CHR 0x0D}"

definition is_space :: "char \<Rightarrow> bool" where
  "is_space c \<longleftrightarrow> re_space c \<or> c = CHR 0x0B"

definition re_digit :: "char \<Rightarrow> bool" where
  "re_digit c \<longleftrightarrow> in_range 48 57 c"

definition re_word :: "char \<Rightarrow> bool" where
  "re_word c \<longleftrightarrow> in_range 48 57 c \<or> in_range 65 90 c \<or> in_range 97 122 c \<or> c = CHR ''_''"

definition TrimLeft :: "(char \<Rightarrow> bool) \<Rightarrow> string \<Rightarrow> string" where
  "TrimLeft p s = dropWhile p s"

definition TrimRight :: "(char \<Rightarrow> bool) \<Rightarrow> string \<Rightarrow> string" where
  "TrimRight p s = rev (dropWhile p (rev s))"

definition Trim :: "(char \<Rightarrow> bool) \<Rightarrow> string \<Rightarrow> string" where
  "Trim p s = TrimRight p (TrimLeft p s)"

definition TrimSpace :: "string \<Rightarrow> string" where
  "TrimSpace s = Trim is_space s"

fun HasPrefix :: "string \<Rightarrow> string \<Rightarrow> bool" where
  "HasPrefix s [] = True"
| "HasPrefix [] (d # p) = False"
| "HasPrefix (c # s) (d # p) = (c = d \<and> HasPrefix s p)"

definition HasSuffix :: "string \<Rightarrow> string \<Rightarrow> bool" where
  "HasSuffix s p = HasPrefix (rev s) (rev p)"

text \<open>\<open>strings.Replace(s, old, new, 1)\<close> for a non-empty \<open>old\<close>.\<close>

fun replace_first :: "string \<Rightarrow> string \<Rightarrow> string \<Rightarrow> string" where
  "replace_first [] old new = []"
| "replace_first (c # s) old new =
     (if HasPrefix (c # s) old then new @ drop (length old) (c # s) else c # replace_first s old new)"

text \<open>\<open>strings.SplitN(s, sep, 2)\<close> for a separator of one character.\<close>

fun split2 :: "char \<Rightarrow> string \<Rightarrow> string list" where
  "split2 sep [] = [[]]"
| "split2 sep (c # s) =
     (if c = sep then [[], s] else (case split2 sep s of a # r \<Rightarrow> (c # a) # r | [] \<Rightarrow> [[c]]))"

section \<open>Patterns\<close>

datatype re =
    Eps
  | Cls "char \<Rightarrow> bool"
  | Sq re re
  | Alt re re
  | Star re
  | Lazy re
  | Grp nat re
  | Bol
  | Eol

text \<open>Position, rest of the text, and the text of the groups matched so far.\<close>

type_synonym mstate = "nat \<times> string \<times> (nat \<times> string) list"

text \<open>Repetition of a pattern; every turn has to consume something, so the rest of the text bounds it.\<close>

fun star_iter :: "nat \<Rightarrow> (mstate \<Rightarrow> mstate list) \<Rightarrow> mstate \<Rightarrow> mstate list" where
  "star_iter 0 f s = [s]"
| "star_iter (Suc n) f s =
     concat (map (star_iter n f) (filter (\<lambda>t. fst s < fst t) (f s))) @ [s]"

fun lazy_iter :: "nat \<Rightarrow> (mstate \<Rightarrow> mstate list) \<Rightarrow> mstate \<Rightarrow> mstate list" where
  "lazy_iter 0 f s = [s]"
| "lazy_iter (Suc n) f s =
     s # concat (map (lazy_iter n f) (filter (\<lambda>t. fst s < fst t) (f s)))"

primrec ms :: "re \<Rightarrow> mstate \<Rightarrow> mstate list" where
  "ms Eps = (\<lambda>s. [s])"
| "ms (Cls p) = (\<lambda>(i, r, g). case r of [] \<Rightarrow> [] | c # r' \<Rightarrow> (if p c then [(Suc i, r', g)] else []))"
| "ms (Sq a b) = (\<lambda>s. concat (map (ms b) (ms a s)))"
| "ms (Alt a b) = (\<lambda>s. ms a s @ ms b s)"
| "ms (Star a) = (\<lambda>s. star_iter (length (fst (snd s))) (ms a) s)"
| "ms (Lazy a) = (\<lambda>s. lazy_iter (length (fst (snd s))) (ms a) s)"
| "ms (Grp n a) = (\<lambda>(i, r, g). map (\<lambda>(j, r', g'). (j, r', tput g' n (take (j - i) r))) (ms a (i, r, g)))"
| "ms Bol = (\<lambda>(i, r, g). if i = 0 then [(i, r, g)] else [])"
| "ms Eol = (\<lambda>(i, r, g). if r = [] then [(i, r, g)] else [])"

text \<open>The leftmost match: the start, the end, the rest after it and the groups.\<close>

fun find_from :: "re \<Rightarrow> nat \<Rightarrow> string \<Rightarrow> (nat \<times> mstate) option" where
  "find_from a i [] = (case ms a (i, [], []) of m # _ \<Rightarrow> Some (i, m) | [] \<Rightarrow> None)"
| "find_from a i (c # r) =
     (case ms a (i, c # r, []) of m # _ \<Rightarrow> Some (i, m) | [] \<Rightarrow> find_from a (Suc i) r)"

text \<open>
  \<^verbatim>\<open>FindStringSubmatch\<close>: \<open>None\<close> is the \<open>nil\<close> of no match; a group that took no part in the match is the
  empty string. The result gives the text of group \<open>k\<close>.
\<close>

definition group_of :: "(nat \<times> string) list \<Rightarrow> nat \<Rightarrow> string" where
  "group_of g k = (case tget g k of Some s \<Rightarrow> s | None \<Rightarrow> [])"

definition FindStringSubmatch :: "re \<Rightarrow> string \<Rightarrow> (nat \<Rightarrow> string) option" where
  "FindStringSubmatch a s =
     (case find_from a 0 s of None \<Rightarrow> None | Some (_, _, _, g) \<Rightarrow> Some (group_of g))"

text \<open>
  \<^verbatim>\<open>FindAllStringSubmatch\<close> for a pattern that matches no empty text: whole match and groups, in order.
\<close>

fun find_all :: "nat \<Rightarrow> re \<Rightarrow> nat \<Rightarrow> string \<Rightarrow> (string \<times> (nat \<Rightarrow> string)) list" where
  "find_all 0 a i s = []"
| "find_all (Suc n) a i s =
     (case find_from a i s of
        None \<Rightarrow> []
      | Some (j, k, r, g) \<Rightarrow> (take (k - j) (drop (j - i) s), group_of g) # find_all n a k r)"

definition FindAllStringSubmatch :: "re \<Rightarrow> string \<Rightarrow> (string \<times> (nat \<Rightarrow> string)) list" where
  "FindAllStringSubmatch a s = find_all (Suc (length s)) a 0 s"

definition FindAllString :: "re \<Rightarrow> string \<Rightarrow> string list" where
  "FindAllString a s = map fst (FindAllStringSubmatch a s)"

section \<open>Building patterns\<close>

definition Plus :: "re \<Rightarrow> re" where "Plus a = Sq a (Star a)"
definition Optional :: "re \<Rightarrow> re" where "Optional a = Alt a Eps"
definition ch :: "char \<Rightarrow> re" where "ch c = Cls (\<lambda>d. d = c)"
definition ich :: "char \<Rightarrow> re" where "ich c = Cls (\<lambda>d. lower_char d = lower_char c)"
definition anyc :: re where "anyc = Cls (\<lambda>c. c \<noteq> CHR 0x0A)"
definition spaces :: re where "spaces = Plus (Cls re_space)"
definition nonspace :: re where "nonspace = Plus (Cls (\<lambda>c. c \<noteq> CHR 0x20))"

fun sq :: "re list \<Rightarrow> re" where
  "sq [] = Eps"
| "sq [a] = a"
| "sq (a # as) = Sq a (sq as)"

fun alts :: "re list \<Rightarrow> re" where
  "alts [] = Cls (\<lambda>_. False)"
| "alts [a] = a"
| "alts (a # as) = Alt a (alts as)"

definition lit :: "string \<Rightarrow> re" where "lit s = sq (map ch s)"
definition ilit :: "string \<Rightarrow> re" where "ilit s = sq (map ich s)"

lemmas re_build = Plus_def Optional_def ch_def ich_def anyc_def spaces_def nonspace_def lit_def ilit_def

section \<open>Properties\<close>

text \<open>Every match consumes a prefix of the text, and what it consumes is what the position counts.\<close>

definition suffix_state :: "mstate \<Rightarrow> mstate \<Rightarrow> bool" where
  "suffix_state s t \<longleftrightarrow> (\<exists>w. fst (snd s) = w @ fst (snd t) \<and> fst t = fst s + length w)"

lemma suffix_state_refl [simp]: "suffix_state s s"
  by (simp add: suffix_state_def)

lemma suffix_state_trans: "suffix_state s t \<Longrightarrow> suffix_state t u \<Longrightarrow> suffix_state s u"
  unfolding suffix_state_def by (metis append.assoc add.assoc length_append)

lemma star_iter_suffix:
  "(\<And>s t. t \<in> set (f s) \<Longrightarrow> suffix_state s t) \<Longrightarrow> t \<in> set (star_iter n f s) \<Longrightarrow> suffix_state s t"
proof (induction n arbitrary: s t)
  case (Suc n)
  have "t = s \<or> (\<exists>u\<in>set (f s). t \<in> set (star_iter n f u))" using Suc.prems(2) by auto
  then show ?case using Suc.IH[OF Suc.prems(1)] Suc.prems(1) suffix_state_trans suffix_state_refl by metis
qed simp

lemma lazy_iter_suffix:
  "(\<And>s t. t \<in> set (f s) \<Longrightarrow> suffix_state s t) \<Longrightarrow> t \<in> set (lazy_iter n f s) \<Longrightarrow> suffix_state s t"
proof (induction n arbitrary: s t)
  case (Suc n)
  have "t = s \<or> (\<exists>u\<in>set (f s). t \<in> set (lazy_iter n f u))" using Suc.prems(2) by auto
  then show ?case using Suc.IH[OF Suc.prems(1)] Suc.prems(1) suffix_state_trans suffix_state_refl by metis
qed simp

lemma ms_suffix: "t \<in> set (ms a s) \<Longrightarrow> suffix_state s t"
proof (induction a arbitrary: s t)
  case (Cls p)
  then show ?case by (auto simp: suffix_state_def split: list.splits if_splits)
next
  case (Sq a b)
  have "\<exists>u\<in>set (ms a s). t \<in> set (ms b u)" using Sq.prems by simp
  then show ?case using Sq.IH suffix_state_trans by metis
next
  case (Star a)
  then show ?case using star_iter_suffix[of "ms a"] by auto
next
  case (Lazy a)
  then show ?case using lazy_iter_suffix[of "ms a"] by auto
next
  case (Grp n a)
  obtain i r g where s: "s = (i, r, g)" by (cases s) auto
  from Grp.prems obtain j r' g' where "(j, r', g') \<in> set (ms a (i, r, g))" "fst t = j" "fst (snd t) = r'"
    unfolding s by auto
  then show ?case using Grp.IH[of "(j, r', g')" "(i, r, g)"] s by (auto simp: suffix_state_def)
qed (auto split: if_splits)

lemma find_from_spec:
  "find_from a i s = Some (j, k, r, g) \<Longrightarrow> \<exists>u w. s = u @ w @ r \<and> j = i + length u \<and> k = j + length w"
proof (induction s arbitrary: i)
  case Nil
  then have "(k, r, g) \<in> set (ms a (i, [], []))" "j = i" by (auto split: list.splits)
  then show ?case using ms_suffix[of "(k, r, g)" a "(i, [], [])"] by (auto simp: suffix_state_def)
next
  case (Cons c s)
  show ?case
  proof (cases "ms a (i, c # s, [])")
    case (Cons m l)
    then have "(k, r, g) \<in> set (ms a (i, c # s, []))" "j = i" using Cons.prems by auto
    then show ?thesis using ms_suffix[of "(k, r, g)" a "(i, c # s, [])"]
      by (auto simp: suffix_state_def)
  next
    case Nil
    then have "find_from a (Suc i) s = Some (j, k, r, g)" using Cons.prems by simp
    from Cons.IH[OF this] obtain u w where "s = u @ w @ r" "j = Suc i + length u" "k = j + length w" by blast
    then show ?thesis by (intro exI[of _ "c # u"] exI[of _ w]) simp
  qed
qed

lemma HasPrefix_iff: "HasPrefix s p \<longleftrightarrow> (\<exists>t. s = p @ t)"
  by (induction s p rule: HasPrefix.induct) auto

end
