(* ===== verification/Node_Net.thy ===== *)
theory Node_Net
  imports Go_Regexp
begin

text \<open>
  \<^verbatim>\<open>lib/net\<close> and what is built on it: addresses of nodes and their text form, commands of the protocol, the list
  of known nodes with its storage (\<^verbatim>\<open>nodemanager/nodeslist.go\<close>), and the blocks in transit of
  \<^verbatim>\<open>server/transit.go\<close>. The lock of the list is not modelled: each operation holds it from start to end. The
  random order in which nodes are tried is an argument.
\<close>

section \<open>Addresses\<close>

record node_addr =
  na_Host :: string
  na_Port :: int
  na_SuccessConnections :: "64 word"
  na_FailedConnections :: "64 word"
  na_SuccessIncomeConnections :: "64 word"

record node_addr_short =
  ns_Host :: bytes
  ns_Port :: int

definition emptyNodeAddr :: node_addr where
  "emptyNodeAddr = \<lparr>na_Host = [], na_Port = 0, na_SuccessConnections = 0, na_FailedConnections = 0,
     na_SuccessIncomeConnections = 0\<rparr>"

definition NewNodeAddr :: "string \<Rightarrow> int \<Rightarrow> node_addr" where
  "NewNodeAddr host port = emptyNodeAddr\<lparr>na_Host := host, na_Port := port\<rparr>"

text \<open>\<^verbatim>\<open>strconv.Itoa\<close> and \<^verbatim>\<open>strconv.Atoi\<close>.\<close>

fun nat_string :: "nat \<Rightarrow> string" where
  "nat_string n = (if n < 10 then [char_of (48 + n)] else nat_string (n div 10) @ [char_of (48 + n mod 10)])"

declare nat_string.simps [simp del]

definition Itoa :: "int \<Rightarrow> string" where
  "Itoa i = (if i < 0 then CHR ''-'' # nat_string (nat (- i)) else nat_string (nat i))"

fun digits_val :: "nat \<Rightarrow> string \<Rightarrow> nat option" where
  "digits_val acc [] = Some acc"
| "digits_val acc (c # s) = (if in_range 48 57 c then digits_val (acc * 10 + (of_char c - 48)) s else None)"

definition Atoi :: "string \<Rightarrow> int res" where
  "Atoi s =
     (let neg = (case s of [] \<Rightarrow> False | c # _ \<Rightarrow> c = CHR ''-'');
          ds = (case s of [] \<Rightarrow> [] | c # r \<Rightarrow> if c = CHR ''-'' \<or> c = CHR ''+'' then r else s)
      in if ds = [] then Err (ErrNew ''strconv.Atoi'')
         else case digits_val 0 ds of
                None \<Rightarrow> Err (ErrNew ''strconv.Atoi'')
              | Some n \<Rightarrow> (let v = (if neg then - int n else int n)
                           in if in64 v then Ok v else Err (ErrNew ''strconv.Atoi'')))"

definition NodeAddrToString :: "node_addr \<Rightarrow> string" where
  "NodeAddrToString n = na_Host n @ CHR '':'' # Itoa (na_Port n)"

text \<open>The address as far as it was parsed is kept when there is an error: the host is set before the port.\<close>

definition LoadFromString :: "node_addr \<Rightarrow> string \<Rightarrow> unit res \<times> node_addr" where
  "LoadFromString n addr =
     (if CHR '':'' \<notin> set addr then (Err (ErrNew ''Wrong address''), n)
      else
        let n = n\<lparr>na_Host := takeWhile (\<lambda>c. c \<noteq> CHR '':'') addr\<rparr>
        in bindS (Atoi (tl (dropWhile (\<lambda>c. c \<noteq> CHR '':'') addr)), n) (\<lambda>port n. (Ok (), n\<lparr>na_Port := port\<rparr>)))"

definition ReportSuccessConn :: "node_addr \<Rightarrow> node_addr" where
  "ReportSuccessConn n = n\<lparr>na_SuccessConnections := na_SuccessConnections n + 1\<rparr>"

definition ReportFailedConn :: "node_addr \<Rightarrow> node_addr" where
  "ReportFailedConn n = n\<lparr>na_FailedConnections := na_FailedConnections n + 1\<rparr>"

definition InitAfterRestore :: "node_addr \<Rightarrow> node_addr" where
  "InitAfterRestore n = n\<lparr>na_FailedConnections := 0, na_SuccessConnections := 0\<rparr>"

definition GetShortFormat :: "node_addr \<Rightarrow> node_addr_short" where
  "GetShortFormat n = \<lparr>ns_Host = bytes_of_string (na_Host n), ns_Port = na_Port n\<rparr>"

definition plain_host :: "string \<Rightarrow> string" where
  "plain_host h =
     (let h = Trim (\<lambda>c. c = CHR '' '') h
      in if h = ''localhost'' then ''127.0.0.1'' else h)"

definition CompareToAddress :: "node_addr \<Rightarrow> node_addr \<Rightarrow> bool" where
  "CompareToAddress n addr \<longleftrightarrow> plain_host (na_Host addr) = plain_host (na_Host n) \<and> na_Port addr = na_Port n"

section \<open>Commands\<close>

definition CommandLength :: nat where "CommandLength = 12"

text \<open>
  Commands are constants of the code, of ASCII characters only, so a range over the string visits its bytes. A
  command that is too long writes past the array: a panic.
\<close>

definition CommandToBytes :: "string \<Rightarrow> bytes res" where
  "CommandToBytes command =
     (if length command > CommandLength then Panic
      else Ok (bytes_of_string command @ replicate (CommandLength - length command) 0))"

definition BytesToCommand :: "bytes \<Rightarrow> string" where
  "BytesToCommand b = string_of_bytes (filter (\<lambda>w. w \<noteq> 0) b)"

text \<open>Slices have no spare capacity here, so a request that is too short is a panic.\<close>

definition ExtractCommand :: "bytes \<Rightarrow> bytes res" where
  "ExtractCommand request = (if length request < CommandLength then Panic else Ok (take CommandLength request))"

section \<open>The storage of known nodes\<close>

text \<open>The table of \<^verbatim>\<open>NodesListStorage\<close>: the text of an address under that text. An error of parsing is dropped.\<close>

definition storage_GetNodes :: "bytes table \<Rightarrow> node_addr list" where
  "storage_GetNodes t = map (\<lambda>p. snd (LoadFromString emptyNodeAddr (string_of_bytes (snd p)))) t"

definition storage_AddNodeToKnown :: "node_addr \<Rightarrow> bytes table \<Rightarrow> bytes table" where
  "storage_AddNodeToKnown addr t = (let key = bytes_of_string (NodeAddrToString addr) in tput (tdel t key) key key)"

definition storage_RemoveNodeFromKnown :: "node_addr \<Rightarrow> bytes table \<Rightarrow> bytes table" where
  "storage_RemoveNodeFromKnown addr t = tdel t (bytes_of_string (NodeAddrToString addr))"

definition GetCountOfKnownNodes :: "bytes table \<Rightarrow> nat" where
  "GetCountOfKnownNodes t = length t"

section \<open>The list of known nodes\<close>

record node_network =
  nn_Nodes :: "node_addr list"
  nn_hadInputConnects :: bool
  nn_hadRecentInputConnects :: bool
  nn_Storage :: "bytes table option"

definition LoadNodes :: "node_network \<Rightarrow> node_network" where
  "LoadNodes n =
     (case nn_Storage n of None \<Rightarrow> n | Some t \<Rightarrow> n\<lparr>nn_Nodes := nn_Nodes n @ storage_GetNodes t\<rparr>)"

definition SetNodes :: "node_addr list \<Rightarrow> bool \<Rightarrow> node_network \<Rightarrow> node_network" where
  "SetNodes nodes replace n =
     (let n = n\<lparr>nn_Nodes := (if replace then nodes else nn_Nodes n @ nodes)\<rparr>
      in n\<lparr>nn_Storage := map_option (\<lambda>t. foldl (\<lambda>t node. storage_AddNodeToKnown node t) t nodes) (nn_Storage n)\<rparr>)"

definition CheckIsKnown :: "node_network \<Rightarrow> node_addr \<Rightarrow> bool" where
  "CheckIsKnown n addr \<longleftrightarrow> (\<exists>node\<in>set (nn_Nodes n). CompareToAddress node addr)"

text \<open>The update of the first node that has the address.\<close>

fun update_first :: "node_addr \<Rightarrow> (node_addr \<Rightarrow> node_addr) \<Rightarrow> node_addr list \<Rightarrow> node_addr list" where
  "update_first addr f [] = []"
| "update_first addr f (node # nodes) =
     (if CompareToAddress node addr then f node # nodes else node # update_first addr f nodes)"

definition InputConnectFromNode :: "node_addr \<Rightarrow> node_network \<Rightarrow> node_network" where
  "InputConnectFromNode addr n =
     n\<lparr>nn_Nodes := update_first addr
         (\<lambda>node. node\<lparr>na_SuccessIncomeConnections := na_SuccessIncomeConnections node + 1\<rparr>) (nn_Nodes n),
       nn_hadInputConnects := True, nn_hadRecentInputConnects := True\<rparr>"

definition StartNewSessionForInputConnects :: "node_network \<Rightarrow> node_network" where
  "StartNewSessionForInputConnects n = n\<lparr>nn_hadRecentInputConnects := False\<rparr>"

definition CheckHadInputConnects :: "node_network \<Rightarrow> bool" where
  "CheckHadInputConnects n = nn_hadRecentInputConnects n"

definition GetNodesToExport :: "node_network \<Rightarrow> node_addr_short list" where
  "GetNodesToExport n = map GetShortFormat (nn_Nodes n)"

definition AddNodeToKnown :: "node_addr \<Rightarrow> node_network \<Rightarrow> bool \<times> node_network" where
  "AddNodeToKnown addr n =
     (let exists = CheckIsKnown n addr;
          n = (if exists then n else n\<lparr>nn_Nodes := nn_Nodes n @ [addr]\<rparr>)
      in (\<not> exists, n\<lparr>nn_Storage := map_option (storage_AddNodeToKnown addr) (nn_Storage n)\<rparr>))"

definition RemoveNodeFromKnown :: "node_addr \<Rightarrow> node_network \<Rightarrow> node_network" where
  "RemoveNodeFromKnown addr n =
     n\<lparr>nn_Nodes := filter (\<lambda>node. \<not> CompareToAddress node addr) (nn_Nodes n),
       nn_Storage := map_option (storage_RemoveNodeFromKnown addr) (nn_Storage n)\<rparr>"

text \<open>\<open>rng\<close> is the result of \<^verbatim>\<open>MakeRandomRange\<close>, a permutation of the positions.\<close>

fun first_verified :: "node_addr list \<Rightarrow> nat list \<Rightarrow> node_addr option" where
  "first_verified nodes [] = None"
| "first_verified nodes (i # rng) =
     (if na_SuccessConnections (nodes ! i) > 0 then Some (nodes ! i) else first_verified nodes rng)"

definition GetConnecttionVerifiedNodeAddr :: "nat list \<Rightarrow> node_network \<Rightarrow> node_addr option" where
  "GetConnecttionVerifiedNodeAddr rng n =
     (if nn_Nodes n = [] then None
      else case first_verified (nn_Nodes n) rng of
             Some node \<Rightarrow> Some node | None \<Rightarrow> Some (nn_Nodes n ! (List.last rng)))"

text \<open>
  Without a verified node the second loop takes the address of its loop variable each time, so every pointer is
  to the last node.
\<close>

fun verified_nodes :: "node_addr list \<Rightarrow> int \<Rightarrow> nat list \<Rightarrow> node_addr list \<Rightarrow> node_addr list" where
  "verified_nodes nodes limit [] acc = acc"
| "verified_nodes nodes limit (i # rng) acc =
     (if na_SuccessConnections (nodes ! i) > 0 then
        (if limit > 0 \<and> int (length (acc @ [nodes ! i])) \<ge> limit then acc @ [nodes ! i]
         else verified_nodes nodes limit rng (acc @ [nodes ! i]))
      else verified_nodes nodes limit rng acc)"

definition GetConnecttionVerifiedNodeAddresses :: "nat list \<Rightarrow> int \<Rightarrow> node_network \<Rightarrow> node_addr list" where
  "GetConnecttionVerifiedNodeAddresses rng limit n =
     (if nn_Nodes n = [] then []
      else let nodes = verified_nodes (nn_Nodes n) limit rng []
           in if nodes = [] then replicate (length (nn_Nodes n)) (List.last (nn_Nodes n)) else nodes)"

definition WasConnFailure :: "err \<Rightarrow> bool" where
  "WasConnFailure e \<longleftrightarrow> e = ErrNet ''cannotconnect''"

definition HookNeworkOperationResult :: "err option \<Rightarrow> nat \<Rightarrow> node_network \<Rightarrow> node_network res" where
  "HookNeworkOperationResult er i n =
     (case er of
        None \<Rightarrow> (if i < length (nn_Nodes n)
                 then Ok (n\<lparr>nn_Nodes := (nn_Nodes n)[i := ReportSuccessConn (nn_Nodes n ! i)]\<rparr>) else Panic)
      | Some e \<Rightarrow>
          (if WasConnFailure e then
             (if i < length (nn_Nodes n)
              then Ok (n\<lparr>nn_Nodes := (nn_Nodes n)[i := ReportFailedConn (nn_Nodes n ! i)]\<rparr>) else Panic)
           else Ok n))"

definition HookNeworkOperationResultForNode :: "err option \<Rightarrow> node_addr \<Rightarrow> node_network \<Rightarrow> node_network res" where
  "HookNeworkOperationResultForNode er nodeU n =
     (case find_pos (\<lambda>node. CompareToAddress node nodeU) (nn_Nodes n) of
        None \<Rightarrow> Ok n | Some i \<Rightarrow> HookNeworkOperationResult er i n)"

section \<open>Blocks in transit\<close>

type_synonym transit = "(string \<times> bytes list) list"

definition AddBlocks :: "node_addr \<Rightarrow> bytes list \<Rightarrow> transit \<Rightarrow> transit" where
  "AddBlocks fromaddr blocks t =
     (let key = NodeAddrToString fromaddr
      in case tget t key of None \<Rightarrow> tput t key blocks | Some bs \<Rightarrow> tput t key (bs @ blocks))"

definition CleanBlocks :: "node_addr \<Rightarrow> transit \<Rightarrow> transit" where
  "CleanBlocks fromaddr t = tdel t (NodeAddrToString fromaddr)"

definition GetBlocksCount :: "node_addr \<Rightarrow> transit \<Rightarrow> nat" where
  "GetBlocksCount fromaddr t =
     (case tget t (NodeAddrToString fromaddr) of None \<Rightarrow> 0 | Some bs \<Rightarrow> length bs)"

text \<open>A list that is empty is a panic: its first element is read.\<close>

definition ShiftNextBlock :: "node_addr \<Rightarrow> transit \<Rightarrow> bytes res \<times> transit" where
  "ShiftNextBlock fromaddr t =
     (let key = NodeAddrToString fromaddr
      in case tget t key of
           None \<Rightarrow> (Err (ErrNew ''The address is not in blocks transit''), t)
         | Some [] \<Rightarrow> (Panic, t)
         | Some (b # bs) \<Rightarrow> (Ok b, if bs = [] then tdel t key else tput t key bs))"

section \<open>The text form of an address\<close>

lemma of_char_digit: "d < 10 \<Longrightarrow> (of_char (char_of (48 + d) :: char) :: nat) = 48 + d"
  by simp

lemma digits_val_append: "digits_val acc (xs @ ys) = (case digits_val acc xs of None \<Rightarrow> None | Some a \<Rightarrow> digits_val a ys)"
  by (induction acc xs rule: digits_val.induct) auto

lemma digits_val_digit: "d < 10 \<Longrightarrow> digits_val acc [char_of (48 + d)] = Some (acc * 10 + d)"
  by (simp add: in_range_def)

lemma digits_val_nat_string: "\<exists>k. \<forall>acc. digits_val acc (nat_string n) = Some (acc * 10 ^ k + n)"
proof (induction n rule: nat_string.induct)
  case (1 n)
  show ?case
  proof (cases "n < 10")
    case True
    then show ?thesis using digits_val_digit[OF True] by (intro exI[of _ 1]) (simp add: nat_string.simps[of n])
  next
    case False
    then obtain k where k: "\<forall>acc. digits_val acc (nat_string (n div 10)) = Some (acc * 10 ^ k + n div 10)"
      using 1 by blast
    have "digits_val acc (nat_string n) = Some (acc * 10 ^ Suc k + n)" for acc
    proof -
      have "digits_val acc (nat_string n) = digits_val (acc * 10 ^ k + n div 10) [char_of (48 + n mod 10)]"
        using False k by (simp add: nat_string.simps[of n] digits_val_append)
      also have "\<dots> = Some ((acc * 10 ^ k + n div 10) * 10 + n mod 10)" by (rule digits_val_digit) simp
      finally show ?thesis by (simp add: algebra_simps)
    qed
    then show ?thesis by blast
  qed
qed

lemma nat_string_digits: "nat_string n \<noteq> [] \<and> (\<forall>c\<in>set (nat_string n). in_range 48 57 c)"
proof (induction n rule: nat_string.induct)
  case (1 n)
  have "in_range 48 57 (char_of (48 + n mod 10))" by (simp add: in_range_def)
  with 1 show ?case by (cases "n < 10") (auto simp: nat_string.simps[of n])
qed

lemma Atoi_Itoa: "in64 i \<Longrightarrow> Atoi (Itoa i) = Ok i"
proof -
  assume i: "in64 i"
  have val: "digits_val 0 (nat_string n) = Some n" for n
  proof -
    obtain k where "\<forall>acc. digits_val acc (nat_string n) = Some (acc * 10 ^ k + n)" using digits_val_nat_string by blast
    then show ?thesis by simp
  qed
  obtain c r where cr: "nat_string (nat i) = c # r" "in_range 48 57 c"
    using nat_string_digits[of "nat i"] by (cases "nat_string (nat i)") auto
  have "c \<noteq> CHR ''-''" "c \<noteq> CHR ''+''" using cr(2) by (auto simp: in_range_def)
  moreover have "digits_val 0 (c # r) = Some (nat i)" using val[of "nat i"] cr(1) by simp
  ultimately show ?thesis using i val nat_string_digits[of "nat (- i)"] cr(1)
    by (cases "i < 0") (auto simp: Atoi_def Itoa_def Let_def simp del: digits_val.simps)
qed

lemma address_text_roundtrip:
  assumes "CHR '':'' \<notin> set (na_Host n)" and "in64 (na_Port n)"
  shows "LoadFromString m (NodeAddrToString n) = (Ok (), m\<lparr>na_Host := na_Host n, na_Port := na_Port n\<rparr>)"
proof -
  have "takeWhile (\<lambda>c. c \<noteq> CHR '':'') (NodeAddrToString n) = na_Host n"
    "dropWhile (\<lambda>c. c \<noteq> CHR '':'') (NodeAddrToString n) = CHR '':'' # Itoa (na_Port n)"
    "CHR '':'' \<in> set (NodeAddrToString n)"
    using assms(1) by (auto simp: NodeAddrToString_def takeWhile_append dropWhile_append)
  then show ?thesis using Atoi_Itoa[OF assms(2)] by (simp add: LoadFromString_def Let_def)
qed

lemma command_roundtrip:
  assumes "length c \<le> 12" and "CHR 0x00 \<notin> set c"
  shows "\<exists>b. CommandToBytes c = Ok b \<and> length b = 12 \<and> BytesToCommand b = c"
proof -
  have "(word_of_nat (of_char ch :: nat) :: 8 word) \<noteq> 0" if "ch \<in> set c" for ch
  proof
    assume "(word_of_nat (of_char ch :: nat) :: 8 word) = 0"
    then have "ch = char_of (0 :: nat)" using char_of_word_of_char[of ch] by simp
    then show False using that assms(2) by (simp add: char_of_def)
  qed
  then have "filter (\<lambda>w. w \<noteq> 0) (bytes_of_string c) = bytes_of_string c"
    by (auto simp: bytes_of_string_def filter_id_conv)
  then show ?thesis using assms(1) by (simp add: CommandToBytes_def BytesToCommand_def CommandLength_def)
qed

section \<open>Known nodes are a set of keys\<close>

text \<open>Lists searched with a comparison that is the equality of a key.\<close>

locale keyed_list =
  fixes key :: "'a \<Rightarrow> 'k" and same :: "'a \<Rightarrow> 'a \<Rightarrow> bool"
  assumes same_key: "same x y \<longleftrightarrow> key x = key y"
begin

lemma found_iff: "(\<exists>x\<in>set xs. same x a) \<longleftrightarrow> key a \<in> key ` set xs"
  using same_key by (metis image_iff)

lemma add_keys:
  "key ` set (if \<exists>x\<in>set xs. same x a then xs else xs @ [a]) = insert (key a) (key ` set xs)"
  using found_iff[of xs a] by auto

lemma add_distinct:
  "distinct (map key xs) \<Longrightarrow> distinct (map key (if \<exists>x\<in>set xs. same x a then xs else xs @ [a]))"
  using found_iff[of xs a] by auto

lemma remove_keys: "key ` set (filter (\<lambda>x. \<not> same x a) xs) = key ` set xs - {key a}"
  using same_key by fastforce

lemma remove_distinct: "distinct (map key xs) \<Longrightarrow> distinct (map key (filter (\<lambda>x. \<not> same x a) xs))"
  by (rule distinct_map_filter)

lemma add_all:
  "key ` set (foldl (\<lambda>l y. if \<exists>x\<in>set l. same y x then l else l @ [y]) xs ys) = key ` set xs \<union> key ` set ys \<and>
   (distinct (map key xs) \<longrightarrow>
      distinct (map key (foldl (\<lambda>l y. if \<exists>x\<in>set l. same y x then l else l @ [y]) xs ys)))"
proof (induction ys arbitrary: xs)
  case (Cons y ys)
  have sym: "(\<exists>x\<in>set xs. same y x) = (\<exists>x\<in>set xs. same x y)" by (metis same_key)
  obtain l where l: "l = (if \<exists>x\<in>set xs. same y x then xs else xs @ [y])" by simp
  have "key ` set l = insert (key y) (key ` set xs)" "distinct (map key xs) \<longrightarrow> distinct (map key l)"
    unfolding l sym using add_keys add_distinct by blast+
  then show ?case using Cons[of l] by (simp flip: l)
qed simp

end

definition addr_key :: "node_addr \<Rightarrow> string \<times> int" where
  "addr_key n = (plain_host (na_Host n), na_Port n)"

interpretation addrs: keyed_list addr_key CompareToAddress
  by unfold_locales (auto simp: addr_key_def CompareToAddress_def)

definition known_keys :: "node_network \<Rightarrow> (string \<times> int) set" where
  "known_keys n = addr_key ` set (nn_Nodes n)"

lemma CheckIsKnown_key: "CheckIsKnown n addr \<longleftrightarrow> addr_key addr \<in> known_keys n"
  using addrs.found_iff by (simp add: CheckIsKnown_def known_keys_def)

lemma update_first_keys: "(\<And>x. addr_key (f x) = addr_key x) \<Longrightarrow> map addr_key (update_first a f xs) = map addr_key xs"
  by (induction xs) auto

text \<open>
  C15: The list of known nodes refines a set of addresses, with localhost and 127.0.0.1 as one:
  adding a node inserts its address and answers whether it was new, removing a node deletes its
  address, an incoming connection changes no address, and no address is listed twice.
\<close>

lemma known_nodes_refine:
  assumes "distinct (map addr_key (nn_Nodes n))"
  shows "known_keys (snd (AddNodeToKnown a n)) = insert (addr_key a) (known_keys n) \<and>
    (fst (AddNodeToKnown a n) \<longleftrightarrow> addr_key a \<notin> known_keys n) \<and>
    distinct (map addr_key (nn_Nodes (snd (AddNodeToKnown a n)))) \<and>
    known_keys (RemoveNodeFromKnown a n) = known_keys n - {addr_key a} \<and>
    distinct (map addr_key (nn_Nodes (RemoveNodeFromKnown a n))) \<and>
    map addr_key (nn_Nodes (InputConnectFromNode a n)) = map addr_key (nn_Nodes n)"
proof -
  have nodes: "nn_Nodes (snd (AddNodeToKnown a n)) =
      (if \<exists>x\<in>set (nn_Nodes n). CompareToAddress x a then nn_Nodes n else nn_Nodes n @ [a])"
    by (simp add: AddNodeToKnown_def Let_def CheckIsKnown_def)
  have "known_keys (snd (AddNodeToKnown a n)) = insert (addr_key a) (known_keys n)"
    "distinct (map addr_key (nn_Nodes (snd (AddNodeToKnown a n))))"
    unfolding known_keys_def nodes by (rule addrs.add_keys, rule addrs.add_distinct[OF assms])
  moreover have "fst (AddNodeToKnown a n) \<longleftrightarrow> addr_key a \<notin> known_keys n"
    by (simp add: AddNodeToKnown_def Let_def CheckIsKnown_key)
  moreover have "known_keys (RemoveNodeFromKnown a n) = known_keys n - {addr_key a}"
    "distinct (map addr_key (nn_Nodes (RemoveNodeFromKnown a n)))"
    unfolding known_keys_def RemoveNodeFromKnown_def using addrs.remove_keys addrs.remove_distinct[OF assms] by simp_all
  moreover have "map addr_key (nn_Nodes (InputConnectFromNode a n)) = map addr_key (nn_Nodes n)"
    by (simp add: InputConnectFromNode_def update_first_keys addr_key_def)
  ultimately show ?thesis by blast
qed

text \<open>The storage keeps spellings: a node that is removed under another spelling comes back with \<^verbatim>\<open>LoadNodes\<close>.\<close>

lemma removed_spelling_stays:
  assumes "NodeAddrToString a \<noteq> NodeAddrToString b" and "nn_Storage n = Some t"
  shows "\<exists>t'. nn_Storage (RemoveNodeFromKnown b (snd (AddNodeToKnown a n))) = Some t' \<and>
    tget t' (bytes_of_string (NodeAddrToString a)) = Some (bytes_of_string (NodeAddrToString a))"
  using assms by (simp add: RemoveNodeFromKnown_def AddNodeToKnown_def Let_def storage_AddNodeToKnown_def
    storage_RemoveNodeFromKnown_def table_simps)

section \<open>Blocks leave the transit in the order they came\<close>

fun shift_all :: "nat \<Rightarrow> node_addr \<Rightarrow> transit \<Rightarrow> bytes res list" where
  "shift_all 0 a t = []"
| "shift_all (Suc k) a t = (let (r, t) = ShiftNextBlock a t in r # shift_all k a t)"

lemma shift_all_stored:
  "tget t (NodeAddrToString a) = Some bs \<Longrightarrow> bs \<noteq> [] \<Longrightarrow>
   shift_all (Suc (length bs)) a t = map Ok bs @ [Err (ErrNew ''The address is not in blocks transit'')]"
proof (induction bs arbitrary: t)
  case (Cons b bs)
  show ?case
  proof (cases "bs = []")
    case True
    then show ?thesis using Cons.prems by (simp add: ShiftNextBlock_def table_simps)
  next
    case False
    let ?t = "tput t (NodeAddrToString a) bs"
    have "shift_all (Suc (length bs)) a ?t = map Ok bs @ [Err (ErrNew ''The address is not in blocks transit'')]"
      using Cons.IH[of ?t] False by (simp add: table_simps)
    then show ?thesis using Cons.prems(1) False by (simp add: ShiftNextBlock_def Let_def)
  qed
qed simp

lemma transit_fifo:
  assumes "tget t (NodeAddrToString a) = None" and "xs @ ys \<noteq> []"
  shows "shift_all (Suc (length (xs @ ys))) a (AddBlocks a ys (AddBlocks a xs t)) =
    map Ok (xs @ ys) @ [Err (ErrNew ''The address is not in blocks transit'')]"
  by (rule shift_all_stored) (use assms in \<open>simp_all add: AddBlocks_def table_simps Let_def\<close>)

lemma transit_empty_panics:
  "tget t (NodeAddrToString a) = None \<Longrightarrow> fst (ShiftNextBlock a (AddBlocks a [] t)) = Panic"
  by (simp add: ShiftNextBlock_def AddBlocks_def table_simps)

end
