(* ===== verification/Go_Float.thy ===== *)
theory Go_Float
  imports Go_Prelude
begin

text \<open>
  Go's \<open>float64\<close>: the 64 bits of an IEEE 754 double, with the operations the repository uses on
  amounts (addition, subtraction, absolute value, comparisons, and \<open>ParseFloat(Sprintf("%.8f", x))\<close>).
  A pattern is decoded to NaN, an infinity or an exact dyadic number; results are rounded to the
  nearest double, ties to even, with gradual underflow and overflow to infinity. Amounts keep their
  bit patterns, so the byte encodings of the transactions are exact.
\<close>

type_synonym float64 = "64 word"

datatype fval = FNaN | FInf bool | FNum int int

definition fsign :: "float64 \<Rightarrow> bool" where
  "fsign w \<longleftrightarrow> uint w \<ge> 2 ^ 63"

definition fdecode :: "float64 \<Rightarrow> fval" where
  "fdecode w =
     (let n = uint w; e = n div 2 ^ 52 mod 2048; f = n mod 2 ^ 52;
          sg = (if fsign w then -1 else 1)
      in if e = 2047 then (if f = 0 then FInf (fsign w) else FNaN)
         else if e = 0 then FNum (sg * f) (- 1074)
         else FNum (sg * (2 ^ 52 + f)) (e - 1075))"

function bit_len :: "int \<Rightarrow> nat" where
  "bit_len n = (if n \<le> 0 then 0 else Suc (bit_len (n div 2)))"
  by pat_completeness auto
termination
  by (relation "measure nat") auto

declare bit_len.simps [simp del]

definition fnan :: float64 where
  "fnan = 0x7FF8000000000001"

definition finf :: "bool \<Rightarrow> float64" where
  "finf s = (if s then 0xFFF0000000000000 else 0x7FF0000000000000)"

text \<open>The bits of \<open>q * 2 ^ e\<close>, for a significand \<open>q \<le> 2 ^ 53\<close> after rounding.\<close>

definition fpack :: "bool \<Rightarrow> int \<Rightarrow> int \<Rightarrow> float64" where
  "fpack s q e =
     (let (q', e') = (if q = 2 ^ 53 then (2 ^ 52, e + 1) else (q, e))
      in if e' > 971 then finf s
         else word_of_int ((if s then 2 ^ 63 else 0)
                + (if q' < 2 ^ 52 then q' else (e' + 1075) * 2 ^ 52 + (q' - 2 ^ 52))))"

text \<open>The double nearest to the positive rational \<open>p / q\<close>.\<close>

definition fround_ratio :: "bool \<Rightarrow> int \<Rightarrow> int \<Rightarrow> float64" where
  "fround_ratio s p q =
     (let scale = (\<lambda>e. if e \<ge> 0 then (p, q * 2 ^ nat e) else (p * 2 ^ nat (- e), q));
          e0 = int (bit_len p) - int (bit_len q) - 53;
          e1 = (let (a, b) = scale e0 in if a \<ge> b * 2 ^ 53 then e0 + 1 else e0);
          e = max e1 (- 1074);
          (a, b) = scale e;
          d = a div b; r = a mod b;
          d' = (if 2 * r > b \<or> (2 * r = b \<and> odd d) then d + 1 else d)
      in fpack s d' e)"

definition fround :: "int \<Rightarrow> int \<Rightarrow> float64" where
  "fround m e =
     (if m = 0 then 0
      else if e \<ge> 0 then fround_ratio (m < 0) (\<bar>m\<bar> * 2 ^ nat e) 1
      else fround_ratio (m < 0) \<bar>m\<bar> (2 ^ nat (- e)))"

text \<open>The exact comparison and the exact sum of two dyadic numbers.\<close>

definition dy_align :: "int \<Rightarrow> int \<Rightarrow> int \<Rightarrow> int" where
  "dy_align m e e0 = m * 2 ^ nat (e - e0)"

definition dy_less :: "int \<Rightarrow> int \<Rightarrow> int \<Rightarrow> int \<Rightarrow> bool" where
  "dy_less m1 e1 m2 e2 \<longleftrightarrow> dy_align m1 e1 (min e1 e2) < dy_align m2 e2 (min e1 e2)"

fun fval_less :: "fval \<Rightarrow> fval \<Rightarrow> bool" where
  "fval_less FNaN b = False"
| "fval_less a FNaN = False"
| "fval_less (FInf s) (FInf t) = (s \<and> \<not> t)"
| "fval_less (FInf s) (FNum m e) = s"
| "fval_less (FNum m e) (FInf t) = (\<not> t)"
| "fval_less (FNum m1 e1) (FNum m2 e2) = dy_less m1 e1 m2 e2"

definition flt :: "float64 \<Rightarrow> float64 \<Rightarrow> bool" where
  "flt a b = fval_less (fdecode a) (fdecode b)"

definition fis_nan :: "float64 \<Rightarrow> bool" where
  "fis_nan a \<longleftrightarrow> fdecode a = FNaN"

definition feq :: "float64 \<Rightarrow> float64 \<Rightarrow> bool" where
  "feq a b \<longleftrightarrow> \<not> fis_nan a \<and> \<not> fis_nan b \<and> \<not> flt a b \<and> \<not> flt b a"

definition fle :: "float64 \<Rightarrow> float64 \<Rightarrow> bool" where
  "fle a b \<longleftrightarrow> flt a b \<or> feq a b"

definition fneg :: "float64 \<Rightarrow> float64" where
  "fneg a = (if fsign a then a - 2 ^ 63 else a + 2 ^ 63)"

definition fabs :: "float64 \<Rightarrow> float64" where
  "fabs a = (if fsign a then a - 2 ^ 63 else a)"

definition fadd :: "float64 \<Rightarrow> float64 \<Rightarrow> float64" where
  "fadd a b =
     (case (fdecode a, fdecode b) of
        (FNaN, _) \<Rightarrow> fnan
      | (_, FNaN) \<Rightarrow> fnan
      | (FInf s, FInf t) \<Rightarrow> if s = t then finf s else fnan
      | (FInf s, FNum _ _) \<Rightarrow> finf s
      | (FNum _ _, FInf t) \<Rightarrow> finf t
      | (FNum m1 e1, FNum m2 e2) \<Rightarrow>
          (let e = min e1 e2; m = dy_align m1 e1 e + dy_align m2 e2 e
           in if m = 0 then (if fsign a \<and> fsign b then 2 ^ 63 else 0) else fround m e))"

definition fsub :: "float64 \<Rightarrow> float64 \<Rightarrow> float64" where
  "fsub a b = fadd a (fneg b)"

text \<open>The nearest double to an untyped decimal constant, and the round trip through \<open>"%.8f"\<close>.\<close>

definition fconst :: "int \<Rightarrow> int \<Rightarrow> float64" where
  "fconst p q = (if p = 0 then 0 else fround_ratio (p < 0) \<bar>p\<bar> q)"

definition ffix8 :: "float64 \<Rightarrow> float64" where
  "ffix8 a =
     (case fdecode a of
        FNum m e \<Rightarrow>
          (let (p, q) = (if e \<ge> 0 then (\<bar>m\<bar> * 2 ^ nat e, 1) else (\<bar>m\<bar>, 2 ^ nat (- e)));
               d = (p * 100000000) div q; r = (p * 100000000) mod q;
               n = (if 2 * r > q \<or> (2 * r = q \<and> odd d) then d + 1 else d)
           in if n = 0 then (if fsign a then 2 ^ 63 else 0)
              else fround_ratio (fsign a) n 100000000)
      | FInf s \<Rightarrow> finf s
      | FNaN \<Rightarrow> fnan)"

text \<open>The big-endian bytes of a double, as \<open>binary.Write\<close> emits them.\<close>

definition float_bytes :: "float64 \<Rightarrow> bytes" where
  "float_bytes a = be_bytes 8 (uint a)"

lemma length_float_bytes [simp]: "length (float_bytes a) = 8"
  by (simp add: float_bytes_def)

lemma float_bytes_inject [simp]: "float_bytes a = float_bytes b \<longleftrightarrow> a = b"
proof -
  have "uint x mod 256 ^ 8 = uint x" for x :: float64
    using uint_lt2p[of x] by (simp add: mod_pos_pos_trivial)
  then show ?thesis by (simp add: float_bytes_def be_bytes_eq_iff word_uint_eq_iff)
qed

section \<open>Order and NaN\<close>

lemma dy_align_scale: "e0 \<le> e1 \<Longrightarrow> e1 \<le> e \<Longrightarrow> dy_align m e e0 = dy_align m e e1 * 2 ^ nat (e1 - e0)"
  by (simp add: dy_align_def power_add [symmetric] nat_add_distrib [symmetric] mult.assoc)

lemma dy_less_at:
  assumes "e0 \<le> e1" and "e0 \<le> e2"
  shows "dy_less m1 e1 m2 e2 \<longleftrightarrow> dy_align m1 e1 e0 < dy_align m2 e2 e0"
proof -
  let ?e = "min e1 e2"
  have "dy_align m1 e1 e0 = dy_align m1 e1 ?e * 2 ^ nat (?e - e0)"
    and "dy_align m2 e2 e0 = dy_align m2 e2 ?e * 2 ^ nat (?e - e0)"
    using assms by (auto intro!: dy_align_scale)
  then show ?thesis by (simp add: dy_less_def)
qed

lemma dy_less_trans: "dy_less m1 e1 m2 e2 \<Longrightarrow> dy_less m2 e2 m3 e3 \<Longrightarrow> dy_less m1 e1 m3 e3"
proof -
  assume l: "dy_less m1 e1 m2 e2" "dy_less m2 e2 m3 e3"
  let ?e = "min e1 (min e2 e3)"
  have "?e \<le> e1" "?e \<le> e2" "?e \<le> e3" by auto
  then show ?thesis using l by (simp add: dy_less_at[of ?e])
qed

lemma dy_less_negtrans: "dy_less m1 e1 m3 e3 \<Longrightarrow> dy_less m1 e1 m2 e2 \<or> dy_less m2 e2 m3 e3"
proof -
  assume l: "dy_less m1 e1 m3 e3"
  let ?e = "min e1 (min e2 e3)"
  have "?e \<le> e1" "?e \<le> e2" "?e \<le> e3" by auto
  then show ?thesis using l by (simp add: dy_less_at[of ?e]) linarith
qed

lemma dy_less_irrefl [simp]: "\<not> dy_less m e m e"
  by (simp add: dy_less_def)

lemma fval_less_trans: "fval_less a b \<Longrightarrow> fval_less b c \<Longrightarrow> fval_less a c"
  by (cases a; cases b; cases c) (auto intro: dy_less_trans)

lemma fval_less_irrefl [simp]: "\<not> fval_less a a"
  by (cases a) auto

lemma fval_less_negtrans:
  "fval_less a c \<Longrightarrow> b \<noteq> FNaN \<Longrightarrow> fval_less a b \<or> fval_less b c"
  by (cases a; cases b; cases c) (auto dest: dy_less_negtrans)

lemma flt_irrefl [simp]: "\<not> flt a a"
  by (simp add: flt_def)

lemma flt_trans: "flt a b \<Longrightarrow> flt b c \<Longrightarrow> flt a c"
  unfolding flt_def by (rule fval_less_trans)

lemma flt_asym: "flt a b \<Longrightarrow> \<not> flt b a"
  using flt_trans flt_irrefl by blast

lemma flt_not_nan: "flt a b \<Longrightarrow> \<not> fis_nan a \<and> \<not> fis_nan b"
  by (cases "fdecode a"; cases "fdecode b") (auto simp: flt_def fis_nan_def)

lemma nan_not_flt: "fis_nan a \<or> fis_nan b \<Longrightarrow> \<not> flt a b"
  using flt_not_nan by blast

lemma flt_total: "\<not> fis_nan a \<Longrightarrow> \<not> fis_nan b \<Longrightarrow> \<not> fle a b \<Longrightarrow> flt b a"
  by (auto simp: fle_def feq_def)

lemma fis_nan_fnan [simp]: "fis_nan fnan"
  by (simp add: fis_nan_def fdecode_def fnan_def Let_def)

lemma fadd_nan: "fis_nan a \<or> fis_nan b \<Longrightarrow> fadd a b = fnan"
  by (cases "fdecode a"; cases "fdecode b") (auto simp: fadd_def fis_nan_def)

lemma fadd_commute: "fadd a b = fadd b a"
  by (cases "fdecode a"; cases "fdecode b")
     (auto simp: fadd_def Let_def min.commute add.commute conj_commute)

lemma sign_bit_shift:
  "((n :: int) + 2 ^ 63) div 2 ^ 52 mod 2048 = n div 2 ^ 52 mod 2048"
  "((n :: int) + 2 ^ 63) mod 2 ^ 52 = n mod 2 ^ 52"
proof -
  have "n + 2 ^ 63 = n + 2048 * 2 ^ 52" by simp
  then have "(n + 2 ^ 63) div 2 ^ 52 = 2048 + n div 2 ^ 52"
    and "(n + 2 ^ 63) mod 2 ^ 52 = n mod 2 ^ 52"
    by (simp_all only: div_mult_self1 mod_mult_self1) simp_all
  then show "(n + 2 ^ 63) div 2 ^ 52 mod 2048 = n div 2 ^ 52 mod 2048"
    and "(n + 2 ^ 63) mod 2 ^ 52 = n mod 2 ^ 52" by simp_all
qed

lemma fis_nan_iff: "fis_nan b \<longleftrightarrow> uint b div 2 ^ 52 mod 2048 = 2047 \<and> uint b mod 2 ^ 52 \<noteq> 0"
  by (simp add: fis_nan_def fdecode_def Let_def del: power_numeral)

lemma fis_nan_fneg: "fis_nan b \<Longrightarrow> fis_nan (fneg b)"
proof -
  assume nan: "fis_nan b"
  have b: "uint b < 2 ^ 64" "0 \<le> uint b" using uint_lt2p[of b] by auto
  have "uint (fneg b) div 2 ^ 52 mod 2048 = uint b div 2 ^ 52 mod 2048
      \<and> uint (fneg b) mod 2 ^ 52 = uint b mod 2 ^ 52"
  proof (cases "fsign b")
    case True
    then have "uint b = uint (fneg b) + 2 ^ 63"
      using b by (simp add: fneg_def fsign_def uint_word_ariths)
    then show ?thesis using sign_bit_shift[of "uint (fneg b)"] by metis
  next
    case False
    then have "uint (fneg b) = uint b + 2 ^ 63"
      using b by (simp add: fneg_def fsign_def uint_word_ariths)
    then show ?thesis using sign_bit_shift[of "uint b"] by metis
  qed
  then show ?thesis using nan unfolding fis_nan_iff by metis
qed

lemma fsub_nan: "fis_nan a \<or> fis_nan b \<Longrightarrow> fsub a b = fnan"
  unfolding fsub_def using fadd_nan fis_nan_fneg by blast

lemma fabs_fnan: "fabs fnan = fnan"
  by (simp add: fabs_def fsign_def fnan_def)

text \<open>The total of a list of amounts, added from left to right starting at zero.\<close>

definition fsum :: "float64 list \<Rightarrow> float64" where
  "fsum xs = foldl fadd 0 xs"

lemma foldl_fadd_nan: "fis_nan a \<Longrightarrow> fis_nan (foldl fadd a xs)"
  by (induction xs arbitrary: a) (auto simp: fadd_nan)

lemma fsum_nan: "x \<in> set xs \<Longrightarrow> fis_nan x \<Longrightarrow> fis_nan (fsum xs)"
proof -
  have "x \<in> set xs \<Longrightarrow> fis_nan x \<Longrightarrow> fis_nan (foldl fadd a xs)" for a
    by (induction xs arbitrary: a) (auto simp: fadd_nan foldl_fadd_nan)
  then show "x \<in> set xs \<Longrightarrow> fis_nan x \<Longrightarrow> fis_nan (fsum xs)" by (simp add: fsum_def)
qed

section \<open>Exact sums\<close>

lemma bit_len_unique: "2 ^ k \<le> n \<Longrightarrow> n < 2 ^ Suc k \<Longrightarrow> bit_len n = Suc k"
proof (induction k arbitrary: n)
  case 0
  then have "n = 1" by simp
  then show ?case by (simp add: bit_len.simps[of 1] bit_len.simps[of 0])
next
  case (Suc k)
  have "0 < n" using Suc.prems(1) by (meson less_le_trans zero_less_numeral zero_less_power)
  moreover have "2 ^ k \<le> n div 2" "n div 2 < 2 ^ Suc k" using Suc.prems by simp_all
  ultimately show ?case using Suc.IH by (simp add: bit_len.simps[of n])
qed

text \<open>A significand of 53 bits is kept.\<close>

lemma fround_ratio_exact:
  assumes m: "2 ^ 52 \<le> m" "m < 2 ^ 53" and e: "int k - int n \<le> 971" "- 1074 \<le> int k - int n"
  shows "fround_ratio False (m * 2 ^ k) (2 ^ n) = word_of_int ((int k - int n + 1075) * 2 ^ 52 + (m - 2 ^ 52))"
proof -
  have "2 ^ (52 + k) \<le> m * 2 ^ k" "m * 2 ^ k < 2 ^ Suc (52 + k)"
    using m by (simp_all add: power_add)
  then have bp: "bit_len (m * 2 ^ k) = Suc (52 + k)" by (rule bit_len_unique)
  have bq: "bit_len (2 ^ n) = Suc n" by (rule bit_len_unique) simp_all
  have two: "m * 2 ^ k = m * 2 ^ n * 2 ^ (k - n)" "2 ^ n * 2 ^ (k - n) = (2 ^ k :: int)" if "n \<le> k"
    using that by (simp_all add: power_add[symmetric] mult.assoc)
  obtain e0 where e0: "e0 = int k - int n - 1" by simp
  have bl: "int (bit_len (m * 2 ^ k)) - int (bit_len (2 ^ n)) - 53 = e0" unfolding bp bq e0 by simp
  have up: "b * 2 ^ 53 \<le> a" if ab: "(if e0 \<ge> 0 then (m * 2 ^ k, 2 ^ n * 2 ^ nat e0) else (m * 2 ^ k * 2 ^ nat (- e0), 2 ^ n)) = (a, b)"
    for a b
  proof (cases "n < k")
    case True
    then obtain j where j: "k = n + Suc j" by (metis add_Suc_right less_imp_Suc_add)
    have "a = m * 2 * (2 ^ n * 2 ^ j)" "b = 2 ^ n * 2 ^ j"
      using ab unfolding e0 j by (auto simp: power_add)
    then show ?thesis using m(1) by (simp add: mult.commute)
  next
    case False
    then obtain j where j: "n = k + j" by (metis le_add_diff_inverse not_less)
    have "a = m * 2 * (2 ^ k * 2 ^ j)" "b = 2 ^ k * 2 ^ j"
      using ab unfolding e0 j by (auto simp: power_add nat_add_distrib)
    then show ?thesis using m(1) by (simp add: mult.commute)
  qed
  have e1: "(let (a, b) = (if e0 \<ge> 0 then (m * 2 ^ k, 2 ^ n * 2 ^ nat e0) else (m * 2 ^ k * 2 ^ nat (- e0), 2 ^ n))
       in if a \<ge> b * 2 ^ 53 then e0 + 1 else e0) = int k - int n"
    using up by (auto simp: e0 simp del: power_numeral split: prod.splits)
  obtain e' where e': "e' = int k - int n" by simp
  have A: "2 ^ n * 2 ^ nat e' = (2 ^ k :: int)" if "0 \<le> e'" using that two unfolding e' by (simp add: nat_diff_distrib)
  have B: "2 ^ k * 2 ^ nat (- e') = (2 ^ n :: int)" if "\<not> 0 \<le> e'"
    using that unfolding e' by (simp add: power_add[symmetric] nat_diff_distrib)
  have "max (int k - int n) (- 1074) = e'" using e(2) e' by simp
  then have "fround_ratio False (m * 2 ^ k) (2 ^ n) = fpack False m e'"
    unfolding fround_ratio_def bl Let_def[of "\<lambda>e. (_ e, _ e)"] using e1 A B
    by (cases "0 \<le> e'") (simp_all add: Let_def mult.assoc del: power_numeral)
  also have "\<dots> = word_of_int ((int k - int n + 1075) * 2 ^ 52 + (m - 2 ^ 52))"
    using m e by (simp add: fpack_def e')
  finally show ?thesis .
qed


lemma fadd_0_left:
  assumes x: "fdecode x = FNum m e" and m: "2 ^ 52 \<le> m"
  shows "fadd 0 x = x"
proof -
  obtain f where f: "f = uint x mod 2 ^ 52" by simp
  obtain h where h: "h = uint x div 2 ^ 52 mod 2048" by simp
  have fb: "0 \<le> f" "f < 2 ^ 52" "0 \<le> h" unfolding f h by simp_all
  have sg: "\<not> fsign x" using x m fb by (auto simp: fdecode_def Let_def f[symmetric] split: if_splits)
  have e: "h \<noteq> 2047" "h \<noteq> 0" "m = 2 ^ 52 + f" "e = h - 1075"
    using x sg m fb unfolding fdecode_def Let_def f[symmetric] h[symmetric] by (auto split: if_splits)
  have "uint x < 2 ^ 63" using sg by (simp add: fsign_def)
  then have "uint x div 2 ^ 52 < 2048" by simp
  moreover have "0 \<le> uint x div 2 ^ 52" by (simp add: pos_imp_zdiv_nonneg_iff)
  ultimately have "uint x div 2 ^ 52 = h" unfolding h by (simp add: mod_pos_pos_trivial)
  then have ux: "uint x = h * 2 ^ 52 + f" using f by (metis div_mult_mod_eq)
  have "h < 2048" unfolding h by simp
  then have he: "h \<le> 2046" using e(1) by simp
  obtain N where N: "N = (1074 :: nat)" by simp
  have "0 \<le> e + int N" using e fb N by simp
  then obtain k where "e + int N = int k" by (metis zero_le_imp_eq_int)
  then have k: "e = int k - int N" by simp
  have z: "fdecode 0 = FNum 0 (- 1074)" by (simp add: fdecode_def fsign_def)
  have "min (- 1074) e = - 1074" "nat (e - - 1074) = k" using k N by simp_all
  moreover have "m * 2 ^ k \<noteq> 0" using m by auto
  ultimately have "fadd 0 x = fround (m * 2 ^ k) (- 1074)"
    unfolding fadd_def z x by (simp add: Let_def dy_align_def)
  also have "\<dots> = fround (m * 2 ^ k) (- int N)" using N by simp
  also have "\<dots> = fround_ratio False (m * 2 ^ k) (2 ^ N)"
  proof -
    have "0 < m" using m by (meson less_le_trans zero_less_numeral zero_less_power)
    then have "0 < m * 2 ^ k" "m \<noteq> 0" by simp_all
    then show ?thesis using N by (simp add: fround_def del: power_numeral)
  qed
  also have "\<dots> = word_of_int ((int k - int N + 1075) * 2 ^ 52 + (m - 2 ^ 52))"
    using m e fb he k N by (intro fround_ratio_exact) simp_all
  also have "(int k - int N + 1075) * 2 ^ 52 + (m - 2 ^ 52) = uint x" using ux k[symmetric] e by simp
  finally show ?thesis by simp
qed

text \<open>The difference of a finite number and itself.\<close>

lemma fsub_self:
  assumes x: "fdecode x = FNum m e" and m: "0 < m"
  shows "fsub x x = 0"
proof -
  have sg: "\<not> fsign x"
  proof
    assume "fsign x"
    then have "m \<le> 0" using x by (auto simp: fdecode_def Let_def split: if_splits)
    then show False using m by simp
  qed
  have b: "uint x < 2 ^ 63" "0 \<le> uint x" using sg uint_lt2p[of x] by (auto simp: fsign_def)
  then have u: "uint (fneg x) = uint x + 2 ^ 63" using sg by (simp add: fneg_def uint_word_ariths)
  then have ns: "fsign (fneg x)" using b by (simp add: fsign_def)
  obtain f h where f: "f = uint x mod 2 ^ 52" "h = uint x div 2 ^ 52 mod 2048" by simp
  have "fdecode (fneg x) = FNum (- m) e"
    using x sg ns unfolding fdecode_def u sign_bit_shift f[symmetric] Let_def by (auto split: if_splits)
  then show ?thesis using x sg by (simp add: fsub_def fadd_def dy_align_def Let_def)
qed

end
