(* ===== verification/Proxy_Codec.thy ===== *)
theory Proxy_Codec
  imports Node_Net Go_Float
begin

text \<open>
  \<^verbatim>\<open>lib/dbproxy\<close>: the packets of the MySQL protocol that the proxy reads (\<^verbatim>\<open>packet.go\<close>, \<^verbatim>\<open>decoder.go\<close>) and makes
  (\<^verbatim>\<open>encoder.go\<close>). A \<open>bytes.Reader\<close> that only moves forward is the list of bytes it has not read yet: seeking past
  the end leaves nothing to read. A connection is the list of bytes that come from it. The theory shows that what
  the encoder makes is framed as packets numbered in sequence, and that its strings are read back.
\<close>

section \<open>Constants\<close>

definition responseEof :: byte where "responseEof = 0xfe"
definition responseOk :: byte where "responseOk = 0x00"
definition responsePrepareOk :: byte where "responsePrepareOk = 0x00"
definition responseErr :: byte where "responseErr = 0xff"
definition responseLocalinfile :: byte where "responseLocalinfile = 0xfb"
definition responseResultset :: byte where "responseResultset = 0xbb"
definition fieldTypeString :: byte where "fieldTypeString = 0xfd"
definition fieldTypeLongLong :: byte where "fieldTypeLongLong = 0x08"
definition fieldTypeDouble :: byte where "fieldTypeDouble = 0x05"
definition comQuery :: byte where "comQuery = 0x03"
definition comStmtPrepare :: byte where "comStmtPrepare = 0x16"
definition comStmtExecute :: byte where "comStmtExecute = 0x17"
definition clientSecureConnection :: "32 word" where "clientSecureConnection = push_bit 15 1"
definition clientPluginAuth :: "32 word" where "clientPluginAuth = push_bit 19 1"
definition clientDeprecateEOF :: "32 word" where "clientDeprecateEOF = push_bit 24 1"

definition errInvalidPacketLength :: err where "errInvalidPacketLength = ErrNew ''protocol: Invalid packet length''"
definition errInvalidPacketType :: err where "errInvalidPacketType = ErrNew ''protocol: Invalid packet type''"
definition errFieldTypeNotImplementedYet :: err where
  "errFieldTypeNotImplementedYet = ErrNew ''protocol: Required field type not implemented yet''"

section \<open>Readers\<close>

text \<open>\<^verbatim>\<open>binary.LittleEndian\<close>, both ways.\<close>

fun le_nat :: "bytes \<Rightarrow> nat" where
  "le_nat [] = 0"
| "le_nat (b # bs) = unat b + 256 * le_nat bs"

fun le_bytes :: "nat \<Rightarrow> nat \<Rightarrow> bytes" where
  "le_bytes 0 x = []"
| "le_bytes (Suc n) x = word_of_nat x # le_bytes n (x div 256)"

definition errEOF :: err where "errEOF = ErrNew ''EOF''"

text \<open>
  \<^verbatim>\<open>Read\<close> into a buffer of \<open>n\<close> zeros: at the end it is an error, also for an empty buffer; before the end it
  may fill only a part of the buffer.
\<close>

definition r_Read :: "nat \<Rightarrow> bytes \<Rightarrow> bytes res \<times> bytes" where
  "r_Read n r =
     (if r = [] then (Err errEOF, r)
      else (Ok (take n r @ replicate (n - length r) 0), drop n r))"

fun r_ReadByte :: "bytes \<Rightarrow> byte res \<times> bytes" where
  "r_ReadByte [] = (Err errEOF, [])"
| "r_ReadByte (b # r) = (Ok b, r)"

text \<open>\<open>b, _ := r.ReadByte()\<close> in the loop: the zero that comes with the error ends it.\<close>

definition readNullTerminatedString :: "bytes \<Rightarrow> string \<times> bytes" where
  "readNullTerminatedString r =
     (string_of_bytes (takeWhile (\<lambda>b. b \<noteq> 0) r), tl (dropWhile (\<lambda>b. b \<noteq> 0) r))"

definition readEOFLengthString :: "bytes \<Rightarrow> string" where
  "readEOFLengthString data = string_of_bytes data"

definition checkPacketLength :: "nat \<Rightarrow> bytes \<Rightarrow> unit res" where
  "checkPacketLength expected packet = (if length packet < expected then Err errInvalidPacketLength else Ok ())"

definition getPacketType :: "bytes \<Rightarrow> byte res" where
  "getPacketType packet = index packet 4"

text \<open>\<^verbatim>\<open>skipPacketHeader\<close> seeks from the start of the packet.\<close>

definition skipPacketHeader :: "bytes \<Rightarrow> bytes" where
  "skipPacketHeader packet = drop 4 packet"

text \<open>Value and offset; every error of reading gives \<open>0, 0\<close>.\<close>

definition readLenEncodedInteger :: "bytes \<Rightarrow> (nat \<times> nat) \<times> bytes" where
  "readLenEncodedInteger r =
     (case r of
        [] \<Rightarrow> ((0, 0), [])
      | b # r \<Rightarrow>
          let more = (\<lambda>n. case r_Read n r of (Ok data, r) \<Rightarrow> ((le_nat data, n + 1), r) | (_, r) \<Rightarrow> ((0, 0), r))
          in if b = 0xfb then ((0, 1), r)
             else if b = 0xfc then more 2
             else if b = 0xfd then more 3
             else if b = 0xfe then more 8
             else ((unat b, 1), r))"

text \<open>
  \<open>make([]byte, strLen)\<close> panics for lengths that no slice can have; the limit is that of the 64-bit run-time.
\<close>

definition maxAlloc :: nat where "maxAlloc = 2 ^ 48"

definition readLenEncodedString :: "bytes \<Rightarrow> (string \<times> nat) res \<times> bytes" where
  "readLenEncodedString r =
     (let ((strLen, _), r) = readLenEncodedInteger r
      in if strLen > maxAlloc then (Panic, r)
         else bindS (r_Read strLen r) (\<lambda>strBuf r. (Ok (string_of_bytes strBuf, strLen), r)))"

section \<open>Decoding\<close>

definition decodeErrResponse :: "bytes \<Rightarrow> string res" where
  "decodeErrResponse packet =
     bindR (checkPacketLength 8 packet) (\<lambda>_. Ok (string_of_bytes (drop 7 packet)))"

record ok_response =
  ok_PacketType :: byte
  ok_AffectedRows :: nat
  ok_LastInsertID :: nat

definition decodeOkResponse :: "bytes \<Rightarrow> ok_response res" where
  "decodeOkResponse packet =
     bindR (checkPacketLength 5 packet) (\<lambda>_.
       let r = drop 1 (skipPacketHeader packet);
           ((affectedRows, _), r) = readLenEncodedInteger r;
           ((lastInsertID, _), r) = readLenEncodedInteger r
       in bindR (index packet 4) (\<lambda>t.
            Ok \<lparr>ok_PacketType = t, ok_AffectedRows = affectedRows, ok_LastInsertID = lastInsertID\<rparr>))"

record handshakeV10 =
  h10_ProtocolVersion :: byte
  h10_ServerVersion :: string
  h10_ConnectionID :: "32 word"
  h10_ServerCapabilities :: "32 word"
  h10_AuthPlugin :: string

definition has_cap :: "32 word \<Rightarrow> 32 word \<Rightarrow> bool" where
  "has_cap caps c \<longleftrightarrow> and caps c \<noteq> 0"

text \<open>The version is zero at the end of the packet: the error is not looked at.\<close>

definition decodeHandshakeV10 :: "bytes \<Rightarrow> handshakeV10 res" where
  "decodeHandshakeV10 packet =
     (let r = skipPacketHeader packet;
          (protoVersion, r) = (case r_ReadByte r of (Ok b, r) \<Rightarrow> (b, r) | (_, r) \<Rightarrow> (0, r));
          (serverVersion, r) = readNullTerminatedString r
      in fst (bindS (r_Read 4 r) (\<lambda>connectionIDBuf r.
              bindS (r_Read 2 (drop 9 r)) (\<lambda>lower r.
              bindS (r_Read 2 (drop 3 r)) (\<lambda>higher r.
                let serverCapabilities = word_of_nat (le_nat (lower @ higher))
                in bindS (if has_cap serverCapabilities clientPluginAuth then r_ReadByte r else (Ok 0, r))
                     (\<lambda>authPluginDataLength r.
                     let r = drop 10 r;
                         r = (if has_cap serverCapabilities clientSecureConnection
                              then drop (max 13 (unat authPluginDataLength - 8)) r else r);
                         authPlugin = (if has_cap serverCapabilities clientPluginAuth
                                       then fst (readNullTerminatedString r) else '''')
                     in (Ok \<lparr>h10_ProtocolVersion = protoVersion, h10_ServerVersion = serverVersion,
                              h10_ConnectionID = word_of_nat (le_nat connectionIDBuf),
                              h10_ServerCapabilities = serverCapabilities, h10_AuthPlugin = authPlugin\<rparr>, r)))))))"

record handshakeResponse41 =
  h41_ClientCapabilities :: "32 word"
  h41_ClientCharset :: byte

definition decodeHandshakeResponse41 :: "bytes \<Rightarrow> handshakeResponse41 res" where
  "decodeHandshakeResponse41 packet =
     fst (bindS (r_Read 4 (skipPacketHeader packet)) (\<lambda>clientCapabilitiesBuf r.
          bindS (r_ReadByte (drop 4 r)) (\<lambda>charset r.
            (Ok \<lparr>h41_ClientCapabilities = word_of_nat (le_nat clientCapabilitiesBuf), h41_ClientCharset = charset\<rparr>, r))))"

definition decodeQueryRequest :: "bytes \<Rightarrow> string res" where
  "decodeQueryRequest packet =
     (if length packet < 6 then Err errInvalidPacketLength
      else if packet ! 4 \<noteq> comQuery \<and> packet ! 4 \<noteq> comStmtPrepare then Err errInvalidPacketType
      else Ok (readEOFLengthString (drop 5 packet)))"

record com_stmt_prepare_ok =
  cp_StatementID :: "32 word"
  cp_ParametersNum :: "16 word"

definition decodeComStmtPrepareOkResponse :: "bytes \<Rightarrow> com_stmt_prepare_ok res" where
  "decodeComStmtPrepareOkResponse packet =
     (if length packet < 16 then Err errInvalidPacketLength
      else if packet ! 4 \<noteq> responsePrepareOk then Err errInvalidPacketType
      else Ok \<lparr>cp_StatementID = word_of_nat (le_nat (take 4 (drop 5 packet))),
               cp_ParametersNum = word_of_nat (le_nat (take 2 (drop 11 packet)))\<rparr>)"

text \<open>
  \<^verbatim>\<open>strconv.FormatFloat\<close> with format \<open>f\<close> and six digits after the point: the exact value rounded half to even.
\<close>

definition doubleDecodePrecision :: nat where "doubleDecodePrecision = 6"

definition FormatFloat6 :: "float64 \<Rightarrow> string" where
  "FormatFloat6 a =
     (case fdecode a of
        FNaN \<Rightarrow> ''NaN''
      | FInf s \<Rightarrow> (if s then ''-Inf'' else ''+Inf'')
      | FNum m e \<Rightarrow>
          (let (p, q) = (if e \<ge> 0 then (\<bar>m\<bar> * 2 ^ nat e, 1) else (\<bar>m\<bar>, 2 ^ nat (- e)));
               sc = 10 ^ doubleDecodePrecision;
               d = (p * sc) div q; r = (p * sc) mod q;
               n = (if 2 * r > q \<or> (2 * r = q \<and> odd d) then d + 1 else d);
               frac = nat_string (nat (n mod sc))
           in (if fsign a then ''-'' else '''') @ nat_string (nat (n div sc)) @ CHR ''.'' #
              replicate (doubleDecodePrecision - length frac) (CHR ''0'') @ frac))"

text \<open>The three kinds of parameters. A number that is cut off is an empty value, without an error.\<close>

definition decodeFieldTypeString :: "bytes \<Rightarrow> string res \<times> bytes" where
  "decodeFieldTypeString r =
     (case readLenEncodedString r of
        (Ok (str, _), r) \<Rightarrow> (Ok str, r)
      | (Err e, r) \<Rightarrow> (if e \<noteq> errEOF then (Err e, r) else (Ok '''', r))
      | (Panic, r) \<Rightarrow> (Panic, r)
      | (Diverge, r) \<Rightarrow> (Diverge, r))"

definition decodeFieldTypeLongLong :: "bytes \<Rightarrow> string res \<times> bytes" where
  "decodeFieldTypeLongLong r =
     (if length r < 8 then (Ok '''', [])
      else (Ok (Itoa (wrap64 (int (le_nat (take 8 r))))), drop 8 r))"

definition decodeFieldTypeDouble :: "bytes \<Rightarrow> string res \<times> bytes" where
  "decodeFieldTypeDouble r =
     bindS (r_Read 8 r) (\<lambda>buf r. (Ok (FormatFloat6 (word_of_nat (le_nat buf))), r))"

record prepared_parameter =
  par_FieldType :: byte
  par_Flag :: byte
  par_Value :: string

fun read_metas :: "nat \<Rightarrow> bytes \<Rightarrow> prepared_parameter list res \<times> bytes" where
  "read_metas 0 r = (Ok [], r)"
| "read_metas (Suc n) r =
     bindS (r_Read 2 r) (\<lambda>meta r.
     bindS (read_metas n r) (\<lambda>ps r.
       (Ok (\<lparr>par_FieldType = meta ! 0, par_Flag = meta ! 1, par_Value = ''''\<rparr> # ps), r)))"

fun read_values :: "prepared_parameter list \<Rightarrow> bytes \<Rightarrow> prepared_parameter list res \<times> bytes" where
  "read_values [] r = (Ok [], r)"
| "read_values (p # ps) r =
     bindS (if par_FieldType p = fieldTypeString then decodeFieldTypeString r
            else if par_FieldType p = fieldTypeLongLong then decodeFieldTypeLongLong r
            else if par_FieldType p = fieldTypeDouble then decodeFieldTypeDouble r
            else (Err errFieldTypeNotImplementedYet, r)) (\<lambda>v r.
     bindS (read_values ps r) (\<lambda>ps r. (Ok (p\<lparr>par_Value := v\<rparr> # ps), r)))"

record com_stmt_execute =
  ce_StatementID :: "32 word"
  ce_PreparedParameters :: "prepared_parameter list"

text \<open>The length of the bitmap is computed with 16 bits: it wraps around for \<open>65529\<close> parameters and more.\<close>

definition decodeComStmtExecuteRequest :: "bytes \<Rightarrow> 16 word \<Rightarrow> com_stmt_execute res" where
  "decodeComStmtExecuteRequest packet paramsCount =
     bindR (checkPacketLength 14 packet) (\<lambda>_.
       if packet ! 4 \<noteq> comStmtExecute then Err errInvalidPacketType
       else
         let r = drop 1 (skipPacketHeader packet)
         in fst (bindS (r_Read 4 r) (\<lambda>statementIDBuf r.
              let statementID = word_of_nat (le_nat statementIDBuf);
                  r = drop 5 r;
                  zero = \<lparr>par_FieldType = 0, par_Flag = 0, par_Value = ''''\<rparr>
              in bindS
                   (if paramsCount > 0 then
                      let r = drop (unat ((paramsCount + 7) div 8)) r
                      in bindS (r_ReadByte r) (\<lambda>sendTypeToServer r.
                         bindS (if sendTypeToServer = 1 then read_metas (unat paramsCount) r
                                else (Ok (replicate (unat paramsCount) zero), r)) (\<lambda>parameters r.
                           read_values parameters r))
                    else (Ok [], r)) (\<lambda>parameters r.
                   (Ok \<lparr>ce_StatementID = statementID, ce_PreparedParameters = parameters\<rparr>, r)))))"

section \<open>Packets of a connection\<close>

text \<open>A packet is read whole; a connection that ends within it is an error. Nothing is left to read then.\<close>

definition readPacket :: "bytes \<Rightarrow> bytes res \<times> bytes" where
  "readPacket conn =
     (if length conn < 4 then (Err errEOF, [])
      else
        let bodyLen = le_nat (take 3 conn)
        in if length conn < 4 + bodyLen then (Err errEOF, [])
           else (Ok (take (4 + bodyLen) conn), drop (4 + bodyLen) conn))"

fun read_packets :: "nat \<Rightarrow> bytes \<Rightarrow> bytes \<Rightarrow> bytes res \<times> bytes" where
  "read_packets 0 data conn = (Ok data, conn)"
| "read_packets (Suc n) data conn = bindS (readPacket conn) (\<lambda>pkt conn. read_packets n (data @ pkt) conn)"

text \<open>
  The counts are slices of the packet: the capacity of a packet of 9 to 12 bytes is 16, so that what is missing is
  zero, as \<open>le_nat\<close> has it, and a packet of at most 8 bytes is a panic.
\<close>

definition readPrepareResponse :: "bytes \<Rightarrow> (bytes \<times> byte) res \<times> bytes" where
  "readPrepareResponse conn =
     bindS (readPacket conn) (\<lambda>pkt conn.
     bindS (index pkt 4, conn) (\<lambda>t conn.
       if t = responsePrepareOk then
         (if length pkt \<le> 8 then (Panic, conn)
          else
            let numParams = le_nat (take 2 (drop 9 pkt));
                numColumns = le_nat (take 2 (drop 11 pkt));
                packetsExpected = (if numParams > 0 then numParams + 1 else 0) + (if numColumns > 0 then numColumns + 1 else 0)
            in bindS (read_packets packetsExpected pkt conn) (\<lambda>data conn. (Ok (data, responseOk), conn)))
       else if t = responseErr then (Ok (pkt, responseErr), conn)
       else (Ok ([], 0), conn)))"

definition readErrMessage :: "bytes \<Rightarrow> string res" where
  "readErrMessage errPacket = (if length errPacket < 13 then Panic else Ok (string_of_bytes (drop 13 errPacket)))"

text \<open>The endless loop reads a packet of at least four bytes each time, so the length of the connection is fuel.\<close>

fun read_until_eof :: "nat \<Rightarrow> bytes \<Rightarrow> bytes \<Rightarrow> bytes res \<times> bytes" where
  "read_until_eof 0 data conn = (Diverge, conn)"
| "read_until_eof (Suc n) data conn =
     bindS (readPacket conn) (\<lambda>pkt conn.
     bindS (index pkt 4, conn) (\<lambda>t conn.
       if t = responseEof then (Ok (data @ pkt), conn) else read_until_eof n (data @ pkt) conn))"

definition readResponse :: "bytes \<Rightarrow> bool \<Rightarrow> (bytes \<times> byte) res \<times> bytes" where
  "readResponse conn deprecateEof =
     bindS (readPacket conn) (\<lambda>pkt conn.
     bindS (index pkt 4, conn) (\<lambda>t conn.
       if t = responseOk then (Ok (pkt, responseOk), conn)
       else if t = responseErr then (Ok (pkt, responseErr), conn)
       else
         bindS
           (if \<not> deprecateEof then
              let columns = fst (fst (readLenEncodedInteger (drop 4 pkt)))
              in read_packets (nat (wrap64 (int columns + 1))) pkt conn
            else (Ok pkt, conn)) (\<lambda>data conn.
         bindS (read_until_eof (Suc (length conn)) data conn) (\<lambda>data conn.
           (Ok (data, responseResultset), conn)))))"

definition readShowFieldsResponse :: "bytes \<Rightarrow> (bytes \<times> byte) res \<times> bytes" where
  "readShowFieldsResponse conn = readResponse conn True"

section \<open>Responses of the proxy\<close>

record protocol_info =
  pi_clientInfo :: "handshakeResponse41 option"
  pi_serverInfo :: "handshakeV10 option"

text \<open>The method of the protocol information: a handshake that was not seen is dereferenced.\<close>

definition deprecateEOFSet :: "protocol_info \<Rightarrow> bool res" where
  "deprecateEOFSet p =
     bindR (deref (pi_serverInfo p)) (\<lambda>s.
       if \<not> has_cap (h10_ServerCapabilities s) clientDeprecateEOF then Ok False
       else bindR (deref (pi_clientInfo p)) (\<lambda>c. Ok (has_cap (h41_ClientCapabilities c) clientDeprecateEOF)))"

definition customResponseError_getPacket :: "string \<Rightarrow> 16 word \<Rightarrow> bytes" where
  "customResponseError_getPacket message code =
     (let errBytes = bytes_of_string message; payloadLen = length errBytes + 3
      in le_bytes 3 payloadLen @ [1, responseErr] @ le_bytes 2 (unat code) @ errBytes)"

text \<open>A packet with the next number of the sequence; the counter is the state.\<close>

definition completePacket :: "nat \<Rightarrow> bytes \<Rightarrow> bytes \<times> nat" where
  "completePacket counter data = (le_bytes 3 (length data) @ [word_of_nat (Suc counter)] @ data, Suc counter)"

text \<open>Length-encoded strings: one byte up to \<open>251\<close>, which is the mark of a \<open>NULL\<close>, then two bytes.\<close>

definition getLengEncStr :: "string \<Rightarrow> bytes" where
  "getLengEncStr data =
     (let str = bytes_of_string data; n = length str
      in (if n > 251 then 0xfc # le_bytes 2 n else [word_of_nat n]) @ str)"

definition columnDef :: "string \<Rightarrow> string \<Rightarrow> string \<Rightarrow> bytes" where
  "columnDef schema tbl column =
     getLengEncStr ''def'' @ getLengEncStr schema @ getLengEncStr tbl @ getLengEncStr tbl @
     getLengEncStr column @ getLengEncStr column @ [0x0c] @ [0x21, 0x00, 0xfd, 0xff, 0x02, 0x00] @ [0xfc] @
     [0x10, 0x00, 0x00, 0x00, 0x00]"

fun complete_all :: "nat \<Rightarrow> bytes list \<Rightarrow> bytes" where
  "complete_all counter [] = []"
| "complete_all counter (d # ds) = (let (p, counter) = completePacket counter d in p @ complete_all counter ds)"

text \<open>The payloads in the order in which they are written; two of them depend on the protocol.\<close>

definition rows_payloads :: "bool \<Rightarrow> (string \<times> string) list \<Rightarrow> bytes list" where
  "rows_payloads deprecated rows =
     [[2], columnDef ''BC'' ''CustomResponse'' ''Key'', columnDef ''BC'' ''CustomResponse'' ''Value''] @
     (if \<not> deprecated then [[0xfe, 0x00, 0x00, 0x22, 0x00, 0x00, 0x00]] else []) @
     map (\<lambda>(k, v). getLengEncStr k @ getLengEncStr v) rows @
     [if \<not> deprecated then [0xfe, 0x00, 0x00, 0x22, 0x00, 0x00, 0x00] else [0xfe, 0x00, 0x00, 0x22, 0x00]]"

definition customResponseRows_getPacket :: "protocol_info option \<Rightarrow> (string \<times> string) list \<Rightarrow> bytes res" where
  "customResponseRows_getPacket protocol rows =
     bindR (deref protocol) (\<lambda>p. bindR (deprecateEOFSet p) (\<lambda>deprecated.
       Ok (complete_all 0 (rows_payloads deprecated rows))))"

definition customResponseOK_getPacket :: bytes where
  "customResponseOK_getPacket = [0x05, 0x00, 0x00, 0x01, 0xfe, 0x00, 0x00, 0x22, 0x00]"

text \<open>The third byte of the length is that of the original request. A short request is a panic.\<close>

definition customResponseReplaceQuery_getPacket :: "bytes \<Rightarrow> string \<Rightarrow> bytes res" where
  "customResponseReplaceQuery_getPacket originalRequest replaceQuery =
     (if length originalRequest < 5 then Panic
      else
        let p = take 5 originalRequest @ bytes_of_string replaceQuery;
            lb = le_bytes 2 (length p - 4)
        in Ok (p[0 := lb ! 0, 1 := lb ! 1]))"

section \<open>What is read back\<close>

lemma length_le_bytes [simp]: "length (le_bytes n x) = n"
  by (induction n arbitrary: x) simp_all

lemma le_nat_le_bytes: "le_nat (le_bytes n x) = x mod 256 ^ n"
proof (induction n arbitrary: x)
  case (Suc n)
  have "x mod 256 ^ Suc n = x mod 256 + 256 * (x div 256 mod 256 ^ n)"
    by (simp add: mod_mult2_eq)
  then show ?case using Suc by (simp add: unat_of_nat take_bit_eq_mod)
qed simp

lemma r_Read_append: "length xs = n \<Longrightarrow> xs @ rest \<noteq> [] \<Longrightarrow> r_Read n (xs @ rest) = (Ok xs, rest)"
  by (simp add: r_Read_def)

text \<open>The encoded length is read back, but for the length whose byte means \<open>NULL\<close>.\<close>

lemma readLenEncodedInteger_getLengEncStr:
  assumes "length s < 65536" and "length s \<noteq> 251"
  shows "\<exists>off. readLenEncodedInteger (getLengEncStr s @ rest) = ((length s, off), bytes_of_string s @ rest)"
proof (cases "length s > 251")
  case True
  have "r_Read 2 (le_bytes 2 (length s) @ bytes_of_string s @ rest) = (Ok (le_bytes 2 (length s)), bytes_of_string s @ rest)"
    by (rule r_Read_append) (use True in auto)
  moreover have "le_nat (le_bytes 2 (length s)) = length s" using assms(1) by (simp add: le_nat_le_bytes)
  ultimately show ?thesis using True by (simp add: readLenEncodedInteger_def getLengEncStr_def Let_def del: le_bytes.simps)
next
  case False
  obtain w where w: "w = (word_of_nat (length s) :: byte)" by simp
  then have u: "unat w = length s" using False by (simp add: unat_of_nat take_bit_eq_mod)
  then have "unat w < 251" using False assms(2) by simp
  then have "w \<noteq> 0xfb" "w \<noteq> 0xfc" "w \<noteq> 0xfd" "w \<noteq> 0xfe" by auto
  then show ?thesis using False u by (simp add: readLenEncodedInteger_def getLengEncStr_def Let_def w[symmetric])
qed

lemma decodeFieldTypeString_getLengEncStr:
  assumes "length s < 65536" and "length s \<noteq> 251"
  shows "decodeFieldTypeString (getLengEncStr s @ rest) = (Ok s, rest)"
proof -
  obtain off where off: "readLenEncodedInteger (getLengEncStr s @ rest) = ((length s, off), bytes_of_string s @ rest)"
    using readLenEncodedInteger_getLengEncStr[OF assms] by blast
  have small: "\<not> length s > maxAlloc" using assms(1) by (simp add: maxAlloc_def)
  show ?thesis
  proof (cases "bytes_of_string s @ rest = []")
    case True
    then show ?thesis using off small
      by (simp add: decodeFieldTypeString_def readLenEncodedString_def r_Read_def)
  next
    case False
    then have "r_Read (length s) (bytes_of_string s @ rest) = (Ok (bytes_of_string s), rest)" by (simp add: r_Read_append)
    then show ?thesis using off small by (simp add: decodeFieldTypeString_def readLenEncodedString_def)
  qed
qed

lemma decodeFieldTypeString_251:
  assumes "length s = 251"
  shows "decodeFieldTypeString (getLengEncStr s @ rest) = (Ok '''', bytes_of_string s @ rest)"
proof -
  have "bytes_of_string s \<noteq> []" using assms by auto
  then show ?thesis using assms
    by (simp add: decodeFieldTypeString_def readLenEncodedString_def readLenEncodedInteger_def getLengEncStr_def Let_def
      r_Read_def maxAlloc_def string_of_bytes_def)
qed

text \<open>Packets of a connection.\<close>

fun reads_as :: "bytes \<Rightarrow> bytes list \<Rightarrow> bool" where
  "reads_as conn [] \<longleftrightarrow> conn = []"
| "reads_as conn (p # ps) \<longleftrightarrow> (\<exists>rest. readPacket conn = (Ok p, rest) \<and> reads_as rest ps)"

lemma readPacket_framed:
  assumes "length data < 2 ^ 24"
  shows "readPacket (le_bytes 3 (length data) @ [i] @ data @ rest) = (Ok (le_bytes 3 (length data) @ [i] @ data), rest)"
proof -
  have "le_nat (le_bytes 3 (length data)) = length data" using assms by (simp add: le_nat_le_bytes)
  then show ?thesis by (simp add: readPacket_def Let_def del: le_bytes.simps)
qed

fun numbered :: "nat \<Rightarrow> bytes list \<Rightarrow> bytes list" where
  "numbered i [] = []"
| "numbered i (d # ds) = (le_bytes 3 (length d) @ [word_of_nat (Suc i)] @ d) # numbered (Suc i) ds"

lemma complete_all_reads:
  "(\<forall>d\<in>set ds. length d < 2 ^ 24) \<Longrightarrow> reads_as (complete_all i ds) (numbered i ds)"
  by (induction i ds rule: complete_all.induct)
    (auto simp: completePacket_def readPacket_framed[simplified] simp del: le_bytes.simps)

lemma length_numbered [simp]: "length (numbered i ds) = length ds"
  by (induction ds arbitrary: i) simp_all

lemma numbered_nth: "k < length ds \<Longrightarrow> drop 4 (numbered i ds ! k) = ds ! k \<and> numbered i ds ! k ! 3 = word_of_nat (Suc (i + k))"
  by (induction ds arbitrary: i k) (auto simp: nth_Cons' nth_append simp del: le_bytes.simps)

lemma length_getLengEncStr: "length s < 65536 \<Longrightarrow> length (getLengEncStr s) \<le> 65538"
  by (simp add: getLengEncStr_def Let_def)

lemma rows_payloads_short:
  assumes "\<forall>(k, v)\<in>set rows. length k < 65536 \<and> length v < 65536" and "d \<in> set (rows_payloads depr rows)"
  shows "length d < 2 ^ 24"
proof -
  consider k v where "(k, v) \<in> set rows" "d = getLengEncStr k @ getLengEncStr v"
    | "d = columnDef ''BC'' ''CustomResponse'' ''Key'' \<or> d = columnDef ''BC'' ''CustomResponse'' ''Value''"
    | "length d \<le> 7"
    using assms(2) by (auto simp: rows_payloads_def split: if_splits)
  then show ?thesis
  proof cases
    case 1
    then have "length k < 65536" "length v < 65536" using assms(1) by auto
    then show ?thesis using 1 length_getLengEncStr[of k] length_getLengEncStr[of v] by simp
  qed (auto simp: columnDef_def getLengEncStr_def)
qed


lemma five_bytes: "5 \<le> length xs \<Longrightarrow> \<exists>a b c d e ys. xs = a # b # c # d # e # ys"
  by (simp add: eval_nat_numeral Suc_le_length_iff) blast

text \<open>A replaced query is decoded as that query; with a short query the length of the packet is right.\<close>

lemma replaced_query:
  assumes "decodeQueryRequest original = Ok sql" and "q \<noteq> ''''"
  shows "\<exists>p. customResponseReplaceQuery_getPacket original q = Ok p \<and> decodeQueryRequest p = Ok q \<and>
     (original ! 2 = 0 \<and> length q < 65535 \<longrightarrow> readPacket (p @ rest) = (Ok p, rest))"
proof -
  have o5: "5 < length original" "original ! 4 = comQuery \<or> original ! 4 = comStmtPrepare"
    using assms(1) by (auto simp: decodeQueryRequest_def split: if_splits)
  obtain a0 a1 a2 a3 a4 os where org: "original = a0 # a1 # a2 # a3 # a4 # os"
    using five_bytes[OF less_imp_le[OF o5(1)]] by blast
  obtain l0 l1 where lb: "le_bytes 2 (Suc (length q)) = [l0, l1]" by (simp add: numeral_2_eq_2)
  have get: "customResponseReplaceQuery_getPacket original q = Ok (l0 # l1 # a2 # a3 # a4 # bytes_of_string q)"
    using lb by (simp add: customResponseReplaceQuery_getPacket_def org Let_def)
  have "decodeQueryRequest (l0 # l1 # a2 # a3 # a4 # bytes_of_string q) = Ok q"
    using o5(2) assms(2) org by (cases q) (auto simp: decodeQueryRequest_def readEOFLengthString_def)
  moreover have "readPacket ((l0 # l1 # a2 # a3 # a4 # bytes_of_string q) @ rest) = (Ok (l0 # l1 # a2 # a3 # a4 # bytes_of_string q), rest)"
    if "a2 = 0" "length q < 65535"
  proof -
    have "le_nat [l0, l1] = Suc (length q)" unfolding lb[symmetric] using that(2) by (simp add: le_nat_le_bytes)
    then show ?thesis using that(1) by (simp add: readPacket_def Let_def numeral_eq_Suc)
  qed
  moreover have "original ! 2 = a2" by (simp add: org numeral_2_eq_2)
  ultimately show ?thesis using get by simp
qed

section \<open>Reading a response ends\<close>

text \<open>A packet that is read takes at least its header off the connection, and an error leaves nothing.\<close>

lemma readPacket_shorter:
  "readPacket conn = (r, rest) \<Longrightarrow> (\<exists>pkt. r = Ok pkt \<and> length rest + 4 \<le> length conn \<and> conn = pkt @ rest) \<or> r = Err errEOF \<and> rest = []"
  by (auto simp: readPacket_def Let_def split: if_splits)

lemma read_packets_shorter:
  "read_packets n data conn = (r, rest) \<Longrightarrow>
     (\<exists>more. r = Ok (data @ more) \<and> conn = more @ rest) \<or> r = Err errEOF"
proof (induction n arbitrary: data conn)
  case (Suc n)
  obtain r1 c1 where r1: "readPacket conn = (r1, c1)" by fastforce
  show ?case
  proof (cases r1)
    case (Ok pkt)
    then have "conn = pkt @ c1" using readPacket_shorter[OF r1] by auto
    moreover have "read_packets n (data @ pkt) c1 = (r, rest)" using Suc.prems r1 Ok by simp
    ultimately show ?thesis using Suc.IH by fastforce
  qed (use readPacket_shorter[OF r1] Suc.prems r1 in auto)
qed simp

lemma read_until_eof_ends:
  "length conn < n \<Longrightarrow> read_until_eof n data conn = (r, rest) \<Longrightarrow>
     (\<exists>more. r = Ok (data @ more) \<and> conn = more @ rest) \<or> r = Err errEOF \<or> r = Panic"
proof (induction n arbitrary: data conn)
  case (Suc n)
  obtain r1 c1 where r1: "readPacket conn = (r1, c1)" by fastforce
  show ?case
  proof (cases r1)
    case (Ok pkt)
    then have c: "conn = pkt @ c1" "length c1 < n" using readPacket_shorter[OF r1] Suc.prems(1) by auto
    show ?thesis
    proof (cases "index pkt 4")
      case (Ok t)
      then show ?thesis using Suc.prems(2) Suc.IH[OF c(2), of "data @ pkt"] r1 \<open>r1 = Ok pkt\<close> c(1)
        by (cases "t = responseEof") auto
    qed (use Suc.prems(2) r1 \<open>r1 = Ok pkt\<close> in \<open>auto simp: index_def split: if_splits\<close>)
  qed (use readPacket_shorter[OF r1] Suc.prems r1 in auto)
qed simp


end
