(* ===== verification/Structures.thy ===== *)
theory Structures
  imports Lib_Crypt Go_Float
begin

text \<open>
  \<^verbatim>\<open>node/structures\<close>: transactions, their currency part and SQL part, blocks, the bytes a transaction
  is signed over, the checks of \<^verbatim>\<open>Transaction.Verify\<close> and of \<^verbatim>\<open>verify.go\<close>. A \<open>[]byte\<close> that is
  \<open>nil\<close> and an empty one are both \<open>[]\<close>: after a record has gone through \<^verbatim>\<open>encoding/gob\<close> the two agree.
  A Go map from input positions to transactions is an association list whose values may be \<open>nil\<close>.
\<close>

section \<open>Data\<close>

record txinput =
  vin_Txid :: bytes
  vin_Vout :: int

record txoutput =
  vout_Value :: float64
  vout_PubKeyHash :: bytes

record sqlupdate =
  su_ReferenceID :: bytes
  su_Query :: bytes
  su_RollbackQuery :: bytes
  su_PrevTransaction :: bytes

record transaction =
  tx_ID :: bytes
  tx_Time :: int
  tx_Signature :: bytes
  tx_ByPubKey :: bytes
  tx_Vin :: "txinput list"
  tx_Vout :: "txoutput list"
  tx_SQLCommand :: sqlupdate
  tx_SQLBaseTX :: bytes

record txoutput_independent =
  oi_Value :: float64
  oi_DestPubKeyHash :: bytes
  oi_SendPubKeyHash :: bytes
  oi_TXID :: bytes
  oi_OIndex :: int
  oi_IsBase :: bool
  oi_BlockHash :: bytes

record block =
  blk_Timestamp :: int
  blk_Transactions :: "transaction list"
  blk_PrevBlockHash :: bytes
  blk_Hash :: bytes
  blk_Nonce :: int
  blk_Height :: int

record block_short =
  bs_PrevBlockHash :: bytes
  bs_Hash :: bytes
  bs_Height :: int

text \<open>\<^verbatim>\<open>encoding/gob\<close> for a transaction (encoding and decoding) and for a block.\<close>

record gob =
  gob_tx :: "transaction \<Rightarrow> bytes"
  gob_untx :: "bytes \<Rightarrow> transaction res"
  gob_block :: "block \<Rightarrow> bytes"

type_synonym prevtxs = "(int \<times> transaction option) list"

definition CurrencySmallestUnit :: float64 where
  "CurrencySmallestUnit = 0x3E45798EE2308C3A"

definition emptySQLUpdate :: sqlupdate where
  "emptySQLUpdate = \<lparr>su_ReferenceID = [], su_Query = [], su_RollbackQuery = [], su_PrevTransaction = []\<rparr>"

definition emptyTransaction :: transaction where
  "emptyTransaction = \<lparr>tx_ID = [], tx_Time = 0, tx_Signature = [], tx_ByPubKey = [], tx_Vin = [],
     tx_Vout = [], tx_SQLCommand = emptySQLUpdate, tx_SQLBaseTX = []\<rparr>"

section \<open>SQL part, inputs and outputs\<close>

definition SQLUpdate_IsEmpty :: "sqlupdate \<Rightarrow> bool" where
  "SQLUpdate_IsEmpty q \<longleftrightarrow> length (su_Query q) = 0"

definition SQLUpdate_ToBytes :: "sqlupdate \<Rightarrow> bytes" where
  "SQLUpdate_ToBytes q = su_ReferenceID q @ su_Query q @ su_RollbackQuery q"

definition NewSQLUpdate :: "string \<Rightarrow> string \<Rightarrow> string \<Rightarrow> sqlupdate" where
  "NewSQLUpdate sql referenceID rollbackSQL =
     emptySQLUpdate\<lparr>su_Query := bytes_of_string sql, su_RollbackQuery := bytes_of_string rollbackSQL,
       su_ReferenceID := bytes_of_string referenceID\<rparr>"

text \<open>The conversion \<open>int32(input.Vout)\<close> keeps the low 32 bits.\<close>

definition TXInput_ToBytes :: "txinput \<Rightarrow> bytes" where
  "TXInput_ToBytes i = vin_Txid i @ be_bytes 4 (vin_Vout i)"

definition TXOutput_ToBytes :: "txoutput \<Rightarrow> bytes" where
  "TXOutput_ToBytes out = float_bytes (vout_Value out) @ vout_PubKeyHash out"

definition Lock :: "'k crypto \<Rightarrow> txoutput \<Rightarrow> bytes \<Rightarrow> txoutput" where
  "Lock cr out address =
     (case AddresBToPubKeyHash cr address of
        Ok h \<Rightarrow> out\<lparr>vout_PubKeyHash := h\<rparr>
      | _ \<Rightarrow> out\<lparr>vout_PubKeyHash := []\<rparr>)"

definition NewTXOutput :: "'k crypto \<Rightarrow> float64 \<Rightarrow> string \<Rightarrow> txoutput" where
  "NewTXOutput cr value address =
     Lock cr \<lparr>vout_Value = value, vout_PubKeyHash = []\<rparr> (bytes_of_string address)"

definition HasOutAddress :: "txoutput \<Rightarrow> bool" where
  "HasOutAddress out \<longleftrightarrow> length (vout_PubKeyHash out) > 0"

definition IsLockedWithKey :: "txoutput \<Rightarrow> bytes \<Rightarrow> bool" where
  "IsLockedWithKey out pubKeyHash \<longleftrightarrow> vout_PubKeyHash out = pubKeyHash"

definition OI_IsLockedWithKey :: "txoutput_independent \<Rightarrow> bytes \<Rightarrow> bool" where
  "OI_IsLockedWithKey out pubKeyHash \<longleftrightarrow> oi_DestPubKeyHash out = pubKeyHash"

definition LoadFromSimple ::
  "txoutput \<Rightarrow> bytes \<Rightarrow> int \<Rightarrow> bytes \<Rightarrow> bool \<Rightarrow> bytes \<Rightarrow> txoutput_independent" where
  "LoadFromSimple sout txid ind sender iscoinbase blockHash =
     \<lparr>oi_Value = vout_Value sout, oi_DestPubKeyHash = vout_PubKeyHash sout,
      oi_SendPubKeyHash = sender, oi_TXID = txid, oi_OIndex = ind, oi_IsBase = iscoinbase,
      oi_BlockHash = blockHash\<rparr>"

definition OI_Less :: "txoutput_independent \<Rightarrow> txoutput_independent \<Rightarrow> bool" where
  "OI_Less a b \<longleftrightarrow> flt (oi_Value a) (oi_Value b)"

definition TX_Less :: "transaction \<Rightarrow> transaction \<Rightarrow> bool" where
  "TX_Less a b \<longleftrightarrow> tx_Time a < tx_Time b"

section \<open>Transactions\<close>

definition IsCurrencyTransfer :: "transaction \<Rightarrow> bool" where
  "IsCurrencyTransfer tx \<longleftrightarrow>
     (if length (tx_Vin tx) > 0 then True else if length (tx_Vout tx) > 0 then True else False)"

definition IsSQLCommand :: "transaction \<Rightarrow> bool" where
  "IsSQLCommand tx \<longleftrightarrow> \<not> SQLUpdate_IsEmpty (tx_SQLCommand tx)"

definition IsCoinbaseTransfer :: "transaction \<Rightarrow> bool" where
  "IsCoinbaseTransfer tx \<longleftrightarrow>
     (case tx_Vin tx of [i] \<Rightarrow> vin_Txid i = [] \<and> vin_Vout i = - 1 | _ \<Rightarrow> False)"

definition NeedsSignature :: "transaction \<Rightarrow> bool" where
  "NeedsSignature tx \<longleftrightarrow> \<not> IsCoinbaseTransfer tx"

definition makeHash :: "'k crypto \<Rightarrow> gob \<Rightarrow> transaction \<Rightarrow> transaction" where
  "makeHash cr gb tx = tx\<lparr>tx_ID := sha256 cr (gob_tx gb (tx\<lparr>tx_ID := []\<rparr>))\<rparr>"

definition TX_Copy :: "transaction \<Rightarrow> transaction" where
  "TX_Copy tx = emptyTransaction\<lparr>tx_ID := tx_ID tx, tx_Time := tx_Time tx, tx_Vin := tx_Vin tx,
     tx_Vout := tx_Vout tx, tx_Signature := tx_Signature tx, tx_ByPubKey := tx_ByPubKey tx,
     tx_SQLCommand := tx_SQLCommand tx, tx_SQLBaseTX := tx_SQLBaseTX tx\<rparr>"

definition TX_ToBytes :: "transaction \<Rightarrow> bytes" where
  "TX_ToBytes tx =
     tx_ID tx @ concat (map TXInput_ToBytes (tx_Vin tx)) @ concat (map TXOutput_ToBytes (tx_Vout tx))
     @ be_bytes 8 (tx_Time tx) @ tx_Signature tx @ tx_ByPubKey tx
     @ SQLUpdate_ToBytes (tx_SQLCommand tx) @ tx_SQLBaseTX tx"

definition CreatedByPubKeyHash :: "'k crypto \<Rightarrow> transaction \<Rightarrow> bytes \<Rightarrow> bool" where
  "CreatedByPubKeyHash cr tx pubKeyHash \<longleftrightarrow> HashPubKey cr (tx_ByPubKey tx) = pubKeyHash"

definition GetSQLQuery :: "transaction \<Rightarrow> string" where
  "GetSQLQuery tx =
     (if length (su_Query (tx_SQLCommand tx)) > 0 then string_of_bytes (su_Query (tx_SQLCommand tx)) else '''')"

text \<open>
  The loop of \<^verbatim>\<open>PrepareSignData\<close> over the inputs, from position \<open>k\<close> on. A missing key is an error, a
  \<open>nil\<close> transaction and an output index out of range are panics.
\<close>

fun check_sign_inputs :: "bytes \<Rightarrow> prevtxs \<Rightarrow> int \<Rightarrow> txinput list \<Rightarrow> unit res" where
  "check_sign_inputs pkh prevTXs k [] = Ok ()"
| "check_sign_inputs pkh prevTXs k (vin # vins) =
     (case tget prevTXs k of
        None \<Rightarrow> Err (ErrNew ''Previous transaction is not correct'')
      | Some p \<Rightarrow> bindR (deref p) (\<lambda>prev.
          if tx_ID prev \<noteq> vin_Txid vin then Err (ErrNew ''Previous transaction is not correct'')
          else bindR (index (tx_Vout prev) (vin_Vout vin)) (\<lambda>out.
            if pkh \<noteq> vout_PubKeyHash out
            then Err (ErrNew ''Previous Transaction was assigned to other address'')
            else check_sign_inputs pkh prevTXs (k + 1) vins)))"

definition PrepareSignData ::
  "'k crypto \<Rightarrow> transaction \<Rightarrow> bytes \<Rightarrow> prevtxs \<Rightarrow> (bytes \<times> transaction) res" where
  "PrepareSignData cr tx pubKey prevTXs =
     bindR (check_sign_inputs (HashPubKey cr pubKey) prevTXs 0 (tx_Vin tx)) (\<lambda>_.
       let tx = tx\<lparr>tx_ByPubKey := pubKey, tx_Signature := [], tx_ID := []\<rparr>
       in Ok (TX_ToBytes tx, tx))"

definition CompleteTransaction :: "'k crypto \<Rightarrow> gob \<Rightarrow> transaction \<Rightarrow> bytes \<Rightarrow> transaction" where
  "CompleteTransaction cr gb tx signature = makeHash cr gb (tx\<lparr>tx_Signature := signature\<rparr>)"

text \<open>The three loops of \<^verbatim>\<open>Verify\<close>: total of the inputs, owner of every input, the outputs.\<close>

definition prev_at :: "prevtxs \<Rightarrow> int \<Rightarrow> transaction res" where
  "prev_at prevTXs k = deref (case tget prevTXs k of None \<Rightarrow> None | Some p \<Rightarrow> p)"

fun verify_total_input :: "prevtxs \<Rightarrow> int \<Rightarrow> txinput list \<Rightarrow> float64 \<Rightarrow> float64 res" where
  "verify_total_input prevTXs k [] tot = Ok tot"
| "verify_total_input prevTXs k (vin # vins) tot =
     bindR (prev_at prevTXs k) (\<lambda>prev.
       if tx_ID prev = [] then Err (ErrNew ''Previous transaction is not correct'')
       else bindR (index (tx_Vout prev) (vin_Vout vin)) (\<lambda>out.
         verify_total_input prevTXs (k + 1) vins (fadd tot (vout_Value out))))"

fun verify_owner :: "bytes \<Rightarrow> prevtxs \<Rightarrow> int \<Rightarrow> txinput list \<Rightarrow> unit res" where
  "verify_owner pkh prevTXs k [] = Ok ()"
| "verify_owner pkh prevTXs k (vin # vins) =
     bindR (prev_at prevTXs k) (\<lambda>prev.
     bindR (index (tx_Vout prev) (vin_Vout vin)) (\<lambda>out.
       if vout_PubKeyHash out \<noteq> pkh
       then Err (ErrNew ''Sign Key Hash for input is different from output hash'')
       else verify_owner pkh prevTXs (k + 1) vins))"

fun verify_outputs :: "txoutput list \<Rightarrow> float64 \<Rightarrow> float64 res" where
  "verify_outputs [] tot = Ok tot"
| "verify_outputs (out # outs) tot =
     (if flt (vout_Value out) CurrencySmallestUnit then Err (ErrNew ''Too small output value'')
      else verify_outputs outs (fadd tot (vout_Value out)))"

definition Verify :: "'k crypto \<Rightarrow> transaction \<Rightarrow> prevtxs \<Rightarrow> float64 \<Rightarrow> unit res" where
  "Verify cr tx prevTXs coinstoadd =
     (if IsCoinbaseTransfer tx then
        bindR (index (tx_Vout tx) 0) (\<lambda>out.
          if \<not> feq (vout_Value out) coinstoadd
          then Err (ErrNew ''Value of coinbase transaction is wrong'')
          else if length (tx_Vout tx) > 1
          then Err (ErrNew ''Coinbase transaction can have only 1 output'')
          else Ok ())
      else
        bindR (verify_total_input prevTXs 0 (tx_Vin tx) 0) (\<lambda>totalinput.
          let txCopy = (TX_Copy tx)\<lparr>tx_Signature := [], tx_ID := []\<rparr>
          in bindR (VerifySignature cr (tx_Signature tx) (TX_ToBytes txCopy) (tx_ByPubKey tx)) (\<lambda>v.
            if \<not> v then Err (ErrNew ''Signatire doe not match for TX'')
            else bindR (verify_owner (HashPubKey cr (tx_ByPubKey tx)) prevTXs 0 (tx_Vin tx)) (\<lambda>_.
              bindR (verify_outputs (tx_Vout tx) 0) (\<lambda>totaloutput.
                if fle CurrencySmallestUnit (fabs (fsub totalinput totaloutput))
                then Err (ErrNew ''Input and output values of a transaction are not same'')
                else Ok ())))))"

section \<open>Constructors\<close>

definition NewTransaction :: "int \<Rightarrow> txinput list \<Rightarrow> txoutput list \<Rightarrow> transaction" where
  "NewTransaction now inputs outputs =
     emptyTransaction\<lparr>tx_Vin := inputs, tx_Vout := outputs, tx_SQLCommand := emptySQLUpdate, tx_Time := now\<rparr>"

definition NewSQLTransaction :: "int \<Rightarrow> sqlupdate \<Rightarrow> txinput list \<Rightarrow> txoutput list \<Rightarrow> transaction res" where
  "NewSQLTransaction now sql inputs outputs =
     (if SQLUpdate_IsEmpty sql then Err (ErrNew ''EMpty SQL trsnaction info'')
      else Ok (emptyTransaction\<lparr>tx_Vin := inputs, tx_Vout := outputs, tx_SQLCommand := sql, tx_Time := now\<rparr>))"

text \<open>\<open>rnd\<close> is the outcome of \<open>rand.Read\<close>, read only when no data is given.\<close>

definition NewCoinbaseTransaction ::
  "'k crypto \<Rightarrow> gob \<Rightarrow> int \<Rightarrow> bytes option \<Rightarrow> string \<Rightarrow> string \<Rightarrow> float64 \<Rightarrow> transaction res" where
  "NewCoinbaseTransaction cr gb now rnd toaddr data coinstoadd =
     (if data = '''' \<and> rnd = None then Err (ErrNew ''rand.Read'')
      else Ok (makeHash cr gb (emptyTransaction\<lparr>
             tx_Vin := [\<lparr>vin_Txid = [], vin_Vout = - 1\<rparr>],
             tx_Vout := [NewTXOutput cr coinstoadd toaddr], tx_Time := now\<rparr>)))"

section \<open>Blocks\<close>

definition ReverseBlocksSlice :: "block list \<Rightarrow> block list" where
  "ReverseBlocksSlice ss =
     (if int (length ss) - 1 < 1 then ss else swap_loop (length ss div 2) (length ss - 1) ss)"

definition ReverseBlocksShortSlice :: "block_short list \<Rightarrow> block_short list" where
  "ReverseBlocksShortSlice ss =
     (if int (length ss) - 1 < 1 then ss else swap_loop (length ss div 2) (length ss - 1) ss)"

definition GetShortCopy :: "block \<Rightarrow> block_short" where
  "GetShortCopy b =
     \<lparr>bs_PrevBlockHash = blk_PrevBlockHash b, bs_Hash = blk_Hash b, bs_Height = blk_Height b\<rparr>"

definition Block_Copy :: "block \<Rightarrow> block" where
  "Block_Copy b =
     \<lparr>blk_Timestamp = blk_Timestamp b, blk_Transactions = map TX_Copy (blk_Transactions b),
      blk_PrevBlockHash = CopyBytes (blk_PrevBlockHash b), blk_Hash = CopyBytes (blk_Hash b),
      blk_Nonce = blk_Nonce b, blk_Height = blk_Height b\<rparr>"

definition PrepareNewBlock :: "int \<Rightarrow> transaction list \<Rightarrow> bytes \<Rightarrow> int \<Rightarrow> block" where
  "PrepareNewBlock now transactions prevBlockHash height =
     \<lparr>blk_Timestamp = now, blk_Transactions = transactions, blk_PrevBlockHash = CopyBytes prevBlockHash,
      blk_Hash = [], blk_Nonce = 0, blk_Height = height\<rparr>"

definition HashTransactions :: "'k crypto \<Rightarrow> block \<Rightarrow> bytes res" where
  "HashTransactions cr b =
     bindR (NewMerkleTree cr (map TX_ToBytes (blk_Transactions b))) (\<lambda>root. Ok (mData root))"

section \<open>Checks of the paid part (verify.go)\<close>

fun CheckTXOutputsAreOnlyToGivenAddresses :: "txoutput list \<Rightarrow> bytes list \<Rightarrow> unit res" where
  "CheckTXOutputsAreOnlyToGivenAddresses [] PubKeyHashes = Ok ()"
| "CheckTXOutputsAreOnlyToGivenAddresses (out # outs) PubKeyHashes =
     (if \<exists>h\<in>set PubKeyHashes. h = vout_PubKeyHash out
      then CheckTXOutputsAreOnlyToGivenAddresses outs PubKeyHashes
      else Err (ErrNew ''Out address is not found in the given list''))"

definition CheckTXOutputValueToAddress :: "transaction \<Rightarrow> bytes \<Rightarrow> float64 \<Rightarrow> unit res" where
  "CheckTXOutputValueToAddress tx PubKeyHash amount =
     (let total = foldl (\<lambda>t out. if vout_PubKeyHash out = PubKeyHash then fadd t (vout_Value out) else t)
                    0 (tx_Vout tx)
      in if \<not> feq total amount then Err (ErrNew ''TX output value is not as expected'') else Ok ())"

section \<open>Properties\<close>

lemma TX_Copy_id [simp]: "TX_Copy tx = tx"
  by (simp add: TX_Copy_def emptyTransaction_def)

lemma Block_Copy_id [simp]: "Block_Copy b = b"
  by (simp add: Block_Copy_def map_idI)

lemma ReverseBlocksSlice_rev: "ReverseBlocksSlice ss = rev ss"
proof (cases "length ss < 2")
  case True
  then show ?thesis by (cases ss; cases "tl ss"; auto simp: ReverseBlocksSlice_def)
next
  case False
  then show ?thesis
    using ReverseBytes_rev[of ss] by (simp add: ReverseBlocksSlice_def ReverseBytes_def)
qed

lemma ReverseBlocksShortSlice_rev: "ReverseBlocksShortSlice ss = rev ss"
proof (cases "length ss < 2")
  case True
  then show ?thesis by (cases ss; cases "tl ss"; auto simp: ReverseBlocksShortSlice_def)
next
  case False
  then show ?thesis
    using ReverseBytes_rev[of ss] by (simp add: ReverseBlocksShortSlice_def ReverseBytes_def)
qed

lemma IsCurrencyTransfer_iff: "IsCurrencyTransfer tx \<longleftrightarrow> tx_Vin tx \<noteq> [] \<or> tx_Vout tx \<noteq> []"
  by (simp add: IsCurrencyTransfer_def)

lemma IsCoinbaseTransfer_iff:
  "IsCoinbaseTransfer tx \<longleftrightarrow> (\<exists>i. tx_Vin tx = [i] \<and> vin_Txid i = [] \<and> vin_Vout i = - 1)"
  by (auto simp: IsCoinbaseTransfer_def split: list.split)

lemma IsSQLCommand_iff: "IsSQLCommand tx \<longleftrightarrow> su_Query (tx_SQLCommand tx) \<noteq> []"
  by (simp add: IsSQLCommand_def SQLUpdate_IsEmpty_def)

lemma CurrencySmallestUnit_const: "CurrencySmallestUnit = fconst 1 100000000"
  unfolding CurrencySmallestUnit_def by code_simp

text \<open>An input that a list of previous transactions resolves: the output it spends.\<close>

definition spent_output :: "prevtxs \<Rightarrow> int \<Rightarrow> txinput \<Rightarrow> txoutput option" where
  "spent_output prevTXs k vin =
     (case tget prevTXs k of
        Some (Some p) \<Rightarrow> (if 0 \<le> vin_Vout vin \<and> vin_Vout vin < int (length (tx_Vout p))
                         then Some (tx_Vout p ! nat (vin_Vout vin)) else None)
      | _ \<Rightarrow> None)"

fun spent_outputs :: "prevtxs \<Rightarrow> int \<Rightarrow> txinput list \<Rightarrow> txoutput list option" where
  "spent_outputs prevTXs k [] = Some []"
| "spent_outputs prevTXs k (vin # vins) =
     (case (spent_output prevTXs k vin, spent_outputs prevTXs (k + 1) vins) of
        (Some out, Some outs) \<Rightarrow> Some (out # outs) | _ \<Rightarrow> None)"

text \<open>Every previous transaction that an input names has an identifier.\<close>

definition prev_has_id :: "prevtxs \<Rightarrow> int \<Rightarrow> bool" where
  "prev_has_id prevTXs k \<longleftrightarrow> (case tget prevTXs k of Some (Some p) \<Rightarrow> tx_ID p \<noteq> [] | _ \<Rightarrow> False)"

lemma verify_total_input_Ok:
  "verify_total_input prevTXs k vins t = Ok t' \<longleftrightarrow>
    (\<exists>outs. spent_outputs prevTXs k vins = Some outs \<and> t' = foldl fadd t (map vout_Value outs) \<and>
       (\<forall>i<length vins. prev_has_id prevTXs (k + int i)))"
proof (induction vins arbitrary: k t)
  case (Cons vin vins)
  show ?case
    by (auto simp: res_simps prev_at_def spent_output_def prev_has_id_def Cons.IH All_less_Suc2
        add.assoc split: option.splits if_splits)
qed auto

lemma spent_output_Some:
  "spent_output prevTXs k vin = Some out \<longleftrightarrow>
     (\<exists>p. prev_at prevTXs k = Ok p \<and> index (tx_Vout p) (vin_Vout vin) = Ok out)"
  by (auto simp: spent_output_def prev_at_def res_simps split: option.splits)

lemma verify_owner_Ok:
  "spent_outputs prevTXs k vins = Some outs \<Longrightarrow>
   verify_owner pkh prevTXs k vins = Ok () \<longleftrightarrow> (\<forall>out\<in>set outs. vout_PubKeyHash out = pkh)"
proof (induction vins arbitrary: k outs)
  case (Cons vin vins)
  then obtain out outs' where o: "spent_output prevTXs k vin = Some out"
    "spent_outputs prevTXs (k + 1) vins = Some outs'" "outs = out # outs'"
    by (auto split: option.splits)
  from o(1) obtain p where "prev_at prevTXs k = Ok p" "index (tx_Vout p) (vin_Vout vin) = Ok out"
    by (auto simp: spent_output_Some)
  then show ?case using Cons.IH[OF o(2)] o(3) by simp
qed simp

lemma verify_outputs_Ok:
  "verify_outputs outs t = Ok t' \<longleftrightarrow>
    (\<forall>out\<in>set outs. \<not> flt (vout_Value out) CurrencySmallestUnit) \<and> t' = foldl fadd t (map vout_Value outs)"
  by (induction outs arbitrary: t) auto

definition sign_data :: "transaction \<Rightarrow> bytes" where
  "sign_data tx = TX_ToBytes (tx\<lparr>tx_Signature := [], tx_ID := []\<rparr>)"

text \<open>What an accepted transaction that is not a coinbase satisfies, and nothing more.\<close>

definition tx_accepted :: "'k crypto \<Rightarrow> transaction \<Rightarrow> prevtxs \<Rightarrow> bool" where
  "tx_accepted cr tx prevTXs \<longleftrightarrow>
     (\<exists>outs. spent_outputs prevTXs 0 (tx_Vin tx) = Some outs \<and>
        (\<forall>i<length (tx_Vin tx). prev_has_id prevTXs (int i)) \<and>
        VerifySignature cr (tx_Signature tx) (sign_data tx) (tx_ByPubKey tx) = Ok True \<and>
        (\<forall>out\<in>set outs. vout_PubKeyHash out = HashPubKey cr (tx_ByPubKey tx)) \<and>
        (\<forall>out\<in>set (tx_Vout tx). \<not> flt (vout_Value out) CurrencySmallestUnit) \<and>
        \<not> fle CurrencySmallestUnit (fabs (fsub (fsum (map vout_Value outs))
                                              (fsum (map vout_Value (tx_Vout tx))))))"

lemma Verify_Ok_iff:
  assumes "\<not> IsCoinbaseTransfer tx"
  shows "Verify cr tx prevTXs coins = Ok () \<longleftrightarrow> tx_accepted cr tx prevTXs"
proof -
  have copy: "TX_ToBytes ((TX_Copy tx)\<lparr>tx_Signature := [], tx_ID := []\<rparr>) = sign_data tx"
    by (simp add: sign_data_def)
  show ?thesis
  proof
    assume "Verify cr tx prevTXs coins = Ok ()"
    then show "tx_accepted cr tx prevTXs"
      unfolding Verify_def Let_def copy tx_accepted_def using assms
      by (auto simp: bindR_eq_Ok verify_total_input_Ok verify_outputs_Ok verify_owner_Ok fsum_def
          split: if_splits)
  next
    assume "tx_accepted cr tx prevTXs"
    then obtain outs where outs: "spent_outputs prevTXs 0 (tx_Vin tx) = Some outs"
      "\<forall>i<length (tx_Vin tx). prev_has_id prevTXs (int i)"
      "VerifySignature cr (tx_Signature tx) (sign_data tx) (tx_ByPubKey tx) = Ok True"
      "\<forall>out\<in>set outs. vout_PubKeyHash out = HashPubKey cr (tx_ByPubKey tx)"
      "\<forall>out\<in>set (tx_Vout tx). \<not> flt (vout_Value out) CurrencySmallestUnit"
      "\<not> fle CurrencySmallestUnit (fabs (fsub (fsum (map vout_Value outs))
                                              (fsum (map vout_Value (tx_Vout tx)))))"
      unfolding tx_accepted_def by blast
    have "verify_total_input prevTXs 0 (tx_Vin tx) 0 = Ok (fsum (map vout_Value outs))"
      using outs(1,2) by (simp add: verify_total_input_Ok fsum_def)
    moreover have "verify_outputs (tx_Vout tx) 0 = Ok (fsum (map vout_Value (tx_Vout tx)))"
      using outs(5) by (simp add: verify_outputs_Ok fsum_def)
    moreover have "verify_owner (HashPubKey cr (tx_ByPubKey tx)) prevTXs 0 (tx_Vin tx) = Ok ()"
      using outs(1,4) by (simp add: verify_owner_Ok)
    ultimately show "Verify cr tx prevTXs coins = Ok ()"
      unfolding Verify_def Let_def copy using assms outs(3,6) by simp
  qed
qed

lemma Verify_coinbase_Ok_iff:
  assumes "IsCoinbaseTransfer tx"
  shows "Verify cr tx prevTXs coins = Ok () \<longleftrightarrow> (\<exists>out. tx_Vout tx = [out] \<and> feq (vout_Value out) coins)"
proof (cases "tx_Vout tx")
  case (Cons out outs)
  then show ?thesis using assms by (auto simp: Verify_def index_def)
qed (use assms in \<open>simp add: Verify_def index_def\<close>)

lemma Verify_coinbase_no_outputs:
  "IsCoinbaseTransfer tx \<Longrightarrow> tx_Vout tx = [] \<Longrightarrow> Verify cr tx prevTXs coins = Panic"
  by (simp add: Verify_def index_def)

lemma PrepareSignData_Ok:
  "PrepareSignData cr tx pk prevTXs = Ok (d, tx') \<Longrightarrow>
     d = sign_data tx' \<and> tx' = tx\<lparr>tx_ByPubKey := pk, tx_Signature := [], tx_ID := []\<rparr>"
  by (auto simp: PrepareSignData_def res_simps Let_def sign_data_def)

lemma fsub_nan_accept: "fis_nan a \<or> fis_nan b \<Longrightarrow> \<not> fle c (fabs (fsub a b))"
  by (simp add: fsub_nan fabs_fnan fle_def feq_def nan_not_flt)

lemma check_outputs_Ok:
  "CheckTXOutputsAreOnlyToGivenAddresses outs hs = Ok () \<longleftrightarrow> vout_PubKeyHash ` set outs \<subseteq> set hs"
  by (induction outs) auto

lemma makeHash_fields [simp]:
  "tx_Vin (makeHash cr gb tx) = tx_Vin tx" "tx_Vout (makeHash cr gb tx) = tx_Vout tx"
  "tx_SQLCommand (makeHash cr gb tx) = tx_SQLCommand tx" "tx_Time (makeHash cr gb tx) = tx_Time tx"
  "tx_ByPubKey (makeHash cr gb tx) = tx_ByPubKey tx" "tx_Signature (makeHash cr gb tx) = tx_Signature tx"
  "tx_SQLBaseTX (makeHash cr gb tx) = tx_SQLBaseTX tx"
  by (simp_all add: makeHash_def)

lemma NewCoinbase_is_coinbase:
  "NewCoinbaseTransaction cr gb now rnd toaddr data coins = Ok tx \<Longrightarrow>
     IsCoinbaseTransfer tx \<and> (\<not> fis_nan coins \<longrightarrow> Verify cr tx prevTXs coins = Ok ())"
  by (auto simp: NewCoinbaseTransaction_def IsCoinbaseTransfer_def Verify_def index_def NewTXOutput_def
      Lock_def feq_def split: if_splits res.splits)

text \<open>
  C28: Verify accepts a transaction exactly when it meets the declarative conditions on signature,
  owner, amounts and inputs, or, for a coinbase transfer, when it has the one output of the reward.
\<close>

lemma Verify_spec:
  "Verify cr tx prevTXs coins = Ok () \<longleftrightarrow>
     (if IsCoinbaseTransfer tx then \<exists>out. tx_Vout tx = [out] \<and> feq (vout_Value out) coins
      else tx_accepted cr tx prevTXs)"
  by (cases "IsCoinbaseTransfer tx") (simp_all add: Verify_Ok_iff Verify_coinbase_Ok_iff)

end
