(* ===== verification/Node_Protocol.thy ===== *)
theory Node_Protocol
  imports Proxy_Codec Structures
begin

text \<open>
  The protocol between nodes: the commands and structures of \<^verbatim>\<open>lib/nodeclient/nodeclient.go\<close>. A structure of one
  field is that field. \<open>com_codec\<close> is \<^verbatim>\<open>encoding/gob\<close> on these structures.
\<close>

section \<open>Commands\<close>

definition CommandAddresses :: string where "CommandAddresses = ''addr''"
definition CommandGetConsensusData :: string where "CommandGetConsensusData = ''getcnsdata''"
definition CommandGetFirstBlocks :: string where "CommandGetFirstBlocks = ''getfblocks''"
definition CommandGetBalance :: string where "CommandGetBalance = ''getbalance''"
definition CommandGetState :: string where "CommandGetState = ''getstate''"
definition CommandGetUpdates :: string where "CommandGetUpdates = ''getupdates''"
definition CommandGetTransaction :: string where "CommandGetTransaction = ''gettransact''"
definition CommandCheckBlock :: string where "CommandCheckBlock = ''checkblock''"
definition CommandGetBlock :: string where "CommandGetBlock = ''getblock''"
definition CommandBlock :: string where "CommandBlock = ''block''"

definition NodeVersion :: int where "NodeVersion = 1"

lemmas command_defs = CommandAddresses_def CommandGetConsensusData_def CommandGetFirstBlocks_def CommandGetBalance_def
  CommandGetState_def CommandGetUpdates_def CommandGetTransaction_def CommandCheckBlock_def CommandGetBlock_def CommandBlock_def

section \<open>Structures of requests\<close>

record com_addresses =
  ca_AddrFrom :: node_addr
  ca_Addresses :: "node_addr list"

record com_block =
  cb_AddrFrom :: node_addr
  cb_Block :: bytes

record com_getblocks =
  cgs_AddrFrom :: node_addr
  cgs_StartFrom :: bytes

record com_getdata =
  cgd_AddrFrom :: node_addr
  cgd_Type :: string
  cgd_ID :: bytes

record com_newtxdata =
  cn_Address :: string
  cn_TX :: bytes
  cn_Signature :: bytes

record com_requesttx =
  crt_PubKey :: bytes
  crt_To :: string
  crt_Amount :: float64

record com_requestsql =
  crs_PubKey :: bytes
  crs_SQL :: string

record com_getunspent =
  cgu_Address :: string
  cgu_LastBlock :: bytes

record com_inv =
  ci_AddrFrom :: node_addr
  ci_Type :: string
  ci_Items :: "bytes list"

record com_tx =
  ctx_AddFrom :: node_addr
  ctx_Transaction :: bytes

record com_version =
  cv_Version :: int
  cv_BestHeight :: int
  cv_AddrFrom :: node_addr

record com_getupdates =
  cup_LastCheckTime :: int
  cup_CurrentBlockHeight :: int
  cup_TopBlocks :: "bytes list"
  cup_AddrFrom :: node_addr

record com_gettransaction =
  cgt_TransactionID :: bytes
  cgt_AddrFrom :: node_addr

record com_checkblock =
  cck_BlockHash :: bytes
  cck_AddrFrom :: node_addr

record com_getblock =
  cgb_BlockHash :: bytes
  cgb_AddrFrom :: node_addr

text \<open>What is built into a request: a command with its structure. Structures of one field are that field.\<close>

datatype com =
    ComAddresses com_addresses
  | ComGetBlock com_getblock
  | ComBlock com_block
  | ComInv com_inv
  | ComGetBlocks com_getblocks
  | ComGetBlocksUpper com_getblocks
  | ComGetFirstBlocks
  | ComGetConsensusData
  | ComGetData com_getdata
  | ComGetTransaction com_gettransaction
  | ComCheckBlock com_checkblock
  | ComTx com_tx
  | ComVersion com_version
  | ComGetHistory string
  | ComNewTransactionData com_newtxdata
  | ComRequestTransaction com_requesttx
  | ComRequestSQLTransaction com_requestsql
  | ComGetUnspent com_getunspent
  | ComGetBalance string
  | ComGetNodes
  | ComAddNode node_addr
  | ComRemoveNode node_addr
  | ComGetState
  | ComGetUpdates com_getupdates

fun com_command :: "com \<Rightarrow> string" where
  "com_command (ComAddresses _) = CommandAddresses"
| "com_command (ComGetBlock _) = CommandGetBlock"
| "com_command (ComBlock _) = CommandBlock"
| "com_command (ComInv _) = ''inv''"
| "com_command (ComGetBlocks _) = ''getblocks''"
| "com_command (ComGetBlocksUpper _) = ''getblocksup''"
| "com_command ComGetFirstBlocks = CommandGetFirstBlocks"
| "com_command ComGetConsensusData = CommandGetConsensusData"
| "com_command (ComGetData _) = ''getdata''"
| "com_command (ComGetTransaction _) = CommandGetTransaction"
| "com_command (ComCheckBlock _) = CommandCheckBlock"
| "com_command (ComTx _) = ''tx''"
| "com_command (ComVersion _) = ''version''"
| "com_command (ComGetHistory _) = ''gethistory''"
| "com_command (ComNewTransactionData _) = ''txdata''"
| "com_command (ComRequestTransaction _) = ''txcurrequest''"
| "com_command (ComRequestSQLTransaction _) = ''txsqlrequest''"
| "com_command (ComGetUnspent _) = ''getunspent''"
| "com_command (ComGetBalance _) = CommandGetBalance"
| "com_command ComGetNodes = ''getnodes''"
| "com_command (ComAddNode _) = ''addnode''"
| "com_command (ComRemoveNode _) = ''removenode''"
| "com_command ComGetState = CommandGetState"
| "com_command (ComGetUpdates _) = CommandGetUpdates"

section \<open>Structures of responses\<close>

record com_unspent =
  cu_TXID :: bytes
  cu_Vout :: int
  cu_Amount :: float64
  cu_IsBase :: bool
  cu_From :: string

record com_unspents =
  cus_Transactions :: "com_unspent list"
  cus_LastBlock :: bytes

record com_history =
  ch_IOType :: bool
  ch_TXID :: bytes
  ch_Amount :: float64
  ch_From :: string
  ch_To :: string

record com_walletbalance =
  cw_Total :: float64
  cw_Approved :: float64
  cw_Pending :: float64

record com_txrequest_data =
  crd_Finished :: bool
  crd_TX :: bytes
  crd_DataToSign :: bytes

record com_firstblocks =
  cfb_Blocks :: "bytes list"
  cfb_Height :: int

record com_state =
  cs_Host :: string
  cs_BlocksNumber :: int
  cs_ExpectingBlocksHeight :: int
  cs_TransactionsCached :: nat
  cs_UnspentOutputs :: nat

record response_updates =
  ru_CurrentBlockHeight :: int
  ru_CountTransactionsInPool :: nat
  ru_Blocks :: "bytes list"
  ru_TransactionsInPool :: "bytes list"
  ru_Nodes :: "node_addr_short list"

text \<open>A value that a handler encodes; the structures of one field are that field.\<close>

datatype com_response =
    ResponseGetBlock bytes
  | ResponseCheckBlock bool
  | ResponseGetTransaction bytes
  | ResponseFirstBlocks com_firstblocks
  | ResponseConsensusData bytes
  | ResponseTransactionID bytes
  | ResponseTransactionData com_txrequest_data
  | ResponseUnspent com_unspents
  | ResponseHistory "com_history list"
  | ResponseBalance com_walletbalance
  | ResponseNodes "node_addr list"
  | ResponseState com_state
  | ResponseUpdates response_updates

text \<open>\<^verbatim>\<open>encoding/gob\<close>: \<open>enc_com\<close> and \<open>enc_response\<close> encode, and a decoder is given with the structure it fills.\<close>

record com_codec =
  enc_com :: "com \<Rightarrow> bytes res"
  dec_addresses :: "bytes \<Rightarrow> com_addresses res"
  dec_getblock :: "bytes \<Rightarrow> com_getblock res"
  dec_block :: "bytes \<Rightarrow> com_block res"
  dec_inv :: "bytes \<Rightarrow> com_inv res"
  dec_getblocks :: "bytes \<Rightarrow> com_getblocks res"
  dec_getdata :: "bytes \<Rightarrow> com_getdata res"
  dec_gettransaction :: "bytes \<Rightarrow> com_gettransaction res"
  dec_checkblock :: "bytes \<Rightarrow> com_checkblock res"
  dec_tx :: "bytes \<Rightarrow> com_tx res"
  dec_version :: "bytes \<Rightarrow> com_version res"
  dec_address :: "bytes \<Rightarrow> string res"
  dec_newtxdata :: "bytes \<Rightarrow> com_newtxdata res"
  dec_requesttx :: "bytes \<Rightarrow> com_requesttx res"
  dec_requestsql :: "bytes \<Rightarrow> com_requestsql res"
  dec_getunspent :: "bytes \<Rightarrow> com_getunspent res"
  dec_managenode :: "bytes \<Rightarrow> node_addr res"
  dec_getupdates :: "bytes \<Rightarrow> com_getupdates res"
  enc_response :: "com_response \<Rightarrow> bytes res"
  dec_response :: "com \<Rightarrow> bytes \<Rightarrow> com_response res"
  enc_error :: "string \<Rightarrow> bytes res"
  dec_error :: "bytes \<Rightarrow> string res"

end
