(* ===== verification/Node_Client.thy ===== *)
theory Node_Client
  imports Node_Protocol
begin

text \<open>
  The client of \<^verbatim>\<open>lib/nodeclient/nodeclient.go\<close>, which builds, sends and reads back the commands of the protocol,
  and the reader of a request in \<^verbatim>\<open>server/server.go\<close>. The network is a parameter: the answer to the bytes that are
  written to an address, which may differ from one connection to the next. What was written is kept in the order
  of the connections. A connection that is read is the list of what its calls of \<^verbatim>\<open>Read\<close> find. The theory shows
  that a request is read back from its bytes however the network cuts them up, and that nothing else is accepted.
\<close>

section \<open>Building a request\<close>

fun GobEncode :: "com_codec \<Rightarrow> com \<Rightarrow> bytes res" where
  "GobEncode cc ComGetFirstBlocks = Ok []"
| "GobEncode cc ComGetConsensusData = Ok []"
| "GobEncode cc ComGetNodes = Ok []"
| "GobEncode cc ComGetState = Ok []"
| "GobEncode cc c = enc_com cc c"

text \<open>\<^verbatim>\<open>uint32(len(x))\<close> wraps around, as the four bytes do.\<close>

definition doBuildCommandData :: "string \<Rightarrow> bytes \<Rightarrow> bytes \<Rightarrow> bytes res" where
  "doBuildCommandData command payload extra =
     bindR (CommandToBytes command) (\<lambda>cmd.
       Ok (cmd @ le_bytes 4 (length payload) @ le_bytes 4 (length extra) @ payload @ extra))"

definition BuildCommandData :: "com_codec \<Rightarrow> com \<Rightarrow> bytes res" where
  "BuildCommandData cc c = bindR (GobEncode cc c) (\<lambda>payload. doBuildCommandData (com_command c) payload [])"

definition BuildCommandDataWithAuth :: "com_codec \<Rightarrow> string \<Rightarrow> com \<Rightarrow> bytes res" where
  "BuildCommandDataWithAuth cc NodeAuthStr c =
     bindR (CommandToBytes NodeAuthStr) (\<lambda>authbytes.
     bindR (GobEncode cc c) (\<lambda>payload. doBuildCommandData (com_command c) payload authbytes))"

section \<open>Sending\<close>

text \<open>What becomes of a connection: it is refused, breaks when written to or read from, or gives an answer.\<close>

datatype exchange = NoConnect | NoWrite | NoRead | Answer bytes

record net_env =
  ne_codec :: com_codec
  ne_exchange :: "nat \<Rightarrow> string \<Rightarrow> bytes \<Rightarrow> exchange"

record client =
  cl_NodeAddress :: node_addr
  cl_NodeAuthStr :: string
  cl_sent :: "(string \<times> bytes) list"

definition errCanNotConnect :: err where "errCanNotConnect = ErrNet ''cannotconnect''"
definition errCanNotSend :: err where "errCanNotSend = ErrNet ''cannotsend''"
definition errNoResponse :: err where "errNoResponse = ErrNet ''noresponse''"
definition errCanNotParseResponse :: err where "errCanNotParseResponse = ErrNet ''cannotparseresponse''"

definition CheckNodeAddress :: "node_addr \<Rightarrow> unit res" where
  "CheckNodeAddress address =
     (if na_Port address < 1024 then Err (ErrNew ''Node Address Port has wrong value'')
      else if na_Port address > 65536 then Err (ErrNew ''Node Address Port has wrong value'')
      else if na_Host address = [] then Err (ErrNew ''Node Address Host has wrong value'')
      else Ok ())"

definition SetNodeAddress :: "node_addr \<Rightarrow> client \<Rightarrow> client" where
  "SetNodeAddress address c = c\<lparr>cl_NodeAddress := address\<rparr>"

definition SetAuthStr :: "string \<Rightarrow> client \<Rightarrow> client" where
  "SetAuthStr auth c = c\<lparr>cl_NodeAuthStr := auth\<rparr>"

text \<open>The next connection: its outcome, and the client that remembers it.\<close>

definition exchange :: "net_env \<Rightarrow> node_addr \<Rightarrow> bytes \<Rightarrow> client \<Rightarrow> exchange \<times> client" where
  "exchange w addr data c =
     (ne_exchange w (length (cl_sent c)) (NodeAddrToString addr) data,
      c\<lparr>cl_sent := cl_sent c @ [(NodeAddrToString addr, data)]\<rparr>)"

definition SendData :: "net_env \<Rightarrow> node_addr \<Rightarrow> bytes \<Rightarrow> client \<Rightarrow> unit res \<times> client" where
  "SendData w addr data c =
     bindS (CheckNodeAddress addr, c) (\<lambda>_ c.
       let (r, c) = exchange w addr data c
       in case r of
            NoConnect \<Rightarrow> (Err errCanNotConnect, c)
          | NoWrite \<Rightarrow> (Err errCanNotSend, c)
          | _ \<Rightarrow> (Ok (), c))"

text \<open>
  The first byte of an answer tells whether it is a result (\<open>1\<close>) or the text of an error. \<open>dest\<close> decodes the
  rest, and is \<open>None\<close> for a command whose caller gives no structure to fill.
\<close>

definition decode_answer ::
  "com_codec \<Rightarrow> (bytes \<Rightarrow> 'a res) \<Rightarrow> bytes \<Rightarrow> 'a res" where
  "decode_answer cc dest response =
     (case response of
        [] \<Rightarrow> Err errNoResponse
      | b # rest \<Rightarrow>
          if b \<noteq> 1 then
            (case dec_error cc rest of
               Ok payload \<Rightarrow> Err (ErrNew payload)
             | Err _ \<Rightarrow> Err errCanNotParseResponse | Panic \<Rightarrow> Panic | Diverge \<Rightarrow> Diverge)
          else
            (case dest rest of
               Ok x \<Rightarrow> Ok x
             | Err _ \<Rightarrow> Err errCanNotParseResponse | Panic \<Rightarrow> Panic | Diverge \<Rightarrow> Diverge))"

definition SendDataWaitResponse ::
  "net_env \<Rightarrow> (bytes \<Rightarrow> 'a res) \<Rightarrow> node_addr \<Rightarrow> bytes \<Rightarrow> client \<Rightarrow> 'a res \<times> client" where
  "SendDataWaitResponse w dest addr data c =
     bindS (CheckNodeAddress addr, c) (\<lambda>_ c.
       let (r, c) = exchange w addr data c
       in case r of
            NoConnect \<Rightarrow> (Err errCanNotConnect, c)
          | NoWrite \<Rightarrow> (Err (ErrNew ''write''), c)
          | NoRead \<Rightarrow> (Err errCanNotSend, c)
          | Answer response \<Rightarrow> (decode_answer (ne_codec w) dest response, c))"

section \<open>The commands of a client\<close>

text \<open>One-way commands and requests; \<open>pick\<close> takes the response out of the value that was decoded.\<close>

definition send_command :: "net_env \<Rightarrow> node_addr \<Rightarrow> com \<Rightarrow> client \<Rightarrow> unit res \<times> client" where
  "send_command w addr x c =
     bindS (BuildCommandData (ne_codec w) x, c) (\<lambda>request c. SendData w addr request c)"

definition request_command ::
  "net_env \<Rightarrow> (com_response \<Rightarrow> 'a res) \<Rightarrow> node_addr \<Rightarrow> com \<Rightarrow> client \<Rightarrow> 'a res \<times> client" where
  "request_command w pick addr x c =
     bindS (BuildCommandData (ne_codec w) x, c) (\<lambda>request c.
       SendDataWaitResponse w (\<lambda>b. bindR (dec_response (ne_codec w) x b) pick) addr request c)"

text \<open>Where the error of building the request is not looked at, nothing is sent as the request.\<close>

definition request_unchecked ::
  "net_env \<Rightarrow> (com_response \<Rightarrow> 'a res) \<Rightarrow> node_addr \<Rightarrow> com \<Rightarrow> bytes res \<Rightarrow> client \<Rightarrow> 'a res \<times> client" where
  "request_unchecked w pick addr x built c =
     bindS (case built of Err _ \<Rightarrow> Ok [] | r \<Rightarrow> r, c) (\<lambda>request c.
       SendDataWaitResponse w (\<lambda>b. bindR (dec_response (ne_codec w) x b) pick) addr request c)"

definition wrong_structure :: "'a res" where
  "wrong_structure = Err errCanNotParseResponse"

definition SendVoid :: "net_env \<Rightarrow> node_addr \<Rightarrow> client \<Rightarrow> unit res \<times> client" where
  "SendVoid w address c = bindS (CommandToBytes ''viod'', c) (\<lambda>request c. SendData w address request c)"

definition SendAddrList :: "net_env \<Rightarrow> node_addr \<Rightarrow> node_addr list \<Rightarrow> client \<Rightarrow> unit res \<times> client" where
  "SendAddrList w address addresses c =
     send_command w address (ComAddresses \<lparr>ca_AddrFrom = cl_NodeAddress c, ca_Addresses = addresses\<rparr>) c"

definition SendGetBlock :: "net_env \<Rightarrow> node_addr \<Rightarrow> bytes \<Rightarrow> client \<Rightarrow> bytes res \<times> client" where
  "SendGetBlock w addr blockHash c =
     request_command w (\<lambda>r. case r of ResponseGetBlock b \<Rightarrow> Ok b | _ \<Rightarrow> wrong_structure) addr
       (ComGetBlock \<lparr>cgb_BlockHash = blockHash, cgb_AddrFrom = cl_NodeAddress c\<rparr>) c"

definition SendBlock :: "net_env \<Rightarrow> node_addr \<Rightarrow> bytes \<Rightarrow> client \<Rightarrow> unit res \<times> client" where
  "SendBlock w addr blockSerialised c =
     send_command w addr (ComBlock \<lparr>cb_AddrFrom = cl_NodeAddress c, cb_Block = blockSerialised\<rparr>) c"

definition SendInv :: "net_env \<Rightarrow> node_addr \<Rightarrow> string \<Rightarrow> bytes list \<Rightarrow> client \<Rightarrow> unit res \<times> client" where
  "SendInv w address kind items c =
     send_command w address (ComInv \<lparr>ci_AddrFrom = cl_NodeAddress c, ci_Type = kind, ci_Items = items\<rparr>) c"

definition SendGetBlocks :: "net_env \<Rightarrow> node_addr \<Rightarrow> bytes \<Rightarrow> client \<Rightarrow> unit res \<times> client" where
  "SendGetBlocks w address startfrom c =
     send_command w address (ComGetBlocks \<lparr>cgs_AddrFrom = cl_NodeAddress c, cgs_StartFrom = startfrom\<rparr>) c"

definition SendGetBlocksUpper :: "net_env \<Rightarrow> node_addr \<Rightarrow> bytes \<Rightarrow> client \<Rightarrow> unit res \<times> client" where
  "SendGetBlocksUpper w address startfrom c =
     send_command w address (ComGetBlocksUpper \<lparr>cgs_AddrFrom = cl_NodeAddress c, cgs_StartFrom = startfrom\<rparr>) c"

definition SendGetFirstBlocks :: "net_env \<Rightarrow> node_addr \<Rightarrow> client \<Rightarrow> com_firstblocks res \<times> client" where
  "SendGetFirstBlocks w address c =
     request_command w (\<lambda>r. case r of ResponseFirstBlocks d \<Rightarrow> Ok d | _ \<Rightarrow> wrong_structure) address ComGetFirstBlocks c"

definition SendGetConsensusData :: "net_env \<Rightarrow> node_addr \<Rightarrow> client \<Rightarrow> bytes res \<times> client" where
  "SendGetConsensusData w address c =
     request_command w (\<lambda>r. case r of ResponseConsensusData d \<Rightarrow> Ok d | _ \<Rightarrow> wrong_structure) address
       ComGetConsensusData c"

definition SendGetData :: "net_env \<Rightarrow> node_addr \<Rightarrow> string \<Rightarrow> bytes \<Rightarrow> client \<Rightarrow> unit res \<times> client" where
  "SendGetData w address kind item c =
     send_command w address (ComGetData \<lparr>cgd_AddrFrom = cl_NodeAddress c, cgd_Type = kind, cgd_ID = item\<rparr>) c"

definition SendGetTransaction :: "net_env \<Rightarrow> node_addr \<Rightarrow> bytes \<Rightarrow> client \<Rightarrow> bytes res \<times> client" where
  "SendGetTransaction w addr txID c =
     request_command w (\<lambda>r. case r of ResponseGetTransaction d \<Rightarrow> Ok d | _ \<Rightarrow> wrong_structure) addr
       (ComGetTransaction \<lparr>cgt_TransactionID = txID, cgt_AddrFrom = cl_NodeAddress c\<rparr>) c"

definition SendCheckBlock :: "net_env \<Rightarrow> node_addr \<Rightarrow> bytes \<Rightarrow> client \<Rightarrow> bool res \<times> client" where
  "SendCheckBlock w addr hash c =
     request_command w (\<lambda>r. case r of ResponseCheckBlock d \<Rightarrow> Ok d | _ \<Rightarrow> wrong_structure) addr
       (ComCheckBlock \<lparr>cck_BlockHash = hash, cck_AddrFrom = cl_NodeAddress c\<rparr>) c"

definition SendTx :: "net_env \<Rightarrow> node_addr \<Rightarrow> bytes \<Rightarrow> client \<Rightarrow> unit res \<times> client" where
  "SendTx w addr tnxserialised c =
     send_command w addr (ComTx \<lparr>ctx_AddFrom = cl_NodeAddress c, ctx_Transaction = tnxserialised\<rparr>) c"

definition SendVersion :: "net_env \<Rightarrow> node_addr \<Rightarrow> int \<Rightarrow> client \<Rightarrow> unit res \<times> client" where
  "SendVersion w addr bestHeight c =
     send_command w addr
       (ComVersion \<lparr>cv_Version = NodeVersion, cv_BestHeight = bestHeight, cv_AddrFrom = cl_NodeAddress c\<rparr>) c"

definition SendGetHistory :: "net_env \<Rightarrow> node_addr \<Rightarrow> string \<Rightarrow> client \<Rightarrow> com_history list res \<times> client" where
  "SendGetHistory w addr address c =
     request_command w (\<lambda>r. case r of ResponseHistory d \<Rightarrow> Ok d | _ \<Rightarrow> wrong_structure) addr (ComGetHistory address) c"

definition SendNewTransactionData ::
  "net_env \<Rightarrow> node_addr \<Rightarrow> string \<Rightarrow> bytes \<Rightarrow> bytes \<Rightarrow> client \<Rightarrow> bytes res \<times> client" where
  "SendNewTransactionData w addr from_addr txBytes signature c =
     request_command w (\<lambda>r. case r of ResponseTransactionID d \<Rightarrow> Ok d | _ \<Rightarrow> wrong_structure) addr
       (ComNewTransactionData \<lparr>cn_Address = from_addr, cn_TX = txBytes, cn_Signature = signature\<rparr>) c"

definition SendRequestNewCurrencyTransaction ::
  "net_env \<Rightarrow> node_addr \<Rightarrow> bytes \<Rightarrow> string \<Rightarrow> float64 \<Rightarrow> client \<Rightarrow> (bytes \<times> bytes) res \<times> client" where
  "SendRequestNewCurrencyTransaction w addr PubKey to_addr amount c =
     request_command w (\<lambda>r. case r of ResponseTransactionData d \<Rightarrow> Ok (crd_TX d, crd_DataToSign d) | _ \<Rightarrow> wrong_structure)
       addr (ComRequestTransaction \<lparr>crt_PubKey = PubKey, crt_To = to_addr, crt_Amount = amount\<rparr>) c"

definition SendRequestNewSQLTransaction ::
  "net_env \<Rightarrow> node_addr \<Rightarrow> bytes \<Rightarrow> string \<Rightarrow> client \<Rightarrow> (bool \<times> bytes \<times> bytes) res \<times> client" where
  "SendRequestNewSQLTransaction w addr PubKey sqlcommand c =
     request_command w
       (\<lambda>r. case r of ResponseTransactionData d \<Rightarrow> Ok (crd_Finished d, crd_TX d, crd_DataToSign d) | _ \<Rightarrow> wrong_structure)
       addr (ComRequestSQLTransaction \<lparr>crs_PubKey = PubKey, crs_SQL = sqlcommand\<rparr>) c"

definition SendGetUnspent ::
  "net_env \<Rightarrow> node_addr \<Rightarrow> string \<Rightarrow> bytes \<Rightarrow> client \<Rightarrow> com_unspents res \<times> client" where
  "SendGetUnspent w addr address chaintip c =
     (let x = ComGetUnspent \<lparr>cgu_Address = address, cgu_LastBlock = chaintip\<rparr>
      in request_unchecked w (\<lambda>r. case r of ResponseUnspent d \<Rightarrow> Ok d | _ \<Rightarrow> wrong_structure) addr x
           (BuildCommandData (ne_codec w) x) c)"

definition SendGetBalance :: "net_env \<Rightarrow> node_addr \<Rightarrow> string \<Rightarrow> client \<Rightarrow> com_walletbalance res \<times> client" where
  "SendGetBalance w addr address c =
     (let x = ComGetBalance address
      in request_unchecked w (\<lambda>r. case r of ResponseBalance d \<Rightarrow> Ok d | _ \<Rightarrow> wrong_structure) addr x
           (BuildCommandData (ne_codec w) x) c)"

text \<open>The commands of a node's own command line go to the node's own address; any error gets a new text.\<close>

definition own_error :: "string \<Rightarrow> 'a res \<times> client \<Rightarrow> 'a res \<times> client" where
  "own_error text r = (case r of (Err _, c) \<Rightarrow> (Err (ErrNew text), c) | r \<Rightarrow> r)"

definition SendGetNodes :: "net_env \<Rightarrow> client \<Rightarrow> node_addr list res \<times> client" where
  "SendGetNodes w c =
     own_error ''Get Nodes Response Error''
       (request_unchecked w (\<lambda>r. case r of ResponseNodes d \<Rightarrow> Ok d | _ \<Rightarrow> wrong_structure) (cl_NodeAddress c) ComGetNodes
          (BuildCommandData (ne_codec w) ComGetNodes) c)"

definition manage_command :: "net_env \<Rightarrow> string \<Rightarrow> com \<Rightarrow> client \<Rightarrow> unit res \<times> client" where
  "manage_command w text x c =
     own_error text
       (bindS (case BuildCommandDataWithAuth (ne_codec w) (cl_NodeAuthStr c) x of Err _ \<Rightarrow> Ok [] | r \<Rightarrow> r, c) (\<lambda>request c.
          SendDataWaitResponse w (\<lambda>_. Ok ()) (cl_NodeAddress c) request c))"

definition SendAddNode :: "net_env \<Rightarrow> node_addr \<Rightarrow> client \<Rightarrow> unit res \<times> client" where
  "SendAddNode w node c = manage_command w ''Add Node Response Error'' (ComAddNode node) c"

definition SendRemoveNode :: "net_env \<Rightarrow> node_addr \<Rightarrow> client \<Rightarrow> unit res \<times> client" where
  "SendRemoveNode w node c = manage_command w ''Remove Node Response Error'' (ComRemoveNode node) c"

definition SendGetState :: "net_env \<Rightarrow> client \<Rightarrow> com_state res \<times> client" where
  "SendGetState w c =
     own_error ''gettig state error''
       (request_unchecked w (\<lambda>r. case r of ResponseState d \<Rightarrow> Ok d | _ \<Rightarrow> wrong_structure) (cl_NodeAddress c) ComGetState
          (BuildCommandDataWithAuth (ne_codec w) (cl_NodeAuthStr c) ComGetState) c)"

definition SendGetUpdates ::
  "net_env \<Rightarrow> node_addr \<Rightarrow> int \<Rightarrow> int \<Rightarrow> bytes list \<Rightarrow> client \<Rightarrow> response_updates res \<times> client" where
  "SendGetUpdates w addr lastCheckTime blockHeight topBlocks c =
     request_command w (\<lambda>r. case r of ResponseUpdates d \<Rightarrow> Ok d | _ \<Rightarrow> wrong_structure) addr
       (ComGetUpdates \<lparr>cup_LastCheckTime = lastCheckTime, cup_CurrentBlockHeight = blockHeight,
          cup_TopBlocks = topBlocks, cup_AddrFrom = cl_NodeAddress c\<rparr>) c"

section \<open>Reading a request\<close>

text \<open>
  A connection is what its next calls of \<^verbatim>\<open>Read\<close> find: data, of which a call takes as much as its buffer holds,
  no data and no error, or an error. After the list the connection is closed by the other side. The buffer is
  never empty: a length of zero is not read.
\<close>

datatype read_event = Got bytes | Failed err

definition read_end :: "nat \<Rightarrow> bytes \<Rightarrow> read_event list \<Rightarrow> bytes res \<times> read_event list" where
  "read_end countofbytes buff c =
     (if length buff < countofbytes then (Err (ErrNew ''Wrong number of bytes received for a request''), c) else (Ok buff, c))"

fun read_loop :: "nat \<Rightarrow> nat \<Rightarrow> bytes \<Rightarrow> read_event list \<Rightarrow> bytes res \<times> read_event list" where
  "read_loop countofbytes pauses buff [] = read_end countofbytes buff []"
| "read_loop countofbytes pauses buff (Failed e # c) = (Err e, c)"
| "read_loop countofbytes pauses buff (Got d # c) =
     (let k = countofbytes - length buff
      in if d = [] then
           (if pauses > 30 then read_end countofbytes buff c else read_loop countofbytes (pauses + 1) buff c)
         else if length d \<ge> k then (Ok (buff @ take k d), if drop k d = [] then c else Got (drop k d) # c)
         else read_loop countofbytes 0 (buff @ d) c)"

definition readFromConnection :: "nat \<Rightarrow> read_event list \<Rightarrow> bytes res \<times> read_event list" where
  "readFromConnection countofbytes c = read_loop countofbytes 0 [] c"

text \<open>Command, data and the string of authorisation.\<close>

definition readRequest :: "read_event list \<Rightarrow> (string \<times> bytes \<times> string) res \<times> read_event list" where
  "readRequest c =
     bindS (readFromConnection CommandLength c) (\<lambda>commandbuffer c.
     bindS (readFromConnection 4 c) (\<lambda>lengthbuffer c.
       let datalength = le_nat lengthbuffer
       in bindS (readFromConnection 4 c) (\<lambda>lengthbuffer c.
            let extradatalength = le_nat lengthbuffer
            in bindS
                 (if datalength > 0 then
                    (case readFromConnection datalength c of
                       (Err _, c) \<Rightarrow> (Err (ErrNew ''Error reading bytes of request''), c) | r \<Rightarrow> r)
                  else (Ok [], c)) (\<lambda>databuffer c.
               bindS
                 (if extradatalength > 0 then
                    (case readFromConnection extradatalength c of
                       (Err _, c) \<Rightarrow> (Err (ErrNew ''Error reading bytes of extra data''), c) | r \<Rightarrow> r)
                  else (Ok [], c)) (\<lambda>extradatabuffer c.
                 (Ok (BytesToCommand commandbuffer, databuffer, BytesToCommand extradatabuffer), c))))))"

section \<open>A request is read back from its bytes\<close>

fun stream :: "read_event list \<Rightarrow> bytes" where
  "stream [] = []"
| "stream (Got d # c) = d @ stream c"
| "stream (Failed e # c) = []"

text \<open>A connection on which every call of \<^verbatim>\<open>Read\<close> finds some data until it is closed.\<close>

definition steady :: "read_event list \<Rightarrow> bool" where
  "steady c \<longleftrightarrow> (\<forall>ev\<in>set c. \<exists>d. ev = Got d \<and> d \<noteq> [])"

lemma steady_simps [simp]:
  "steady []" "steady (ev # c) \<longleftrightarrow> (\<exists>d. ev = Got d \<and> d \<noteq> []) \<and> steady c"
  by (simp_all add: steady_def)

lemma read_loop_steady:
  "steady c \<Longrightarrow> length buff < n \<Longrightarrow> n - length buff \<le> length (stream c) \<Longrightarrow>
     \<exists>c'. read_loop n p buff c = (Ok (buff @ take (n - length buff) (stream c)), c') \<and>
       steady c' \<and> stream c' = drop (n - length buff) (stream c)"
proof (induction n p buff c rule: read_loop.induct)
  case (3 n p buff d c)
  have d: "d \<noteq> []" "steady c" using 3(3) by auto
  show ?case
  proof (cases "length d \<ge> n - length buff")
    case True
    then show ?thesis using d by (auto simp: Let_def)
  next
    case False
    then have "\<exists>c'. read_loop n 0 (buff @ d) c = (Ok ((buff @ d) @ take (n - length (buff @ d)) (stream c)), c') \<and>
       steady c' \<and> stream c' = drop (n - length (buff @ d)) (stream c)"
      using 3(2)[OF refl d(1) False d(2)] 3(5) by auto
    then show ?thesis using d False by (auto simp: Let_def)
  qed
qed simp_all

lemma read_loop_short:
  "steady c \<Longrightarrow> length buff + length (stream c) < n \<Longrightarrow> \<exists>e c'. read_loop n p buff c = (Err e, c')"
proof (induction n p buff c rule: read_loop.induct)
  case (3 n p buff d c)
  then have "d \<noteq> []" "steady c" "\<not> length d \<ge> n - length buff" by auto
  then show ?case using 3 by (auto simp: Let_def)
qed (simp_all add: read_end_def)

lemma readFromConnection_steady:
  assumes "steady c" and "stream c = b @ rest" and "b \<noteq> []"
  shows "\<exists>c'. readFromConnection (length b) c = (Ok b, c') \<and> steady c' \<and> stream c' = rest"
  using read_loop_steady[of c "[]" "length b" 0] assms by (simp add: readFromConnection_def)

lemma readFromConnection_short:
  "steady c \<Longrightarrow> length (stream c) < n \<Longrightarrow> \<exists>e c'. readFromConnection n c = (Err e, c')"
  using read_loop_short[of c "[]" n 0] by (simp add: readFromConnection_def)

lemma readRequest_main:
  assumes cmd: "CommandToBytes command = Ok cmd" "BytesToCommand cmd = command"
    and len: "length payload < 2 ^ 32" "length extra < 2 ^ 32"
    and c: "steady c" "stream c = cmd @ le_bytes 4 (length payload) @ le_bytes 4 (length extra) @ payload @ extra @ rest"
  shows "\<exists>c'. readRequest c = (Ok (command, payload, BytesToCommand extra), c') \<and> steady c' \<and> stream c' = rest"
proof -
  have l: "length cmd = CommandLength" using cmd(1) by (auto simp: CommandToBytes_def split: if_splits)
  then have "cmd \<noteq> []" by (auto simp: CommandLength_def)
  then obtain c1 where c1: "readFromConnection CommandLength c = (Ok cmd, c1)" "steady c1"
    "stream c1 = le_bytes 4 (length payload) @ le_bytes 4 (length extra) @ payload @ extra @ rest"
    using readFromConnection_steady[OF c] l by auto
  have ne: "le_bytes 4 x \<noteq> []" for x using length_le_bytes[of 4 x] by fastforce
  obtain c2 where c2: "readFromConnection 4 c1 = (Ok (le_bytes 4 (length payload)), c2)" "steady c2"
    "stream c2 = le_bytes 4 (length extra) @ payload @ extra @ rest"
    using readFromConnection_steady[OF c1(2,3) ne] by auto
  obtain c3 where c3: "readFromConnection 4 c2 = (Ok (le_bytes 4 (length extra)), c3)" "steady c3"
    "stream c3 = payload @ extra @ rest"
    using readFromConnection_steady[OF c2(2,3) ne] by auto
  obtain c4 where c4: "payload \<noteq> [] \<longrightarrow> readFromConnection (length payload) c3 = (Ok payload, c4)" "steady c4"
    "stream c4 = extra @ rest" "payload = [] \<longrightarrow> c4 = c3"
    using readFromConnection_steady[OF c3(2,3)] c3(2,3) by (cases "payload = []") auto
  obtain c5 where c5: "extra \<noteq> [] \<longrightarrow> readFromConnection (length extra) c4 = (Ok extra, c5)" "steady c5"
    "stream c5 = rest" "extra = [] \<longrightarrow> c5 = c4"
    using readFromConnection_steady[OF c4(2,3)] c4(2,3) by (cases "extra = []") auto
  have "readRequest c = (Ok (command, payload, BytesToCommand extra), c5)"
    using c1(1) c2(1) c3(1) c4 c5 len cmd(2)
    by (cases "payload = []"; cases "extra = []") (simp_all add: readRequest_def le_nat_le_bytes Let_def)
  with c5 show ?thesis by blast
qed

text \<open>
  C10: A request that the client builds is read by the server with the same command, data and string
  of authorisation, however the connection cuts its bytes, and what follows it is left on the
  connection.
\<close>

lemma request_roundtrip:
  assumes "doBuildCommandData command payload extra = Ok request" and "CHR 0x00 \<notin> set command"
    and "length payload < 2 ^ 32" and "length extra < 2 ^ 32"
    and "steady c" and "stream c = request @ rest"
  shows "\<exists>c'. readRequest c = (Ok (command, payload, BytesToCommand extra), c') \<and> steady c' \<and> stream c' = rest"
proof -
  obtain cmd where cmd: "CommandToBytes command = Ok cmd"
    "request = cmd @ le_bytes 4 (length payload) @ le_bytes 4 (length extra) @ payload @ extra"
    using assms(1) by (auto simp: doBuildCommandData_def bindR_eq_Ok)
  then have "length command \<le> 12" by (simp add: CommandToBytes_def CommandLength_def split: if_splits)
  then have "BytesToCommand cmd = command" using command_roundtrip[of command] assms(2) cmd(1) by auto
  then show ?thesis using readRequest_main[of command cmd payload extra c rest] assms cmd by simp
qed

text \<open>A request that is cut off anywhere is an error.\<close>

lemma readFromConnection_prefix:
  assumes "steady c" and "stream c @ cut_off = b @ x" and "b \<noteq> []"
  shows "(\<exists>c'. readFromConnection (length b) c = (Ok b, c') \<and> steady c' \<and> stream c' @ cut_off = x) \<or>
    (\<exists>e c'. readFromConnection (length b) c = (Err e, c'))"
proof (cases "length (stream c) < length b")
  case True
  then show ?thesis using readFromConnection_short[OF assms(1)] by blast
next
  case False
  then obtain y where y: "stream c = b @ y" "y @ cut_off = x"
    using assms(2) by (metis append_eq_append_conv_if append_take_drop_id le_neq_implies_less not_less)
  show ?thesis using readFromConnection_steady[OF assms(1) y(1) assms(3)] y(2) by blast
qed

text \<open>
  C11: A request that is cut off before its end, at any byte, is an error of reading and never a
  request.
\<close>

lemma request_truncated:
  assumes "doBuildCommandData command payload extra = Ok request"
    and "length payload < 2 ^ 32" and "length extra < 2 ^ 32"
    and "steady c" and "stream c @ cut_off = request" and "cut_off \<noteq> []"
  shows "\<exists>e c'. readRequest c = (Err e, c')"
proof -
  obtain cmd where cmd: "CommandToBytes command = Ok cmd"
    "stream c @ cut_off = cmd @ le_bytes 4 (length payload) @ le_bytes 4 (length extra) @ payload @ extra"
    using assms(1,5) by (auto simp: doBuildCommandData_def bindR_eq_Ok)
  have l: "length cmd = CommandLength" using cmd(1) by (auto simp: CommandToBytes_def split: if_splits)
  then have ne: "cmd \<noteq> []" "le_bytes 4 x \<noteq> []" for x using length_le_bytes[of 4 x] by (fastforce simp: CommandLength_def)+
  show ?thesis
  proof (rule ccontr)
    assume no: "\<not> ?thesis"
    obtain c1 where c1: "readFromConnection CommandLength c = (Ok cmd, c1)" "steady c1"
      "stream c1 @ cut_off = le_bytes 4 (length payload) @ le_bytes 4 (length extra) @ payload @ extra"
      using readFromConnection_prefix[OF assms(4) cmd(2) ne(1)] l no by (auto simp: readRequest_def)
    obtain c2 where c2: "readFromConnection 4 c1 = (Ok (le_bytes 4 (length payload)), c2)" "steady c2"
      "stream c2 @ cut_off = le_bytes 4 (length extra) @ payload @ extra"
      using readFromConnection_prefix[OF c1(2,3) ne(2)] c1(1) no by (auto simp: readRequest_def)
    obtain c3 where c3: "readFromConnection 4 c2 = (Ok (le_bytes 4 (length extra)), c3)" "steady c3"
      "stream c3 @ cut_off = payload @ extra"
      using readFromConnection_prefix[OF c2(2,3) ne(2)] c1(1) c2(1) no by (auto simp: readRequest_def Let_def)
    note run = c1(1) c2(1) c3(1) le_nat_le_bytes readRequest_def Let_def
    obtain c4 where c4: "payload \<noteq> [] \<longrightarrow> readFromConnection (length payload) c3 = (Ok payload, c4)" "steady c4"
      "stream c4 @ cut_off = extra" "payload = [] \<longrightarrow> c4 = c3"
      using readFromConnection_prefix[OF c3(2,3)] c3(2,3) no assms(2) by (cases "payload = []") (auto simp: run)
    have "extra \<noteq> []" using c4(3) assms(6) by auto
    then consider (whole) c5 where "readFromConnection (length extra) c4 = (Ok extra, c5)" "stream c5 @ cut_off = []"
      | (short) e c5 where "readFromConnection (length extra) c4 = (Err e, c5)"
      using readFromConnection_prefix[OF c4(2), of cut_off extra "[]"] c4(3) by auto
    then show False
    proof cases
      case whole
      then show ?thesis using assms(6) by simp
    next
      case short
      then show ?thesis using c4 no assms(2,3) \<open>extra \<noteq> []\<close> by (cases "payload = []") (auto simp: run)
    qed
  qed
qed

text \<open>
  The void command of \<^verbatim>\<open>SendVoid\<close> is a command without its lengths: it is never read as a request.
\<close>

lemma void_is_no_request:
  assumes "CommandToBytes ''viod'' = Ok request" and "steady c" and "stream c = request"
  shows "\<exists>e c'. readRequest c = (Err e, c')"
proof -
  have "doBuildCommandData ''viod'' [] [] = Ok (request @ le_bytes 4 0 @ le_bytes 4 0)"
    using assms(1) by (simp add: doBuildCommandData_def)
  moreover have "le_bytes 4 0 @ le_bytes 4 0 \<noteq> []" using length_le_bytes[of 4 0] by fastforce
  ultimately show ?thesis using request_truncated[of "''viod''" "[]" "[]" _ c "le_bytes 4 0 @ le_bytes 4 0"] assms(2,3) by simp
qed

section \<open>An answer is read back\<close>

text \<open>The bytes that a server writes as its answer: a mark, and the encoded value or the encoded text of the error.\<close>

lemma answer_roundtrip:
  "dest b = Ok x \<Longrightarrow> decode_answer cc dest (1 # b) = Ok x"
  "dec_error cc b = Ok t \<Longrightarrow> decode_answer cc dest (0 # b) = Err (ErrNew t)"
  by (simp_all add: decode_answer_def)

text \<open>A client reaches only addresses that it accepts, and connects at most once for a command.\<close>

lemma client_connects_once:
  "cl_sent (snd (SendData w addr data c)) =
     (if CheckNodeAddress addr = Ok () then cl_sent c @ [(NodeAddrToString addr, data)] else cl_sent c)"
  "cl_sent (snd (SendDataWaitResponse w dest addr data c)) =
     (if CheckNodeAddress addr = Ok () then cl_sent c @ [(NodeAddrToString addr, data)] else cl_sent c)"
  by (auto simp: SendData_def SendDataWaitResponse_def exchange_def CheckNodeAddress_def split: exchange.split)

end
