(* ===== verification/Database.thy ===== *)
theory Database
  imports Structures
begin

text \<open>
  \<^verbatim>\<open>node/database\<close>: the state of the node's database and the operations on its tables. A table is an
  association list (\<open>tget\<close>, \<open>tput\<close>, \<open>tdel\<close> of \<open>Go_Prelude\<close> are \<^verbatim>\<open>MySQLDB.Get\<close>, \<^verbatim>\<open>Put\<close>, \<^verbatim>\<open>Delete\<close>, with
  the reversible hex encoding of keys and values left out); values that the Go code stores as
  \<^verbatim>\<open>encoding/gob\<close> bytes are stored as the value itself. The blocks table holds blocks and, under the
  keys \<open>l\<close> and \<open>f\<close>, the hashes of the top and of the first block. The main part of the theory is
  \<^verbatim>\<open>blockchain.go\<close>: the table of the main chain, in which every hash maps to the previous and the next
  hash, and its refinement of the list of hashes it stands for.
\<close>

datatype blkval = BlockData block | HashData bytes

record spent_output_rec =
  so_OutInd :: int
  so_TXWhereUsed :: bytes
  so_InInd :: int
  so_BlockHash :: bytes

text \<open>
  The database: is the connection opened, the tables, the codec, the in-memory caches of the process
  (\<open>transactionsCache\<close> and \<open>primaryKeysCache\<close>), and the state \<open>'m\<close> of the MySQL server that holds the
  application's own tables.
\<close>

record 'm node_db =
  db_opened :: bool
  db_blocks :: "blkval table"
  db_chain :: "bytes table"
  db_txblocks :: "bytes list table"
  db_txspent :: "spent_output_rec list table"
  db_unspent :: "txoutput_independent list table"
  db_pool :: "transaction table"
  db_rowrefs :: "bytes table"
  db_txcache :: "transaction table option"
  db_pkcache :: "(string \<times> string) list"
  db_gob :: gob
  db_app :: 'm

text \<open>
  \<^verbatim>\<open>getConnection\<close>, which every \<^verbatim>\<open>Get...Object\<close> accessor calls first. The driver opens the connection
  lazily, so \<^verbatim>\<open>sql.Open\<close> does not fail here; queries on an opened connection succeed.
\<close>

definition getConnection :: "'m node_db \<Rightarrow> unit res" where
  "getConnection db = (if \<not> db_opened db then Err (ErrNew ''Connection was not inited'') else Ok ())"

lemma getConnection_opened [simp]: "db_opened db \<Longrightarrow> getConnection db = Ok ()"
  by (simp add: getConnection_def)

section \<open>Blocks table\<close>

definition topKey :: bytes where "topKey = bytes_of_string ''l''"
definition firstKey :: bytes where "firstKey = bytes_of_string ''f''"

definition raw_value :: "gob \<Rightarrow> blkval \<Rightarrow> bytes" where
  "raw_value gb v = (case v of BlockData b \<Rightarrow> gob_block gb b | HashData h \<Rightarrow> h)"

definition db_GetBlock :: "'m node_db \<Rightarrow> bytes \<Rightarrow> blkval option" where
  "db_GetBlock db hash = tget (db_blocks db) hash"

definition db_PutBlock :: "'m node_db \<Rightarrow> bytes \<Rightarrow> block \<Rightarrow> 'm node_db" where
  "db_PutBlock db hash b = db\<lparr>db_blocks := tput (db_blocks db) hash (BlockData b)\<rparr>"

definition db_DeleteBlock :: "'m node_db \<Rightarrow> bytes \<Rightarrow> 'm node_db" where
  "db_DeleteBlock db hash = db\<lparr>db_blocks := tdel (db_blocks db) hash\<rparr>"

definition SaveTopHash :: "'m node_db \<Rightarrow> bytes \<Rightarrow> 'm node_db" where
  "SaveTopHash db hash = db\<lparr>db_blocks := tput (db_blocks db) topKey (HashData hash)\<rparr>"

definition GetTopHash :: "'m node_db \<Rightarrow> bytes res" where
  "GetTopHash db =
     (case tget (db_blocks db) topKey of
        None \<Rightarrow> Err (ErrDB ''tophash'') | Some v \<Rightarrow> Ok (raw_value (db_gob db) v))"

definition SaveFirstHash :: "'m node_db \<Rightarrow> bytes \<Rightarrow> 'm node_db" where
  "SaveFirstHash db hash = db\<lparr>db_blocks := tput (db_blocks db) firstKey (HashData hash)\<rparr>"

definition GetFirstHash :: "'m node_db \<Rightarrow> bytes res" where
  "GetFirstHash db =
     (case tget (db_blocks db) firstKey of
        None \<Rightarrow> Err (ErrDB ''firsthash'') | Some v \<Rightarrow> Ok (raw_value (db_gob db) v))"

definition GetTopBlock :: "'m node_db \<Rightarrow> blkval option res" where
  "GetTopBlock db = bindR (GetTopHash db) (\<lambda>h. Ok (db_GetBlock db h))"

definition db_CheckBlockExists :: "'m node_db \<Rightarrow> bytes \<Rightarrow> bool" where
  "db_CheckBlockExists db hash =
     (case db_GetBlock db hash of None \<Rightarrow> False | Some v \<Rightarrow> length (raw_value (db_gob db) v) > 0)"

definition PutBlockOnTop :: "'m node_db \<Rightarrow> bytes \<Rightarrow> block \<Rightarrow> 'm node_db" where
  "PutBlockOnTop db hash b = SaveTopHash (db_PutBlock db hash b) hash"

text \<open>
  \<^verbatim>\<open>structures.NewBlockFromBytes\<close>: decoding no bytes, or the bytes of a hash, is an error of the gob
  decoder.
\<close>

definition NewBlockFromBytes :: "blkval option \<Rightarrow> block res" where
  "NewBlockFromBytes data =
     (case data of
        Some (BlockData b) \<Rightarrow> Ok b
      | Some (HashData h) \<Rightarrow> Err (ErrNew ''gob: bad data'')
      | None \<Rightarrow> Err (ErrNew ''EOF''))"

lemma NewBlockFromBytes_Ok [res_simps]: "NewBlockFromBytes d = Ok b \<longleftrightarrow> d = Some (BlockData b)"
  by (auto simp: NewBlockFromBytes_def split: option.split blkval.split)

section \<open>The main chain table\<close>

text \<open>\<open>copy(dst[off:], src)\<close>.\<close>

definition copy_at :: "bytes \<Rightarrow> nat \<Rightarrow> bytes \<Rightarrow> bytes" where
  "copy_at dst off src =
     take off dst @ take (length dst - off) src @ drop (off + length src) dst"

definition zeros :: "nat \<Rightarrow> bytes" where
  "zeros n = replicate n 0"

definition AddToChain :: "bytes table \<Rightarrow> bytes \<Rightarrow> bytes \<Rightarrow> unit res \<times> bytes table" where
  "AddToChain t hash prevHash =
     (let n = length hash; emptyHash = zeros n; hashBytes = zeros (n * 2)
      in if n = 0 then (Err (ErrDB ''hashisemptyd''), t)
         else if length prevHash > 0 then
           (let prRec = (case tget t prevHash of None \<Rightarrow> [] | Some r \<Rightarrow> r)
            in if length prRec < n * 2 then (Err (ErrDB ''hashnotfound''), t)
               else if copy_at (zeros n) 0 (drop n prRec) \<noteq> emptyHash then (Err (ErrDB ''hashemptyd''), t)
               else let t = tput t prevHash (copy_at prRec n hash)
                    in (Ok (), tput t hash (copy_at hashBytes 0 prevHash)))
         else (Ok (), tput t hash hashBytes))"

definition RemoveFromChain :: "bytes table \<Rightarrow> bytes \<Rightarrow> unit res \<times> bytes table" where
  "RemoveFromChain t hash =
     (let n = length hash; emptyHash = zeros n
      in if n = 0 then (Err (ErrDB ''hashisemptyd''), t)
         else
           let hashBytes = (case tget t hash of None \<Rightarrow> [] | Some r \<Rightarrow> r)
           in if length hashBytes < n * 2 then (Err (ErrDB ''hashnotfound''), t)
              else if copy_at (zeros n) 0 (drop n hashBytes) \<noteq> emptyHash then (Err (ErrDB ''hashemptyd''), t)
              else
                let prevHash = copy_at (zeros n) 0 (take n hashBytes)
                in if prevHash \<noteq> emptyHash then
                     (let prevHashBytes = (case tget t prevHash of None \<Rightarrow> [] | Some r \<Rightarrow> r)
                      in if length prevHashBytes < n * 2 then (Err (ErrDB ''hashnotfound''), t)
                         else (Ok (), tdel (tput t prevHash (copy_at prevHashBytes n emptyHash)) hash))
                   else (Ok (), tdel t hash))"

definition BlockInChain :: "bytes table \<Rightarrow> bytes \<Rightarrow> bool res" where
  "BlockInChain t hash =
     (let n = length hash
      in if n = 0 then Err (ErrDB ''hashisemptyd'')
         else Ok (length (case tget t hash of None \<Rightarrow> [] | Some r \<Rightarrow> r) = n * 2))"

definition GetLocationInChain :: "bytes table \<Rightarrow> bytes \<Rightarrow> (bool \<times> bytes \<times> bytes) res" where
  "GetLocationInChain t hash =
     (let n = length hash
      in if n = 0 then Err (ErrDB ''hashisemptyd'')
         else
           let h = (case tget t hash of None \<Rightarrow> [] | Some r \<Rightarrow> r)
           in if length h = n * 2 then
                (let prevHash = copy_at (zeros n) 0 (take n h); nextHash = copy_at (zeros n) 0 (drop n h)
                 in Ok (True, (if prevHash = zeros n then [] else prevHash),
                              (if nextHash = zeros n then [] else nextHash)))
              else Ok (False, [], []))"


section \<open>The chain table refines a list of hashes\<close>

text \<open>
  \<open>chain_repr n t hs\<close>: the table \<open>t\<close> stands for the chain \<open>hs\<close> (first block first) of hashes of \<open>n\<close>
  bytes. The record of a hash is the previous hash followed by the next one, zeros where there is none.
\<close>

definition chain_rec :: "nat \<Rightarrow> bytes list \<Rightarrow> nat \<Rightarrow> bytes" where
  "chain_rec n hs i =
     (if i = 0 then zeros n else hs ! (i - 1)) @ (if Suc i < length hs then hs ! Suc i else zeros n)"

definition chain_repr :: "nat \<Rightarrow> bytes table \<Rightarrow> bytes list \<Rightarrow> bool" where
  "chain_repr n t hs \<longleftrightarrow>
     0 < n \<and> distinct hs \<and> (\<forall>h\<in>set hs. length h = n \<and> h \<noteq> zeros n) \<and>
     (\<forall>i<length hs. tget t (hs ! i) = Some (chain_rec n hs i)) \<and>
     (\<forall>h. h \<notin> set hs \<longrightarrow> tget t h = None)"

lemma length_zeros [simp]: "length (zeros n) = n"
  by (simp add: zeros_def)

lemma zeros_double: "zeros (n * 2) = zeros n @ zeros n"
  by (simp add: zeros_def replicate_add[symmetric] mult_2_right)

lemma copy_at_whole: "length dst = length src \<Longrightarrow> copy_at dst 0 src = src"
  by (simp add: copy_at_def)

lemma copy_at_second: "length a = n \<Longrightarrow> length b = n \<Longrightarrow> length c = n \<Longrightarrow> copy_at (a @ b) n c = a @ c"
  by (simp add: copy_at_def)

lemma copy_at_half: "length a = n \<Longrightarrow> copy_at (zeros (n * 2)) 0 a = a @ zeros n"
  by (simp add: copy_at_def zeros_def)

lemma length_chain_rec:
  assumes "\<forall>h\<in>set hs. length h = n" and "i < length hs"
  shows "length (chain_rec n hs i) = n * 2"
  using assms by (auto simp: chain_rec_def)

lemma chain_repr_rec:
  assumes "chain_repr n t hs" and "i < length hs"
  shows "tget t (hs ! i) = Some (chain_rec n hs i)" "length (chain_rec n hs i) = n * 2"
    "length (hs ! i) = n" "hs ! i \<noteq> zeros n" "0 < n"
  using assms length_chain_rec[of hs n i] by (auto simp: chain_repr_def)

lemma chain_repr_None: "chain_repr n t hs \<Longrightarrow> h \<notin> set hs \<Longrightarrow> tget t h = None"
  by (simp add: chain_repr_def)

lemma chain_halves:
  assumes "chain_repr n t hs" and "i < length hs"
  shows "take n (chain_rec n hs i) = (if i = 0 then zeros n else hs ! (i - 1))"
    "drop n (chain_rec n hs i) = (if Suc i < length hs then hs ! Suc i else zeros n)"
  using assms by (auto simp: chain_rec_def chain_repr_def)

lemma chain_next_zero_iff:
  assumes "chain_repr n t hs" and "i < length hs"
  shows "copy_at (zeros n) 0 (drop n (chain_rec n hs i)) = zeros n \<longleftrightarrow> Suc i = length hs"
proof -
  have "length (if Suc i < length hs then hs ! Suc i else zeros n) = n"
    using chain_repr_rec(3)[OF assms(1), of "Suc i"] by auto
  then have "copy_at (zeros n) 0 (drop n (chain_rec n hs i)) = (if Suc i < length hs then hs ! Suc i else zeros n)"
    unfolding chain_halves(2)[OF assms] by (subst copy_at_whole) auto
  then show ?thesis using chain_repr_rec(4)[OF assms(1), of "Suc i"] assms(2) by auto
qed

lemma chain_repr_length:
  assumes "chain_repr n t hs"
  shows "length hs \<le> length t"
proof -
  have "h \<in> fst ` set t" if "h \<in> set hs" for h
  proof -
    from that obtain i where "i < length hs" "hs ! i = h" by (metis in_set_conv_nth)
    then have "tget t h \<noteq> None" using chain_repr_rec(1)[OF assms] by auto
    then show ?thesis by (simp add: tget_None)
  qed
  then have "set hs \<subseteq> fst ` set t" by blast
  then have "card (set hs) \<le> card (fst ` set t)" by (simp add: card_mono)
  also have "\<dots> \<le> length t" by (metis card_image_le card_length finite_set le_trans)
  finally show ?thesis using assms by (simp add: chain_repr_def distinct_card)
qed

lemma BlockInChain_member:
  assumes "chain_repr n t hs" and "length h = n"
  shows "BlockInChain t h = Ok (h \<in> set hs)"
proof (cases "h \<in> set hs")
  case True
  then obtain i where "i < length hs" "h = hs ! i" by (metis in_set_conv_nth)
  then show ?thesis using chain_repr_rec[OF assms(1)] True by (simp add: BlockInChain_def Let_def)
next
  case False
  have "0 < n" using assms(1) by (simp add: chain_repr_def)
  then show ?thesis using chain_repr_None[OF assms(1) False] assms False
    by (auto simp: BlockInChain_def Let_def)
qed

lemma GetLocationInChain_at:
  assumes "chain_repr n t hs" and "i < length hs"
  shows "GetLocationInChain t (hs ! i) =
           Ok (True, (if i = 0 then [] else hs ! (i - 1)), (if Suc i < length hs then hs ! Suc i else []))"
proof -
  note r = chain_repr_rec[OF assms]
  have p: "copy_at (zeros n) 0 (take n (chain_rec n hs i)) = (if i = 0 then zeros n else hs ! (i - 1))"
    unfolding chain_halves(1)[OF assms] using chain_repr_rec(3)[OF assms(1), of "i - 1"] assms(2)
    by (auto intro!: copy_at_whole)
  have q: "copy_at (zeros n) 0 (drop n (chain_rec n hs i)) = (if Suc i < length hs then hs ! Suc i else zeros n)"
    unfolding chain_halves(2)[OF assms] using chain_repr_rec(3)[OF assms(1), of "Suc i"] assms(2)
    by (auto intro!: copy_at_whole)
  have "i \<noteq> 0 \<Longrightarrow> hs ! (i - 1) \<noteq> zeros n" and "Suc i < length hs \<Longrightarrow> hs ! Suc i \<noteq> zeros n"
    using chain_repr_rec(4)[OF assms(1)] assms(2) by auto
  then show ?thesis using r p q by (simp add: GetLocationInChain_def Let_def)
qed

lemma GetLocationInChain_absent:
  assumes "chain_repr n t hs" and "length h = n" and "h \<notin> set hs"
  shows "GetLocationInChain t h = Ok (False, [], [])"
  using assms chain_repr_None[OF assms(1,3)] by (auto simp: GetLocationInChain_def Let_def chain_repr_def)

lemma chain_reprI:
  assumes "0 < n" "distinct hs" "\<And>h. h \<in> set hs \<Longrightarrow> length h = n \<and> h \<noteq> zeros n"
    "\<And>i. i < length hs \<Longrightarrow> tget t (hs ! i) = Some (chain_rec n hs i)"
    "\<And>h. h \<notin> set hs \<Longrightarrow> tget t h = None"
  shows "chain_repr n t hs"
  using assms by (auto simp: chain_repr_def)

lemma AddToChain_first:
  assumes "chain_repr n t []" and "length h = n" and "h \<noteq> zeros n"
  shows "AddToChain t h [] = (Ok (), tput t h (zeros (n * 2)))" "chain_repr n (tput t h (zeros (n * 2))) [h]"
  using assms by (auto simp: AddToChain_def Let_def chain_repr_def chain_rec_def table_simps zeros_double)

lemma chain_rec_snoc:
  assumes "i < length hs"
  shows "chain_rec n (hs @ [h]) i =
     (if i = 0 then zeros n else hs ! (i - 1)) @ (if Suc i < length hs then hs ! Suc i else h)"
  using assms by (auto simp: chain_rec_def nth_append less_Suc_eq)

lemma AddToChain_top:
  assumes r: "chain_repr n t (hs @ [p])" and h: "length h = n" "h \<noteq> zeros n" "h \<notin> set (hs @ [p])"
  shows "\<exists>t'. AddToChain t h p = (Ok (), t') \<and> chain_repr n t' (hs @ [p, h])"
proof -
  let ?i = "length hs" and ?l = "hs @ [p]"
  let ?prev = "if ?i = 0 then zeros n else hs ! (?i - 1)"
  have i: "?i < length ?l" by simp
  note g = chain_repr_rec[OF r i]
  have rec: "chain_rec n ?l ?i = ?prev @ zeros n" by (auto simp: chain_rec_def nth_append)
  have lp: "length ?prev = n" using chain_repr_rec(3)[OF r, of "?i - 1"] by (auto simp: nth_append)
  have d: "distinct ?l" using r by (simp add: chain_repr_def)
  define t' where "t' = tput (tput t p (?prev @ h)) h (p @ zeros n)"
  have run: "AddToChain t h p = (Ok (), t')"
    using g rec lp h chain_next_zero_iff[OF r i]
    by (auto simp: AddToChain_def Let_def t'_def copy_at_second copy_at_half)
  have "chain_repr n t' (?l @ [h])"
  proof (rule chain_reprI)
    show "0 < n" by (rule g)
    show "distinct (?l @ [h])" using d h(3) by auto
    show "length x = n \<and> x \<noteq> zeros n" if "x \<in> set (?l @ [h])" for x
      using that r h(1,2) unfolding chain_repr_def by auto
    show "tget t' x = None" if "x \<notin> set (?l @ [h])" for x
      using that chain_repr_None[OF r, of x] by (auto simp: t'_def table_simps)
    fix j assume "j < length (?l @ [h])"
    then consider "j < ?i" | "j = ?i" | "j = Suc ?i" by fastforce
    then show "tget t' ((?l @ [h]) ! j) = Some (chain_rec n (?l @ [h]) j)"
    proof cases
      case 1
      then have "hs ! j \<in> set hs" by simp
      then have "hs ! j \<noteq> p" "hs ! j \<noteq> h" using d h(3) by auto
      moreover have "tget t (hs ! j) = Some (chain_rec n ?l j)"
        using chain_repr_rec(1)[OF r, of j] 1 by (simp add: nth_append)
      moreover have "chain_rec n (?l @ [h]) j = chain_rec n ?l j"
        using 1 by (auto simp: chain_rec_def nth_append)
      ultimately show ?thesis using 1 by (simp add: t'_def table_simps nth_append)
    next
      case 2
      have "p \<noteq> h" using h(3) by auto
      then show ?thesis using 2 by (auto simp: t'_def table_simps nth_append chain_rec_def)
    next
      case 3
      then show ?thesis by (auto simp: t'_def table_simps nth_append chain_rec_def)
    qed
  qed
  with run show ?thesis by simp
qed

lemma AddToChain_inner:
  assumes "chain_repr n t hs" and "Suc i < length hs" and "length h = n"
  shows "AddToChain t h (hs ! i) = (Err (ErrDB ''hashemptyd''), t)"
proof -
  have "i < length hs" using assms by simp
  then show ?thesis
    using chain_repr_rec[OF assms(1), of i] chain_next_zero_iff[OF assms(1), of i] assms
    by (auto simp: AddToChain_def Let_def)
qed

lemma AddToChain_unknown:
  assumes "chain_repr n t hs" and "p \<notin> set hs" and "p \<noteq> []" and "length h = n"
  shows "AddToChain t h p = (Err (ErrDB ''hashnotfound''), t)"
  using assms chain_repr_None[OF assms(1,2)] by (auto simp: AddToChain_def Let_def chain_repr_def)


lemma chain_prev_copy:
  assumes "chain_repr n t hs" and "i < length hs"
  shows "copy_at (zeros n) 0 (take n (chain_rec n hs i)) = (if i = 0 then zeros n else hs ! (i - 1))"
  unfolding chain_halves(1)[OF assms] using chain_repr_rec(3)[OF assms(1), of "i - 1"] assms(2)
  by (auto intro!: copy_at_whole)

lemma RemoveFromChain_inner:
  assumes "chain_repr n t hs" and "Suc i < length hs"
  shows "RemoveFromChain t (hs ! i) = (Err (ErrDB ''hashemptyd''), t)"
proof -
  have "i < length hs" using assms by simp
  then show ?thesis
    using chain_repr_rec[OF assms(1), of i] chain_next_zero_iff[OF assms(1), of i] assms
    by (auto simp: RemoveFromChain_def Let_def)
qed

lemma RemoveFromChain_unknown:
  assumes "chain_repr n t hs" and "h \<notin> set hs" and "length h = n"
  shows "RemoveFromChain t h = (Err (ErrDB ''hashnotfound''), t)"
  using assms chain_repr_None[OF assms(1,2)] by (auto simp: RemoveFromChain_def Let_def chain_repr_def)

lemma RemoveFromChain_first:
  assumes r: "chain_repr n t [h]"
  shows "\<exists>t'. RemoveFromChain t h = (Ok (), t') \<and> chain_repr n t' []"
proof -
  note g = chain_repr_rec[OF r, of 0, simplified]
  have "RemoveFromChain t h = (Ok (), tdel t h)"
    using g chain_next_zero_iff[OF r, of 0] chain_prev_copy[OF r, of 0]
    by (auto simp: RemoveFromChain_def Let_def)
  moreover have "chain_repr n (tdel t h) []"
    using g(5) chain_repr_None[OF r] by (intro chain_reprI) (auto simp: table_simps)
  ultimately show ?thesis by blast
qed

lemma RemoveFromChain_top:
  assumes r: "chain_repr n t (hs @ [p, h])"
  shows "\<exists>t'. RemoveFromChain t h = (Ok (), t') \<and> chain_repr n t' (hs @ [p])"
proof -
  let ?i = "length hs" and ?l = "hs @ [p, h]"
  let ?prev = "if ?i = 0 then zeros n else hs ! (?i - 1)"
  have i: "?i < length ?l" and j: "Suc ?i < length ?l" by simp_all
  have d: "distinct ?l" using r by (simp add: chain_repr_def)
  have nthi: "?l ! ?i = p" and nthj: "?l ! Suc ?i = h" by (simp_all add: nth_append)
  note g = chain_repr_rec[OF r i, unfolded nthi] and k = chain_repr_rec[OF r j, unfolded nthj]
  have rec: "chain_rec n ?l ?i = ?prev @ h" by (auto simp: chain_rec_def nth_append)
  have lp: "length ?prev = n" using chain_repr_rec(3)[OF r, of "?i - 1"] by (auto simp: nth_append)
  define t' where "t' = tdel (tput t p (?prev @ zeros n)) h"
  have "copy_at (zeros n) 0 (take n (chain_rec n ?l (Suc ?i))) = p"
    using chain_prev_copy[OF r j] by (simp add: nth_append)
  moreover have "copy_at (zeros n) 0 (drop n (chain_rec n ?l (Suc ?i))) = zeros n"
    using chain_next_zero_iff[OF r j] by simp
  ultimately have run: "RemoveFromChain t h = (Ok (), t')"
    using g k lp by (simp add: RemoveFromChain_def Let_def t'_def rec copy_at_second)
  have "chain_repr n t' (hs @ [p])"
  proof (rule chain_reprI)
    show "0 < n" by (rule g)
    show "distinct (hs @ [p])" using d by auto
    show "length x = n \<and> x \<noteq> zeros n" if "x \<in> set (hs @ [p])" for x
      using that r unfolding chain_repr_def by auto
    show "tget t' x = None" if "x \<notin> set (hs @ [p])" for x
      using that chain_repr_None[OF r, of x] by (auto simp: t'_def table_simps)
    fix m assume m: "m < length (hs @ [p])"
    then consider "m < ?i" | "m = ?i" by fastforce
    then show "tget t' ((hs @ [p]) ! m) = Some (chain_rec n (hs @ [p]) m)"
    proof cases
      case 1
      then have "hs ! m \<in> set hs" by simp
      then have "hs ! m \<noteq> p" "hs ! m \<noteq> h" using d by auto
      moreover have "tget t (hs ! m) = Some (chain_rec n ?l m)"
        using chain_repr_rec(1)[OF r, of m] 1 by (simp add: nth_append)
      moreover have "chain_rec n (hs @ [p]) m = chain_rec n ?l m"
        using 1 by (auto simp: chain_rec_def nth_append)
      ultimately show ?thesis using 1 by (simp add: t'_def table_simps nth_append)
    next
      case 2
      then show ?thesis using d by (auto simp: t'_def table_simps nth_append chain_rec_def)
    qed
  qed
  with run show ?thesis by blast
qed

text \<open>
  What the block chain manager relies on when it moves the main chain to another branch: the contract
  of a chain that grows and shrinks at its last element only.
\<close>

locale linked_chain =
  fixes repr :: "'t \<Rightarrow> 'h list \<Rightarrow> bool"
    and okh :: "'h \<Rightarrow> bool"
    and add :: "'t \<Rightarrow> 'h \<Rightarrow> 'h \<Rightarrow> unit res \<times> 't"
    and rem :: "'t \<Rightarrow> 'h \<Rightarrow> unit res \<times> 't"
    and mem :: "'t \<Rightarrow> 'h \<Rightarrow> bool res"
  assumes add_last: "repr t (hs @ [p]) \<Longrightarrow> okh h \<Longrightarrow> h \<notin> set (hs @ [p]) \<Longrightarrow>
      \<exists>t'. add t h p = (Ok (), t') \<and> repr t' (hs @ [p, h])"
    and rem_last: "repr t (hs @ [p, h]) \<Longrightarrow> \<exists>t'. rem t h = (Ok (), t') \<and> repr t' (hs @ [p])"
    and mem_iff: "repr t hs \<Longrightarrow> okh h \<Longrightarrow> mem t h = Ok (h \<in> set hs)"
begin

lemma rem_suffix:
  "repr t (hs @ p # ds) \<Longrightarrow>
     \<exists>t'. forS (\<lambda>h t. rem t h) (rev ds) t = (Ok (), t') \<and> repr t' (hs @ [p])"
proof (induction ds arbitrary: t rule: rev_induct)
  case (snoc d ds)
  obtain ys q where ys: "hs @ p # ds = ys @ [q]" by (metis append_is_Nil_conv list.distinct(1) rev_exhaust)
  have "repr t ((ys @ [q]) @ [d])" unfolding ys[symmetric] using snoc.prems by simp
  then have "repr t (ys @ [q, d])" by simp
  from rem_last[OF this] obtain t1 where "rem t d = (Ok (), t1)" "repr t1 (hs @ p # ds)"
    using ys by auto
  then show ?case using snoc.IH[of t1] by auto
qed auto

lemma add_suffix:
  "repr t (hs @ [p]) \<Longrightarrow> distinct (hs @ p # as) \<Longrightarrow> \<forall>a\<in>set as. okh a \<Longrightarrow>
     \<exists>t'. forS (\<lambda>q t. add t (fst q) (snd q)) (zip as (p # as)) t = (Ok (), t') \<and> repr t' (hs @ p # as)"
proof (induction as arbitrary: t hs p)
  case (Cons a as)
  have "okh a" "a \<notin> set (hs @ [p])" using Cons.prems by auto
  from add_last[OF Cons.prems(1) this] obtain t1 where
    t1: "add t a p = (Ok (), t1)" "repr t1 ((hs @ [p]) @ [a])" by auto
  from Cons.IH[OF this(2)] Cons.prems(2,3) show ?case using t1(1) by auto
qed auto

lemma switch_branch:
  assumes "repr t (hs @ p # ds)" and "distinct (hs @ p # as)" and "\<forall>a\<in>set as. okh a"
  shows "\<exists>t'. bindS (forS (\<lambda>h t. rem t h) (rev ds) t)
                    (\<lambda>_. forS (\<lambda>q t. add t (fst q) (snd q)) (zip as (p # as))) = (Ok (), t')
              \<and> repr t' (hs @ p # as)"
  using rem_suffix[OF assms(1)] add_suffix[OF _ assms(2,3)] by auto

lemma mem_after_switch:
  assumes "repr t' (hs @ p # as)" and "okh h"
  shows "mem t' h = Ok (h \<in> set (hs @ p # as))"
  using mem_iff[OF assms] .

end

interpretation chain_tbl: linked_chain "chain_repr n" "\<lambda>h. length h = n \<and> h \<noteq> zeros n" AddToChain
  RemoveFromChain BlockInChain for n
  by unfold_locales (use AddToChain_top RemoveFromChain_top BlockInChain_member in blast)+

end
