(* ===== verification/Chain.thy ===== *)
theory Chain
  imports Database
begin

text \<open>
  \<^verbatim>\<open>node/blockchain\<close>: the block chain manager and its iterator, over the blocks table and the main-chain
  table of \<open>Database\<close>. A \<open>for\<close> loop over \<^verbatim>\<open>BlockchainIterator.Next\<close> is \<open>walk\<close>, with one unit of fuel more
  than there are records: the body looks only at the block, so a walk that visits that many blocks has met
  one of them twice and never ends, which is the result \<open>Diverge\<close>. Loops that count their blocks get the
  count as fuel. The theory shows that walks end on chains whose heights decrease, what \<^verbatim>\<open>AddBlock\<close> does in
  every case, and that \<^verbatim>\<open>UpdateChainOnNewBranch\<close> replaces a branch of the represented chain.
\<close>

section \<open>Iterator\<close>

definition iter_Next :: "'m node_db \<Rightarrow> bytes \<Rightarrow> (block \<times> bytes) res" where
  "iter_Next db currentHash =
     bindR (getConnection db) (\<lambda>_.
     bindR (NewBlockFromBytes (db_GetBlock db currentHash)) (\<lambda>b. Ok (b, blk_PrevBlockHash b)))"

text \<open>\<open>block, _ := bci.Next()\<close> followed by an access to a field of \<open>block\<close>.\<close>

definition iter_Next_unchecked :: "'m node_db \<Rightarrow> bytes \<Rightarrow> (block \<times> bytes) res" where
  "iter_Next_unchecked db currentHash =
     (case iter_Next db currentHash of Err e \<Rightarrow> Panic | r \<Rightarrow> r)"

definition NewBlockchainIterator :: "'m node_db \<Rightarrow> bytes res" where
  "NewBlockchainIterator db = bindR (getConnection db) (\<lambda>_. GetTopHash db)"

definition NewBlockchainIteratorFrom :: "bytes \<Rightarrow> bytes res" where
  "NewBlockchainIteratorFrom startHash = Ok startHash"

text \<open>The body of a loop returns \<open>Inl r\<close> when it leaves the loop and \<open>Inr s\<close> to go on with state \<open>s\<close>.\<close>

fun walk :: "nat \<Rightarrow> (bytes \<Rightarrow> (block \<times> bytes) res) \<Rightarrow> bytes \<Rightarrow> (block \<Rightarrow> 's \<Rightarrow> ('r + 's) res) \<Rightarrow> 's \<Rightarrow> 'r res" where
  "walk 0 nxt h body s = Diverge"
| "walk (Suc n) nxt h body s =
     bindR (nxt h) (\<lambda>p. bindR (body (fst p) s) (\<lambda>r.
       case r of Inl x \<Rightarrow> Ok x | Inr s' \<Rightarrow> walk n nxt (snd p) body s'))"

definition walk_fuel :: "'m node_db \<Rightarrow> nat" where
  "walk_fuel db = Suc (length (db_blocks db))"

section \<open>Reading blocks\<close>

definition GetBlock :: "'m node_db \<Rightarrow> bytes \<Rightarrow> block res" where
  "GetBlock db blockHash =
     bindR (getConnection db) (\<lambda>_.
       case db_GetBlock db blockHash of
         None \<Rightarrow> Err (ErrNew ''Block is not found.'')
       | Some d \<Rightarrow> bindR (NewBlockFromBytes (Some d)) (\<lambda>b. Ok (Block_Copy b)))"

definition CheckBlockExists :: "'m node_db \<Rightarrow> bytes \<Rightarrow> bool res" where
  "CheckBlockExists db blockHash = bindR (getConnection db) (\<lambda>_. Ok (db_CheckBlockExists db blockHash))"

definition GetState :: "'m node_db \<Rightarrow> (bytes \<times> int) res" where
  "GetState db =
     bindR (getConnection db) (\<lambda>_. bindR (GetTopBlock db) (\<lambda>d.
     bindR (NewBlockFromBytes d) (\<lambda>b. Ok (blk_Hash b, blk_Height b))))"

definition GetBestHeight :: "'m node_db \<Rightarrow> int res" where
  "GetBestHeight db =
     bindR (getConnection db) (\<lambda>_. bindR (GetTopBlock db) (\<lambda>d.
     bindR (NewBlockFromBytes d) (\<lambda>b. Ok (blk_Height b))))"

definition GetGenesisBlockHash :: "'m node_db \<Rightarrow> bytes res" where
  "GetGenesisBlockHash db = bindR (getConnection db) (\<lambda>_. GetFirstHash db)"

fun find_tx :: "bytes \<Rightarrow> transaction list \<Rightarrow> transaction res" where
  "find_tx txID [] = Err (ErrNew ''Transaction is not found'')"
| "find_tx txID (tx # txs) = (if tx_ID tx = txID then Ok tx else find_tx txID txs)"

definition GetTransactionFromBlock :: "'m node_db \<Rightarrow> bytes \<Rightarrow> bytes \<Rightarrow> transaction res" where
  "GetTransactionFromBlock db txID blockHash =
     bindR (GetBlock db blockHash) (\<lambda>b. find_tx txID (blk_Transactions b))"

definition GetBlockAtHeight :: "'m node_db \<Rightarrow> int \<Rightarrow> block res" where
  "GetBlockAtHeight db height =
     bindR (NewBlockchainIterator db) (\<lambda>h.
       walk (walk_fuel db) (iter_Next_unchecked db) h (\<lambda>b (_::unit).
         if blk_Height b = height then Ok (Inl b)
         else if blk_Height b < height then Err (ErrNew ''Block with the heigh doesn't exist'')
         else if length (blk_PrevBlockHash b) = 0 then Err (ErrNew ''Block with the heigh doesn't exist'')
         else Ok (Inr ())) ())"

text \<open>
  \<^verbatim>\<open>GetBlocksShortInfo\<close> returns the empty list when no iterator can be made. It leaves the loop when it has
  more than \<open>maxcount\<close> blocks, so it reads at most \<open>maxcount + 1\<close> of them, and at least one.
\<close>

definition count_fuel :: "int \<Rightarrow> nat" where
  "count_fuel maxcount = Suc (Suc (nat maxcount))"

definition GetBlocksShortInfo :: "'m node_db \<Rightarrow> bytes \<Rightarrow> int \<Rightarrow> block_short list res" where
  "GetBlocksShortInfo db startfrom maxcount =
     (case (if length startfrom > 0 then NewBlockchainIteratorFrom startfrom else NewBlockchainIterator db) of
        Err e \<Rightarrow> Ok []
      | r \<Rightarrow> bindR r (\<lambda>h. walk (count_fuel maxcount) (iter_Next_unchecked db) h (\<lambda>b blocks.
          let blocks = blocks @ [GetShortCopy b]
          in if length (blk_PrevBlockHash b) = 0 then Ok (Inl blocks)
             else if int (length blocks) > maxcount then Ok (Inl blocks)
             else Ok (Inr blocks)) []))"

definition GetBlocksShortInfoCreatedAfter ::
  "'m node_db \<Rightarrow> bytes \<Rightarrow> int \<Rightarrow> int \<Rightarrow> block_short list res" where
  "GetBlocksShortInfoCreatedAfter db startfrom minCreateTime maxcount =
     bindR (if length startfrom > 0 then NewBlockchainIteratorFrom startfrom else NewBlockchainIterator db) (\<lambda>h.
       walk (count_fuel maxcount) (iter_Next_unchecked db) h (\<lambda>b blocks.
         if blk_Timestamp b < minCreateTime then Ok (Inl blocks)
         else
           let blocks = blocks @ [GetShortCopy b]
           in if length (blk_PrevBlockHash b) = 0 then Ok (Inl blocks)
              else if int (length blocks) > maxcount then Ok (Inl blocks)
              else Ok (Inr blocks)) [])"

text \<open>The loops that follow the main chain upwards; \<open>next_blocks\<close> gathers at most \<open>fuel\<close> blocks.\<close>

fun next_blocks :: "nat \<Rightarrow> 'm node_db \<Rightarrow> (nat \<Rightarrow> bool) \<Rightarrow> bytes \<Rightarrow> block list \<Rightarrow> block list res" where
  "next_blocks 0 db stop hash blocks = Diverge"
| "next_blocks (Suc n) db stop hash blocks =
     bindR (GetLocationInChain (db_chain db) hash) (\<lambda>(_, _, nextHash).
     bindR (GetBlock db hash) (\<lambda>b.
       let blocks = blocks @ [b]
       in if stop (length blocks) then Ok blocks
          else if length nextHash = 0 then Ok blocks
          else next_blocks n db stop nextHash blocks))"

definition maxmaxcount :: nat where "maxmaxcount = 1000"

definition GetNextBlocks :: "'m node_db \<Rightarrow> bytes \<Rightarrow> int \<Rightarrow> block_short list res" where
  "GetNextBlocks db startfrom maxcount =
     bindR (getConnection db) (\<lambda>_.
     bindR (next_blocks maxmaxcount db
              (\<lambda>n. n \<ge> maxmaxcount \<or> (maxcount > 0 \<and> int n \<ge> maxcount)) startfrom []) (\<lambda>blocks.
       Ok (map GetShortCopy blocks)))"

definition GetFirstBlocks :: "'m node_db \<Rightarrow> int \<Rightarrow> (block list \<times> int) res" where
  "GetFirstBlocks db maxcount =
     bindR (GetState db) (\<lambda>(_, height).
     bindR (GetGenesisBlockHash db) (\<lambda>genesisHash.
     bindR (getConnection db) (\<lambda>_.
     bindR (next_blocks (Suc (nat maxcount)) db (\<lambda>n. int n \<ge> maxcount) genesisHash []) (\<lambda>blocks.
       Ok (blocks, height)))))"

fun first_in_chain :: "bytes table \<Rightarrow> bytes list \<Rightarrow> bytes res" where
  "first_in_chain t [] = Ok []"
| "first_in_chain t (h # hs) =
     bindR (GetLocationInChain t h) (\<lambda>(exists, _, _). if exists then Ok h else first_in_chain t hs)"

definition GetBlocksSince :: "'m node_db \<Rightarrow> bytes list \<Rightarrow> int \<Rightarrow> int \<Rightarrow> block_short list res" where
  "GetBlocksSince db startBlocksHashes minCreateTime maxcount =
     bindR (getConnection db) (\<lambda>_.
     bindR (first_in_chain (db_chain db) startBlocksHashes) (\<lambda>startFromHash.
       if length startFromHash > 0 then GetNextBlocks db startFromHash maxcount
       else GetBlocksShortInfoCreatedAfter db [] minCreateTime maxcount))"

section \<open>Adding and deleting blocks\<close>

text \<open>Operations of the chain table, on the whole database.\<close>

definition on_chain :: "(bytes table \<Rightarrow> 'a res \<times> bytes table) \<Rightarrow> 'm node_db \<Rightarrow> 'a res \<times> 'm node_db" where
  "on_chain f db = (let (r, t) = f (db_chain db) in (r, db\<lparr>db_chain := t\<rparr>))"

definition new_branch :: "'m node_db \<Rightarrow> bytes \<Rightarrow> (bytes \<times> block_short list) res" where
  "new_branch db h =
     walk (walk_fuel db) (iter_Next_unchecked db) h (\<lambda>b newBlocks.
       bindR (BlockInChain (db_chain db) (blk_Hash b)) (\<lambda>exists.
         if exists then Ok (Inl (blk_Hash b, newBlocks))
         else
           let newBlocks = newBlocks @ [GetShortCopy b]
           in if length (blk_PrevBlockHash b) = 0 then Ok (Inl ([], newBlocks)) else Ok (Inr newBlocks))) []"

text \<open>Every turn of this loop removes a record of the table or leaves.\<close>

fun remove_branch :: "nat \<Rightarrow> bytes \<Rightarrow> bytes \<Rightarrow> bytes table \<Rightarrow> unit res \<times> bytes table" where
  "remove_branch 0 mergePointHash remHash t = (Diverge, t)"
| "remove_branch (Suc n) mergePointHash remHash t =
     (if remHash = mergePointHash then (Ok (), t)
      else bindS (GetLocationInChain t remHash, t) (\<lambda>(_, prevHash, _) t.
           bindS (RemoveFromChain t remHash) (\<lambda>_ t. remove_branch n mergePointHash prevHash t)))"

fun add_branch :: "bytes \<Rightarrow> block_short list \<Rightarrow> bytes table \<Rightarrow> unit res \<times> bytes table" where
  "add_branch mergePointHash [] t = (Ok (), t)"
| "add_branch mergePointHash (b # bs) t =
     bindS (AddToChain t (bs_Hash b) mergePointHash) (\<lambda>_ t. add_branch (bs_Hash b) bs t)"

definition UpdateChainOnNewBranch :: "'m node_db \<Rightarrow> bytes \<Rightarrow> unit res \<times> 'm node_db" where
  "UpdateChainOnNewBranch db prevTopHash =
     bindS (NewBlockchainIterator db, db) (\<lambda>h db.
     bindS (getConnection db, db) (\<lambda>_ db.
     bindS (new_branch db h, db) (\<lambda>(mergePointHash, newBlocks) db.
     bindS (on_chain (remove_branch (Suc (length (db_chain db))) mergePointHash prevTopHash) db) (\<lambda>_ db.
       on_chain (add_branch mergePointHash (ReverseBlocksShortSlice newBlocks)) db))))"

datatype add_state =
    BCBAddState_error
  | BCBAddState_addedToTop
  | BCBAddState_addedToParallelTop
  | BCBAddState_addedToParallel
  | BCBAddState_notAddedNoPrev
  | BCBAddState_notAddedExists

text \<open>The error result of \<^verbatim>\<open>AddBlock\<close> always comes with the state \<open>BCBAddState_error\<close>.\<close>

definition AddBlock :: "'m node_db \<Rightarrow> block \<Rightarrow> add_state res \<times> 'm node_db" where
  "AddBlock db b =
     bindS (getConnection db, db) (\<lambda>_ db.
       if db_GetBlock db (blk_Hash b) \<noteq> None then (Ok BCBAddState_notAddedExists, db)
       else if db_GetBlock db (blk_PrevBlockHash b) = None then (Ok BCBAddState_notAddedNoPrev, db)
       else
         let db = db_PutBlock db (blk_Hash b) b
         in bindS (GetTopHash db, db) (\<lambda>lastHash db.
            bindS (NewBlockFromBytes (db_GetBlock db lastHash), db) (\<lambda>lastBlock db.
              if blk_Height b > blk_Height lastBlock then
                let db = SaveTopHash db (blk_Hash b)
                in if lastHash \<noteq> blk_PrevBlockHash b then
                     ignoreS (UpdateChainOnNewBranch db lastHash) (\<lambda>db. (Ok BCBAddState_addedToParallelTop, db))
                   else
                     ignoreS (on_chain (\<lambda>t. AddToChain t (blk_Hash b) (blk_PrevBlockHash b)) db)
                       (\<lambda>db. (Ok BCBAddState_addedToTop, db))
              else (Ok BCBAddState_addedToParallel, db))))"

definition DeleteBlock :: "'m node_db \<Rightarrow> block res \<times> 'm node_db" where
  "DeleteBlock db =
     bindS (getConnection db, db) (\<lambda>_ db.
     bindS (GetTopBlock db, db) (\<lambda>blockInDb db.
       if blockInDb = None then (Err (ErrNew ''Top block is not found!''), db)
       else bindS (NewBlockFromBytes blockInDb, db) (\<lambda>b db.
         let db = SaveTopHash db (blk_PrevBlockHash b);
             db = db_DeleteBlock db (blk_Hash b)
         in ignoreS (on_chain (\<lambda>t. RemoveFromChain t (blk_Hash b)) db) (\<lambda>db. (Ok b, db)))))"

section \<open>Branches\<close>

text \<open>
  The two loops of \<^verbatim>\<open>GetSideBranch\<close> that bring the higher branch down to the height of the other one, and
  the loop that walks down both until they meet. The state of that loop is the pair of positions, so a
  cycle shows after at most the square of the number of records.
\<close>

definition down_to_height :: "'m node_db \<Rightarrow> bytes \<Rightarrow> int \<Rightarrow> (block \<times> block list) res" where
  "down_to_height db h height =
     walk (walk_fuel db) (iter_Next_unchecked db) h (\<lambda>b acc.
       if blk_Height b = height then Ok (Inl (b, acc)) else Ok (Inr (acc @ [b]))) []"

fun meet_branches ::
  "nat \<Rightarrow> 'm node_db \<Rightarrow> bytes \<Rightarrow> bytes \<Rightarrow> block list \<Rightarrow> block list \<Rightarrow> (block list \<times> block list \<times> block) res" where
  "meet_branches 0 db hs ht sideBlocks mainBlocks = Diverge"
| "meet_branches (Suc n) db hs ht sideBlocks mainBlocks =
     bindR (iter_Next_unchecked db hs) (\<lambda>(sideblock, hs').
     bindR (iter_Next_unchecked db ht) (\<lambda>(topblock, ht').
       if blk_Hash sideblock = blk_Hash topblock
       then Ok (sideBlocks, ReverseBlocksSlice mainBlocks, sideblock)
       else if length (blk_PrevBlockHash sideblock) = 0 \<or> length (blk_PrevBlockHash topblock) = 0
       then Err (ErrNew ''No connect with main blockchain'')
       else meet_branches n db hs' ht' (sideBlocks @ [sideblock]) (mainBlocks @ [topblock])))"

definition GetSideBranch :: "'m node_db \<Rightarrow> bytes \<Rightarrow> bytes \<Rightarrow> (block list \<times> block list \<times> block) res" where
  "GetSideBranch db hash currentTip =
     bindR (GetBlock db hash) (\<lambda>sideblock.
     bindR (GetBlock db currentTip) (\<lambda>topblock.
       if blk_Height sideblock < 1 \<or> blk_Height topblock < 1
       then Err (ErrNew ''Can not do this for genesis block'')
       else
         bindR (if blk_Height sideblock > blk_Height topblock then
                  bindR (down_to_height db (blk_Hash sideblock) (blk_Height topblock)) (\<lambda>(b, sideBlocks).
                    Ok (b, topblock, sideBlocks, []))
                else if blk_Height sideblock < blk_Height topblock then
                  bindR (down_to_height db (blk_Hash topblock) (blk_Height sideblock)) (\<lambda>(b, mainBlocks).
                    Ok (sideblock, b, [], mainBlocks))
                else Ok (sideblock, topblock, [], []))
           (\<lambda>(sideblock, topblock, sideBlocks, mainBlocks).
              meet_branches (Suc (length (db_blocks db) * length (db_blocks db))) db
                (blk_Hash sideblock) (blk_Hash topblock) sideBlocks mainBlocks)))"

text \<open>
  \<^verbatim>\<open>GetBranchesReplacement\<close> logs \<^verbatim>\<open>BCBlock.Hash\<close> before it looks at the error of \<^verbatim>\<open>GetSideBranch\<close>; with an
  error \<^verbatim>\<open>BCBlock\<close> is \<open>nil\<close>.
\<close>

definition GetBranchesReplacement :: "'m node_db \<Rightarrow> bytes \<Rightarrow> bytes \<Rightarrow> (block list \<times> block list) res" where
  "GetBranchesReplacement db sideBranchHash tip =
     (case GetSideBranch db sideBranchHash tip of
        Err e \<Rightarrow> Panic
      | r \<Rightarrow> bindR r (\<lambda>(sideBlocks, mainBlocks, BCBlock).
          if blk_Hash BCBlock = sideBranchHash then Ok ([], []) else Ok (mainBlocks, sideBlocks)))"

fun first_BlockInChain :: "bytes table \<Rightarrow> bytes list \<Rightarrow> bytes res" where
  "first_BlockInChain t [] = Ok []"
| "first_BlockInChain t (h # hs) =
     bindR (BlockInChain t h) (\<lambda>exists. if exists then Ok h else first_BlockInChain t hs)"

fun first_below :: "'m node_db \<Rightarrow> block \<Rightarrow> bytes list \<Rightarrow> bytes res" where
  "first_below db topBlock [] = Ok []"
| "first_below db topBlock (h # hs) =
     bindR (BlockInChain (db_chain db) h) (\<lambda>exists.
       if exists then
         bindR (GetBlock db h) (\<lambda>b.
           if blk_Height b < blk_Height topBlock then Ok h else first_below db topBlock hs)
       else first_below db topBlock hs)"

text \<open>
  The walk from a top block outside the main chain: \<open>Inl h\<close> is a hash to return, \<open>Inr (Some b)\<close> the first
  block of the main chain, \<open>Inr None\<close> the end of the branch.
\<close>

definition choose_walk :: "'m node_db \<Rightarrow> bytes list \<Rightarrow> bytes \<Rightarrow> (bytes + block option) res" where
  "choose_walk db blockHashes topHash =
     walk (walk_fuel db) (iter_Next db) topHash (\<lambda>b (_::unit).
       if blk_Hash b \<in> set blockHashes then Ok (Inl (Inl (blk_Hash b)))
       else bindR (BlockInChain (db_chain db) (blk_Hash b)) (\<lambda>exists.
         if exists then Ok (Inl (Inr (Some b)))
         else if length (blk_PrevBlockHash b) = 0 then Ok (Inl (Inr None)) else Ok (Inr ()))) ()"

definition ChooseHashUnderTip :: "'m node_db \<Rightarrow> bytes list \<Rightarrow> bytes \<Rightarrow> bytes res" where
  "ChooseHashUnderTip db blockHashes topHash =
     (if length blockHashes = 0 then Ok []
      else bindR (getConnection db) (\<lambda>_.
        if length topHash = 0 then first_BlockInChain (db_chain db) blockHashes
        else if topHash \<in> set blockHashes then Ok topHash
        else
          bindR (GetBlock db topHash) (\<lambda>topBlock.
          bindR (BlockInChain (db_chain db) topHash) (\<lambda>exists.
            if exists then first_below db topBlock blockHashes
            else bindR (choose_walk db blockHashes topHash) (\<lambda>r.
              case r of
                Inl h \<Rightarrow> Ok h
              | Inr None \<Rightarrow> Ok []
              | Inr (Some b) \<Rightarrow> first_below db b blockHashes)))))"

text \<open>\<open>Inl r\<close> is an answer, \<open>Inr h\<close> the first block of the main chain.\<close>

definition range_walk :: "'m node_db \<Rightarrow> bytes \<Rightarrow> bytes \<Rightarrow> bytes \<Rightarrow> (bool + bytes) res" where
  "range_walk db blockHash bottomHash topHash =
     walk (walk_fuel db) (iter_Next db) topHash (\<lambda>b (_::unit).
       if blockHash = blk_Hash b then Ok (Inl (Inl True))
       else if bottomHash = blk_Hash b then Ok (Inl (Inl False))
       else bindR (BlockInChain (db_chain db) (blk_Hash b)) (\<lambda>exists.
         if exists then Ok (Inl (Inr (blk_Hash b)))
         else if length (blk_PrevBlockHash b) = 0 then Ok (Inl (Inl False)) else Ok (Inr ()))) ()"

definition CheckBlockIsInRange :: "'m node_db \<Rightarrow> bytes \<Rightarrow> bytes \<Rightarrow> bytes \<Rightarrow> bool res" where
  "CheckBlockIsInRange db blockHash bottomHash topHash =
     bindR (getConnection db) (\<lambda>_.
     bindR (if length topHash > 0 then
              bindR (BlockInChain (db_chain db) topHash) (\<lambda>exists.
                if exists then Ok (Inr topHash) else range_walk db blockHash bottomHash topHash)
            else bindR (GetTopHash db) (\<lambda>h. Ok (Inr h))) (\<lambda>r.
       case r of
         Inl ans \<Rightarrow> Ok ans
       | Inr topHash \<Rightarrow>
           bindR (BlockInChain (db_chain db) blockHash) (\<lambda>exists.
             if \<not> exists then Ok False
             else
               bindR (GetBlock db topHash) (\<lambda>topBlock.
               bindR (GetBlock db bottomHash) (\<lambda>bottomBlock.
               bindR (GetBlock db blockHash) (\<lambda>b.
                 Ok (blk_Height b \<ge> blk_Height bottomBlock \<and> blk_Height b \<le> blk_Height topBlock)))))))"

section \<open>History of an address\<close>

record transactions_history =
  th_IOType :: bool
  th_TXID :: bytes
  th_Address :: string
  th_Value :: float64

definition history_spent ::
  "'k crypto \<Rightarrow> bytes \<Rightarrow> string \<Rightarrow> transaction \<Rightarrow> transactions_history list" where
  "history_spent cr pubKeyHash address tx =
     (let (spentvalue, destaddress) =
            foldl (\<lambda>(v, a) out. if \<not> IsLockedWithKey out pubKeyHash
                                then (fadd v (vout_Value out), PubKeyHashToAddres cr (vout_PubKeyHash out))
                                else (v, a)) (0, '''') (tx_Vout tx)
      in if flt 0 spentvalue
         then [\<lparr>th_IOType = False, th_TXID = tx_ID tx, th_Address = destaddress, th_Value = spentvalue\<rparr>]
         else [\<lparr>th_IOType = False, th_TXID = tx_ID tx, th_Address = address, th_Value = 0\<rparr>,
               \<lparr>th_IOType = True, th_TXID = tx_ID tx, th_Address = address, th_Value = 0\<rparr>])"

definition history_tx ::
  "'k crypto \<Rightarrow> bytes \<Rightarrow> string \<Rightarrow> transaction \<Rightarrow> transactions_history list res" where
  "history_tx cr pubKeyHash address tx =
     (if \<not> IsCurrencyTransfer tx then Ok []
      else
        let spentaddress = PubKeyToAddres cr (tx_ByPubKey tx);
            finish = (\<lambda>(spentaddress, income, entries).
              if flt 0 income
              then Ok (entries @ [\<lparr>th_IOType = True, th_TXID = tx_ID tx, th_Address = spentaddress, th_Value = income\<rparr>])
              else Ok entries)
        in if CreatedByPubKeyHash cr tx pubKeyHash
           then finish (spentaddress, 0, history_spent cr pubKeyHash address tx)
           else if IsCoinbaseTransfer tx then
             bindR (index (tx_Vout tx) 0) (\<lambda>out.
               if IsLockedWithKey out pubKeyHash then finish (''Coin base'', vout_Value out, [])
               else finish (spentaddress, 0, []))
           else finish (spentaddress,
                  foldl (\<lambda>v out. if IsLockedWithKey out pubKeyHash then fadd v (vout_Value out) else v) 0 (tx_Vout tx),
                  []))"

fun history_txs ::
  "'k crypto \<Rightarrow> bytes \<Rightarrow> string \<Rightarrow> transaction list \<Rightarrow> transactions_history list \<Rightarrow> transactions_history list res" where
  "history_txs cr pubKeyHash address [] acc = Ok acc"
| "history_txs cr pubKeyHash address (tx # txs) acc =
     bindR (history_tx cr pubKeyHash address tx) (\<lambda>es. history_txs cr pubKeyHash address txs (acc @ es))"

definition GetAddressHistory ::
  "'k crypto \<Rightarrow> 'm node_db \<Rightarrow> bytes \<Rightarrow> bytes \<Rightarrow> string \<Rightarrow> transactions_history list res" where
  "GetAddressHistory cr db currentHash pubKeyHash address =
     walk (walk_fuel db) (iter_Next_unchecked db) currentHash (\<lambda>b acc.
       bindR (history_txs cr pubKeyHash address (blk_Transactions b) acc) (\<lambda>acc.
         if length (blk_PrevBlockHash b) = 0 then Ok (Inl acc) else Ok (Inr acc))) []"

section \<open>Walks end\<close>

text \<open>Every stored block sits above its previous block, so no walk can come back to a block.\<close>

definition heights_decrease :: "'m node_db \<Rightarrow> bool" where
  "heights_decrease db \<longleftrightarrow>
     (\<forall>h b p. db_GetBlock db h = Some (BlockData b) \<longrightarrow>
        db_GetBlock db (blk_PrevBlockHash b) = Some (BlockData p) \<longrightarrow> blk_Height p < blk_Height b)"

definition keys_below :: "'m node_db \<Rightarrow> int \<Rightarrow> bytes set" where
  "keys_below db k = {h. \<exists>b. db_GetBlock db h = Some (BlockData b) \<and> blk_Height b \<le> k}"

lemma keys_below_sub: "keys_below db k \<subseteq> fst ` set (db_blocks db)"
  by (force simp: keys_below_def db_GetBlock_def dest: tget_Some_in)

lemma finite_keys_below: "finite (keys_below db k)"
  by (rule finite_subset[OF keys_below_sub]) simp

lemma card_keys_below: "card (keys_below db k) \<le> length (db_blocks db)"
proof -
  have "card (keys_below db k) \<le> card (fst ` set (db_blocks db))"
    by (rule card_mono[OF _ keys_below_sub]) simp
  also have "\<dots> \<le> length (db_blocks db)"
    by (metis card_image_le card_length finite_set le_trans)
  finally show ?thesis .
qed

definition reads_blocks :: "'m node_db \<Rightarrow> (bytes \<Rightarrow> (block \<times> bytes) res) \<Rightarrow> bool" where
  "reads_blocks db nxt \<longleftrightarrow>
     (\<forall>h. nxt h \<noteq> Diverge) \<and>
     (\<forall>h b h'. nxt h = Ok (b, h') \<longrightarrow> db_GetBlock db h = Some (BlockData b) \<and> h' = blk_PrevBlockHash b)"

lemma iter_Next_Ok [res_simps]:
  "iter_Next db h = Ok (b, h') \<longleftrightarrow>
     db_opened db \<and> db_GetBlock db h = Some (BlockData b) \<and> h' = blk_PrevBlockHash b"
  by (auto simp: iter_Next_def res_simps getConnection_def)

lemma iter_Next_unchecked_Ok [res_simps]:
  "iter_Next_unchecked db h = Ok (b, h') \<longleftrightarrow>
     db_opened db \<and> db_GetBlock db h = Some (BlockData b) \<and> h' = blk_PrevBlockHash b"
  using iter_Next_Ok[of db h b h'] by (auto simp: iter_Next_unchecked_def split: res.splits)

lemma iter_Next_no_Diverge: "iter_Next db h \<noteq> Diverge" "iter_Next_unchecked db h \<noteq> Diverge"
  by (auto simp: iter_Next_unchecked_def iter_Next_def getConnection_def NewBlockFromBytes_def
      split: option.splits blkval.splits)

lemma reads_blocks_iter [simp]: "reads_blocks db (iter_Next db)" "reads_blocks db (iter_Next_unchecked db)"
  by (auto simp: reads_blocks_def res_simps iter_Next_no_Diverge)

lemma walk_Suc_Diverge:
  "walk (Suc n) nxt h body s = Diverge \<longleftrightarrow>
     nxt h = Diverge \<or> (\<exists>b h'. nxt h = Ok (b, h') \<and>
       (body b s = Diverge \<or> (\<exists>s'. body b s = Ok (Inr s') \<and> walk n nxt h' body s' = Diverge)))"
  by (auto simp: bindR_eq_Diverge split_sum_ex)

lemma walk_ends_from:
  assumes hd: "heights_decrease db" and rd: "reads_blocks db nxt"
    and body: "\<And>b s. body b s \<noteq> Diverge"
  shows "db_GetBlock db h = Some (BlockData b) \<Longrightarrow> card (keys_below db (blk_Height b)) \<le> n \<Longrightarrow>
           walk (Suc n) nxt h body s \<noteq> Diverge"
proof (induction n arbitrary: h b s)
  case 0
  have "h \<in> keys_below db (blk_Height b)" using 0 by (auto simp: keys_below_def)
  then show ?case using 0 finite_keys_below[of db "blk_Height b"] by auto
next
  case (Suc n)
  show ?case
  proof
    assume "walk (Suc (Suc n)) nxt h body s = Diverge"
    then obtain c h' s' where st: "nxt h = Ok (c, h')" "body c s = Ok (Inr s')"
      "walk (Suc n) nxt h' body s' = Diverge"
      using rd body unfolding reads_blocks_def walk_Suc_Diverge[of "Suc n"] by blast
    have c: "c = b" "h' = blk_PrevBlockHash b" using st(1) rd Suc.prems(1) by (auto simp: reads_blocks_def)
    show False
    proof (cases "\<exists>p. db_GetBlock db h' = Some (BlockData p)")
      case True
      then obtain p where p: "db_GetBlock db h' = Some (BlockData p)" by blast
      then have lt: "blk_Height p < blk_Height b" using hd Suc.prems(1) c(2) unfolding heights_decrease_def by blast
      have "h \<in> keys_below db (blk_Height b)" "h \<notin> keys_below db (blk_Height p)"
        using Suc.prems(1) lt by (auto simp: keys_below_def)
      moreover have "keys_below db (blk_Height p) \<subseteq> keys_below db (blk_Height b)"
        using lt by (force simp: keys_below_def)
      ultimately have "card (keys_below db (blk_Height p)) < card (keys_below db (blk_Height b))"
        by (metis finite_keys_below psubsetI psubset_card_mono)
      then have "card (keys_below db (blk_Height p)) \<le> n" using Suc.prems(2) by simp
      from Suc.IH[OF p this] st(3) show False by blast
    next
      case False
      then have "nxt h' \<noteq> Ok (x, y)" for x y using rd unfolding reads_blocks_def by blast
      then show False using st(3) rd by (cases "nxt h'") (auto simp: reads_blocks_def)
    qed
  qed
qed

lemma walk_ends:
  assumes "heights_decrease db" and "reads_blocks db nxt" and "\<And>b s. body b s \<noteq> Diverge"
  shows "walk (walk_fuel db) nxt h body s \<noteq> Diverge"
proof (cases "\<exists>b. db_GetBlock db h = Some (BlockData b)")
  case True
  then show ?thesis unfolding walk_fuel_def
    using walk_ends_from[of db nxt body, OF assms] card_keys_below by blast
next
  case False
  then have "nxt h \<noteq> Ok (x, y)" for x y using assms(2) unfolding reads_blocks_def by blast
  then show ?thesis using assms(2) unfolding walk_fuel_def by (cases "nxt h") (auto simp: reads_blocks_def)
qed

lemma BlockInChain_no_Diverge [simp]: "BlockInChain t h \<noteq> Diverge"
  by (simp add: BlockInChain_def Let_def)

lemma GetBlock_Ok [res_simps]:
  "GetBlock db h = Ok b \<longleftrightarrow> db_opened db \<and> db_GetBlock db h = Some (BlockData b)"
  by (auto simp: GetBlock_def res_simps getConnection_def split: option.splits)

lemma GetBlock_no_Diverge [simp]: "GetBlock db h \<noteq> Diverge"
  by (auto simp: GetBlock_def getConnection_def NewBlockFromBytes_def split: option.splits blkval.splits)

section \<open>Replacing a branch\<close>

text \<open>\<open>down_path db h bs h'\<close>: from hash \<open>h\<close> the blocks \<open>bs\<close> lead down to the hash \<open>h'\<close>.\<close>

fun down_path :: "'m node_db \<Rightarrow> bytes \<Rightarrow> block list \<Rightarrow> bytes \<Rightarrow> bool" where
  "down_path db h [] h' \<longleftrightarrow> h = h'"
| "down_path db h (b # bs) h' \<longleftrightarrow>
     db_GetBlock db h = Some (BlockData b) \<and> blk_Hash b = h \<and> blk_PrevBlockHash b \<noteq> [] \<and>
     down_path db (blk_PrevBlockHash b) bs h'"

lemma down_path_keys: "down_path db h bs h' \<Longrightarrow> set (map blk_Hash bs) \<subseteq> fst ` set (db_blocks db)"
proof (induction bs arbitrary: h)
  case (Cons b bs)
  then have "tget (db_blocks db) (blk_Hash b) = Some (BlockData b)" by (simp add: db_GetBlock_def)
  then have "blk_Hash b \<in> fst ` set (db_blocks db)" by (metis option.distinct(1) tget_None)
  moreover have "set (map blk_Hash bs) \<subseteq> fst ` set (db_blocks db)"
    using Cons.IH[of "blk_PrevBlockHash b"] Cons.prems by simp
  ultimately show ?case by simp
qed simp

lemma down_path_length:
  assumes "down_path db h bs h'" and "distinct (map blk_Hash bs)"
  shows "length bs \<le> length (db_blocks db)"
proof -
  have "length bs = card (set (map blk_Hash bs))" using assms(2) by (metis distinct_card length_map)
  also have "\<dots> \<le> card (fst ` set (db_blocks db))"
    by (rule card_mono[OF _ down_path_keys[OF assms(1)]]) simp
  also have "\<dots> \<le> length (db_blocks db)" by (metis card_image_le card_length finite_set le_trans)
  finally show ?thesis .
qed

lemma new_branch_walk:
  assumes "db_opened db" and "chain_repr n (db_chain db) hs"
    and "db_GetBlock db m = Some (BlockData pb)" "blk_Hash pb = m" "m \<in> set hs"
  shows "down_path db h bs m \<Longrightarrow> \<forall>b\<in>set bs. length (blk_Hash b) = n \<and> blk_Hash b \<notin> set hs \<Longrightarrow>
         length bs < k \<Longrightarrow>
     walk k (iter_Next_unchecked db) h (\<lambda>b newBlocks.
       bindR (BlockInChain (db_chain db) (blk_Hash b)) (\<lambda>exists.
         if exists then Ok (Inl (blk_Hash b, newBlocks))
         else
           let newBlocks = newBlocks @ [GetShortCopy b]
           in if length (blk_PrevBlockHash b) = 0 then Ok (Inl ([], newBlocks)) else Ok (Inr newBlocks))) acc
     = Ok (m, acc @ map GetShortCopy bs)"
proof (induction bs arbitrary: h k acc)
  case Nil
  then obtain k' where k: "k = Suc k'" by (cases k) auto
  have m: "length m = n" using assms(2,5) by (auto simp: chain_repr_def)
  have "iter_Next_unchecked db m = Ok (pb, blk_PrevBlockHash pb)" using assms by (simp add: res_simps)
  then show ?case using Nil k BlockInChain_member[OF assms(2) m] assms(4,5) by simp
next
  case (Cons b bs)
  then obtain k' where k: "k = Suc k'" by (cases k) auto
  have "iter_Next_unchecked db h = Ok (b, blk_PrevBlockHash b)" using assms(1) Cons.prems by (simp add: res_simps)
  moreover have "BlockInChain (db_chain db) (blk_Hash b) = Ok False"
    using BlockInChain_member[OF assms(2), of "blk_Hash b"] Cons.prems by simp
  ultimately show ?case
    using Cons.IH[of "blk_PrevBlockHash b" k' "acc @ [GetShortCopy b]"] Cons.prems k by (simp add: Let_def)
qed

lemma remove_branch_forS:
  "chain_repr n t (hs @ p # ds) \<Longrightarrow> length ds < k \<Longrightarrow>
     remove_branch k p (List.last (p # ds)) t = forS (\<lambda>h t. RemoveFromChain t h) (rev ds) t"
proof (induction ds arbitrary: k t rule: rev_induct)
  case Nil
  then show ?case by (cases k) auto
next
  case (snoc d ds)
  let ?l = "hs @ p # ds @ [d]" and ?i = "length hs + Suc (length ds)"
  obtain k' where k: "k = Suc k'" using snoc.prems(2) by (cases k) auto
  have d: "d \<noteq> p" using snoc.prems(1) by (auto simp: chain_repr_def)
  have "?l ! ?i = d" "?l ! (?i - 1) = List.last (p # ds)"
    by (auto simp: nth_append nth_Cons last_conv_nth split: nat.splits)
  then have loc: "GetLocationInChain t d = Ok (True, List.last (p # ds), [])"
    using GetLocationInChain_at[OF snoc.prems(1), of ?i] by simp
  obtain ys q where ys: "hs @ p # ds = ys @ [q]" by (metis append_is_Nil_conv list.distinct(1) rev_exhaust)
  have "chain_repr n t ((ys @ [q]) @ [d])" unfolding ys[symmetric] using snoc.prems(1) by simp
  then have "chain_repr n t (ys @ [q, d])" by simp
  then obtain t1 where t1: "RemoveFromChain t d = (Ok (), t1)" "chain_repr n t1 (hs @ p # ds)"
    using RemoveFromChain_top ys by metis
  show ?case using snoc.IH[OF t1(2), of k'] snoc.prems(2) k d loc t1(1) by simp
qed

lemma add_branch_forS:
  "add_branch p bs =
     forS (\<lambda>q t. AddToChain t (fst q) (snd q)) (zip (map bs_Hash bs) (p # map bs_Hash bs))"
proof (induction bs arbitrary: p)
  case (Cons b bs)
  show ?case by (rule ext) (simp add: Cons)
qed auto

lemma on_chain_simps [simp]:
  "db_opened (snd (on_chain f db)) = db_opened db" "db_blocks (snd (on_chain f db)) = db_blocks db"
  by (simp_all add: on_chain_def split_beta Let_def)

lemma UpdateChain_switches:
  assumes op: "db_opened db" and r: "chain_repr n (db_chain db) (hs @ p # ds)"
    and top: "GetTopHash db = Ok h" and path: "down_path db h bs p"
    and pb: "db_GetBlock db p = Some (BlockData pb)" "blk_Hash pb = p"
    and fresh: "\<And>b. b \<in> set bs \<Longrightarrow> length (blk_Hash b) = n \<and> blk_Hash b \<noteq> zeros n \<and> blk_Hash b \<notin> set (hs @ p # ds)"
    and dist: "distinct (map blk_Hash bs)"
  shows "\<exists>t. UpdateChainOnNewBranch db (List.last (p # ds)) = (Ok (), db\<lparr>db_chain := t\<rparr>) \<and>
             chain_repr n t (hs @ p # rev (map blk_Hash bs))"
proof -
  let ?as = "rev (map blk_Hash bs)"
  have nb: "new_branch db h = Ok (p, map GetShortCopy bs)"
    unfolding new_branch_def walk_fuel_def
    by (subst new_branch_walk[OF op r pb _ path])
      (use fresh down_path_length[OF path dist] in auto)
  have da: "distinct (hs @ p # ?as)" using r dist fresh by (auto simp: chain_repr_def)
  have okas: "\<forall>a\<in>set ?as. length a = n \<and> a \<noteq> zeros n" using fresh by auto
  have len: "length ds < Suc (length (db_chain db))"
    using chain_repr_length[OF r] by simp
  obtain t where t: "bindS (forS (\<lambda>h t. RemoveFromChain t h) (rev ds) (db_chain db))
      (\<lambda>_. forS (\<lambda>q t. AddToChain t (fst q) (snd q)) (zip ?as (p # ?as))) = (Ok (), t)"
    "chain_repr n t (hs @ p # ?as)"
    using chain_tbl.switch_branch[OF r da] okas by blast
  then obtain t1 where t1: "forS (\<lambda>h t. RemoveFromChain t h) (rev ds) (db_chain db) = (Ok (), t1)"
    "forS (\<lambda>q t. AddToChain t (fst q) (snd q)) (zip ?as (p # ?as)) t1 = (Ok (), t)"
    by (auto simp: bindS_eq_Ok)
  have ab: "add_branch p (rev (map GetShortCopy bs)) t1 = (Ok (), t)"
    using t1(2) by (simp add: add_branch_forS rev_map GetShortCopy_def o_def)
  have rb: "remove_branch (Suc (length (db_chain db))) p (List.last (p # ds)) (db_chain db) = (Ok (), t1)"
    using remove_branch_forS[OF r len] t1(1) by simp
  have "UpdateChainOnNewBranch db (List.last (p # ds)) = (Ok (), db\<lparr>db_chain := t\<rparr>)"
    using op top nb ab rb
    by (simp add: UpdateChainOnNewBranch_def NewBlockchainIterator_def on_chain_def
        ReverseBlocksShortSlice_rev del: last.simps remove_branch.simps)
  with t(2) show ?thesis by blast
qed

section \<open>The block store and \<^verbatim>\<open>AddBlock\<close>\<close>

text \<open>
  \<open>store_inv n db hs\<close>: the top record, the main-chain table and the stored blocks agree on the main chain
  \<open>hs\<close>; every stored block has its own hash as key, of \<open>n\<close> bytes, and its previous block is stored and
  lower; only the first block of the main chain has no previous block.
\<close>

definition block_ok :: "nat \<Rightarrow> 'm node_db \<Rightarrow> bytes \<Rightarrow> bytes \<Rightarrow> block \<Rightarrow> bool" where
  "block_ok n db genesis h b \<longleftrightarrow>
     blk_Hash b = h \<and> length h = n \<and> h \<noteq> zeros n \<and>
     (if h = genesis then blk_PrevBlockHash b = []
      else blk_PrevBlockHash b \<noteq> [] \<and>
           (\<exists>p. db_GetBlock db (blk_PrevBlockHash b) = Some (BlockData p) \<and> blk_Height p < blk_Height b))"

definition prev_is :: "'m node_db \<Rightarrow> bytes \<Rightarrow> bytes \<Rightarrow> bool" where
  "prev_is db x y \<longleftrightarrow> (\<exists>b. db_GetBlock db y = Some (BlockData b) \<and> blk_PrevBlockHash b = x)"

lemma down_path_linked:
  "down_path db h bs p \<Longrightarrow> successively (prev_is db) (p # rev (map blk_Hash bs)) \<and>
     List.last (p # rev (map blk_Hash bs)) = h"
proof (induction bs arbitrary: h)
  case (Cons b bs)
  then have "successively (prev_is db) (p # rev (map blk_Hash bs))"
    "List.last (p # rev (map blk_Hash bs)) = blk_PrevBlockHash b" by auto
  moreover have "prev_is db (blk_PrevBlockHash b) h" using Cons.prems by (auto simp: prev_is_def)
  ultimately have "successively (prev_is db) ((p # rev (map blk_Hash bs)) @ [h])"
    unfolding successively_append_iff by auto
  then show ?case using Cons.prems by simp
qed simp

definition store_inv :: "nat \<Rightarrow> 'm node_db \<Rightarrow> bytes list \<Rightarrow> bool" where
  "store_inv n db hs \<longleftrightarrow>
     db_opened db \<and> 2 \<le> n \<and> chain_repr n (db_chain db) hs \<and> hs \<noteq> [] \<and>
     db_GetBlock db topKey = Some (HashData (List.last hs)) \<and>
     (\<forall>h\<in>set hs. \<exists>b. db_GetBlock db h = Some (BlockData b)) \<and> successively (prev_is db) hs \<and>
     (\<forall>h b. db_GetBlock db h = Some (BlockData b) \<longrightarrow> block_ok n db (hd hs) h b) \<and>
     (\<forall>h v. db_GetBlock db h = Some (HashData v) \<longrightarrow> length h = 1)"

lemma store_invD:
  assumes "store_inv n db hs"
  shows "db_opened db" "2 \<le> n" "chain_repr n (db_chain db) hs" "hs \<noteq> []"
    "db_GetBlock db topKey = Some (HashData (List.last hs))"
    "\<And>h. h \<in> set hs \<Longrightarrow> \<exists>b. db_GetBlock db h = Some (BlockData b)"
    "\<And>h b. db_GetBlock db h = Some (BlockData b) \<Longrightarrow> block_ok n db (hd hs) h b"
    "\<And>h v. db_GetBlock db h = Some (HashData v) \<Longrightarrow> length h = 1"
    "successively (prev_is db) hs"
  using assms unfolding store_inv_def by blast+

lemma store_inv_top: "store_inv n db hs \<Longrightarrow> GetTopHash db = Ok (List.last hs)"
  using store_invD(5)[of n db hs] by (simp add: GetTopHash_def db_GetBlock_def raw_value_def)

lemma store_inv_heights: "store_inv n db hs \<Longrightarrow> heights_decrease db"
  unfolding heights_decrease_def
proof (intro allI impI)
  fix h b p
  assume si: "store_inv n db hs" and b: "db_GetBlock db h = Some (BlockData b)"
    and p: "db_GetBlock db (blk_PrevBlockHash b) = Some (BlockData p)"
  have "2 \<le> n" "length (blk_PrevBlockHash b) = n"
    using store_invD(2)[OF si] store_invD(7)[OF si p] by (auto simp: block_ok_def)
  then have "blk_PrevBlockHash b \<noteq> []" by auto
  then show "blk_Height p < blk_Height b" using store_invD(7)[OF si b] p
    by (auto simp: block_ok_def split: if_splits)
qed

lemma down_to_main:
  assumes si: "store_inv n db hs"
  shows "db_GetBlock db h = Some (BlockData b) \<Longrightarrow>
    \<exists>bs p. down_path db h bs p \<and> p \<in> set hs \<and> distinct (map blk_Hash bs) \<and>
      (\<forall>x\<in>set bs. blk_Hash x \<notin> set hs \<and> length (blk_Hash x) = n \<and> blk_Hash x \<noteq> zeros n \<and>
         blk_Height x \<le> blk_Height b \<and> db_GetBlock db (blk_Hash x) = Some (BlockData x))"
proof (induction "card (keys_below db (blk_Height b))" arbitrary: h b rule: less_induct)
  case less
  note ok = store_invD(7)[OF si less.prems]
  show ?case
  proof (cases "h \<in> set hs")
    case True
    then show ?thesis by (intro exI[of _ "[]"] exI[of _ h]) simp
  next
    case False
    have "hd hs \<in> set hs" using store_invD(4)[OF si] by simp
    then have prev: "blk_PrevBlockHash b \<noteq> []" using ok False by (auto simp: block_ok_def split: if_splits)
    then obtain q where q: "db_GetBlock db (blk_PrevBlockHash b) = Some (BlockData q)"
      "blk_Height q < blk_Height b" using ok by (auto simp: block_ok_def split: if_splits)
    have "h \<in> keys_below db (blk_Height b)" "h \<notin> keys_below db (blk_Height q)"
      using less.prems q(2) by (auto simp: keys_below_def)
    moreover have "keys_below db (blk_Height q) \<subseteq> keys_below db (blk_Height b)"
      using q(2) by (force simp: keys_below_def)
    ultimately have "card (keys_below db (blk_Height q)) < card (keys_below db (blk_Height b))"
      by (metis finite_keys_below psubsetI psubset_card_mono)
    from less.hyps[OF this q(1)] obtain bs p where bs: "down_path db (blk_PrevBlockHash b) bs p" "p \<in> set hs"
      "distinct (map blk_Hash bs)" and x: "\<And>x. x \<in> set bs \<Longrightarrow> blk_Hash x \<notin> set hs \<and> length (blk_Hash x) = n \<and>
         blk_Hash x \<noteq> zeros n \<and> blk_Height x \<le> blk_Height q \<and> db_GetBlock db (blk_Hash x) = Some (BlockData x)"
      by blast
    have new: "blk_Hash b \<notin> blk_Hash ` set bs"
    proof
      assume "blk_Hash b \<in> blk_Hash ` set bs"
      then obtain y where "y \<in> set bs" "blk_Hash b = blk_Hash y" by blast
      then have "y = b" using x[of y] ok less.prems by (auto simp: block_ok_def)
      then show False using x[of y] \<open>y \<in> set bs\<close> q(2) by simp
    qed
    have "down_path db h (b # bs) p" using bs(1) ok less.prems prev by (simp add: block_ok_def)
    moreover have "distinct (map blk_Hash (b # bs))" using bs(3) new by simp
    moreover have "blk_Hash y \<notin> set hs \<and> length (blk_Hash y) = n \<and> blk_Hash y \<noteq> zeros n \<and>
         blk_Height y \<le> blk_Height b \<and> db_GetBlock db (blk_Hash y) = Some (BlockData y)"
      if "y \<in> set (b # bs)" for y
      using that x[of y] ok less.prems False q(2) by (auto simp: block_ok_def)
    ultimately show ?thesis using bs(2) by blast
  qed
qed

text \<open>The database after a block is stored, and after it becomes the top.\<close>

lemma db_GetBlock_put:
  "db_GetBlock (db_PutBlock db h b) k = (if k = h then Some (BlockData b) else db_GetBlock db k)"
  "db_GetBlock (SaveTopHash db h) k = (if k = topKey then Some (HashData h) else db_GetBlock db k)"
  "db_GetBlock (db_DeleteBlock db h) k = (if k = h then None else db_GetBlock db k)"
  "db_GetBlock (db\<lparr>db_chain := t\<rparr>) k = db_GetBlock db k"
  by (simp_all add: db_GetBlock_def db_PutBlock_def SaveTopHash_def db_DeleteBlock_def table_simps)

lemma db_put_fields [simp]:
  "db_opened (db_PutBlock db h b) = db_opened db" "db_chain (db_PutBlock db h b) = db_chain db"
  "db_opened (SaveTopHash db h) = db_opened db" "db_chain (SaveTopHash db h) = db_chain db"
  "db_opened (db_DeleteBlock db h) = db_opened db" "db_chain (db_DeleteBlock db h) = db_chain db"
  by (simp_all add: db_PutBlock_def SaveTopHash_def db_DeleteBlock_def)

lemma GetTopHash_Save [simp]: "GetTopHash (SaveTopHash db h) = Ok h"
  by (simp add: GetTopHash_def SaveTopHash_def raw_value_def)

lemma topKey_len: "length topKey = 1"
  by (simp add: topKey_def)

text \<open>The invariant when block \<open>b\<close> is stored above a stored block and \<open>hs'\<close> is the new main chain.\<close>

lemma store_inv_add:
  assumes si: "store_inv n db hs" and prev: "db_GetBlock db (blk_PrevBlockHash b) = Some (BlockData p)"
    "blk_Height p < blk_Height b" "blk_PrevBlockHash b \<noteq> []"
    and h: "length (blk_Hash b) = n" "blk_Hash b \<noteq> zeros n" "db_GetBlock db (blk_Hash b) = None"
    and db': "db_opened db'" "chain_repr n (db_chain db') hs'" "hs' \<noteq> []" "hd hs' = hd hs"
      "set hs' \<subseteq> insert (blk_Hash b) {k. \<exists>x. db_GetBlock db k = Some (BlockData x)}"
      "successively (prev_is db') hs'"
    and get: "\<And>k. db_GetBlock db' k = (if k = topKey then Some (HashData (List.last hs'))
                 else if k = blk_Hash b then Some (BlockData b) else db_GetBlock db k)"
  shows "store_inv n db' hs'"
proof -
  note D = store_invD[OF si]
  have tk: "topKey \<noteq> blk_Hash b" using h(1) D(2) topKey_len by auto
  have keep: "db_GetBlock db' k = Some (BlockData x)" if "db_GetBlock db k = Some (BlockData x)" for k x
    using that get[of k] h(3) D(5) by auto
  have ok: "block_ok n db' (hd hs') k x" if "db_GetBlock db' k = Some (BlockData x)" for k x
  proof (cases "k = blk_Hash b")
    case True
    then have "x = b" using that get[of k] tk by simp
    moreover have "blk_Hash b \<noteq> hd hs'" using D(4) D(6)[of "hd hs"] h(3) db'(4) by auto
    ultimately show ?thesis using True prev keep[OF prev(1)] h by (simp add: block_ok_def)
  next
    case False
    then have o: "db_GetBlock db k = Some (BlockData x)" using that get[of k] by (auto split: if_splits)
    show ?thesis using D(7)[OF o] keep db'(4) unfolding block_ok_def by (auto split: if_splits)
  qed
  have one: "length k = 1" if "db_GetBlock db' k = Some (HashData v)" for k v
    using that get[of k] D(8) topKey_len by (auto split: if_splits)
  have "\<exists>x. db_GetBlock db' k = Some (BlockData x)" if "k \<in> set hs'" for k
    using that db'(5) keep get[of "blk_Hash b"] tk by auto
  then show ?thesis unfolding store_inv_def using db' D(2) get[of topKey] ok one by auto
qed

lemma down_path_mono:
  "down_path db h bs p \<Longrightarrow> (\<And>k x. db_GetBlock db k = Some (BlockData x) \<Longrightarrow> db_GetBlock db' k = Some (BlockData x))
   \<Longrightarrow> down_path db' h bs p"
  by (induction bs arbitrary: h) auto

lemma prev_is_mono:
  assumes "successively (prev_is db) hs"
    and "\<And>k x. db_GetBlock db k = Some (BlockData x) \<Longrightarrow> db_GetBlock db' k = Some (BlockData x)"
  shows "successively (prev_is db') hs"
  by (rule successively_mono[OF assms(1)]) (use assms(2) in \<open>auto simp: prev_is_def\<close>)

lemma AddBlock_known:
  "db_opened db \<Longrightarrow> db_GetBlock db (blk_Hash b) = Some v \<Longrightarrow>
     AddBlock db b = (Ok BCBAddState_notAddedExists, db)"
  by (simp add: AddBlock_def)

lemma AddBlock_no_prev:
  "db_opened db \<Longrightarrow> db_GetBlock db (blk_Hash b) = None \<Longrightarrow> db_GetBlock db (blk_PrevBlockHash b) = None \<Longrightarrow>
     AddBlock db b = (Ok BCBAddState_notAddedNoPrev, db)"
  by (simp add: AddBlock_def)

text \<open>A new block above a stored block, by the three outcomes of the height test and of the top test.\<close>

definition new_block :: "nat \<Rightarrow> 'm node_db \<Rightarrow> block \<Rightarrow> bool" where
  "new_block n db b \<longleftrightarrow>
     length (blk_Hash b) = n \<and> blk_Hash b \<noteq> zeros n \<and> db_GetBlock db (blk_Hash b) = None \<and>
     blk_PrevBlockHash b \<noteq> [] \<and>
     (\<exists>p. db_GetBlock db (blk_PrevBlockHash b) = Some (BlockData p) \<and> blk_Height p < blk_Height b)"

text \<open>The blocks of the store after block \<open>b\<close> was added: \<open>b\<close> and every block of before.\<close>

definition stores_block :: "'m node_db \<Rightarrow> block \<Rightarrow> 'm node_db \<Rightarrow> bool" where
  "stores_block db b db' \<longleftrightarrow>
     (\<forall>h. h \<noteq> topKey \<longrightarrow> db_GetBlock db' h = (if h = blk_Hash b then Some (BlockData b) else db_GetBlock db h))"

lemma AddBlock_new:
  assumes si: "store_inv n db hs" and nb: "new_block n db b"
    and tb: "db_GetBlock db (List.last hs) = Some (BlockData tb)"
  shows "AddBlock db b =
    (let db1 = db_PutBlock db (blk_Hash b) b; db2 = SaveTopHash db1 (blk_Hash b)
     in if blk_Height b > blk_Height tb then
          if List.last hs \<noteq> blk_PrevBlockHash b then
            ignoreS (UpdateChainOnNewBranch db2 (List.last hs)) (\<lambda>db. (Ok BCBAddState_addedToParallelTop, db))
          else ignoreS (on_chain (\<lambda>t. AddToChain t (blk_Hash b) (blk_PrevBlockHash b)) db2)
                 (\<lambda>db. (Ok BCBAddState_addedToTop, db))
        else (Ok BCBAddState_addedToParallel, db1))"
proof -
  note D = store_invD[OF si]
  have "topKey \<noteq> blk_Hash b" using nb D(2) topKey_len by (auto simp: new_block_def)
  then have "GetTopHash (db_PutBlock db (blk_Hash b) b) = Ok (List.last hs)"
    using D(5) by (simp add: GetTopHash_def db_GetBlock_def db_PutBlock_def table_simps raw_value_def)
  moreover have "List.last hs \<noteq> blk_Hash b" using nb tb by (auto simp: new_block_def)
  ultimately show ?thesis
    using nb tb D(1) by (auto simp: AddBlock_def new_block_def db_GetBlock_put Let_def NewBlockFromBytes_def)
qed

lemma AddBlock_side:
  assumes si: "store_inv n db hs" and nb: "new_block n db b"
    and tb: "db_GetBlock db (List.last hs) = Some (BlockData tb)" "blk_Height b \<le> blk_Height tb"
  shows "AddBlock db b = (Ok BCBAddState_addedToParallel, db_PutBlock db (blk_Hash b) b)"
    "store_inv n (db_PutBlock db (blk_Hash b) b) hs"
proof -
  note D = store_invD[OF si]
  show "AddBlock db b = (Ok BCBAddState_addedToParallel, db_PutBlock db (blk_Hash b) b)"
    using AddBlock_new[OF si nb tb(1)] tb(2) by (simp add: Let_def)
  obtain p where p: "db_GetBlock db (blk_PrevBlockHash b) = Some (BlockData p)" "blk_Height p < blk_Height b"
    using nb by (auto simp: new_block_def)
  have "topKey \<noteq> blk_Hash b" using nb D(2) topKey_len by (auto simp: new_block_def)
  then show "store_inv n (db_PutBlock db (blk_Hash b) b) hs"
    using nb D by (intro store_inv_add[OF si p] prev_is_mono[OF D(9)]) (auto simp: new_block_def db_GetBlock_put)
qed

lemma AddBlock_top:
  assumes si: "store_inv n db (hs @ [t])" and nb: "new_block n db b" and prev: "blk_PrevBlockHash b = t"
  shows "\<exists>db'. AddBlock db b = (Ok BCBAddState_addedToTop, db') \<and> store_inv n db' (hs @ [t, blk_Hash b]) \<and>
           stores_block db b db'"
proof -
  note D = store_invD[OF si]
  obtain p where p: "db_GetBlock db (blk_PrevBlockHash b) = Some (BlockData p)" "blk_Height p < blk_Height b"
    using nb by (auto simp: new_block_def)
  let ?db2 = "SaveTopHash (db_PutBlock db (blk_Hash b) b) (blk_Hash b)"
  have tk: "topKey \<noteq> blk_Hash b" using nb D(2) topKey_len by (auto simp: new_block_def)
  have "blk_Hash b \<notin> set (hs @ [t])" using D(6) nb by (force simp: new_block_def)
  then obtain c where c: "AddToChain (db_chain db) (blk_Hash b) t = (Ok (), c)"
    "chain_repr n c (hs @ [t, blk_Hash b])"
    using AddToChain_top[OF D(3)] nb by (auto simp: new_block_def)
  have run: "AddBlock db b = (Ok BCBAddState_addedToTop, ?db2\<lparr>db_chain := c\<rparr>)"
    using AddBlock_new[OF si nb, of p] p prev c(1) by (simp add: on_chain_def)
  have keep: "db_GetBlock (?db2\<lparr>db_chain := c\<rparr>) k = Some (BlockData y)"
    if "db_GetBlock db k = Some (BlockData y)" for k y
    using that nb D(5) by (auto simp: db_GetBlock_put new_block_def)
  have "prev_is (?db2\<lparr>db_chain := c\<rparr>) t (blk_Hash b)"
    using prev tk by (auto simp: prev_is_def db_GetBlock_put)
  then have "successively (prev_is (?db2\<lparr>db_chain := c\<rparr>)) ((hs @ [t]) @ [blk_Hash b])"
    using prev_is_mono[OF D(9) keep] unfolding successively_append_iff[of _ "hs @ [t]"] by simp
  then have "store_inv n (?db2\<lparr>db_chain := c\<rparr>) (hs @ [t, blk_Hash b])"
    using D nb c(2)
    by (intro store_inv_add[OF si p]) (auto simp: new_block_def db_GetBlock_put hd_append)
  then show ?thesis using run tk by (auto simp: db_GetBlock_put stores_block_def)
qed

lemma AddBlock_switch:
  assumes si: "store_inv n db hs" and nb: "new_block n db b"
    and tb: "db_GetBlock db (List.last hs) = Some (BlockData tb)" "blk_Height tb < blk_Height b"
    and other: "blk_PrevBlockHash b \<noteq> List.last hs"
  shows "\<exists>db' hs1 p ds as. AddBlock db b = (Ok BCBAddState_addedToParallelTop, db') \<and> hs = hs1 @ p # ds \<and>
           down_path db (blk_PrevBlockHash b) as p \<and>
           store_inv n db' (hs1 @ p # rev (map blk_Hash as) @ [blk_Hash b]) \<and> stores_block db b db'"
proof -
  note D = store_invD[OF si]
  obtain q where q: "db_GetBlock db (blk_PrevBlockHash b) = Some (BlockData q)" "blk_Height q < blk_Height b"
    using nb by (auto simp: new_block_def)
  let ?h = "blk_Hash b"
  let ?db2 = "SaveTopHash (db_PutBlock db ?h b) ?h"
  have h: "length ?h = n" "?h \<noteq> zeros n" "db_GetBlock db ?h = None" "blk_PrevBlockHash b \<noteq> []"
    using nb by (auto simp: new_block_def)
  have tk: "topKey \<noteq> ?h" using h D(2) topKey_len by auto
  have fresh: "?h \<notin> set hs" using D(6) h(3) by force
  obtain as p where as: "down_path db (blk_PrevBlockHash b) as p" "p \<in> set hs" "distinct (map blk_Hash as)"
    and x: "\<And>x. x \<in> set as \<Longrightarrow> blk_Hash x \<notin> set hs \<and> length (blk_Hash x) = n \<and> blk_Hash x \<noteq> zeros n \<and>
         blk_Height x \<le> blk_Height q \<and> db_GetBlock db (blk_Hash x) = Some (BlockData x)"
    using down_to_main[OF si q(1)] by blast
  obtain hs1 ds where hs: "hs = hs1 @ p # ds" using as(2) by (meson split_list)
  have keep: "db_GetBlock ?db2 k = Some (BlockData y)" if "db_GetBlock db k = Some (BlockData y)" for k y
    using that h(3) D(5) by (auto simp: db_GetBlock_put)
  have path: "down_path ?db2 ?h (b # as) p"
    using down_path_mono[OF as(1) keep] h(4) tk by (simp add: db_GetBlock_put)
  obtain pb where pb: "db_GetBlock db p = Some (BlockData pb)" using D(6)[OF as(2)] by blast
  have fr: "length (blk_Hash y) = n \<and> blk_Hash y \<noteq> zeros n \<and> blk_Hash y \<notin> set (hs1 @ p # ds)"
    if "y \<in> set (b # as)" for y
    using that x h fresh hs by auto
  have dist: "distinct (map blk_Hash (b # as))" using as(3) x h(3) by fastforce
  have r2: "chain_repr n (db_chain ?db2) (hs1 @ p # ds)" using D(3) hs by simp
  have bh: "blk_Hash pb = p" using D(7)[OF pb] by (simp add: block_ok_def)
  have op2: "db_opened ?db2" using D(1) by simp
  from UpdateChain_switches[OF op2 r2 GetTopHash_Save path keep[OF pb] bh fr dist]
  obtain c where c: "UpdateChainOnNewBranch ?db2 (List.last (p # ds)) = (Ok (), ?db2\<lparr>db_chain := c\<rparr>)"
    "chain_repr n c (hs1 @ p # rev (map blk_Hash as) @ [?h])" by auto
  have run: "AddBlock db b = (Ok BCBAddState_addedToParallelTop, ?db2\<lparr>db_chain := c\<rparr>)"
    using AddBlock_new[OF si nb tb(1)] tb(2) other c(1) hs by simp
  have "successively (prev_is (?db2\<lparr>db_chain := c\<rparr>)) (hs1 @ p # rev (map blk_Hash as) @ [?h])"
  proof -
    have "successively (prev_is db) (hs1 @ [p])"
      using D(9) unfolding hs by (auto simp: successively_append_iff)
    from prev_is_mono[OF this keep] have "successively (prev_is ?db2) (hs1 @ [p])" by blast
    moreover have "successively (prev_is ?db2) (p # rev (map blk_Hash as) @ [?h])"
      using down_path_linked[OF path] by simp
    ultimately have "successively (prev_is ?db2) (hs1 @ p # rev (map blk_Hash as) @ [?h])"
      by (auto simp: successively_append_iff)
    then show ?thesis by (rule prev_is_mono) (simp add: db_GetBlock_put)
  qed
  then have "store_inv n (?db2\<lparr>db_chain := c\<rparr>) (hs1 @ p # rev (map blk_Hash as) @ [?h])"
    using D(1,6) c(2) hs x h pb by (intro store_inv_add[OF si q]) (auto simp: db_GetBlock_put hd_append)
  then show ?thesis using run hs as(1) tk by (auto simp: db_GetBlock_put stores_block_def)
qed

lemma AddBlock_main:
  assumes si: "store_inv n db hs" and nb: "new_block n db b"
  shows "\<exists>st db' hs' tb. AddBlock db b = (Ok st, db') \<and> store_inv n db' hs' \<and> stores_block db b db' \<and>
     db_GetBlock db (List.last hs) = Some (BlockData tb) \<and>
     (st = BCBAddState_addedToParallel \<and> hs' = hs \<and> blk_Height b \<le> blk_Height tb \<or>
      st = BCBAddState_addedToTop \<and> hs' = hs @ [blk_Hash b] \<and> blk_PrevBlockHash b = List.last hs \<or>
      st = BCBAddState_addedToParallelTop \<and> blk_Height tb < blk_Height b \<and> blk_PrevBlockHash b \<noteq> List.last hs \<and>
        (\<exists>hs1 p ds as. hs = hs1 @ p # ds \<and> down_path db (blk_PrevBlockHash b) as p \<and>
           hs' = hs1 @ p # rev (map blk_Hash as) @ [blk_Hash b]))"
proof -
  note D = store_invD[OF si]
  obtain tb where tb: "db_GetBlock db (List.last hs) = Some (BlockData tb)"
    using D(6)[OF last_in_set[OF D(4)]] by blast
  have tk: "blk_Hash b \<noteq> topKey" using nb D(2) topKey_len by (auto simp: new_block_def)
  consider "blk_Height b \<le> blk_Height tb" | "blk_PrevBlockHash b = List.last hs"
    | "blk_Height tb < blk_Height b" "blk_PrevBlockHash b \<noteq> List.last hs" by linarith
  then show ?thesis
  proof cases
    case 1
    have "stores_block db b (db_PutBlock db (blk_Hash b) b)" by (simp add: stores_block_def db_GetBlock_put)
    then show ?thesis using AddBlock_side[OF si nb tb 1] tb 1 by blast
  next
    case 2
    obtain ks t where hs: "hs = ks @ [t]" using D(4) by (metis rev_exhaust)
    have "hs @ [blk_Hash b] = ks @ [t, blk_Hash b]" "blk_PrevBlockHash b = t" using hs 2 by simp_all
    moreover obtain db' where "AddBlock db b = (Ok BCBAddState_addedToTop, db')"
      "store_inv n db' (ks @ [t, blk_Hash b])" "stores_block db b db'"
      using AddBlock_top[of n db ks t b] si nb 2 hs by auto
    ultimately show ?thesis using tb 2 by metis
  next
    case 3
    from AddBlock_switch[OF si nb tb 3] show ?thesis using tb 3 by metis
  qed
qed

text \<open>
  C18: A new block whose previous block is stored below it is always added: the store keeps its
  invariant (the chain table lists the blocks from the first one to the top, linked by their
  previous hashes) and every block of before; the block goes to a side branch, to the top, or, when
  it is the highest, the side branch it ends replaces the main branch from their common block on.
\<close>

lemma AddBlock_outcome:
  assumes si: "store_inv n db hs" and nb: "new_block n db b"
  shows "\<exists>st db' hs' tb. AddBlock db b = (Ok st, db') \<and> store_inv n db' hs' \<and> stores_block db b db' \<and>
     db_GetBlock db (List.last hs) = Some (BlockData tb) \<and>
     (st = BCBAddState_addedToParallel \<and> hs' = hs \<and> blk_Height b \<le> blk_Height tb \<or>
      st = BCBAddState_addedToTop \<and> hs' = hs @ [blk_Hash b] \<and> blk_PrevBlockHash b = List.last hs \<or>
      st = BCBAddState_addedToParallelTop \<and> blk_Height tb < blk_Height b \<and> blk_PrevBlockHash b \<noteq> List.last hs \<and>
        (\<exists>hs1 p ds as. hs = hs1 @ p # ds \<and> down_path db (blk_PrevBlockHash b) as p \<and>
           hs' = hs1 @ p # rev (map blk_Hash as) @ [blk_Hash b]))"
  by (rule AddBlock_main[OF assms])

lemma DeleteBlock_top:
  assumes si: "store_inv n db (hs @ [p, h])"
    and b: "db_GetBlock db h = Some (BlockData b)"
  shows "\<exists>db'. DeleteBlock db = (Ok b, db') \<and> chain_repr n (db_chain db') (hs @ [p]) \<and>
           GetTopHash db' = Ok p \<and> db_opened db' \<and>
           (\<forall>k. db_GetBlock db' k = (if k = h then None else if k = topKey then Some (HashData p)
                                     else db_GetBlock db k))"
proof -
  note D = store_invD[OF si]
  have prev: "blk_PrevBlockHash b = p" using D(9) b by (auto simp: successively_append_iff prev_is_def)
  obtain c where c: "RemoveFromChain (db_chain db) h = (Ok (), c)" "chain_repr n c (hs @ [p])"
    using RemoveFromChain_top[OF D(3)] by blast
  have bh: "blk_Hash b = h" "h \<noteq> topKey" using D(7)[OF b] D(2) topKey_len by (auto simp: block_ok_def)
  let ?db' = "(db_DeleteBlock (SaveTopHash db p) h)\<lparr>db_chain := c\<rparr>"
  have top: "GetTopBlock db = Ok (Some (BlockData b))"
    using store_inv_top[OF si] b by (simp add: GetTopBlock_def)
  have "DeleteBlock db = (Ok b, ?db')"
    using D(1) top bh prev c(1) by (simp add: DeleteBlock_def on_chain_def NewBlockFromBytes_def)
  moreover have "GetTopHash ?db' = Ok p"
    using bh(2) by (simp add: GetTopHash_def SaveTopHash_def db_DeleteBlock_def table_simps raw_value_def)
  ultimately show ?thesis using c(2) D(1) by (auto simp: db_GetBlock_put)
qed

text \<open>The top is deleted when no other block is built on it: the invariant holds for the shorter chain.\<close>

lemma DeleteBlock_main:
  assumes si: "store_inv n db (hs @ [p, h])" and b: "db_GetBlock db h = Some (BlockData b)"
    and leaf: "\<forall>k x. db_GetBlock db k = Some (BlockData x) \<longrightarrow> blk_PrevBlockHash x \<noteq> h"
  shows "\<exists>db'. DeleteBlock db = (Ok b, db') \<and> store_inv n db' (hs @ [p]) \<and>
           (\<forall>k. k \<noteq> topKey \<longrightarrow> db_GetBlock db' k = (if k = h then None else db_GetBlock db k))"
proof -
  note D = store_invD[OF si]
  obtain db' where r: "DeleteBlock db = (Ok b, db')" "chain_repr n (db_chain db') (hs @ [p])" "db_opened db'"
    and get: "\<And>k. db_GetBlock db' k = (if k = h then None else if k = topKey then Some (HashData p)
                                     else db_GetBlock db k)"
    using DeleteBlock_top[OF si b] by blast
  have ht: "h \<noteq> topKey" using D(7)[OF b] D(2) topKey_len by (auto simp: block_ok_def)
  have new: "h \<notin> set (hs @ [p])" using D(3) by (auto simp: chain_repr_def)
  have was: "db_GetBlock db k = Some (BlockData x)" "k \<noteq> h" if "db_GetBlock db' k = Some (BlockData x)" for k x
    using that get[of k] by (auto split: if_splits)
  have keep: "db_GetBlock db' k = Some (BlockData x)" if "db_GetBlock db k = Some (BlockData x)" "k \<noteq> h" for k x
    using that get[of k] D(5) by auto
  have hd: "hd (hs @ [p, h]) = hd (hs @ [p])" by (cases hs) simp_all
  have ok: "block_ok n db' (hd (hs @ [p])) k x" if "db_GetBlock db' k = Some (BlockData x)" for k x
    using D(7)[OF was(1)[OF that]] leaf was(1)[OF that] keep unfolding block_ok_def hd by (auto split: if_splits)
  have stored: "\<exists>x. db_GetBlock db' k = Some (BlockData x)" if "k \<in> set (hs @ [p])" for k
    using D(6)[of k] that new keep by auto
  have "successively (prev_is db) (hs @ [p])"
    using D(9) by (auto simp: successively_append_iff)
  then have "successively (prev_is db') (hs @ [p])"
    by (rule successively_mono) (use new keep in \<open>auto simp: prev_is_def\<close>)
  moreover have "length k = 1" if "db_GetBlock db' k = Some (HashData v)" for k v
    using that get[of k] D(8) topKey_len by (auto split: if_splits)
  ultimately have "store_inv n db' (hs @ [p])"
    unfolding store_inv_def using r(2,3) D(2) get[of topKey] ht ok stored by auto
  then show ?thesis using r(1) get by auto
qed

lemma DeleteBlock_leaf:
  assumes si: "store_inv n db (hs @ [p, h])" and b: "db_GetBlock db h = Some (BlockData b)"
    and leaf: "\<forall>k x. db_GetBlock db k = Some (BlockData x) \<longrightarrow> blk_PrevBlockHash x \<noteq> h"
  shows "\<exists>db'. DeleteBlock db = (Ok b, db') \<and> store_inv n db' (hs @ [p]) \<and>
           (\<forall>k. k \<noteq> topKey \<longrightarrow> db_GetBlock db' k = (if k = h then None else db_GetBlock db k))"
  by (rule DeleteBlock_main[OF assms])

section \<open>Which blocks are under a tip\<close>

definition anc :: "'m node_db \<Rightarrow> bytes \<Rightarrow> bytes \<Rightarrow> bool" where
  "anc db t h \<longleftrightarrow> (\<exists>bs. down_path db t bs h)"

lemma anc_refl [simp]: "anc db h h"
  unfolding anc_def by (rule exI[of _ "[]"]) simp

lemma down_path_append: "down_path db h (as @ bs) q \<longleftrightarrow> (\<exists>p. down_path db h as p \<and> down_path db p bs q)"
  by (induction as arbitrary: h) auto

lemma anc_trans: "anc db a b \<Longrightarrow> anc db b c \<Longrightarrow> anc db a c"
  unfolding anc_def using down_path_append by blast

lemma anc_cases:
  "anc db t h \<longleftrightarrow> t = h \<or> (\<exists>b. db_GetBlock db t = Some (BlockData b) \<and> blk_Hash b = t \<and>
     blk_PrevBlockHash b \<noteq> [] \<and> anc db (blk_PrevBlockHash b) h)"
proof
  assume "anc db t h"
  then obtain bs where "down_path db t bs h" by (auto simp: anc_def)
  then show "t = h \<or> (\<exists>b. db_GetBlock db t = Some (BlockData b) \<and> blk_Hash b = t \<and>
     blk_PrevBlockHash b \<noteq> [] \<and> anc db (blk_PrevBlockHash b) h)"
    by (cases bs) (auto simp: anc_def)
next
  assume "t = h \<or> (\<exists>b. db_GetBlock db t = Some (BlockData b) \<and> blk_Hash b = t \<and>
     blk_PrevBlockHash b \<noteq> [] \<and> anc db (blk_PrevBlockHash b) h)"
  then show "anc db t h"
  proof
    assume "\<exists>b. db_GetBlock db t = Some (BlockData b) \<and> blk_Hash b = t \<and>
     blk_PrevBlockHash b \<noteq> [] \<and> anc db (blk_PrevBlockHash b) h"
    then obtain b bs where "down_path db t (b # bs) h" by (auto simp: anc_def)
    then show ?thesis unfolding anc_def by blast
  qed simp
qed

lemma down_path_anc:
  assumes "down_path db h as p"
  shows "anc db h y \<longleftrightarrow> y \<in> set (map blk_Hash as) \<or> anc db p y"
  using assms
proof (induction as arbitrary: h)
  case (Cons b as)
  then show ?case by (subst anc_cases) auto
qed simp

text \<open>On the main chain the ancestors of a block are the blocks before it, and heights grow.\<close>

lemma main_prev:
  assumes "store_inv n db hs" and "Suc i < length hs"
  shows "\<exists>b c. db_GetBlock db (hs ! Suc i) = Some (BlockData b) \<and> blk_PrevBlockHash b = hs ! i \<and>
     blk_Hash b = hs ! Suc i \<and> hs ! i \<noteq> [] \<and> db_GetBlock db (hs ! i) = Some (BlockData c) \<and> blk_Height c < blk_Height b"
proof -
  note D = store_invD[OF assms(1)]
  obtain b where b: "db_GetBlock db (hs ! Suc i) = Some (BlockData b)" "blk_PrevBlockHash b = hs ! i"
    using D(9) assms(2) by (auto simp: successively_conv_nth prev_is_def)
  obtain c where c: "db_GetBlock db (hs ! i) = Some (BlockData c)" using D(6)[of "hs ! i"] assms(2) by auto
  have "hs ! i \<noteq> []" using chain_repr_rec(3,5)[OF D(3), of i] assms(2) by auto
  then show ?thesis using D(7)[OF b(1)] b c by (auto simp: block_ok_def split: if_splits)
qed

lemma main_anc:
  assumes si: "store_inv n db hs"
  shows "j < length hs \<Longrightarrow> anc db (hs ! j) h \<longleftrightarrow> (\<exists>i\<le>j. h = hs ! i)"
proof (induction j)
  case 0
  note D = store_invD[OF si]
  obtain b where "db_GetBlock db (hs ! 0) = Some (BlockData b)" using D(6)[of "hs ! 0"] 0 by auto
  moreover from D(7)[OF this] have "blk_PrevBlockHash b = []" using D(4) by (simp add: block_ok_def hd_conv_nth)
  ultimately show ?case by (subst anc_cases) auto
next
  case (Suc j)
  then show ?case using main_prev[OF si, of j] by (subst anc_cases) (auto simp: le_Suc_eq)
qed

lemma main_height:
  assumes si: "store_inv n db hs"
  shows "j < length hs \<Longrightarrow> i < j \<Longrightarrow> db_GetBlock db (hs ! i) = Some (BlockData b) \<Longrightarrow>
     db_GetBlock db (hs ! j) = Some (BlockData c) \<Longrightarrow> blk_Height b < blk_Height c"
proof (induction j arbitrary: c)
  case (Suc j)
  obtain b' c' where m: "db_GetBlock db (hs ! Suc j) = Some (BlockData b')"
    "db_GetBlock db (hs ! j) = Some (BlockData c')" "blk_Height c' < blk_Height b'"
    using main_prev[OF si] Suc.prems by blast
  then have "c = b'" using Suc.prems by simp
  then show ?case
    using Suc.IH[of c'] Suc.prems(1-3) m by (cases "i = j") auto
qed simp

lemma main_height_iff:
  assumes si: "store_inv n db hs" and "i < length hs" "j < length hs"
    and "db_GetBlock db (hs ! i) = Some (BlockData b)" "db_GetBlock db (hs ! j) = Some (BlockData c)"
  shows "blk_Height b < blk_Height c \<longleftrightarrow> i < j" "blk_Height b \<le> blk_Height c \<longleftrightarrow> i \<le> j"
  using main_height[OF si, of j i b c] main_height[OF si, of i j c b] assms
  by (cases i j rule: linorder_cases; force)+

definition chosen :: "'m node_db \<Rightarrow> bytes \<Rightarrow> bytes list \<Rightarrow> bytes \<Rightarrow> bool" where
  "chosen db t bl r \<longleftrightarrow> (if r = [] then \<forall>h\<in>set bl. \<not> anc db t h else r \<in> set bl \<and> anc db t r)"

lemma chosen_Nil: "chosen db t [] []"
  by (simp add: chosen_def)

lemma chosen_skip: "chosen db t bl r \<Longrightarrow> \<not> anc db t h \<Longrightarrow> chosen db t (h # bl) r"
  by (auto simp: chosen_def split: if_splits)

lemma chosen_found: "h \<in> set bl \<Longrightarrow> anc db t h \<Longrightarrow> h \<noteq> [] \<Longrightarrow> chosen db t bl h"
  by (simp add: chosen_def)

lemma first_below_spec:
  assumes si: "store_inv n db hs" and j: "j < length hs" "db_GetBlock db (hs ! j) = Some (BlockData tb)"
  shows "\<forall>h\<in>set bl. length h = n \<Longrightarrow> hs ! j \<notin> set bl \<Longrightarrow>
    \<exists>r. first_below db tb bl = Ok r \<and> chosen db (hs ! j) bl r"
proof (induction bl)
  case (Cons h bl)
  note D = store_invD[OF si]
  have h: "length h = n" "h \<noteq> hs ! j" and hn: "h \<noteq> []" using Cons.prems D(2) by auto
  note mem = BlockInChain_member[OF D(3) h(1)]
  obtain r where IH: "first_below db tb bl = Ok r" "chosen db (hs ! j) bl r" using Cons by auto
  show ?case
  proof (cases "h \<in> set hs")
    case True
    then obtain i where i: "i < length hs" "h = hs ! i" by (metis in_set_conv_nth)
    obtain b where b: "db_GetBlock db h = Some (BlockData b)" using D(6)[OF True] by blast
    have gb: "GetBlock db h = Ok b" using b D(1) by (simp add: res_simps)
    have lt: "blk_Height b < blk_Height tb \<longleftrightarrow> i < j" using main_height_iff(1)[OF si i(1) j(1)] b i j(2) by simp
    have "distinct hs" using D(3) by (simp add: chain_repr_def)
    then have un: "anc db (hs ! j) h \<longleftrightarrow> i < j"
      using main_anc[OF si j(1)] i j(1) h(2) by (auto simp: nth_eq_iff_index_eq less_le)
    show ?thesis
    proof (cases "i < j")
      case True
      then have "first_below db tb (h # bl) = Ok h" using mem i(1) gb lt i(2) by simp
      then show ?thesis using chosen_found[of h "h # bl" db "hs ! j"] un True hn by auto
    next
      case False
      then have "first_below db tb (h # bl) = Ok r" using mem i gb lt IH(1) by simp
      then show ?thesis using chosen_skip[OF IH(2)] un False by blast
    qed
  next
    case False
    then have "\<not> anc db (hs ! j) h" using main_anc[OF si j(1)] j(1) by auto
    then show ?thesis using chosen_skip[OF IH(2)] IH(1) mem False by auto
  qed
qed (simp add: chosen_Nil)

lemma choose_walk_path:
  assumes si: "store_inv n db hs" and p: "p \<in> set hs" "db_GetBlock db p = Some (BlockData pb)"
  shows "down_path db h as p \<Longrightarrow> \<forall>x\<in>set as. blk_Hash x \<notin> set hs \<and> length (blk_Hash x) = n \<Longrightarrow> length as < k \<Longrightarrow>
    walk k (iter_Next db) h (\<lambda>b (_::unit).
       if blk_Hash b \<in> set bl then Ok (Inl (Inl (blk_Hash b)))
       else bindR (BlockInChain (db_chain db) (blk_Hash b)) (\<lambda>exists.
         if exists then Ok (Inl (Inr (Some b)))
         else if length (blk_PrevBlockHash b) = 0 then Ok (Inl (Inr None)) else Ok (Inr ()))) u
    = (case List.find (\<lambda>h. h \<in> set bl) (map blk_Hash as @ [p]) of
         Some h \<Rightarrow> Ok (Inl h) | None \<Rightarrow> Ok (Inr (Some pb)))"
proof (induction as arbitrary: h k u)
  case Nil
  note D = store_invD[OF si]
  obtain k' where k: "k = Suc k'" using Nil by (cases k) auto
  have "blk_Hash pb = p" "length p = n" using D(7)[OF p(2)] by (auto simp: block_ok_def)
  moreover have "iter_Next db p = Ok (pb, blk_PrevBlockHash pb)" using p(2) D(1) by (simp add: res_simps)
  ultimately show ?case using Nil k BlockInChain_member[OF D(3), of p] p(1) by simp
next
  case (Cons b as)
  note D = store_invD[OF si]
  obtain k' where k: "k = Suc k'" using Cons.prems by (cases k) auto
  have "iter_Next db h = Ok (b, blk_PrevBlockHash b)" using D(1) Cons.prems by (simp add: res_simps)
  moreover have "BlockInChain (db_chain db) (blk_Hash b) = Ok False"
    using BlockInChain_member[OF D(3), of "blk_Hash b"] Cons.prems by simp
  ultimately show ?case using Cons.IH[of "blk_PrevBlockHash b" k' "()"] Cons.prems k by simp
qed

text \<open>
  C19: ChooseHashUnderTip returns one of the given hashes that lies on the branch ending at the
  given block, on the main chain or on a side branch, and nothing only when none of them does.
\<close>

lemma ChooseHashUnderTip_spec:
  assumes si: "store_inv n db hs" and tb: "db_GetBlock db topHash = Some (BlockData tb)"
    and bl: "\<forall>h\<in>set bl. length h = n"
  shows "\<exists>r. ChooseHashUnderTip db bl topHash = Ok r \<and> chosen db topHash bl r"
proof -
  note D = store_invD[OF si]
  have tl: "length topHash = n" using D(7)[OF tb] by (auto simp: block_ok_def)
  then have tn: "topHash \<noteq> []" using D(2) by auto
  have gb: "GetBlock db topHash = Ok tb" using tb D(1) by (simp add: res_simps)
  note mem = BlockInChain_member[OF D(3) tl]
  consider "bl = [] \<or> topHash \<in> set bl" | "bl \<noteq> []" "topHash \<notin> set bl" "topHash \<in> set hs"
    | "bl \<noteq> []" "topHash \<notin> set bl" "topHash \<notin> set hs" by blast
  then show ?thesis
  proof cases
    case 1
    then show ?thesis using tn D(1) chosen_Nil chosen_found[of topHash bl db topHash]
      by (auto simp: ChooseHashUnderTip_def)
  next
    case 2
    then obtain j where j: "j < length hs" "topHash = hs ! j" by (metis in_set_conv_nth)
    have "ChooseHashUnderTip db bl topHash = first_below db tb bl"
      using 2 tn D(1) gb mem by (simp add: ChooseHashUnderTip_def)
    then show ?thesis using first_below_spec[OF si j(1), of tb bl] j(2) tb bl 2(2) by simp
  next
    case 3
    obtain as p where as: "down_path db topHash as p" "p \<in> set hs" "distinct (map blk_Hash as)"
      and x: "\<And>x. x \<in> set as \<Longrightarrow> blk_Hash x \<notin> set hs \<and> length (blk_Hash x) = n \<and> blk_Hash x \<noteq> zeros n \<and>
         blk_Height x \<le> blk_Height tb \<and> db_GetBlock db (blk_Hash x) = Some (BlockData x)"
      using down_to_main[OF si tb] by blast
    obtain pb where pb: "db_GetBlock db p = Some (BlockData pb)" using D(6)[OF as(2)] by blast
    have w: "choose_walk db bl topHash = (case List.find (\<lambda>h. h \<in> set bl) (map blk_Hash as @ [p]) of
         Some h \<Rightarrow> Ok (Inl h) | None \<Rightarrow> Ok (Inr (Some pb)))"
      unfolding choose_walk_def walk_fuel_def
      by (rule choose_walk_path[OF si as(2) pb as(1)])
        (use x down_path_length[OF as(1,3)] in auto)
    show ?thesis
    proof (cases "List.find (\<lambda>h. h \<in> set bl) (map blk_Hash as @ [p])")
      case (Some r)
      then have r: "r \<in> set (map blk_Hash as) \<or> r = p" "r \<in> set bl" by (auto simp: find_Some_iff nth_append)
      then have "anc db topHash r" using down_path_anc[OF as(1)] by auto
      moreover have "r \<noteq> []" using bl r(2) D(2) by auto
      ultimately have "chosen db topHash bl r" using r(2) chosen_found by blast
      moreover have "ChooseHashUnderTip db bl topHash = Ok r"
        using Some w 3 tn D(1) gb mem by (simp add: ChooseHashUnderTip_def)
      ultimately show ?thesis by blast
    next
      case None
      then have no: "\<forall>h\<in>set bl. h \<notin> set (map blk_Hash as) \<and> h \<noteq> p" by (auto simp: find_None_iff)
      obtain j where j: "j < length hs" "p = hs ! j" using as(2) by (metis in_set_conv_nth)
      have "ChooseHashUnderTip db bl topHash = first_below db pb bl"
        using 3 tn D(1) gb mem None w by (simp add: ChooseHashUnderTip_def)
      moreover obtain r where r: "first_below db pb bl = Ok r" "chosen db p bl r"
        using first_below_spec[OF si j(1), of pb bl] j(2) pb bl no by blast
      moreover have "\<forall>h\<in>set bl. anc db topHash h \<longleftrightarrow> anc db p h"
        using no down_path_anc[OF as(1)] by blast
      then have "chosen db topHash bl r" using r(2) by (auto simp: chosen_def)
      ultimately show ?thesis by auto
    qed
  qed
qed

lemma anc_height:
  assumes si: "store_inv n db hs"
  shows "down_path db a bs b \<Longrightarrow> bs \<noteq> [] \<Longrightarrow> db_GetBlock db a = Some (BlockData x) \<Longrightarrow>
     \<exists>y. db_GetBlock db b = Some (BlockData y) \<and> blk_Height y < blk_Height x"
proof (induction bs arbitrary: a x)
  case (Cons c bs)
  have "block_ok n db (hd hs) a x" using store_invD(7)[OF si Cons.prems(3)] .
  moreover have "x = c" "blk_PrevBlockHash x \<noteq> []" using Cons.prems(1,3) by auto
  ultimately obtain p where p: "db_GetBlock db (blk_PrevBlockHash x) = Some (BlockData p)" "blk_Height p < blk_Height x"
    by (auto simp: block_ok_def split: if_splits)
  show ?case
  proof (cases "bs = []")
    case True
    then show ?thesis using Cons.prems(1) p \<open>x = c\<close> by auto
  next
    case False
    have "down_path db (blk_PrevBlockHash x) bs b" using Cons.prems(1) \<open>x = c\<close> by simp
    from Cons.IH[OF this False p(1)] show ?thesis using p(2) by fastforce
  qed
qed simp

lemma anc_antisym:
  assumes si: "store_inv n db hs" and "anc db a b" "anc db b a"
  shows "a = b"
proof (rule ccontr)
  assume ne: "a \<noteq> b"
  obtain bs cs where p: "down_path db a bs b" "down_path db b cs a" using assms by (auto simp: anc_def)
  have ne2: "bs \<noteq> []" "cs \<noteq> []" using p ne by (cases bs; cases cs; auto)+
  obtain x where x: "db_GetBlock db a = Some (BlockData x)" using p(1) ne2(1) by (cases bs) auto
  obtain y where y: "db_GetBlock db b = Some (BlockData y)" using p(2) ne2(2) by (cases cs) auto
  show False using anc_height[OF si p(1) ne2(1) x] anc_height[OF si p(2) ne2(2) y] x y by auto
qed

lemma down_path_anc_end:
  assumes "down_path db h as p" and "q \<in> set (map blk_Hash as @ [p])"
  shows "anc db q p"
proof (cases "q = p")
  case False
  then obtain b where b: "b \<in> set as" "blk_Hash b = q" using assms(2) by auto
  then obtain a1 a2 where "as = a1 @ b # a2" by (meson split_list)
  then have "down_path db q (b # a2) p" using assms(1) b(2) by (auto simp: down_path_append)
  then show ?thesis unfolding anc_def by blast
qed simp

lemma range_walk_path:
  assumes si: "store_inv n db hs" and p: "p \<in> set hs" "db_GetBlock db p = Some (BlockData pb)"
  shows "down_path db h as p \<Longrightarrow> \<forall>x\<in>set as. blk_Hash x \<notin> set hs \<and> length (blk_Hash x) = n \<Longrightarrow> length as < k \<Longrightarrow>
    anc db h bo \<Longrightarrow>
    walk k (iter_Next db) h (\<lambda>b (_::unit).
       if bh = blk_Hash b then Ok (Inl (Inl True))
       else if bo = blk_Hash b then Ok (Inl (Inl False))
       else bindR (BlockInChain (db_chain db) (blk_Hash b)) (\<lambda>exists.
         if exists then Ok (Inl (Inr (blk_Hash b)))
         else if length (blk_PrevBlockHash b) = 0 then Ok (Inl (Inl False)) else Ok (Inr ()))) u
    = Ok (if anc db h bh \<and> anc db bh bo \<and> bh \<in> set (map blk_Hash as @ [p]) then Inl True
          else if bo \<in> set (map blk_Hash as @ [p]) then Inl False else Inr p)"
proof (induction as arbitrary: h k u)
  case Nil
  note D = store_invD[OF si]
  obtain k' where k: "k = Suc k'" using Nil by (cases k) auto
  have "blk_Hash pb = p" "length p = n" using D(7)[OF p(2)] by (auto simp: block_ok_def)
  moreover have "iter_Next db p = Ok (pb, blk_PrevBlockHash pb)" using p(2) D(1) by (simp add: res_simps)
  ultimately show ?case using Nil k BlockInChain_member[OF D(3), of p] p(1) by auto
next
  case (Cons b as)
  note D = store_invD[OF si]
  obtain k' where k: "k = Suc k'" using Cons.prems by (cases k) auto
  have nx: "iter_Next db h = Ok (b, blk_PrevBlockHash b)" using D(1) Cons.prems by (simp add: res_simps)
  have mem: "BlockInChain (db_chain db) (blk_Hash b) = Ok False"
    using BlockInChain_member[OF D(3), of "blk_Hash b"] Cons.prems by simp
  have hb: "blk_Hash b = h" "db_GetBlock db h = Some (BlockData b)" "blk_PrevBlockHash b \<noteq> []"
    "down_path db (blk_PrevBlockHash b) as p" using Cons.prems(1) by auto
  have step: "anc db h y \<longleftrightarrow> y = h \<or> anc db (blk_PrevBlockHash b) y" for y
    using hb by (subst anc_cases) auto
  consider "bh = h" | "bh \<noteq> h" "bo = h" | "bh \<noteq> h" "bo \<noteq> h" by blast
  then show ?case
  proof cases
    case 1
    then show ?thesis using k nx hb Cons.prems(4) by simp
  next
    case 2
    then have "\<not> (anc db h bh \<and> anc db bh bo)" using anc_antisym[OF si] by blast
    then show ?thesis using 2 k nx hb by auto
  next
    case 3
    have "anc db (blk_PrevBlockHash b) bo" using step Cons.prems(4) 3 by blast
    moreover have "anc db h bh \<longleftrightarrow> anc db (blk_PrevBlockHash b) bh" using step 3 by blast
    ultimately show ?thesis using 3 k nx hb mem Cons.IH[OF hb(4), of k' "()"] Cons.prems(2,3)
      by (simp cong: if_cong)
  qed
qed

lemma range_main:
  assumes si: "store_inv n db hs" and j: "j < length hs" and bo: "anc db (hs ! j) bo" and bh: "length bh = n"
  shows "bindR (BlockInChain (db_chain db) bh) (\<lambda>exists.
           if \<not> exists then Ok False
           else bindR (GetBlock db (hs ! j)) (\<lambda>topBlock.
                bindR (GetBlock db bo) (\<lambda>bottomBlock.
                bindR (GetBlock db bh) (\<lambda>b.
                  Ok (blk_Height b \<ge> blk_Height bottomBlock \<and> blk_Height b \<le> blk_Height topBlock)))))
         = Ok (anc db (hs ! j) bh \<and> anc db bh bo)"
proof (cases "bh \<in> set hs")
  case True
  note D = store_invD[OF si]
  obtain i where i: "i \<le> j" "bo = hs ! i" using bo main_anc[OF si j] by blast
  obtain k where k: "k < length hs" "bh = hs ! k" using True by (metis in_set_conv_nth)
  obtain b c d where g: "db_GetBlock db (hs ! j) = Some (BlockData b)" "db_GetBlock db (hs ! i) = Some (BlockData c)"
    "db_GetBlock db (hs ! k) = Some (BlockData d)"
    using D(6) j i k by (meson le_less_trans nth_mem)
  have gb: "GetBlock db (hs ! j) = Ok b" "GetBlock db (hs ! i) = Ok c" "GetBlock db (hs ! k) = Ok d"
    using g D(1) by (simp_all add: res_simps)
  have di: "distinct hs" using D(3) by (simp add: chain_repr_def)
  have "anc db (hs ! j) bh \<longleftrightarrow> k \<le> j" "anc db bh bo \<longleftrightarrow> i \<le> k"
    using main_anc[OF si] j k i di by (auto simp: nth_eq_iff_index_eq)
  moreover have "blk_Height d \<le> blk_Height b \<longleftrightarrow> k \<le> j" "blk_Height c \<le> blk_Height d \<longleftrightarrow> i \<le> k"
    using main_height_iff(2)[OF si] j k(1) i(1) g by (meson le_less_trans)+
  ultimately show ?thesis
    using BlockInChain_member[OF D(3) bh] True i(2) k(2) gb by auto
next
  case False
  then have "\<not> anc db (hs ! j) bh" using main_anc[OF si j] j by auto
  then show ?thesis using BlockInChain_member[OF store_invD(3)[OF si] bh] False by simp
qed

lemma CheckBlockIsInRange_spec:
  assumes si: "store_inv n db hs" and tb: "db_GetBlock db topHash = Some (BlockData tb)"
    and bo: "anc db topHash bo" and bh: "length bh = n"
  shows "CheckBlockIsInRange db bh bo topHash = Ok (anc db topHash bh \<and> anc db bh bo)"
proof -
  note D = store_invD[OF si]
  have tl: "length topHash = n" using D(7)[OF tb] by (auto simp: block_ok_def)
  then have tn: "topHash \<noteq> []" using D(2) by auto
  note mem = BlockInChain_member[OF D(3) tl]
  show ?thesis
  proof (cases "topHash \<in> set hs")
    case True
    then obtain j where j: "j < length hs" "topHash = hs ! j" by (metis in_set_conv_nth)
    then show ?thesis
      using range_main[OF si j(1), of bo bh] bo bh tn D(1) mem True by (simp add: CheckBlockIsInRange_def)
  next
    case False
    obtain as p where as: "down_path db topHash as p" "p \<in> set hs" "distinct (map blk_Hash as)"
      and x: "\<And>x. x \<in> set as \<Longrightarrow> blk_Hash x \<notin> set hs \<and> length (blk_Hash x) = n \<and> blk_Hash x \<noteq> zeros n \<and>
         blk_Height x \<le> blk_Height tb \<and> db_GetBlock db (blk_Hash x) = Some (BlockData x)"
      using down_to_main[OF si tb] by blast
    obtain pb where pb: "db_GetBlock db p = Some (BlockData pb)" using D(6)[OF as(2)] by blast
    have len: "length as < Suc (length (db_blocks db))" using down_path_length[OF as(1,3)] by simp
    have w: "range_walk db bh bo topHash =
      Ok (if anc db topHash bh \<and> anc db bh bo \<and> bh \<in> set (map blk_Hash as @ [p]) then Inl True
          else if bo \<in> set (map blk_Hash as @ [p]) then Inl False else Inr p)"
      unfolding range_walk_def walk_fuel_def
      using range_walk_path[OF si as(2) pb as(1) _ len bo] x by simp
    note pa = down_path_anc[OF as(1)]
    have run: "CheckBlockIsInRange db bh bo topHash =
        (case (if anc db topHash bh \<and> anc db bh bo \<and> bh \<in> set (map blk_Hash as @ [p]) then Inl True
          else if bo \<in> set (map blk_Hash as @ [p]) then Inl False else Inr p) of
           Inl ans \<Rightarrow> Ok ans
         | Inr topHash \<Rightarrow> bindR (BlockInChain (db_chain db) bh) (\<lambda>exists.
           if \<not> exists then Ok False
           else bindR (GetBlock db topHash) (\<lambda>topBlock.
                bindR (GetBlock db bo) (\<lambda>bottomBlock.
                bindR (GetBlock db bh) (\<lambda>b.
                  Ok (blk_Height b \<ge> blk_Height bottomBlock \<and> blk_Height b \<le> blk_Height topBlock))))))"
      using tn D(1) mem False w by (simp add: CheckBlockIsInRange_def)
    consider "bh \<in> set (map blk_Hash as @ [p])" "anc db bh bo" | "bo \<in> set (map blk_Hash as @ [p])" "\<not> anc db bh bo \<or> bh \<notin> set (map blk_Hash as @ [p])"
      | "bo \<notin> set (map blk_Hash as @ [p])" "\<not> anc db bh bo \<or> bh \<notin> set (map blk_Hash as @ [p])" by blast
    then show ?thesis
    proof cases
      case 1
      then have "anc db topHash bh" using pa by auto
      then show ?thesis using run 1 by simp
    next
      case 2
      have "\<not> (anc db topHash bh \<and> anc db bh bo)"
      proof
        assume a: "anc db topHash bh \<and> anc db bh bo"
        then have "anc db p bh" "bh \<notin> set (map blk_Hash as @ [p])" using pa 2 by auto
        moreover have "anc db bo p" using down_path_anc_end[OF as(1)] 2(1) by auto
        ultimately show False using anc_antisym[OF si] anc_trans a 2(1) by blast
      qed
      then show ?thesis using run 2 by auto
    next
      case 3
      obtain j where j: "j < length hs" "p = hs ! j" using as(2) by (metis in_set_conv_nth)
      have "anc db p bo" using pa bo 3(1) by simp
      then have "CheckBlockIsInRange db bh bo topHash = Ok (anc db p bh \<and> anc db bh bo)"
        using run 3 range_main[OF si j(1), of bo bh] j(2) bh by auto
      then show ?thesis using 3(2) pa by auto
    qed
  qed
qed

section \<open>Side branches\<close>

text \<open>Heights count the blocks from the first block, which has height 0.\<close>

definition heights_count :: "'m node_db \<Rightarrow> bytes list \<Rightarrow> bool" where
  "heights_count db hs \<longleftrightarrow>
     (\<forall>g. db_GetBlock db (hd hs) = Some (BlockData g) \<longrightarrow> blk_Height g = 0) \<and>
     (\<forall>h b p. db_GetBlock db h = Some (BlockData b) \<longrightarrow>
        db_GetBlock db (blk_PrevBlockHash b) = Some (BlockData p) \<longrightarrow> blk_Height b = blk_Height p + 1)"

lemma store_step:
  assumes si: "store_inv n db hs" and hc: "heights_count db hs" and b: "db_GetBlock db h = Some (BlockData b)"
  shows "blk_Hash b = h" "blk_Height b = 0 \<longleftrightarrow> h = hd hs" "0 \<le> blk_Height b"
    "blk_Height b \<noteq> 0 \<Longrightarrow> blk_PrevBlockHash b \<noteq> [] \<and>
       (\<exists>p. db_GetBlock db (blk_PrevBlockHash b) = Some (BlockData p) \<and> blk_Height b = blk_Height p + 1)"
proof -
  note D = store_invD[OF si]
  have nonneg: "db_GetBlock db h = Some (BlockData b) \<Longrightarrow> 0 \<le> blk_Height b" for h b
  proof (induction "card (keys_below db (blk_Height b))" arbitrary: h b rule: less_induct)
    case less
    show ?case
    proof (cases "h = hd hs")
      case True
      then show ?thesis using less.prems hc by (auto simp: heights_count_def)
    next
      case False
      then obtain q where q: "db_GetBlock db (blk_PrevBlockHash b) = Some (BlockData q)" "blk_Height q < blk_Height b"
        using D(7)[OF less.prems] by (auto simp: block_ok_def)
      have "h \<in> keys_below db (blk_Height b)" "h \<notin> keys_below db (blk_Height q)"
        using less.prems q(2) by (auto simp: keys_below_def)
      moreover have "keys_below db (blk_Height q) \<subseteq> keys_below db (blk_Height b)"
        using q(2) by (force simp: keys_below_def)
      ultimately have "card (keys_below db (blk_Height q)) < card (keys_below db (blk_Height b))"
        by (metis finite_keys_below psubsetI psubset_card_mono)
      from less.hyps[OF this q(1)] show ?thesis using q(2) by simp
    qed
  qed
  show "blk_Hash b = h" using D(7)[OF b] by (simp add: block_ok_def)
  show "0 \<le> blk_Height b" using nonneg[OF b] .
  have up: "h \<noteq> hd hs \<Longrightarrow> blk_PrevBlockHash b \<noteq> [] \<and>
       (\<exists>p. db_GetBlock db (blk_PrevBlockHash b) = Some (BlockData p) \<and> blk_Height b = blk_Height p + 1)"
    using D(7)[OF b] b hc unfolding heights_count_def by (auto simp: block_ok_def)
  then show "blk_Height b = 0 \<longleftrightarrow> h = hd hs" using nonneg b hc unfolding heights_count_def by force
  then show "blk_Height b \<noteq> 0 \<Longrightarrow> blk_PrevBlockHash b \<noteq> [] \<and>
       (\<exists>p. db_GetBlock db (blk_PrevBlockHash b) = Some (BlockData p) \<and> blk_Height b = blk_Height p + 1)"
    using up by blast
qed

lemma path_to_height:
  assumes si: "store_inv n db hs" and hc: "heights_count db hs"
  shows "db_GetBlock db h = Some (BlockData b) \<Longrightarrow> 0 \<le> H \<Longrightarrow> blk_Height b = H + int d \<Longrightarrow>
    \<exists>bs c. down_path db h bs (blk_Hash c) \<and> db_GetBlock db (blk_Hash c) = Some (BlockData c) \<and> blk_Height c = H \<and>
      (\<forall>y\<in>set bs. H < blk_Height y \<and> blk_Height y \<le> blk_Height b) \<and> distinct (map blk_Hash bs)"
proof (induction d arbitrary: h b)
  case 0
  then show ?case using store_step(1)[OF si hc 0(1)] by (intro exI[of _ "[]"] exI[of _ b]) simp
next
  case (Suc d)
  note st = store_step[OF si hc Suc.prems(1)]
  obtain p where p: "blk_PrevBlockHash b \<noteq> []" "db_GetBlock db (blk_PrevBlockHash b) = Some (BlockData p)"
    "blk_Height b = blk_Height p + 1" using st(4) Suc.prems(2,3) by auto
  obtain bs c where r: "down_path db (blk_PrevBlockHash b) bs (blk_Hash c)" "db_GetBlock db (blk_Hash c) = Some (BlockData c)"
      "blk_Height c = H" and hb: "\<forall>y\<in>set bs. H < blk_Height y \<and> blk_Height y \<le> blk_Height p" and di: "distinct (map blk_Hash bs)"
    using Suc.IH[OF p(2) Suc.prems(2)] p(3) Suc.prems(3) by auto
  have "blk_Hash b \<notin> blk_Hash ` set bs"
  proof
    assume "blk_Hash b \<in> blk_Hash ` set bs"
    then obtain y where y: "y \<in> set bs" "blk_Hash y = h" using st(1) by auto
    then obtain a1 a2 where "bs = a1 @ y # a2" by (meson split_list)
    then have "db_GetBlock db h = Some (BlockData y)" using r(1) y(2) by (auto simp: down_path_append)
    then show False using Suc.prems(1) hb y(1) p(3) by auto
  qed
  then show ?case using r hb di p st(1) Suc.prems by (intro exI[of _ "b # bs"] exI[of _ c]) auto
qed

lemma down_to_height_walk:
  assumes "db_opened db" and c: "db_GetBlock db (blk_Hash c) = Some (BlockData c)" "blk_Height c = H"
  shows "down_path db h bs (blk_Hash c) \<Longrightarrow> \<forall>y\<in>set bs. H < blk_Height y \<Longrightarrow> length bs < k \<Longrightarrow>
    walk k (iter_Next_unchecked db) h (\<lambda>b acc.
       if blk_Height b = H then Ok (Inl (b, acc)) else Ok (Inr (acc @ [b]))) acc = Ok (c, acc @ bs)"
proof (induction bs arbitrary: h k acc)
  case Nil
  then obtain k' where "k = Suc k'" by (cases k) auto
  moreover have "iter_Next_unchecked db (blk_Hash c) = Ok (c, blk_PrevBlockHash c)" using assms by (simp add: res_simps)
  ultimately show ?case using Nil c(2) by simp
next
  case (Cons b bs)
  then obtain k' where k: "k = Suc k'" by (cases k) auto
  have "iter_Next_unchecked db h = Ok (b, blk_PrevBlockHash b)" using assms(1) Cons.prems by (simp add: res_simps)
  then show ?case using Cons.IH[of "blk_PrevBlockHash b" k' "acc @ [b]"] Cons.prems k by simp
qed

lemma paths_meet:
  assumes si: "store_inv n db hs" and hc: "heights_count db hs"
  shows "db_GetBlock db x = Some (BlockData a) \<Longrightarrow> db_GetBlock db y = Some (BlockData b) \<Longrightarrow>
    blk_Height a = int d \<Longrightarrow> blk_Height b = int d \<Longrightarrow>
    \<exists>as bs c. down_path db x as (blk_Hash c) \<and> down_path db y bs (blk_Hash c) \<and>
      db_GetBlock db (blk_Hash c) = Some (BlockData c) \<and>
      list_all2 (\<lambda>u v. blk_Hash u \<noteq> blk_Hash v) as bs \<and> distinct (map blk_Hash as) \<and>
      (\<forall>u\<in>set as. \<forall>v\<in>set bs. blk_Hash u \<noteq> blk_Hash v) \<and>
      (\<forall>u\<in>set as \<union> set bs. blk_Height u \<le> int d \<and> db_GetBlock db (blk_Hash u) = Some (BlockData u))"
proof (induction d arbitrary: x y a b)
  case 0
  then have "x = hd hs" "y = hd hs" using store_step(2)[OF si hc] by auto
  then show ?case using 0 store_step(1)[OF si hc 0(1)]
    by (intro exI[of _ "[]"] exI[of _ "[]"] exI[of _ a]) auto
next
  case (Suc d)
  note sa = store_step[OF si hc Suc.prems(1)] and sb = store_step[OF si hc Suc.prems(2)]
  show ?case
  proof (cases "x = y")
    case True
    then show ?thesis using Suc.prems sa(1)
      by (intro exI[of _ "[]"] exI[of _ "[]"] exI[of _ a]) auto
  next
    case False
    obtain p where p: "blk_PrevBlockHash a \<noteq> []" "db_GetBlock db (blk_PrevBlockHash a) = Some (BlockData p)"
      "blk_Height p = int d" using sa(4) Suc.prems(3) by auto
    obtain q where q: "blk_PrevBlockHash b \<noteq> []" "db_GetBlock db (blk_PrevBlockHash b) = Some (BlockData q)"
      "blk_Height q = int d" using sb(4) Suc.prems(4) by auto
    obtain as bs c where r: "down_path db (blk_PrevBlockHash a) as (blk_Hash c)"
      "down_path db (blk_PrevBlockHash b) bs (blk_Hash c)" "db_GetBlock db (blk_Hash c) = Some (BlockData c)"
      "list_all2 (\<lambda>u v. blk_Hash u \<noteq> blk_Hash v) as bs" "distinct (map blk_Hash as)"
      "\<forall>u\<in>set as. \<forall>v\<in>set bs. blk_Hash u \<noteq> blk_Hash v" and
      low: "\<And>u. u \<in> set as \<union> set bs \<Longrightarrow> blk_Height u \<le> int d \<and> db_GetBlock db (blk_Hash u) = Some (BlockData u)"
      using Suc.IH[OF p(2) q(2) p(3) q(3)] by blast
    have na: "blk_Hash u \<noteq> x" and nb: "blk_Hash u \<noteq> y" if "u \<in> set as \<union> set bs" for u
      using low[OF that] Suc.prems by auto
    have "down_path db x (a # as) (blk_Hash c)" "down_path db y (b # bs) (blk_Hash c)"
      using r(1,2) p(1) q(1) sa(1) sb(1) Suc.prems by auto
    moreover have "list_all2 (\<lambda>u v. blk_Hash u \<noteq> blk_Hash v) (a # as) (b # bs)"
      using r(4) False sa(1) sb(1) by simp
    moreover have "blk_Hash a \<notin> blk_Hash ` set as" using na sa(1) by (metis UnI1 imageE)
    then have "distinct (map blk_Hash (a # as))" using r(5) by simp
    moreover have "\<forall>u\<in>set (a # as). \<forall>v\<in>set (b # bs). blk_Hash u \<noteq> blk_Hash v"
    proof (intro ballI)
      fix u v assume uv: "u \<in> set (a # as)" "v \<in> set (b # bs)"
      then show "blk_Hash u \<noteq> blk_Hash v" using r(6) na[of v] nb[of u] False sa(1) sb(1) by auto
    qed
    moreover have "\<forall>u\<in>set (a # as) \<union> set (b # bs). blk_Height u \<le> int (Suc d) \<and> db_GetBlock db (blk_Hash u) = Some (BlockData u)"
    proof
      fix u assume "u \<in> set (a # as) \<union> set (b # bs)"
      then have "u = a \<or> u = b \<or> u \<in> set as \<union> set bs" by auto
      then show "blk_Height u \<le> int (Suc d) \<and> db_GetBlock db (blk_Hash u) = Some (BlockData u)"
        using low[of u] Suc.prems sa(1) sb(1) by auto
    qed
    ultimately show ?thesis using r(3) by blast
  qed
qed

lemma meet_branches_paths:
  assumes "db_opened db" and c: "db_GetBlock db (blk_Hash c) = Some (BlockData c)"
  shows "list_all2 (\<lambda>u v. blk_Hash u \<noteq> blk_Hash v) as bs \<Longrightarrow>
    down_path db x as (blk_Hash c) \<Longrightarrow> down_path db y bs (blk_Hash c) \<Longrightarrow> length as < k \<Longrightarrow>
    meet_branches k db x y sides mains = Ok (sides @ as, rev (mains @ bs), c)"
proof (induction arbitrary: x y k sides mains rule: list_all2_induct)
  case Nil
  then obtain k' where "k = Suc k'" by (cases k) auto
  moreover have "iter_Next_unchecked db (blk_Hash c) = Ok (c, blk_PrevBlockHash c)" using assms by (simp add: res_simps)
  ultimately show ?case using Nil by (simp add: ReverseBlocksSlice_rev)
next
  case (Cons u us v vs)
  then obtain k' where k: "k = Suc k'" by (cases k) auto
  have "iter_Next_unchecked db x = Ok (u, blk_PrevBlockHash u)" "iter_Next_unchecked db y = Ok (v, blk_PrevBlockHash v)"
    using assms(1) Cons.prems by (simp_all add: res_simps)
  then show ?case
    using Cons.IH[of "blk_PrevBlockHash u" "blk_PrevBlockHash v" k' "sides @ [u]" "mains @ [v]"] Cons.hyps Cons.prems k
    by simp
qed

lemma disjoint_image_iff: "f ` A \<inter> f ` B = {} \<longleftrightarrow> (\<forall>u\<in>A. \<forall>v\<in>B. f u \<noteq> f v)"
  by auto

lemma meet_from:
  assumes si: "store_inv n db hs" and hc: "heights_count db hs"
    and x: "db_GetBlock db x = Some (BlockData a)" "db_GetBlock db y = Some (BlockData b)" "blk_Height a = blk_Height b"
  shows "\<exists>as bs c. meet_branches (Suc (length (db_blocks db) * length (db_blocks db))) db x y sides mains
       = Ok (sides @ as, rev (mains @ bs), c) \<and>
      down_path db x as (blk_Hash c) \<and> down_path db y bs (blk_Hash c) \<and>
      db_GetBlock db (blk_Hash c) = Some (BlockData c) \<and> (\<forall>u\<in>set as. \<forall>v\<in>set bs. blk_Hash u \<noteq> blk_Hash v) \<and>
      (\<forall>u\<in>set as \<union> set bs. blk_Height u \<le> blk_Height b \<and> db_GetBlock db (blk_Hash u) = Some (BlockData u))"
proof -
  have d: "blk_Height a = int (nat (blk_Height a))" "blk_Height b = int (nat (blk_Height a))"
    using store_step(3)[OF si hc x(1)] x(3) by auto
  obtain as bs c where r: "down_path db x as (blk_Hash c)" "down_path db y bs (blk_Hash c)"
      "db_GetBlock db (blk_Hash c) = Some (BlockData c)" "list_all2 (\<lambda>u v. blk_Hash u \<noteq> blk_Hash v) as bs"
      "distinct (map blk_Hash as)" "\<forall>u\<in>set as. \<forall>v\<in>set bs. blk_Hash u \<noteq> blk_Hash v"
      "\<forall>u\<in>set as \<union> set bs. blk_Height u \<le> blk_Height b \<and> db_GetBlock db (blk_Hash u) = Some (BlockData u)"
    using paths_meet[OF si hc x(1,2) d] d by auto
  let ?l = "length (db_blocks db)"
  have "length as \<le> ?l" using down_path_length[OF r(1,5)] .
  also have "\<dots> \<le> ?l * ?l" by (cases ?l) simp_all
  finally have "length as < Suc (?l * ?l)" by simp
  from meet_branches_paths[OF store_invD(1)[OF si] r(3,4,1,2) this] show ?thesis using r by blast
qed

lemma down_to_height_run:
  assumes si: "store_inv n db hs" and hc: "heights_count db hs"
    and b: "db_GetBlock db h = Some (BlockData b)" and H: "1 \<le> H" "H < blk_Height b"
  shows "\<exists>bs c. down_to_height db h H = Ok (c, bs) \<and> down_path db h bs (blk_Hash c) \<and>
      db_GetBlock db (blk_Hash c) = Some (BlockData c) \<and> blk_Height c = H \<and>
      (\<forall>y\<in>set bs. H < blk_Height y \<and> db_GetBlock db (blk_Hash y) = Some (BlockData y))"
proof -
  have "blk_Height b = H + int (nat (blk_Height b - H))" "0 \<le> H" using H by auto
  from path_to_height[OF si hc b this(2,1)] obtain bs c where
    p: "down_path db h bs (blk_Hash c)" "db_GetBlock db (blk_Hash c) = Some (BlockData c)" "blk_Height c = H"
    "\<forall>y\<in>set bs. H < blk_Height y" "distinct (map blk_Hash bs)" by blast
  have len: "length bs < walk_fuel db" using down_path_length[OF p(1,5)] by (simp add: walk_fuel_def)
  have "db_GetBlock db (blk_Hash y) = Some (BlockData y)" if "y \<in> set bs" for y
  proof -
    obtain a1 a2 where "bs = a1 @ y # a2" using \<open>y \<in> set bs\<close> by (meson split_list)
    then show ?thesis using p(1) by (auto simp: down_path_append)
  qed
  then show ?thesis
    using down_to_height_walk[OF store_invD(1)[OF si] p(2,3,1,4) len, of "[]"] p
    unfolding down_to_height_def by auto
qed

lemma GetSideBranch_spec:
  assumes si: "store_inv n db hs" and hc: "heights_count db hs"
    and sb: "db_GetBlock db sideHash = Some (BlockData s)" "1 \<le> blk_Height s"
    and tb: "db_GetBlock db tip = Some (BlockData t)" "1 \<le> blk_Height t"
  shows "\<exists>sides mains c. GetSideBranch db sideHash tip = Ok (sides, mains, c) \<and>
     down_path db sideHash sides (blk_Hash c) \<and> down_path db tip (rev mains) (blk_Hash c) \<and>
     db_GetBlock db (blk_Hash c) = Some (BlockData c) \<and> blk_Hash ` set sides \<inter> blk_Hash ` set mains = {}"
proof -
  have gs: "GetBlock db sideHash = Ok s" "GetBlock db tip = Ok t"
    using sb tb store_invD(1)[OF si] by (simp_all add: res_simps)
  have hh: "blk_Hash s = sideHash" "blk_Hash t = tip"
    using store_step(1)[OF si hc] sb(1) tb(1) by blast+
  note down = down_to_height_run[OF si hc]
  consider "blk_Height s > blk_Height t" | "blk_Height s < blk_Height t" | "blk_Height s = blk_Height t" by linarith
  then show ?thesis
  proof cases
    case 1
    obtain bs c where d: "down_to_height db sideHash (blk_Height t) = Ok (c, bs)" "down_path db sideHash bs (blk_Hash c)"
      "db_GetBlock db (blk_Hash c) = Some (BlockData c)" "blk_Height c = blk_Height t" and
      up: "\<And>y. y \<in> set bs \<Longrightarrow> blk_Height t < blk_Height y \<and> db_GetBlock db (blk_Hash y) = Some (BlockData y)"
      using down[OF sb(1) tb(2) 1] by blast
    from meet_from[OF si hc d(3) tb(1) d(4), of bs "[]"] obtain as ms e where
      m: "meet_branches (Suc (length (db_blocks db) * length (db_blocks db))) db (blk_Hash c) tip bs []
       = Ok (bs @ as, rev ms, e)" "down_path db (blk_Hash c) as (blk_Hash e)" "down_path db tip ms (blk_Hash e)"
      "db_GetBlock db (blk_Hash e) = Some (BlockData e)" "\<forall>u\<in>set as. \<forall>v\<in>set ms. blk_Hash u \<noteq> blk_Hash v" and
      lo: "\<And>u. u \<in> set as \<union> set ms \<Longrightarrow> blk_Height u \<le> blk_Height t \<and> db_GetBlock db (blk_Hash u) = Some (BlockData u)"
      by auto
    have "blk_Hash u \<noteq> blk_Hash v" if "u \<in> set bs" "v \<in> set ms" for u v
      using up[OF that(1)] lo[of v] that(2) by (metis UnI2 blkval.inject(1) leD option.inject)
    then have "blk_Hash ` set (bs @ as) \<inter> blk_Hash ` set (rev ms) = {}"
      using m(5) unfolding disjoint_image_iff by auto
    moreover have "GetSideBranch db sideHash tip = Ok (bs @ as, rev ms, e)"
      using gs hh sb(2) tb(2) 1 d(1) m(1) by (simp add: GetSideBranch_def)
    ultimately show ?thesis using m d(2) by (auto simp: down_path_append)
  next
    case 2
    obtain bs c where d: "down_to_height db tip (blk_Height s) = Ok (c, bs)" "down_path db tip bs (blk_Hash c)"
      "db_GetBlock db (blk_Hash c) = Some (BlockData c)" "blk_Height c = blk_Height s" and
      up: "\<And>y. y \<in> set bs \<Longrightarrow> blk_Height s < blk_Height y \<and> db_GetBlock db (blk_Hash y) = Some (BlockData y)"
      using down[OF tb(1) sb(2) 2] by blast
    from meet_from[OF si hc sb(1) d(3) d(4)[symmetric], of "[]" bs] obtain as ms e where
      m: "meet_branches (Suc (length (db_blocks db) * length (db_blocks db))) db sideHash (blk_Hash c) [] bs
       = Ok (as, rev (bs @ ms), e)" "down_path db sideHash as (blk_Hash e)" "down_path db (blk_Hash c) ms (blk_Hash e)"
      "db_GetBlock db (blk_Hash e) = Some (BlockData e)" "\<forall>u\<in>set as. \<forall>v\<in>set ms. blk_Hash u \<noteq> blk_Hash v" and
      lo: "\<And>u. u \<in> set as \<union> set ms \<Longrightarrow> blk_Height u \<le> blk_Height c \<and> db_GetBlock db (blk_Hash u) = Some (BlockData u)"
      by auto
    have "blk_Hash u \<noteq> blk_Hash v" if "u \<in> set as" "v \<in> set bs" for u v
      using up[OF that(2)] lo[of u] that(1) d(4) by (metis UnI1 blkval.inject(1) leD option.inject)
    then have "blk_Hash ` set as \<inter> blk_Hash ` set (rev (bs @ ms)) = {}"
      using m(5) unfolding disjoint_image_iff by auto
    moreover have "GetSideBranch db sideHash tip = Ok (as, rev (bs @ ms), e)"
      using gs hh sb(2) tb(2) 2 d(1) m(1) by (simp add: GetSideBranch_def)
    moreover have "down_path db tip (rev (rev (bs @ ms))) (blk_Hash e)"
      using d(2) m(3) by (auto simp: down_path_append)
    ultimately show ?thesis using m(2,4) by blast
  next
    case 3
    from meet_from[OF si hc sb(1) tb(1) 3, of "[]" "[]"] obtain as ms e where
      m: "meet_branches (Suc (length (db_blocks db) * length (db_blocks db))) db sideHash tip [] []
       = Ok (as, rev ms, e)" "down_path db sideHash as (blk_Hash e)" "down_path db tip ms (blk_Hash e)"
      "db_GetBlock db (blk_Hash e) = Some (BlockData e)" "\<forall>u\<in>set as. \<forall>v\<in>set ms. blk_Hash u \<noteq> blk_Hash v"
      by auto
    have "GetSideBranch db sideHash tip = Ok (as, rev ms, e)"
      using gs hh sb(2) tb(2) 3 m(1) by (simp add: GetSideBranch_def)
    moreover have "blk_Hash ` set as \<inter> blk_Hash ` set (rev ms) = {}"
      using m(5) unfolding disjoint_image_iff by simp
    ultimately show ?thesis using m(2-4) by (metis rev_rev_ident)
  qed
qed

lemma GetBranchesReplacement_genesis:
  assumes "store_inv n db hs" and "db_GetBlock db sideHash = Some (BlockData s)" "blk_Height s < 1"
    and "db_GetBlock db tip = Some (BlockData t)"
  shows "GetSideBranch db sideHash tip = Err (ErrNew ''Can not do this for genesis block'') \<and>
    GetBranchesReplacement db sideHash tip = Panic"
proof -
  have g: "GetSideBranch db sideHash tip = Err (ErrNew ''Can not do this for genesis block'')"
    using assms store_invD(1)[OF assms(1)] by (simp add: GetSideBranch_def GetBlock_def NewBlockFromBytes_def)
  then show ?thesis by (simp add: GetBranchesReplacement_def)
qed

section \<open>Reading the main chain\<close>

text \<open>\<open>stored_at db hs bs\<close>: the blocks \<open>bs\<close> are those stored under the hashes \<open>hs\<close>.\<close>

definition stored_at :: "'m node_db \<Rightarrow> bytes list \<Rightarrow> block list \<Rightarrow> bool" where
  "stored_at db hs bs \<longleftrightarrow> list_all2 (\<lambda>h b. db_GetBlock db h = Some (BlockData b)) hs bs"

lemma stored_at_simps [simp]:
  "stored_at db [] bs \<longleftrightarrow> bs = []"
  "stored_at db (h # hs) bs \<longleftrightarrow> (\<exists>b bs'. bs = b # bs' \<and> db_GetBlock db h = Some (BlockData b) \<and> stored_at db hs bs')"
  by (auto simp: stored_at_def list_all2_Cons1)

lemma next_blocks_main:
  assumes si: "store_inv n db hs" and stop: "\<And>k. 0 < k \<Longrightarrow> stop k \<longleftrightarrow> m \<le> k"
  shows "i < length hs \<Longrightarrow> length acc < m \<Longrightarrow> m - length acc \<le> fuel \<Longrightarrow>
    \<exists>bs. next_blocks fuel db stop (hs ! i) acc = Ok (acc @ bs) \<and>
         stored_at db (take (m - length acc) (drop i hs)) bs"
proof (induction fuel arbitrary: i acc)
  case (Suc fuel)
  note D = store_invD[OF si]
  obtain b where b: "db_GetBlock db (hs ! i) = Some (BlockData b)" using D(6) Suc.prems(1) by fastforce
  have get: "GetBlock db (hs ! i) = Ok b" using b D(1) by (simp add: GetBlock_Ok)
  note loc = GetLocationInChain_at[OF D(3) Suc.prems(1)]
  have dr: "drop i hs = hs ! i # drop (Suc i) hs" using Suc.prems(1) by (simp add: Cons_nth_drop_Suc)
  have tk: "take (m - length acc) (drop i hs) = hs ! i # take (m - Suc (length acc)) (drop (Suc i) hs)"
    using Suc.prems(2) dr by (metis Suc_diff_Suc take_Suc_Cons)
  have st: "stop (length (acc @ [b])) \<longleftrightarrow> m \<le> Suc (length acc)" using stop[of "length (acc @ [b])"] by simp
  show ?case
  proof (cases "m \<le> Suc (length acc) \<or> length hs \<le> Suc i")
    case True
    then show ?thesis using get loc b tk st by (auto simp: Let_def)
  next
    case False
    then have "length (hs ! Suc i) \<noteq> 0" using chain_repr_rec(3,5)[OF D(3), of "Suc i"] by simp
    moreover have "\<exists>bs. next_blocks fuel db stop (hs ! Suc i) (acc @ [b]) = Ok ((acc @ [b]) @ bs) \<and>
         stored_at db (take (m - length (acc @ [b])) (drop (Suc i) hs)) bs"
      by (rule Suc.IH) (use False Suc.prems in auto)
    ultimately show ?thesis using get loc b tk False st by (auto simp: Let_def)
  qed
qed simp

lemma GetNextBlocks_spec:
  assumes si: "store_inv n db hs" and i: "i < length hs"
  shows "\<exists>bs. GetNextBlocks db (hs ! i) maxcount = Ok (map GetShortCopy bs) \<and>
     stored_at db (take (if maxcount > 0 then min 1000 (nat maxcount) else 1000) (drop i hs)) bs"
proof -
  obtain m where m: "m = (if maxcount > 0 then min 1000 (nat maxcount) else 1000 :: nat)" by simp
  have "0 < m" "m \<le> maxmaxcount" by (auto simp: m maxmaxcount_def)
  moreover have "maxmaxcount \<le> k \<or> 0 < maxcount \<and> maxcount \<le> int k \<longleftrightarrow> m \<le> k" for k
    by (auto simp: m maxmaxcount_def)
  ultimately obtain bs where
    "next_blocks maxmaxcount db (\<lambda>k. maxmaxcount \<le> k \<or> 0 < maxcount \<and> maxcount \<le> int k) (hs ! i) [] = Ok bs"
    "stored_at db (take m (drop i hs)) bs"
    using next_blocks_main[OF si _ i, of _ m "[]" maxmaxcount] by auto
  then show ?thesis using store_invD(1)[OF si] unfolding m[symmetric] by (auto simp: GetNextBlocks_def)
qed

lemma GetFirstBlocks_spec:
  assumes si: "store_inv n db hs" and first: "GetFirstHash db = Ok (hd hs)"
    and tb: "db_GetBlock db (List.last hs) = Some (BlockData tb)"
  shows "\<exists>bs. GetFirstBlocks db maxcount = Ok (bs, blk_Height tb) \<and> stored_at db (take (max 1 (nat maxcount)) hs) bs"
proof -
  note D = store_invD[OF si]
  obtain m where m: "m = max 1 (nat maxcount)" by simp
  have at: "hs ! 0 = hd hs" "0 < length hs" using D(4) by (simp_all add: hd_conv_nth)
  have stop: "maxcount \<le> int k \<longleftrightarrow> m \<le> k" if "0 < k" for k using that by (auto simp: m)
  have "length ([] :: block list) < m" "m - length ([] :: block list) \<le> Suc (nat maxcount)" by (auto simp: m)
  from next_blocks_main[where stop = "\<lambda>k. maxcount \<le> int k", OF si stop at(2) this]
  obtain bs where bs: "next_blocks (Suc (nat maxcount)) db (\<lambda>k. maxcount \<le> int k) (hd hs) [] = Ok bs"
    "stored_at db (take m hs) bs"
    unfolding at(1) by (simp del: next_blocks.simps) blast
  moreover have "GetState db = Ok (List.last hs, blk_Height tb)"
    using store_inv_top[OF si] tb D(1) D(7)[OF tb] by (simp add: GetState_def GetTopBlock_def NewBlockFromBytes_def block_ok_def)
  ultimately show ?thesis using first D(1)
    unfolding m by (simp add: GetFirstBlocks_def GetGenesisBlockHash_def del: next_blocks.simps)
qed

text \<open>Along the main chain the heights are the positions.\<close>

lemma main_height_position:
  assumes si: "store_inv n db hs" and hc: "heights_count db hs"
  shows "i < length hs \<Longrightarrow> db_GetBlock db (hs ! i) = Some (BlockData b) \<Longrightarrow> blk_Height b = int i"
proof (induction i arbitrary: b)
  case 0
  then show ?case using hc store_invD(4)[OF si] by (simp add: heights_count_def hd_conv_nth)
next
  case (Suc i)
  obtain c where c: "db_GetBlock db (hs ! i) = Some (BlockData c)" "blk_PrevBlockHash b = hs ! i"
    using main_prev[OF si Suc.prems(1)] Suc.prems(2) by auto
  have "blk_Height b = blk_Height c + 1" using hc Suc.prems(2) c unfolding heights_count_def by metis
  then show ?case using Suc.IH[OF _ c(1)] Suc.prems(1) by simp
qed

lemma at_height_walk:
  assumes si: "store_inv n db hs" and hc: "heights_count db hs" and k: "k < length hs"
    and b: "db_GetBlock db (hs ! k) = Some (BlockData b)"
  shows "i < length hs \<Longrightarrow> k \<le> i \<Longrightarrow> i - k < fuel \<Longrightarrow>
    walk fuel (iter_Next_unchecked db) (hs ! i) (\<lambda>b (_::unit).
         if blk_Height b = int k then Ok (Inl b)
         else if blk_Height b < int k then Err (ErrNew ''Block with the heigh doesn't exist'')
         else if length (blk_PrevBlockHash b) = 0 then Err (ErrNew ''Block with the heigh doesn't exist'')
         else Ok (Inr ())) () = Ok b"
proof (induction fuel arbitrary: i)
  case (Suc fuel)
  note D = store_invD[OF si]
  obtain c where c: "db_GetBlock db (hs ! i) = Some (BlockData c)" using D(6) Suc.prems(1) by fastforce
  have nx: "iter_Next_unchecked db (hs ! i) = Ok (c, blk_PrevBlockHash c)" using c D(1) by (simp add: res_simps)
  have ht: "blk_Height c = int i" using main_height_position[OF si hc Suc.prems(1) c] .
  show ?case
  proof (cases "i = k")
    case False
    then obtain j where j: "i = Suc j" using Suc.prems(2) by (cases i) auto
    have "blk_PrevBlockHash c = hs ! j" "hs ! j \<noteq> []" using main_prev[OF si, of j] Suc.prems(1) c j by auto
    then show ?thesis using nx ht False Suc.IH[of j] Suc.prems j by simp
  qed (use nx ht b c in simp)
qed simp

lemma GetBlockAtHeight_spec:
  assumes si: "store_inv n db hs" and hc: "heights_count db hs" and k: "k < length hs"
    and b: "db_GetBlock db (hs ! k) = Some (BlockData b)"
  shows "GetBlockAtHeight db (int k) = Ok b"
proof -
  note D = store_invD[OF si]
  have "h \<in> fst ` set (db_blocks db)" if "h \<in> set hs" for h
  proof -
    have "tget (db_blocks db) h \<noteq> None" using D(6)[OF that] by (auto simp: db_GetBlock_def)
    then show ?thesis by (simp add: tget_None)
  qed
  then have "set hs \<subseteq> fst ` set (db_blocks db)" by blast
  then have "card (set hs) \<le> length (db_blocks db)"
    by (meson card_image_le card_length card_mono finite_imageI finite_set le_trans)
  moreover have "card (set hs) = length hs" using D(3) by (simp add: chain_repr_def distinct_card)
  ultimately have "length hs - 1 - k < walk_fuel db" by (simp add: walk_fuel_def)
  from at_height_walk[OF si hc k b _ _ this] k
  have "walk (walk_fuel db) (iter_Next_unchecked db) (List.last hs) (\<lambda>b (_::unit).
         if blk_Height b = int k then Ok (Inl b)
         else if blk_Height b < int k then Err (ErrNew ''Block with the heigh doesn't exist'')
         else if length (blk_PrevBlockHash b) = 0 then Err (ErrNew ''Block with the heigh doesn't exist'')
         else Ok (Inr ())) () = Ok b"
    using D(4) by (simp add: last_conv_nth)
  then show ?thesis
    using store_inv_top[OF si] D(1) by (simp add: GetBlockAtHeight_def NewBlockchainIterator_def)
qed

end
