(* ===== verification/TxIndex.thy ===== *)
theory TxIndex
  imports Chain
begin

text \<open>
  \<^verbatim>\<open>node/transactions/index.go\<close> with the tables of \<^verbatim>\<open>node/database/transactions.go\<close>: for every transaction
  the hashes of the blocks that contain it, and the spendings of its outputs. Values are kept decoded.
\<close>

section \<open>Tables of lists\<close>

definition tlist :: "('k \<times> 'v list) list \<Rightarrow> 'k \<Rightarrow> 'v list" where
  "tlist t k = (case tget t k of None \<Rightarrow> [] | Some l \<Rightarrow> l)"

definition tapp :: "('k \<times> 'v list) list \<Rightarrow> 'k \<Rightarrow> 'v list \<Rightarrow> ('k \<times> 'v list) list" where
  "tapp t k x = tput t k (tlist t k @ x)"

text \<open>Keep part of a list; a key without values is deleted.\<close>

definition tkeep :: "('k \<times> 'v list) list \<Rightarrow> 'k \<Rightarrow> ('v \<Rightarrow> bool) \<Rightarrow> ('k \<times> 'v list) list" where
  "tkeep t k P =
     (let l = filter P (tlist t k) in if length l > 0 then tput t k l else tdel t k)"

definition no_empty :: "('k \<times> 'v list) list \<Rightarrow> bool" where
  "no_empty t \<longleftrightarrow> (\<forall>k. tget t k \<noteq> Some [])"

lemma tlist_tapp: "tlist (tapp t k x) k' = (if k' = k then tlist t k @ x else tlist t k')"
  by (simp add: tapp_def tlist_def table_simps)

lemma tlist_tkeep: "tlist (tkeep t k P) k' = (if k' = k then filter P (tlist t k) else tlist t k')"
  by (auto simp: tkeep_def tlist_def table_simps Let_def)

lemma no_empty_tapp: "no_empty t \<Longrightarrow> x \<noteq> [] \<Longrightarrow> no_empty (tapp t k x)"
  by (auto simp: no_empty_def tapp_def table_simps)

lemma no_empty_tkeep: "no_empty t \<Longrightarrow> no_empty (tkeep t k P)"
  by (auto simp: no_empty_def tkeep_def table_simps Let_def)

lemma tget_by_tlist: "no_empty s \<Longrightarrow> no_empty t \<Longrightarrow> (\<And>k. tlist s k = tlist t k) \<Longrightarrow> tget s = tget t"
proof
  fix k assume "no_empty s" "no_empty t" "\<And>k. tlist s k = tlist t k"
  then have "tlist s k = tlist t k" "tget s k \<noteq> Some []" "tget t k \<noteq> Some []" by (auto simp: no_empty_def)
  then show "tget s k = tget t k" by (auto simp: tlist_def split: option.splits)
qed

section \<open>Updating the index\<close>

definition spending :: "block \<Rightarrow> transaction \<Rightarrow> int \<Rightarrow> txinput \<Rightarrow> spent_output_rec" where
  "spending b tx inInd vin =
     \<lparr>so_OutInd = vin_Vout vin, so_TXWhereUsed = tx_ID tx, so_InInd = inInd, so_BlockHash = blk_Hash b\<rparr>"

text \<open>The loop over the inputs, from input number \<open>k\<close> on.\<close>

fun add_spendings ::
  "block \<Rightarrow> transaction \<Rightarrow> int \<Rightarrow> txinput list \<Rightarrow> spent_output_rec list table \<Rightarrow> spent_output_rec list table" where
  "add_spendings b tx k [] t = t"
| "add_spendings b tx k (vin # vins) t =
     add_spendings b tx (k + 1) vins (tapp t (vin_Txid vin) [spending b tx k vin])"

definition index_add_tx :: "block \<Rightarrow> transaction \<Rightarrow> 'm node_db \<Rightarrow> unit res \<times> 'm node_db" where
  "index_add_tx b tx db =
     (let db = db\<lparr>db_txblocks := tapp (db_txblocks db) (tx_ID tx) [blk_Hash b]\<rparr>
      in if IsCoinbaseTransfer tx then (Ok (), db)
         else (Ok (), db\<lparr>db_txspent := add_spendings b tx 0 (tx_Vin tx) (db_txspent db)\<rparr>))"

definition index_BlockAdded :: "block \<Rightarrow> 'm node_db \<Rightarrow> unit res \<times> 'm node_db" where
  "index_BlockAdded b db =
     bindS (getConnection db, db) (\<lambda>_ db. forS (index_add_tx b) (blk_Transactions b) db)"

definition index_BlocksAdded :: "block list \<Rightarrow> 'm node_db \<Rightarrow> unit res \<times> 'm node_db" where
  "index_BlocksAdded blocks db = forS index_BlockAdded blocks db"

fun remove_spendings ::
  "txinput list \<Rightarrow> spent_output_rec list table \<Rightarrow> spent_output_rec list table" where
  "remove_spendings [] t = t"
| "remove_spendings (vin # vins) t =
     remove_spendings vins
       (case tget t (vin_Txid vin) of
          None \<Rightarrow> t
        | Some _ \<Rightarrow> tkeep t (vin_Txid vin) (\<lambda>r. so_OutInd r \<noteq> vin_Vout vin))"

definition index_remove_tx :: "block \<Rightarrow> transaction \<Rightarrow> 'm node_db \<Rightarrow> unit res \<times> 'm node_db" where
  "index_remove_tx b tx db =
     (let db = db\<lparr>db_txblocks := tkeep (db_txblocks db) (tx_ID tx) (\<lambda>h. h \<noteq> blk_Hash b)\<rparr>
      in if IsCoinbaseTransfer tx then (Ok (), db)
         else (Ok (), db\<lparr>db_txspent := remove_spendings (tx_Vin tx) (db_txspent db)\<rparr>))"

definition index_BlockRemoved :: "block \<Rightarrow> 'm node_db \<Rightarrow> unit res \<times> 'm node_db" where
  "index_BlockRemoved b db =
     bindS (getConnection db, db) (\<lambda>_ db. forS (index_remove_tx b) (blk_Transactions b) db)"

definition index_BlocksRemoved :: "block list \<Rightarrow> 'm node_db \<Rightarrow> unit res \<times> 'm node_db" where
  "index_BlocksRemoved blocks db = forS index_BlockRemoved blocks db"

text \<open>The walk of \<^verbatim>\<open>Reindex\<close> changes only the index, so the blocks it reads are those of the start.\<close>

fun reindex_walk :: "nat \<Rightarrow> bytes \<Rightarrow> 'm node_db \<Rightarrow> unit res \<times> 'm node_db" where
  "reindex_walk 0 h db = (Diverge, db)"
| "reindex_walk (Suc n) h db =
     bindS (iter_Next db h, db) (\<lambda>(b, h') db.
     bindS (index_BlockAdded b db) (\<lambda>_ db.
       if length (blk_PrevBlockHash b) = 0 then (Ok (), db) else reindex_walk n h' db))"

definition index_Reindex :: "'m node_db \<Rightarrow> unit res \<times> 'm node_db" where
  "index_Reindex db =
     bindS (getConnection db, db) (\<lambda>_ db.
       let db = db\<lparr>db_txblocks := [], db_txspent := []\<rparr>
       in bindS (NewBlockchainIterator db, db) (\<lambda>h db. reindex_walk (walk_fuel db) h db))"

section \<open>Reading the index\<close>

definition GetTranactionBlocks :: "'m node_db \<Rightarrow> bytes \<Rightarrow> bytes list res" where
  "GetTranactionBlocks db txID =
     bindR (getConnection db) (\<lambda>_.
       Ok (case tget (db_txblocks db) txID of None \<Rightarrow> [] | Some hashes \<Rightarrow> hashes))"

fun filterTranactionOutputsSpent ::
  "'m node_db \<Rightarrow> spent_output_rec list \<Rightarrow> bytes \<Rightarrow> bytes \<Rightarrow> spent_output_rec list res" where
  "filterTranactionOutputsSpent db [] blockHash topHash = Ok []"
| "filterTranactionOutputsSpent db (r # rs) blockHash topHash =
     bindR (CheckBlockIsInRange db (so_BlockHash r) blockHash topHash) (\<lambda>present.
     bindR (filterTranactionOutputsSpent db rs blockHash topHash) (\<lambda>res.
       Ok (if present then r # res else res)))"

definition GetTranactionOutputsSpent ::
  "'m node_db \<Rightarrow> bytes \<Rightarrow> bytes \<Rightarrow> bytes \<Rightarrow> spent_output_rec list res" where
  "GetTranactionOutputsSpent db txID blockHash topHash =
     bindR (getConnection db) (\<lambda>_.
       case tget (db_txspent db) txID of
         None \<Rightarrow> Ok []
       | Some outs \<Rightarrow> filterTranactionOutputsSpent db outs blockHash topHash)"

text \<open>A transaction that is in no block of the chain is \<open>None\<close>, the \<open>nil\<close> pointer without error.\<close>

definition GetCurrencyTransactionAllInfo ::
  "'m node_db \<Rightarrow> bytes \<Rightarrow> bytes \<Rightarrow> (transaction option \<times> spent_output_rec list \<times> bytes) res" where
  "GetCurrencyTransactionAllInfo db txID topHash =
     bindR (GetTranactionBlocks db txID) (\<lambda>blockHashes.
     bindR (ChooseHashUnderTip db blockHashes topHash) (\<lambda>blockHash.
       if blockHash = [] then Ok (None, [], [])
       else
         bindR (GetTranactionOutputsSpent db txID blockHash topHash) (\<lambda>spentOuts.
         bindR (GetTransactionFromBlock db txID blockHash) (\<lambda>tx. Ok (Some tx, spentOuts, blockHash)))))"

definition index_GetTransaction :: "'m node_db \<Rightarrow> bytes \<Rightarrow> bytes \<Rightarrow> transaction option res" where
  "index_GetTransaction db txID topHash =
     bindR (GetTranactionBlocks db txID) (\<lambda>blockHashes.
     bindR (ChooseHashUnderTip db blockHashes topHash) (\<lambda>blockHash.
       if blockHash = [] then Ok None
       else bindR (GetTransactionFromBlock db txID blockHash) (\<lambda>tx. Ok (Some tx))))"

section \<open>What the index holds\<close>

text \<open>The specification: the spendings of a block, as pairs of transaction id and record, in order.\<close>

fun input_spends :: "block \<Rightarrow> transaction \<Rightarrow> int \<Rightarrow> txinput list \<Rightarrow> (bytes \<times> spent_output_rec) list" where
  "input_spends b tx k [] = []"
| "input_spends b tx k (vin # vins) = (vin_Txid vin, spending b tx k vin) # input_spends b tx (k + 1) vins"

definition block_spends :: "block \<Rightarrow> (bytes \<times> spent_output_rec) list" where
  "block_spends b =
     concat (map (\<lambda>tx. if IsCoinbaseTransfer tx then [] else input_spends b tx 0 (tx_Vin tx)) (blk_Transactions b))"

definition spends_for :: "(bytes \<times> spent_output_rec) list \<Rightarrow> bytes \<Rightarrow> spent_output_rec list" where
  "spends_for ps k = map snd (filter (\<lambda>p. fst p = k) ps)"

lemma spends_for_append: "spends_for (ps @ qs) k = spends_for ps k @ spends_for qs k"
  by (simp add: spends_for_def)

lemma spends_for_Nil [simp]: "spends_for [] k = []"
  by (simp add: spends_for_def)

lemma add_spendings_lists:
  "tlist (add_spendings b tx i vins t) k = tlist t k @ spends_for (input_spends b tx i vins) k"
  by (induction vins arbitrary: i t) (auto simp: tlist_tapp spends_for_def)

lemma add_spendings_no_empty: "no_empty t \<Longrightarrow> no_empty (add_spendings b tx i vins t)"
  by (induction vins arbitrary: i t) (auto simp: no_empty_tapp)

definition block_links :: "block \<Rightarrow> transaction list \<Rightarrow> bytes \<Rightarrow> bytes list" where
  "block_links b txs k = map (\<lambda>_. blk_Hash b) (filter (\<lambda>tx. tx_ID tx = k) txs)"

lemma index_add_txs:
  "\<exists>t s. forS (index_add_tx b) txs db = (Ok (), db\<lparr>db_txblocks := t, db_txspent := s\<rparr>) \<and>
     (\<forall>k. tlist t k = tlist (db_txblocks db) k @ block_links b txs k) \<and>
     (\<forall>k. tlist s k = tlist (db_txspent db) k @ spends_for
        (concat (map (\<lambda>tx. if IsCoinbaseTransfer tx then [] else input_spends b tx 0 (tx_Vin tx)) txs)) k) \<and>
     (no_empty (db_txblocks db) \<longrightarrow> no_empty t) \<and> (no_empty (db_txspent db) \<longrightarrow> no_empty s)"
proof (induction txs arbitrary: db)
  case Nil
  show ?case by (intro exI[of _ "db_txblocks db"] exI[of _ "db_txspent db"])
      (simp add: block_links_def spends_for_def)
next
  case (Cons tx txs)
  let ?t = "tapp (db_txblocks db) (tx_ID tx) [blk_Hash b]"
  let ?s = "if IsCoinbaseTransfer tx then db_txspent db else add_spendings b tx 0 (tx_Vin tx) (db_txspent db)"
  let ?db = "db\<lparr>db_txblocks := ?t, db_txspent := ?s\<rparr>"
  have step: "index_add_tx b tx db = (Ok (), ?db)" by (simp add: index_add_tx_def)
  obtain t s where IH: "forS (index_add_tx b) txs ?db = (Ok (), ?db\<lparr>db_txblocks := t, db_txspent := s\<rparr>)"
     "\<forall>k. tlist t k = tlist ?t k @ block_links b txs k"
     "\<forall>k. tlist s k = tlist ?s k @ spends_for
        (concat (map (\<lambda>tx. if IsCoinbaseTransfer tx then [] else input_spends b tx 0 (tx_Vin tx)) txs)) k"
     "no_empty ?t \<longrightarrow> no_empty t" "no_empty ?s \<longrightarrow> no_empty s"
    using Cons.IH[of ?db] by auto
  have "forS (index_add_tx b) (tx # txs) db = (Ok (), db\<lparr>db_txblocks := t, db_txspent := s\<rparr>)"
    using step IH(1) by simp
  moreover have "tlist t k = tlist (db_txblocks db) k @ block_links b (tx # txs) k" for k
    using IH(2) by (simp add: tlist_tapp block_links_def)
  moreover have "tlist s k = tlist (db_txspent db) k @ spends_for
        (concat (map (\<lambda>tx. if IsCoinbaseTransfer tx then [] else input_spends b tx 0 (tx_Vin tx)) (tx # txs))) k" for k
    using IH(3) by (simp add: add_spendings_lists spends_for_append)
  moreover have "no_empty (db_txblocks db) \<longrightarrow> no_empty t" using IH(4) by (simp add: no_empty_tapp)
  moreover have "no_empty (db_txspent db) \<longrightarrow> no_empty s" using IH(5) by (simp add: add_spendings_no_empty)
  ultimately show ?case by blast
qed

lemma remove_spendings_lists:
  "tlist (remove_spendings vins t) k =
     filter (\<lambda>r. \<forall>vin\<in>set vins. vin_Txid vin = k \<longrightarrow> so_OutInd r \<noteq> vin_Vout vin) (tlist t k)"
proof (induction vins arbitrary: t)
  case (Cons vin vins)
  have "tlist (case tget t (vin_Txid vin) of None \<Rightarrow> t
        | Some _ \<Rightarrow> tkeep t (vin_Txid vin) (\<lambda>r. so_OutInd r \<noteq> vin_Vout vin)) k
      = filter (\<lambda>r. vin_Txid vin = k \<longrightarrow> so_OutInd r \<noteq> vin_Vout vin) (tlist t k)"
  proof (cases "tget t (vin_Txid vin)")
    case None
    then have "tlist t (vin_Txid vin) = []" by (simp add: tlist_def)
    then show ?thesis using None by (cases "k = vin_Txid vin") auto
  next
    case (Some l)
    then show ?thesis by (auto simp: tlist_tkeep)
  qed
  then show ?case by (simp add: Cons.IH conj_commute)
qed simp

lemma remove_spendings_no_empty: "no_empty t \<Longrightarrow> no_empty (remove_spendings vins t)"
  by (induction vins arbitrary: t) (auto simp: no_empty_tkeep split: option.split)

definition spent_in :: "transaction list \<Rightarrow> bytes \<Rightarrow> int \<Rightarrow> bool" where
  "spent_in txs k i \<longleftrightarrow>
     (\<exists>tx\<in>set txs. \<not> IsCoinbaseTransfer tx \<and> (\<exists>vin\<in>set (tx_Vin tx). vin_Txid vin = k \<and> vin_Vout vin = i))"

lemma index_remove_txs:
  "\<exists>t s. forS (index_remove_tx b) txs db = (Ok (), db\<lparr>db_txblocks := t, db_txspent := s\<rparr>) \<and>
     (\<forall>k. tlist t k = (if k \<in> tx_ID ` set txs then filter (\<lambda>h. h \<noteq> blk_Hash b) (tlist (db_txblocks db) k)
                       else tlist (db_txblocks db) k)) \<and>
     (\<forall>k. tlist s k = filter (\<lambda>r. \<not> spent_in txs k (so_OutInd r)) (tlist (db_txspent db) k)) \<and>
     (no_empty (db_txblocks db) \<longrightarrow> no_empty t) \<and> (no_empty (db_txspent db) \<longrightarrow> no_empty s)"
proof (induction txs arbitrary: db)
  case Nil
  show ?case by (intro exI[of _ "db_txblocks db"] exI[of _ "db_txspent db"]) (simp add: spent_in_def)
next
  case (Cons tx txs)
  let ?t = "tkeep (db_txblocks db) (tx_ID tx) (\<lambda>h. h \<noteq> blk_Hash b)"
  let ?s = "if IsCoinbaseTransfer tx then db_txspent db else remove_spendings (tx_Vin tx) (db_txspent db)"
  let ?db = "db\<lparr>db_txblocks := ?t, db_txspent := ?s\<rparr>"
  have step: "index_remove_tx b tx db = (Ok (), ?db)" by (simp add: index_remove_tx_def)
  obtain t s where IH: "forS (index_remove_tx b) txs ?db = (Ok (), ?db\<lparr>db_txblocks := t, db_txspent := s\<rparr>)"
     "\<forall>k. tlist t k = (if k \<in> tx_ID ` set txs then filter (\<lambda>h. h \<noteq> blk_Hash b) (tlist ?t k) else tlist ?t k)"
     "\<forall>k. tlist s k = filter (\<lambda>r. \<not> spent_in txs k (so_OutInd r)) (tlist ?s k)"
     "no_empty ?t \<longrightarrow> no_empty t" "no_empty ?s \<longrightarrow> no_empty s"
    using Cons.IH[of ?db] by auto
  have "forS (index_remove_tx b) (tx # txs) db = (Ok (), db\<lparr>db_txblocks := t, db_txspent := s\<rparr>)"
    using step IH(1) by simp
  moreover have "tlist t k = (if k \<in> tx_ID ` set (tx # txs) then filter (\<lambda>h. h \<noteq> blk_Hash b) (tlist (db_txblocks db) k)
                       else tlist (db_txblocks db) k)" for k
    using IH(2) by (simp add: tlist_tkeep)
  moreover have "tlist s k = filter (\<lambda>r. \<not> spent_in (tx # txs) k (so_OutInd r)) (tlist (db_txspent db) k)" for k
    unfolding IH(3)[rule_format] by (auto simp: remove_spendings_lists spent_in_def intro!: filter_cong)
  moreover have "no_empty (db_txblocks db) \<longrightarrow> no_empty t" using IH(4) by (simp add: no_empty_tkeep)
  moreover have "no_empty (db_txspent db) \<longrightarrow> no_empty s" using IH(5) by (simp add: remove_spendings_no_empty)
  ultimately show ?case by blast
qed

lemma input_spends_set:
  "p \<in> set (input_spends b tx i vins) \<Longrightarrow> \<exists>vin\<in>set vins. fst p = vin_Txid vin \<and> so_OutInd (snd p) = vin_Vout vin"
  by (induction vins arbitrary: i) (auto simp: spending_def)

lemma block_spends_spent:
  "(k, r) \<in> set (block_spends b) \<Longrightarrow> spent_in (blk_Transactions b) k (so_OutInd r)"
  unfolding block_spends_def spent_in_def by (fastforce dest: input_spends_set split: if_splits)

text \<open>Removing the block that was added last restores the index, when nothing else spent its inputs.\<close>

lemma index_remove_add:
  assumes "db_opened db" and ne: "no_empty (db_txblocks db)" "no_empty (db_txspent db)"
    and fresh: "\<And>k. blk_Hash b \<notin> set (tlist (db_txblocks db) k)"
    and unspent: "\<And>k r. r \<in> set (tlist (db_txspent db) k) \<Longrightarrow> \<not> spent_in (blk_Transactions b) k (so_OutInd r)"
  shows "\<exists>db1 db2. index_BlockAdded b db = (Ok (), db1) \<and> index_BlockRemoved b db1 = (Ok (), db2) \<and>
     tget (db_txblocks db2) = tget (db_txblocks db) \<and> tget (db_txspent db2) = tget (db_txspent db)"
proof -
  let ?txs = "blk_Transactions b"
  obtain t s where a: "forS (index_add_tx b) ?txs db = (Ok (), db\<lparr>db_txblocks := t, db_txspent := s\<rparr>)"
     "\<And>k. tlist t k = tlist (db_txblocks db) k @ block_links b ?txs k"
     "\<And>k. tlist s k = tlist (db_txspent db) k @ spends_for (block_spends b) k"
     "no_empty t" "no_empty s"
    using index_add_txs[of b ?txs db] ne unfolding block_spends_def by blast
  let ?db1 = "db\<lparr>db_txblocks := t, db_txspent := s\<rparr>"
  obtain t' s' where r: "forS (index_remove_tx b) ?txs ?db1 = (Ok (), ?db1\<lparr>db_txblocks := t', db_txspent := s'\<rparr>)"
     "\<And>k. tlist t' k = (if k \<in> tx_ID ` set ?txs then filter (\<lambda>h. h \<noteq> blk_Hash b) (tlist t k) else tlist t k)"
     "\<And>k. tlist s' k = filter (\<lambda>r. \<not> spent_in ?txs k (so_OutInd r)) (tlist s k)"
     "no_empty t'" "no_empty s'"
    using index_remove_txs[of b ?txs ?db1] a(4,5) by auto
  have "tlist t' k = tlist (db_txblocks db) k" for k
  proof (cases "k \<in> tx_ID ` set ?txs")
    case True
    then show ?thesis using fresh[of k] unfolding r(2) a(2)
      by (auto simp: block_links_def filter_empty_conv filter_id_conv)
  next
    case False
    then have "block_links b ?txs k = []" by (auto simp: block_links_def filter_empty_conv)
    then show ?thesis using False unfolding r(2) a(2) by simp
  qed
  moreover have "tlist s' k = tlist (db_txspent db) k" for k
  proof -
    have "filter (\<lambda>r. \<not> spent_in ?txs k (so_OutInd r)) (spends_for (block_spends b) k) = []"
      using block_spends_spent by (auto simp: filter_empty_conv spends_for_def)
    moreover have "filter (\<lambda>r. \<not> spent_in ?txs k (so_OutInd r)) (tlist (db_txspent db) k) = tlist (db_txspent db) k"
      using unspent by (simp add: filter_id_conv)
    ultimately show ?thesis unfolding r(3) a(3) by simp
  qed
  ultimately have "tget t' = tget (db_txblocks db)" "tget s' = tget (db_txspent db)"
    using tget_by_tlist ne r(4,5) by blast+
  then show ?thesis using a(1) r(1) assms(1)
    by (intro exI[of _ ?db1] exI[of _ "?db1\<lparr>db_txblocks := t', db_txspent := s'\<rparr>"])
      (simp add: index_BlockAdded_def index_BlockRemoved_def)
qed

end
