(* ===== verification/Unspent.thy ===== *)
theory Unspent
  imports TxIndex
begin

text \<open>
  \<^verbatim>\<open>node/transactions/unspent.go\<close> and \<^verbatim>\<open>rowsreferences.go\<close>: the table of unspent outputs, with its update
  when a block joins or leaves the main chain, the choice of inputs for a new transaction, and the table
  from row references to the transaction that last changed the row. \<open>sort.Sort\<close> is not stable, so the
  sorting of the outputs is the argument \<open>srt\<close>. The table of unspent outputs refines a set of outputs.
\<close>

section \<open>Reading the unspent outputs\<close>

text \<open>\<^verbatim>\<open>remoteclient.Wallet.ValidateAddress\<close>.\<close>

definition ValidateAddress :: "'k crypto \<Rightarrow> string \<Rightarrow> bool" where
  "ValidateAddress cr address =
     (if length address = 0 then False
      else
        let pubKeyHash = base58_decode cr address; n = length pubKeyHash
        in if n \<le> AddressChecksumLen then False
           else drop (n - AddressChecksumLen) pubKeyHash =
                Checksum cr ([hd pubKeyHash] @ drop 1 (take (n - AddressChecksumLen) pubKeyHash)))"

text \<open>The records that a callback over the table sees, in cursor order.\<close>

definition all_outputs :: "'m node_db \<Rightarrow> txoutput_independent list" where
  "all_outputs db = concat (map snd (db_unspent db))"

definition GetunspentTransactionsOutputs ::
  "'k crypto \<Rightarrow> 'm node_db \<Rightarrow> string \<Rightarrow> txoutput_independent list res" where
  "GetunspentTransactionsOutputs cr db address =
     (if address = [] then Err (ErrNew ''Address is missed'')
      else if \<not> ValidateAddress cr address then Err (ErrNew ''Address is not valid'')
      else bindR (AddresToPubKeyHash cr address) (\<lambda>pubKeyHash.
           bindR (getConnection db) (\<lambda>_.
             Ok (filter (\<lambda>out. OI_IsLockedWithKey out pubKeyHash) (all_outputs db)))))"

definition uo_GetAddressBalance :: "'k crypto \<Rightarrow> 'm node_db \<Rightarrow> string \<Rightarrow> float64 res" where
  "uo_GetAddressBalance cr db address =
     (if address = [] then Err (ErrNew ''Address is missed'')
      else if \<not> ValidateAddress cr address then Err (ErrNew ''Address is not valid'')
      else bindR (GetunspentTransactionsOutputs cr db address) (\<lambda>outs. Ok (fsum (map oi_Value outs))))"

definition GetInputValue :: "'m node_db \<Rightarrow> txinput \<Rightarrow> float64 res" where
  "GetInputValue db input =
     bindR (getConnection db) (\<lambda>_.
       case tget (db_unspent db) (vin_Txid input) of
         None \<Rightarrow> Err (ErrTXNotFound ''inunspent'')
       | Some outs \<Rightarrow>
           (case find (\<lambda>out. oi_OIndex out = vin_Vout input) outs of
              Some out \<Rightarrow> Ok (oi_Value out)
            | None \<Rightarrow> Err (ErrNew ''Output index is not found in unspent outputs'')))"

definition uo_CountTransactions :: "'m node_db \<Rightarrow> nat res" where
  "uo_CountTransactions db = bindR (getConnection db) (\<lambda>_. Ok (length (db_unspent db)))"

definition CountUnspentOutputs :: "'m node_db \<Rightarrow> nat res" where
  "CountUnspentOutputs db = bindR (getConnection db) (\<lambda>_. Ok (length (all_outputs db)))"

text \<open>What the callback of \<^verbatim>\<open>forEachUnspentOutput\<close> is called with: sender, value, transaction, index, is base.\<close>

definition forEachUnspentOutput ::
  "'k crypto \<Rightarrow> 'm node_db \<Rightarrow> string \<Rightarrow> (string \<times> float64 \<times> bytes \<times> int \<times> bool) list res" where
  "forEachUnspentOutput cr db address =
     bindR (AddresToPubKeyHash cr address) (\<lambda>pubKeyHash.
     bindR (getConnection db) (\<lambda>_.
       Ok (map (\<lambda>out. (if length (oi_SendPubKeyHash out) > 0 then PubKeyHashToAddres cr (oi_SendPubKeyHash out)
                       else ''Coin base'', oi_Value out, oi_TXID out, oi_OIndex out, oi_IsBase out))
             (filter (\<lambda>out. OI_IsLockedWithKey out pubKeyHash) (all_outputs db)))))"

section \<open>Choosing inputs\<close>

definition pending_uses :: "txinput list \<Rightarrow> txoutput_independent \<Rightarrow> bool" where
  "pending_uses pendinguse out \<longleftrightarrow>
     (\<exists>pin\<in>set pendinguse. vin_Txid pin = oi_TXID out \<and> vin_Vout pin = oi_OIndex out)"

text \<open>The second loop of \<^verbatim>\<open>ChooseSpendableOutputs\<close>: take outputs until the amount is reached.\<close>

fun take_until :: "float64 \<Rightarrow> float64 \<Rightarrow> txoutput_independent list \<Rightarrow> float64 \<times> txoutput_independent list" where
  "take_until amount acc [] = (acc, [])"
| "take_until amount acc (out # outs) =
     (let acc = fadd acc (oi_Value out)
      in if fle amount acc then (acc, [out])
         else (let (a, l) = take_until amount acc outs in (a, out # l)))"

definition ChooseSpendableOutputs ::
  "(txoutput_independent list \<Rightarrow> txoutput_independent list) \<Rightarrow> 'm node_db \<Rightarrow> bytes \<Rightarrow> float64 \<Rightarrow> txinput list
     \<Rightarrow> (float64 \<times> txoutput_independent list) res" where
  "ChooseSpendableOutputs srt db pubKeyHash amount pendinguse =
     bindR (getConnection db) (\<lambda>_.
       let outs = filter (\<lambda>out. OI_IsLockedWithKey out pubKeyHash \<and> \<not> pending_uses pendinguse out) (all_outputs db);
           accumulated = fsum (map oi_Value outs)
       in if fle amount accumulated then Ok (take_until amount 0 (srt outs)) else Ok (accumulated, outs))"

text \<open>Previous transactions of a new transaction, keyed by their ids.\<close>

fun input_transactions ::
  "'m node_db \<Rightarrow> txoutput_independent list \<Rightarrow> (bytes \<times> transaction) list \<Rightarrow> (bytes \<times> transaction) list res" where
  "input_transactions db [] prevTXs = Ok prevTXs"
| "input_transactions db (out # outs) prevTXs =
     bindR (GetTransactionFromBlock db (oi_TXID out) (oi_BlockHash out)) (\<lambda>prevTX.
       input_transactions db outs (tput prevTXs (tx_ID prevTX) prevTX))"

definition input_of :: "txoutput_independent \<Rightarrow> txinput" where
  "input_of out = \<lparr>vin_Txid = oi_TXID out, vin_Vout = oi_OIndex out\<rparr>"

definition GetNewTransactionInputs ::
  "'k crypto \<Rightarrow> (txoutput_independent list \<Rightarrow> txoutput_independent list) \<Rightarrow> 'm node_db \<Rightarrow> bytes \<Rightarrow> float64
     \<Rightarrow> txinput list \<Rightarrow> (txinput list \<times> (bytes \<times> transaction) list \<times> float64) res" where
  "GetNewTransactionInputs cr srt db PubKey amount pendinguse =
     bindR (ChooseSpendableOutputs srt db (HashPubKey cr PubKey) amount pendinguse) (\<lambda>(totalamount, validOutputs).
     bindR (input_transactions db validOutputs []) (\<lambda>prevTXs.
       Ok (map input_of validOutputs, prevTXs, totalamount)))"

text \<open>Here \<^verbatim>\<open>BlockHash\<close> of an output is the serialised transaction.\<close>

fun ExtendNewTransactionInputs ::
  "gob \<Rightarrow> float64 \<Rightarrow> float64 \<Rightarrow> txinput list \<Rightarrow> (bytes \<times> transaction) list \<Rightarrow> txoutput_independent list
     \<Rightarrow> (txinput list \<times> (bytes \<times> transaction) list \<times> float64) res" where
  "ExtendNewTransactionInputs gb amount totalamount inputs prevTXs [] = Ok (inputs, prevTXs, totalamount)"
| "ExtendNewTransactionInputs gb amount totalamount inputs prevTXs (out # outs) =
     bindR (gob_untx gb (oi_BlockHash out)) (\<lambda>prevTX.
       let inputs = inputs @ [input_of out]; prevTXs = tput prevTXs (tx_ID prevTX) prevTX;
           totalamount = fadd totalamount (oi_Value out)
       in if fle amount totalamount then Ok (inputs, prevTXs, totalamount)
          else ExtendNewTransactionInputs gb amount totalamount inputs prevTXs outs)"

section \<open>Blocks on and off the main chain\<close>

definition sender_of :: "'k crypto \<Rightarrow> transaction \<Rightarrow> bytes" where
  "sender_of cr tx = (if IsCoinbaseTransfer tx then [] else HashPubKey cr (tx_ByPubKey tx))"

text \<open>The addressed outputs of a transaction, from output number \<open>i\<close> on, that satisfy a test.\<close>

fun outputs_from ::
  "txoutput list \<Rightarrow> int \<Rightarrow> (int \<Rightarrow> bool) \<Rightarrow> bytes \<Rightarrow> bytes \<Rightarrow> bool \<Rightarrow> bytes \<Rightarrow> txoutput_independent list" where
  "outputs_from [] i P txid sender base bh = []"
| "outputs_from (out # outs) i P txid sender base bh =
     (if HasOutAddress out \<and> P i
      then LoadFromSimple out txid i sender base bh # outputs_from outs (i + 1) P txid sender base bh
      else outputs_from outs (i + 1) P txid sender base bh)"

fun spend_inputs :: "txinput list \<Rightarrow> txoutput_independent list table \<Rightarrow> txoutput_independent list table" where
  "spend_inputs [] t = t"
| "spend_inputs (vin # vins) t =
     spend_inputs vins
       (case tget t (vin_Txid vin) of
          None \<Rightarrow> t
        | Some outs \<Rightarrow>
            (let updatedOuts = filter (\<lambda>out. oi_OIndex out \<noteq> vin_Vout vin) outs
             in if length updatedOuts = 0 then tdel t (vin_Txid vin) else tput t (vin_Txid vin) updatedOuts))"

definition uo_add_tx :: "'k crypto \<Rightarrow> block \<Rightarrow> transaction \<Rightarrow> 'm node_db \<Rightarrow> unit res \<times> 'm node_db" where
  "uo_add_tx cr b tx db =
     (if \<not> IsCurrencyTransfer tx then (Ok (), db)
      else
        let t = (if IsCoinbaseTransfer tx then db_unspent db else spend_inputs (tx_Vin tx) (db_unspent db));
            newOutputs = outputs_from (tx_Vout tx) 0 (\<lambda>_. True) (tx_ID tx) (sender_of cr tx) (IsCoinbaseTransfer tx)
                           (blk_Hash b)
        in (Ok (), db\<lparr>db_unspent := tput t (tx_ID tx) newOutputs\<rparr>))"

definition uo_UpdateOnBlockAdd :: "'k crypto \<Rightarrow> block \<Rightarrow> 'm node_db \<Rightarrow> unit res \<times> 'm node_db" where
  "uo_UpdateOnBlockAdd cr b db =
     bindS (getConnection db, db) (\<lambda>_ db. forS (uo_add_tx cr b) (blk_Transactions b) db)"

text \<open>The loop over the inputs of a cancelled transaction; a transaction that is not found ends it.\<close>

fun restore_inputs ::
  "'k crypto \<Rightarrow> block \<Rightarrow> transaction \<Rightarrow> txinput list \<Rightarrow> 'm node_db \<Rightarrow> unit res \<times> 'm node_db" where
  "restore_inputs cr b tx [] db = (Ok (), db)"
| "restore_inputs cr b tx (vin # vins) db =
     bindS (GetCurrencyTransactionAllInfo db (vin_Txid vin) (blk_PrevBlockHash b), db) (\<lambda>(txi, spent, blockHash) db.
       case txi of
         None \<Rightarrow> (Ok (), db)
       | Some txi \<Rightarrow>
           (let UnspentOuts = outputs_from (tx_Vout txi) 0 (\<lambda>i. \<not> (\<exists>so\<in>set spent. so_OutInd so = i)) (tx_ID txi)
                               (HashPubKey cr (tx_ByPubKey tx)) (IsCoinbaseTransfer tx) blockHash;
                t = (if length UnspentOuts > 0 then tput (db_unspent db) (vin_Txid vin) UnspentOuts
                     else tdel (db_unspent db) (vin_Txid vin))
            in restore_inputs cr b tx vins (db\<lparr>db_unspent := t\<rparr>)))"

definition uo_cancel_tx :: "'k crypto \<Rightarrow> block \<Rightarrow> transaction \<Rightarrow> 'm node_db \<Rightarrow> unit res \<times> 'm node_db" where
  "uo_cancel_tx cr b tx db =
     (let db = db\<lparr>db_unspent := tdel (db_unspent db) (tx_ID tx)\<rparr>
      in if IsCoinbaseTransfer tx then (Ok (), db) else restore_inputs cr b tx (tx_Vin tx) db)"

definition uo_UpdateOnBlockCancel :: "'k crypto \<Rightarrow> block \<Rightarrow> 'm node_db \<Rightarrow> unit res \<times> 'm node_db" where
  "uo_UpdateOnBlockCancel cr b db =
     bindS (getConnection db, db) (\<lambda>_ db. forS (uo_cancel_tx cr b) (blk_Transactions b) db)"

section \<open>Rebuilding the table\<close>

text \<open>
  \<^verbatim>\<open>FindunspentTransactions\<close> walks down from the top block and goes through the transactions of a block
  backwards; the state is the outputs found unspent and the outputs known to be spent.
\<close>

definition find_unspent_tx ::
  "'k crypto \<Rightarrow> block \<Rightarrow> transaction \<Rightarrow> txoutput_independent list table \<times> int list table
     \<Rightarrow> txoutput_independent list table \<times> int list table" where
  "find_unspent_tx cr b tx = (\<lambda>(UTXO, spentTXOs).
     let news = outputs_from (tx_Vout tx) 0 (\<lambda>i. i \<notin> set (tlist spentTXOs (tx_ID tx))) (tx_ID tx)
                  (sender_of cr tx) (IsCoinbaseTransfer tx) (blk_Hash b);
         UTXO = (if news = [] then UTXO else tapp UTXO (tx_ID tx) news)
     in (UTXO, if IsCoinbaseTransfer tx then spentTXOs
               else foldl (\<lambda>s vin. tapp s (vin_Txid vin) [vin_Vout vin]) spentTXOs (tx_Vin tx)))"

definition FindunspentTransactions :: "'k crypto \<Rightarrow> 'm node_db \<Rightarrow> txoutput_independent list table res" where
  "FindunspentTransactions cr db =
     bindR (NewBlockchainIterator db) (\<lambda>h.
       walk (walk_fuel db) (iter_Next_unchecked db) h (\<lambda>b s.
         let s = foldl (\<lambda>s tx. find_unspent_tx cr b tx s) s (rev (blk_Transactions b))
         in if length (blk_PrevBlockHash b) = 0 then Ok (Inl (fst s)) else Ok (Inr s)) ([], []))"

definition uo_Reindex :: "'k crypto \<Rightarrow> 'm node_db \<Rightarrow> nat res \<times> 'm node_db" where
  "uo_Reindex cr db =
     bindS (getConnection db, db) (\<lambda>_ db.
       let db = db\<lparr>db_unspent := []\<rparr>
       in bindS (FindunspentTransactions cr db, db) (\<lambda>UTXO db.
            let db = db\<lparr>db_unspent := foldl (\<lambda>t p. tput t (fst p) (snd p)) (db_unspent db) UTXO\<rparr>
            in bindS (CountUnspentOutputs db, db) (\<lambda>c db. (Ok c, db))))"

section \<open>Row references\<close>

definition rr_cancel_tx :: "transaction \<Rightarrow> 'm node_db \<Rightarrow> unit res \<times> 'm node_db" where
  "rr_cancel_tx tx db =
     (let ref = su_ReferenceID (tx_SQLCommand tx)
      in if \<not> IsSQLCommand tx then (Ok (), db)
         else if length ref = 0 then (Ok (), db)
         else
           (case tget (db_rowrefs db) ref of
              None \<Rightarrow> (Ok (), db)
            | Some curTX \<Rightarrow>
                if curTX \<noteq> tx_ID tx then (Ok (), db)
                else if length (tx_SQLBaseTX tx) = 0 then (Ok (), db\<lparr>db_rowrefs := tdel (db_rowrefs db) ref\<rparr>)
                else
                  bindS (index_GetTransaction db (tx_SQLBaseTX tx) [], db) (\<lambda>txPrev db.
                    let db = (case txPrev of
                                Some p \<Rightarrow>
                                  (if ref = su_ReferenceID (tx_SQLCommand p)
                                   then db\<lparr>db_rowrefs := tput (db_rowrefs db) ref (tx_ID p)\<rparr> else db)
                              | None \<Rightarrow> db)
                    in (Ok (), db\<lparr>db_rowrefs := tdel (db_rowrefs db) ref\<rparr>))))"

definition rr_UpdateOnBlockCancel :: "block \<Rightarrow> 'm node_db \<Rightarrow> unit res \<times> 'm node_db" where
  "rr_UpdateOnBlockCancel b db =
     bindS (getConnection db, db) (\<lambda>_ db. forS rr_cancel_tx (blk_Transactions b) db)"

definition rr_add_tx :: "transaction \<Rightarrow> 'm node_db \<Rightarrow> unit res \<times> 'm node_db" where
  "rr_add_tx tx db =
     (let ref = su_ReferenceID (tx_SQLCommand tx)
      in if \<not> IsSQLCommand tx then (Ok (), db)
         else if length ref = 0 then (Ok (), db)
         else (Ok (), db\<lparr>db_rowrefs := tput (db_rowrefs db) ref (tx_ID tx)\<rparr>))"

definition rr_UpdateOnBlockAdd :: "block \<Rightarrow> 'm node_db \<Rightarrow> unit res \<times> 'm node_db" where
  "rr_UpdateOnBlockAdd b db =
     bindS (getConnection db, db) (\<lambda>_ db. forS rr_add_tx (blk_Transactions b) db)"

definition GetTXForRefID :: "'m node_db \<Rightarrow> bytes \<Rightarrow> bytes option res" where
  "GetTXForRefID db RefID = bindR (getConnection db) (\<lambda>_. Ok (tget (db_rowrefs db) RefID))"

text \<open>The loop over the transactions of a block, last one first: \<open>Inl\<close> is the transaction found.\<close>

fun ref_in_block :: "bytes \<Rightarrow> bytes \<Rightarrow> transaction list \<Rightarrow> bytes \<Rightarrow> bytes + bytes" where
  "ref_in_block RefID AltRefID [] alt = Inr alt"
| "ref_in_block RefID AltRefID (tx # txs) alt =
     (if \<not> IsSQLCommand tx then ref_in_block RefID AltRefID txs alt
      else if RefID = su_ReferenceID (tx_SQLCommand tx) then Inl (tx_ID tx)
      else ref_in_block RefID AltRefID txs
             (if length alt = 0 \<and> AltRefID = su_ReferenceID (tx_SQLCommand tx) then tx_ID tx else alt))"

definition GetTXForRefIDByTIP :: "'m node_db \<Rightarrow> bytes \<Rightarrow> bytes \<Rightarrow> bytes \<Rightarrow> bytes res" where
  "GetTXForRefIDByTIP db RefID AltRefID tip =
     walk (walk_fuel db) (iter_Next_unchecked db) tip (\<lambda>b alt.
       case ref_in_block RefID AltRefID (rev (blk_Transactions b)) alt of
         Inl txid \<Rightarrow> Ok (Inl txid)
       | Inr alt \<Rightarrow> if length (blk_PrevBlockHash b) = 0 then Ok (Inl alt) else Ok (Inr alt)) []"

section \<open>The table refines a set of outputs\<close>

text \<open>The unspent outputs as a set of pairs of transaction id and output; the step of a transaction.\<close>

definition utxo_set :: "txoutput_independent list table \<Rightarrow> (bytes \<times> txoutput_independent) set" where
  "utxo_set t = {(k, out). out \<in> set (tlist t k)}"

definition spent_by :: "transaction \<Rightarrow> (bytes \<times> txoutput_independent) set" where
  "spent_by tx = {(k, out). \<exists>vin\<in>set (tx_Vin tx). vin_Txid vin = k \<and> vin_Vout vin = oi_OIndex out}"

definition created_by :: "'k crypto \<Rightarrow> block \<Rightarrow> transaction \<Rightarrow> (bytes \<times> txoutput_independent) set" where
  "created_by cr b tx =
     {(k, out). k = tx_ID tx \<and> (\<exists>i<length (tx_Vout tx). HasOutAddress (tx_Vout tx ! i) \<and>
        out = LoadFromSimple (tx_Vout tx ! i) (tx_ID tx) (int i) (sender_of cr tx) (IsCoinbaseTransfer tx) (blk_Hash b))}"

definition utxo_step ::
  "'k crypto \<Rightarrow> block \<Rightarrow> (bytes \<times> txoutput_independent) set \<Rightarrow> transaction \<Rightarrow> (bytes \<times> txoutput_independent) set" where
  "utxo_step cr b U tx =
     (if \<not> IsCurrencyTransfer tx then U
      else {p \<in> U. (IsCoinbaseTransfer tx \<or> p \<notin> spent_by tx) \<and> fst p \<noteq> tx_ID tx} \<union> created_by cr b tx)"

lemma spend_inputs_lists:
  "tlist (spend_inputs vins t) k =
     filter (\<lambda>out. \<forall>vin\<in>set vins. vin_Txid vin = k \<longrightarrow> oi_OIndex out \<noteq> vin_Vout vin) (tlist t k)"
proof (induction vins arbitrary: t)
  case (Cons vin vins)
  have "tlist (case tget t (vin_Txid vin) of
          None \<Rightarrow> t
        | Some outs \<Rightarrow>
            (let updatedOuts = filter (\<lambda>out. oi_OIndex out \<noteq> vin_Vout vin) outs
             in if length updatedOuts = 0 then tdel t (vin_Txid vin) else tput t (vin_Txid vin) updatedOuts)) k
      = filter (\<lambda>out. vin_Txid vin = k \<longrightarrow> oi_OIndex out \<noteq> vin_Vout vin) (tlist t k)"
  proof (cases "tget t (vin_Txid vin)")
    case None
    then have "tlist t (vin_Txid vin) = []" by (simp add: tlist_def)
    then show ?thesis using None by (cases "k = vin_Txid vin") auto
  next
    case (Some l)
    then show ?thesis by (auto simp: tlist_def table_simps Let_def)
  qed
  then show ?case by (simp add: Cons.IH conj_commute)
qed simp

lemma outputs_from_set:
  "set (outputs_from outs i P txid sender base bh) =
     {LoadFromSimple (outs ! j) txid (i + int j) sender base bh | j. j < length outs \<and> HasOutAddress (outs ! j) \<and> P (i + int j)}"
proof (induction outs arbitrary: i)
  case (Cons out outs)
  have "set (outputs_from (out # outs) i P txid sender base bh) =
     (if HasOutAddress out \<and> P i then {LoadFromSimple out txid i sender base bh} else {}) \<union>
     {LoadFromSimple (outs ! j) txid (i + 1 + int j) sender base bh | j.
        j < length outs \<and> HasOutAddress (outs ! j) \<and> P (i + 1 + int j)}"
    by (simp add: Cons.IH)
  also have "\<dots> = {LoadFromSimple ((out # outs) ! j) txid (i + int j) sender base bh | j.
       j < length (out # outs) \<and> HasOutAddress ((out # outs) ! j) \<and> P (i + int j)}" (is "?A \<union> ?B = ?C")
  proof
    show "?A \<union> ?B \<subseteq> ?C"
    proof
      fix x assume "x \<in> ?A \<union> ?B"
      then show "x \<in> ?C"
      proof
        assume "x \<in> ?A"
        then have "HasOutAddress out" "P i" "x = LoadFromSimple out txid i sender base bh" by (auto split: if_splits)
        then show ?thesis by (intro CollectI exI[of _ 0]) simp
      next
        assume "x \<in> ?B"
        then obtain j where "j < length outs" "HasOutAddress (outs ! j)" "P (i + 1 + int j)"
          "x = LoadFromSimple (outs ! j) txid (i + 1 + int j) sender base bh" by auto
        then show ?thesis by (intro CollectI exI[of _ "Suc j"]) (simp add: add.assoc)
      qed
    qed
    show "?C \<subseteq> ?A \<union> ?B"
    proof
      fix x assume "x \<in> ?C"
      then obtain j where j: "j < length (out # outs)" "HasOutAddress ((out # outs) ! j)" "P (i + int j)"
        "x = LoadFromSimple ((out # outs) ! j) txid (i + int j) sender base bh" by auto
      show "x \<in> ?A \<union> ?B"
      proof (cases j)
        case 0
        then show ?thesis using j by simp
      next
        case (Suc m)
        then have "x \<in> ?B" using j by (intro CollectI exI[of _ m]) (simp add: add.assoc)
        then show ?thesis by simp
      qed
    qed
  qed
  finally show ?case .
qed simp

lemma uo_add_tx_refines:
  "\<exists>t. uo_add_tx cr b tx db = (Ok (), db\<lparr>db_unspent := t\<rparr>) \<and>
     utxo_set t = utxo_step cr b (utxo_set (db_unspent db)) tx"
proof (cases "IsCurrencyTransfer tx")
  case True
  let ?t = "if IsCoinbaseTransfer tx then db_unspent db else spend_inputs (tx_Vin tx) (db_unspent db)"
  let ?n = "outputs_from (tx_Vout tx) 0 (\<lambda>_. True) (tx_ID tx) (sender_of cr tx) (IsCoinbaseTransfer tx) (blk_Hash b)"
  have "uo_add_tx cr b tx db = (Ok (), db\<lparr>db_unspent := tput ?t (tx_ID tx) ?n\<rparr>)"
    using True by (simp add: uo_add_tx_def)
  moreover have "(k, out) \<in> utxo_set (tput ?t (tx_ID tx) ?n) \<longleftrightarrow>
      (k, out) \<in> utxo_step cr b (utxo_set (db_unspent db)) tx" for k out
  proof (cases "k = tx_ID tx")
    case True2: True
    have "(k, out) \<in> utxo_set (tput ?t (tx_ID tx) ?n) \<longleftrightarrow> out \<in> set ?n"
      using True2 by (simp add: utxo_set_def tlist_def table_simps)
    also have "\<dots> \<longleftrightarrow> (k, out) \<in> created_by cr b tx"
      using True2 by (auto simp: outputs_from_set created_by_def)
    finally show ?thesis using True True2 by (simp add: utxo_step_def)
  next
    case False
    then have "(k, out) \<in> utxo_set (tput ?t (tx_ID tx) ?n) \<longleftrightarrow> out \<in> set (tlist ?t k)"
      by (simp add: utxo_set_def tlist_def table_simps)
    then show ?thesis using True False
      by (auto simp: utxo_step_def spend_inputs_lists utxo_set_def spent_by_def created_by_def)
  qed
  ultimately show ?thesis by (intro exI[of _ "tput ?t (tx_ID tx) ?n"]) auto
next
  case False
  then show ?thesis by (intro exI[of _ "db_unspent db"]) (simp add: uo_add_tx_def utxo_step_def)
qed

lemma uo_add_txs_refines:
  "\<exists>t. forS (uo_add_tx cr b) txs db = (Ok (), db\<lparr>db_unspent := t\<rparr>) \<and>
     utxo_set t = foldl (utxo_step cr b) (utxo_set (db_unspent db)) txs"
proof (induction txs arbitrary: db)
  case Nil
  show ?case by (intro exI[of _ "db_unspent db"]) simp
next
  case (Cons tx txs)
  obtain t where t: "uo_add_tx cr b tx db = (Ok (), db\<lparr>db_unspent := t\<rparr>)"
    "utxo_set t = utxo_step cr b (utxo_set (db_unspent db)) tx" using uo_add_tx_refines by blast
  show ?case using Cons.IH[of "db\<lparr>db_unspent := t\<rparr>"] t by auto
qed

text \<open>The outputs that cancelling a transaction puts back.\<close>

lemma restore_input_found:
  assumes "GetCurrencyTransactionAllInfo db (vin_Txid vin) (blk_PrevBlockHash b) = Ok (Some txi, spent, bh)"
  shows "restore_inputs cr b tx [vin] db =
    (Ok (), db\<lparr>db_unspent :=
       (let outs = outputs_from (tx_Vout txi) 0 (\<lambda>i. \<not> (\<exists>so\<in>set spent. so_OutInd so = i)) (tx_ID txi)
                     (HashPubKey cr (tx_ByPubKey tx)) (IsCoinbaseTransfer tx) bh
        in if outs = [] then tdel (db_unspent db) (vin_Txid vin) else tput (db_unspent db) (vin_Txid vin) outs)\<rparr>)"
  using assms by (simp add: Let_def)

lemma take_until_enough:
  "take_until amount acc outs = (a, l) \<Longrightarrow> fle amount a \<or> l = outs \<and> a = foldl fadd acc (map oi_Value outs)"
  by (induction outs arbitrary: acc a l) (auto simp: Let_def split: if_splits prod.splits)

lemma take_until_sum:
  "take_until amount acc outs = (a, l) \<Longrightarrow> a = foldl fadd acc (map oi_Value l) \<and> (\<exists>r. outs = l @ r)"
  by (induction outs arbitrary: acc a l) (auto simp: Let_def split: if_splits prod.splits)

lemma rr_cancel_deletes:
  assumes "IsSQLCommand tx" and "su_ReferenceID (tx_SQLCommand tx) \<noteq> []"
    and "tget (db_rowrefs db) (su_ReferenceID (tx_SQLCommand tx)) = Some (tx_ID tx)"
    and "rr_cancel_tx tx db = (Ok (), db')"
  shows "tget (db_rowrefs db') (su_ReferenceID (tx_SQLCommand tx)) = None"
proof (cases "tx_SQLBaseTX tx = []")
  case True
  then show ?thesis using assms by (auto simp: rr_cancel_tx_def Let_def table_simps)
next
  case False
  then obtain p where "index_GetTransaction db (tx_SQLBaseTX tx) [] = Ok p"
    using assms by (auto simp: rr_cancel_tx_def Let_def bindS_eq_Ok)
  then show ?thesis using assms False
    by (auto simp: rr_cancel_tx_def Let_def table_simps split: option.splits if_splits)
qed

text \<open>
  C20: The table of unspent outputs after a block refines an abstract set of outputs: each
  transaction of the block removes the outputs it spends and adds its own.
\<close>

lemma UpdateOnBlockAdd_refines:
  assumes "db_opened db"
  shows "\<exists>t. uo_UpdateOnBlockAdd cr b db = (Ok (), db\<lparr>db_unspent := t\<rparr>) \<and>
     utxo_set t = foldl (utxo_step cr b) (utxo_set (db_unspent db)) (blk_Transactions b)"
  using uo_add_txs_refines[of cr b "blk_Transactions b" db] assms by (simp add: uo_UpdateOnBlockAdd_def)


lemma ChooseSpendableOutputs_spec:
  assumes "ChooseSpendableOutputs srt db pkh amount pend = Ok (a, l)" and "\<And>xs. set (srt xs) = set xs"
  shows "set l \<subseteq> {out \<in> set (all_outputs db). OI_IsLockedWithKey out pkh \<and> \<not> pending_uses pend out} \<and>
     a = fsum (map oi_Value l) \<and>
     (fle amount a \<or> set l = {out \<in> set (all_outputs db). OI_IsLockedWithKey out pkh \<and> \<not> pending_uses pend out})"
proof -
  let ?outs = "filter (\<lambda>out. OI_IsLockedWithKey out pkh \<and> \<not> pending_uses pend out) (all_outputs db)"
  have "db_opened db" using assms(1) by (simp add: ChooseSpendableOutputs_def getConnection_def split: if_splits)
  then have run: "(if fle amount (fsum (map oi_Value ?outs)) then Ok (take_until amount 0 (srt ?outs))
      else Ok (fsum (map oi_Value ?outs), ?outs)) = Ok (a, l)"
    using assms(1) by (simp add: ChooseSpendableOutputs_def Let_def)
  show ?thesis
  proof (cases "fle amount (fsum (map oi_Value ?outs))")
    case True
    then have 1: "take_until amount 0 (srt ?outs) = (a, l)" using run by simp
    have "set l \<subseteq> set (srt ?outs)" "a = fsum (map oi_Value l)" "fle amount a \<or> l = srt ?outs"
      using take_until_sum[OF 1] take_until_enough[OF 1] by (auto simp: fsum_def)
    then show ?thesis using assms(2)[of ?outs] by auto
  next
    case False
    then have "a = fsum (map oi_Value ?outs)" "l = ?outs" using run by auto
    then show ?thesis by auto
  qed
qed

end
