(* ===== verification/SqlParser.thy ===== *)
theory SqlParser
  imports Go_Regexp
begin

text \<open>
  \<^verbatim>\<open>node/dbquery/sqlparser\<close>: the parser of SQL queries, built on regular expressions. A Go map is an
  association list, its iteration order the order of the list; where the parser itself iterates over a
  map (\<^verbatim>\<open>cleanSQLValue\<close>) the order is the argument \<open>order\<close>. A query that the parser does not accept is an
  error value.
\<close>

definition QueryKindSelect :: string where "QueryKindSelect = ''select''"
definition QueryKindSet :: string where "QueryKindSet = ''set''"
definition QueryKindUpdate :: string where "QueryKindUpdate = ''update''"
definition QueryKindInsert :: string where "QueryKindInsert = ''insert''"
definition QueryKindDelete :: string where "QueryKindDelete = ''delete''"
definition QueryKindCreate :: string where "QueryKindCreate = ''create''"
definition QueryKindDrop :: string where "QueryKindDrop = ''drop''"
definition QueryKindOther :: string where "QueryKindOther = ''other''"

lemmas query_kinds = QueryKindSelect_def QueryKindSet_def QueryKindUpdate_def QueryKindInsert_def
  QueryKindDelete_def QueryKindCreate_def QueryKindDrop_def QueryKindOther_def

definition querySubKindInsertSet :: string where "querySubKindInsertSet = ''insertset''"
definition querySubKindInsertValues :: string where "querySubKindInsertValues = ''insertvalues''"

text \<open>A condition on a column: value and operator.\<close>

record sqlParser =
  sp_originalQuery :: string
  sp_canonicalQuery :: string
  sp_kind :: string
  sp_subkind :: string
  sp_table :: string
  sp_comments :: "string list"
  sp_updateColumns :: "(string \<times> string) list"
  sp_conditonText :: string
  sp_conditionColumns :: "(string \<times> string \<times> string) list"

section \<open>Comments, kind and table\<close>

definition re_comment :: re where
  "re_comment = sq [lit ''/*'', Grp 1 (Lazy anyc), lit ''*/'']"

definition parseComments :: "string \<Rightarrow> string \<times> string list" where
  "parseComments originalsqlquery =
     foldl (\<lambda>(q, cs) (whole, g). (replace_first q whole '' '', cs @ [g 1]))
       (originalsqlquery, []) (FindAllStringSubmatch re_comment originalsqlquery)"

definition normalizeQuery :: "string \<Rightarrow> string" where
  "normalizeQuery sqlquery = TrimSpace (Trim (\<lambda>c. c = CHR '';'') sqlquery)"

text \<open>The patterns of \<^verbatim>\<open>parseKindAndTable\<close>; they run on the lower-case query.\<close>

definition table_re :: "string list \<Rightarrow> re list \<Rightarrow> re" where
  "table_re words after = sq (concat (map (\<lambda>w. [lit w, spaces]) words) @ [Grp 1 nonspace] @ after)"

definition kind_and_re :: "string \<Rightarrow> (string \<times> re option) option" where
  "kind_and_re lcase =
     (if HasPrefix lcase ''select '' then Some (QueryKindSelect, Some (table_re [''from''] []))
      else if HasPrefix lcase ''show '' then Some (QueryKindSelect, None)
      else if HasPrefix lcase ''describe '' then Some (QueryKindSelect, None)
      else if HasPrefix lcase ''update '' then
        Some (QueryKindUpdate, Some (table_re [''update''] [Cls re_space]))
      else if HasPrefix lcase ''insert '' then
        Some (QueryKindInsert, Some (table_re [''insert'', ''into''] [Cls re_space]))
      else if HasPrefix lcase ''delete '' then
        Some (QueryKindDelete, Some (table_re [''delete'', ''from''] [Cls re_space]))
      else if HasPrefix lcase ''create table '' then
        Some (QueryKindCreate, Some (table_re [''create'', ''table''] [Cls re_space]))
      else if HasPrefix lcase ''drop table '' then
        Some (QueryKindDrop, Some (table_re [''drop'', ''table''] []))
      else if HasPrefix lcase ''set '' then Some (QueryKindSet, None)
      else None)"

definition clean_table :: "string \<Rightarrow> string" where
  "clean_table t = Trim (\<lambda>c. c = CHR 0x60) (TrimSpace t)"

definition parseKindAndTable :: "string \<Rightarrow> (string \<times> string) res" where
  "parseKindAndTable sqlquery =
     (let lcase = ToLower sqlquery
      in case kind_and_re lcase of
           None \<Rightarrow> Err (ErrNew ''Unknown query type'')
         | Some (kind, None) \<Rightarrow> Ok (kind, [])
         | Some (kind, Some a) \<Rightarrow>
             (case FindStringSubmatch a lcase of
                None \<Rightarrow> Err (ErrNew ''Table name not found'')
              | Some g \<Rightarrow> Ok (kind, clean_table (g 1))))"

section \<open>Values and columns\<close>

text \<open>\<open>(value in SQL, value)\<close>: the replacements of \<^verbatim>\<open>cleanSQLValue\<close>, a Go map.\<close>

definition unescapes :: "(string \<times> string) list" where
  "unescapes =
     [([CHR 0x5C, CHR 0x5C], [CHR 0x5C]), ([CHR 0x5C, CHR 0x27], [CHR 0x27]),
      ([CHR 0x5C, CHR 0x5C, CHR ''0''], [CHR 0x5C, CHR ''0'']),
      ([CHR 0x5C, CHR ''n''], [CHR 0x0A]), ([CHR 0x5C, CHR ''r''], [CHR 0x0D]),
      ([CHR 0x5C, CHR 0x22], [CHR 0x22]), ([CHR 0x5C, CHR ''Z''], [CHR 0x1A])]"

definition cleanSQLValue :: "(string \<times> string) list \<Rightarrow> string \<Rightarrow> string" where
  "cleanSQLValue order value =
     (let value = TrimSpace value;
          unescape = (\<lambda>v. foldl (\<lambda>s p. replace_all s (fst p) (snd p)) v order)
      in if HasPrefix value [CHR 0x22] then unescape (Trim (\<lambda>c. c = CHR 0x22) value)
         else if HasPrefix value [CHR 0x27] then unescape (Trim (\<lambda>c. c = CHR 0x27) value)
         else if HasPrefix value [CHR 0x60] then unescape (Trim (\<lambda>c. c = CHR 0x60) value)
         else value)"

definition cleanSQLColumnName :: "string \<Rightarrow> string" where
  "cleanSQLColumnName name = Trim (\<lambda>c. c = CHR 0x60) (TrimSpace name)"

text \<open>Pieces between separators, where a quoted text is part of its piece.\<close>

definition quoted :: "char \<Rightarrow> re" where
  "quoted q = sq [ch q, Star (Cls (\<lambda>c. c \<noteq> q)), ch q]"

definition pieces_re :: "char \<Rightarrow> re" where
  "pieces_re sep =
     Grp 1 (Plus (alts [Cls (\<lambda>c. c \<noteq> sep \<and> c \<noteq> CHR 0x22 \<and> c \<noteq> CHR 0x27), quoted (CHR 0x22), quoted (CHR 0x27)]))"

definition parseKeyValueSet :: "(string \<times> string) list \<Rightarrow> string \<Rightarrow> (string \<times> string) list" where
  "parseKeyValueSet order command =
     foldl (\<lambda>data s. case split2 (CHR ''='') (TrimSpace s) of
              [k, v] \<Rightarrow> tput data (cleanSQLColumnName k) (cleanSQLValue order v)
            | _ \<Rightarrow> data)
       [] (FindAllString (pieces_re (CHR '','')) command)"

definition parseValueList ::
  "(string \<times> string) list \<Rightarrow> string \<Rightarrow> string \<Rightarrow> (string \<times> string) list res" where
  "parseValueList order nameslist valueslist =
     (let names = map cleanSQLColumnName (FindAllString (pieces_re (CHR '','')) (TrimSpace nameslist));
          values = map (cleanSQLValue order) (FindAllString (pieces_re (CHR '','')) (TrimSpace valueslist))
      in if length names \<noteq> length values
         then Err (ErrNew ''Can not parse names/values. Counts in lists are different'')
         else Ok (foldl (\<lambda>data p. tput data (fst p) (snd p)) [] (zip names values)))"

text \<open>\<open>(?i)insert\s+into\s+[^ ]+\s+\<close> and the like: words with white space, a name, white space.\<close>

definition head_re :: "string list \<Rightarrow> re list" where
  "head_re words = concat (map (\<lambda>w. [ilit w, spaces]) words) @ [nonspace, spaces]"

definition re_insert_set :: re where
  "re_insert_set = sq (head_re [''insert'', ''into''] @ [ilit ''set'', spaces, Grp 1 (Plus anyc)])"

definition re_insert_values :: re where
  "re_insert_values = sq (head_re [''insert'', ''into''] @
     [ch (CHR ''(''), Grp 1 (Lazy anyc), ch (CHR '')''), spaces, ilit ''values'', spaces,
      ch (CHR ''(''), Grp 2 (Plus anyc), ch (CHR '')'')])"

definition re_update_where :: re where
  "re_update_where = sq (head_re [''update''] @
     [ilit ''set'', spaces, Grp 1 (Plus anyc), Cls re_space, ilit ''where''])"

definition re_update_set :: re where
  "re_update_set = sq (head_re [''update''] @ [ilit ''set'', spaces, Grp 1 (Plus anyc)])"

text \<open>Update columns, with the kind of insert query that \<^verbatim>\<open>parseUpdateColumns\<close> notes.\<close>

definition parseUpdateColumns ::
  "(string \<times> string) list \<Rightarrow> string \<Rightarrow> string \<Rightarrow> (string \<times> (string \<times> string) list) res" where
  "parseUpdateColumns order sqlquery kind =
     (if kind = QueryKindInsert then
        (case FindStringSubmatch re_insert_set sqlquery of
           Some g \<Rightarrow> Ok (querySubKindInsertSet, parseKeyValueSet order (g 1))
         | None \<Rightarrow>
             (case FindStringSubmatch re_insert_values sqlquery of
                Some g \<Rightarrow> bindR (parseValueList order (g 1) (g 2)) (\<lambda>d. Ok (querySubKindInsertValues, d))
              | None \<Rightarrow> Err (ErrNew ''Can not parse keys/values from INSERT query'')))
      else if kind = QueryKindUpdate then
        (case FindStringSubmatch re_update_where sqlquery of
           Some g \<Rightarrow> Ok ([], parseKeyValueSet order (g 1))
         | None \<Rightarrow>
             (case FindStringSubmatch re_update_set sqlquery of
                Some g \<Rightarrow> Ok ([], parseKeyValueSet order (g 1))
              | None \<Rightarrow> Err (ErrNew ''Can not parse keys/values from UPDATE query'')))
      else Ok ([], []))"

section \<open>Conditions\<close>

definition re_operators :: re where
  "re_operators = alts (map lit [''>='', ''<='', ''<>'', ''!='', ''='', ''>'', ''<''])"

definition re_column :: re where
  "re_column = sq [Optional (ch (CHR 0x60)), Grp 1 (Plus (Cls re_word)), Optional (ch (CHR 0x60))]"

definition rCOV :: re where
  "rCOV = sq [Bol, re_column, Grp 2 re_operators, Grp 3 (Plus anyc), Eol]"
definition rCO :: re where "rCO = sq [Bol, re_column, Grp 2 re_operators, Eol]"
definition rOV :: re where "rOV = sq [Bol, Grp 1 re_operators, Grp 2 (Plus anyc), Eol]"
definition rO :: re where "rO = sq [Bol, Grp 1 re_operators, Eol]"

text \<open>The loop of \<^verbatim>\<open>parseConditionString\<close>: column, operator, depth of skipped brackets, columns found.\<close>

fun condition_loop ::
  "(string \<times> string) list \<Rightarrow> string list \<Rightarrow> string \<Rightarrow> string \<Rightarrow> int \<Rightarrow> (string \<times> string \<times> string) list
     \<Rightarrow> (string \<times> string \<times> string) list" where
  "condition_loop order [] col op complicated cols = cols"
| "condition_loop order (s # st) col op complicated cols =
     (let sl = ToLower s
      in if sl = ''and'' \<or> sl = ''or'' \<or> sl = ''not'' then condition_loop order st col op complicated cols
         else if col = [] then
           (if HasPrefix s ''('' then condition_loop order st col op (complicated + 1) cols
            else if complicated > 0 then
              condition_loop order st col op (if HasSuffix s '')'' then complicated - 1 else complicated) cols
            else
              (case FindStringSubmatch rCOV s of
                 Some g \<Rightarrow> condition_loop order st col op complicated
                             (tput cols (g 1) (cleanSQLValue order (g 3), g 2))
               | None \<Rightarrow>
                   (case FindStringSubmatch rCO s of
                      Some g \<Rightarrow> condition_loop order st (g 1) (g 2) complicated cols
                    | None \<Rightarrow> condition_loop order st (cleanSQLColumnName s) op complicated cols)))
         else if op = [] then
           (case FindStringSubmatch rO s of
              Some g \<Rightarrow> condition_loop order st col (g 1) complicated cols
            | None \<Rightarrow>
                (case FindStringSubmatch rOV s of
                   Some g \<Rightarrow> condition_loop order st [] op complicated
                               (tput cols col (cleanSQLValue order (g 2), g 1))
                 | None \<Rightarrow> condition_loop order st [] op complicated cols))
         else condition_loop order st [] [] complicated (tput cols col (cleanSQLValue order s, op)))"

definition parseConditionString ::
  "(string \<times> string) list \<Rightarrow> string \<Rightarrow> (string \<times> string \<times> string) list" where
  "parseConditionString order conditionstring =
     condition_loop order (FindAllString (pieces_re (CHR 0x20)) conditionstring) [] [] 0 []"

definition noquotes :: re where "noquotes = Plus (Cls (\<lambda>c. c \<noteq> CHR 0x22 \<and> c \<noteq> CHR 0x27))"

definition re_limit :: re where
  "re_limit = sq [Bol, Grp 1 (Plus anyc), Cls re_space, ilit ''limit'', spaces, Plus (Cls re_digit), noquotes, Eol]"
definition re_order_by :: re where
  "re_order_by = sq [Bol, Grp 1 (Plus anyc), Cls re_space, ilit ''order'', spaces, ilit ''by'', spaces, noquotes, Eol]"
definition re_group_by :: re where
  "re_group_by = sq [Bol, Grp 1 (Plus anyc), Cls re_space, ilit ''group'', spaces, ilit ''by'', spaces, noquotes, Eol]"

definition cut_tail :: "re \<Rightarrow> string \<Rightarrow> string" where
  "cut_tail a s = (case FindStringSubmatch a s of Some g \<Rightarrow> g 1 | None \<Rightarrow> s)"

definition parseConditionDetails ::
  "(string \<times> string) list \<Rightarrow> string \<Rightarrow> string \<times> (string \<times> string \<times> string) list" where
  "parseConditionDetails order conditionstring =
     (let c = TrimSpace conditionstring;
          c = TrimSpace (cut_tail re_group_by (cut_tail re_order_by (cut_tail re_limit c)));
          c = (if HasPrefix c ''('' then TrimRight (\<lambda>d. d = CHR '')'') (TrimLeft (\<lambda>d. d = CHR ''('') c) else c)
      in (c, parseConditionString order c))"

definition re_delete_where :: re where
  "re_delete_where = sq (head_re [''delete'', ''from''] @ [ilit ''where'', spaces, Grp 1 (Plus anyc)])"

definition re_update_cond :: re where
  "re_update_cond = sq (head_re [''update''] @
     [ilit ''set'', spaces, Plus anyc, Cls re_space, ilit ''where'', spaces, Grp 1 (Plus anyc)])"

definition parseCondition ::
  "(string \<times> string) list \<Rightarrow> string \<Rightarrow> string \<Rightarrow> string \<times> (string \<times> string \<times> string) list" where
  "parseCondition order sqlquery kind =
     (if kind = QueryKindDelete then
        (case FindStringSubmatch re_delete_where sqlquery of
           Some g \<Rightarrow> parseConditionDetails order (g 1) | None \<Rightarrow> ([], []))
      else if kind = QueryKindUpdate then
        (case FindStringSubmatch re_update_cond sqlquery of
           Some g \<Rightarrow> parseConditionDetails order (g 1) | None \<Rightarrow> ([], []))
      else ([], []))"

section \<open>The parser\<close>

definition Parse :: "(string \<times> string) list \<Rightarrow> string \<Rightarrow> sqlParser res" where
  "Parse order sqlquery =
     (let (q, comments) = parseComments (TrimSpace sqlquery);
          q = normalizeQuery q
      in bindR (parseKindAndTable q) (\<lambda>(kind, table).
         bindR (parseUpdateColumns order q kind) (\<lambda>(subkind, columns).
           let (text, conds) = parseCondition order q kind
           in Ok \<lparr>sp_originalQuery = sqlquery, sp_canonicalQuery = q, sp_kind = kind, sp_subkind = subkind,
                  sp_table = table, sp_comments = comments, sp_updateColumns = columns,
                  sp_conditonText = text, sp_conditionColumns = conds\<rparr>)))"

text \<open>\<^verbatim>\<open>database.Quote\<close> returns its argument.\<close>

definition Quote :: "string \<Rightarrow> string" where
  "Quote s = s"

text \<open>
  \<^verbatim>\<open>ExtendInsert\<close> puts the table name into a pattern. A name without special characters stands for
  itself; for any other name the compiled pattern is what \<open>compile\<close> gives for its text.
\<close>

definition re_meta :: "char \<Rightarrow> bool" where
  "re_meta c \<longleftrightarrow> c \<in> set ''.+*?()|[]{}^$'' \<or> c = CHR 0x5C"

definition insert_pattern :: "string \<Rightarrow> string" where
  "insert_pattern table =
     ''(?i)^(.+into'' @ [CHR 0x5C] @ ''s+'' @ table @ [CHR 0x5C] @ ''s+'' @ [CHR 0x5C] @ ''()(.+'' @ [CHR 0x5C]
     @ '')'' @ [CHR 0x5C] @ ''s+values'' @ [CHR 0x5C] @ ''s+'' @ [CHR 0x5C] @ ''()(.+)$''"

definition compile_insert :: "(string \<Rightarrow> re option) \<Rightarrow> string \<Rightarrow> re option" where
  "compile_insert compile table =
     (if \<exists>c\<in>set table. re_meta c then compile (insert_pattern table)
      else Some (sq [Bol, Grp 1 (sq [Plus anyc, ilit ''into'', spaces, ilit table, spaces, ch (CHR ''('')]),
                     Grp 2 (sq [Plus anyc, ch (CHR '')''), spaces, ilit ''values'', spaces, ch (CHR ''('')]),
                     Grp 3 (Plus anyc), Eol]))"

definition ExtendInsert ::
  "(string \<Rightarrow> re option) \<Rightarrow> sqlParser \<Rightarrow> string \<Rightarrow> string \<Rightarrow> string \<Rightarrow> sqlParser res" where
  "ExtendInsert compile q column val coltype =
     (let quotedValue = (if coltype = ''int'' then Quote val else [CHR 0x27] @ Quote val @ [CHR 0x27])
      in if sp_kind q \<noteq> QueryKindInsert then Err (ErrNew ''Now insert query'')
         else if tget (sp_updateColumns q) column \<noteq> None then Ok q
         else if sp_subkind q = querySubKindInsertSet then
           Ok (q\<lparr>sp_canonicalQuery := sp_canonicalQuery q @ '', '' @ column @ ''='' @ quotedValue\<rparr>)
         else if sp_subkind q = querySubKindInsertValues then
           (case compile_insert compile (sp_table q) of
              None \<Rightarrow> Err (ErrNew ''regexp'')
            | Some a \<Rightarrow>
                (case FindStringSubmatch a (sp_canonicalQuery q) of
                   None \<Rightarrow> Err (ErrNew ''Can not parse INSERT query'')
                 | Some g \<Rightarrow> Ok (q\<lparr>sp_canonicalQuery := g 1 @ column @ '', '' @ g 2 @ quotedValue @ '', '' @ g 3\<rparr>)))
         else Err (ErrNew ''Unknown query type''))"

section \<open>Questions about a parsed query\<close>

definition IsSingeTable :: "sqlParser \<Rightarrow> bool" where
  "IsSingeTable q \<longleftrightarrow> sp_kind q \<noteq> QueryKindOther"

definition IsRead :: "sqlParser \<Rightarrow> bool" where
  "IsRead q \<longleftrightarrow> sp_kind q = QueryKindOther \<or> sp_kind q = QueryKindSelect"

definition IsModifyDB :: "sqlParser \<Rightarrow> bool" where
  "IsModifyDB q \<longleftrightarrow> \<not> (sp_kind q = QueryKindOther \<or> sp_kind q = QueryKindSelect)"

definition IsTableManage :: "sqlParser \<Rightarrow> bool" where
  "IsTableManage q \<longleftrightarrow> sp_kind q = QueryKindDrop \<or> sp_kind q = QueryKindCreate"

definition IsTableDataUpdate :: "sqlParser \<Rightarrow> bool" where
  "IsTableDataUpdate q \<longleftrightarrow>
     sp_kind q = QueryKindDelete \<or> sp_kind q = QueryKindInsert \<or> sp_kind q = QueryKindUpdate"

definition HasCondition :: "sqlParser \<Rightarrow> bool" where
  "HasCondition q \<longleftrightarrow> length (sp_conditonText q) > 0"

definition IsOneColumnCondition :: "sqlParser \<Rightarrow> bool" where
  "IsOneColumnCondition q \<longleftrightarrow> (case sp_conditionColumns q of [(k, v, op)] \<Rightarrow> op = ''='' | _ \<Rightarrow> False)"

definition GetOneColumnCondition :: "sqlParser \<Rightarrow> string \<times> string" where
  "GetOneColumnCondition q =
     (case sp_conditionColumns q of [(k, v, op)] \<Rightarrow> (if op = ''='' then (k, v) else ([], [])) | _ \<Rightarrow> ([], []))"

end
