(* ===== verification/DbQuery.thy ===== *)
theory DbQuery
  imports SqlParser Database
begin

text \<open>
  \<^verbatim>\<open>node/dbquery\<close>: the parsed query with the row it touches, the queries that undo it, and the rules on
  which SQL transaction can follow which. The MySQL server with the application's tables is the parameter
  \<open>sql_env\<close>: executing a query and reading rows, on a state of type \<open>'m\<close> that the development never
  looks into; \<open>sq_order\<close> and \<open>sq_compile\<close> are the parameters of \<open>SqlParser\<close>.
\<close>

unbundle bit_operations_syntax

text \<open>Columns and rows of an answer; \<open>None\<close> is SQL's \<open>NULL\<close>.\<close>

type_synonym sql_rows = "string list \<times> string option list list"

record 'm sql_env =
  sq_exec :: "string \<Rightarrow> 'm \<Rightarrow> unit res \<times> 'm"
  sq_query :: "'m \<Rightarrow> string \<Rightarrow> sql_rows res"
  sq_order :: "(string \<times> string) list"
  sq_compile :: "string \<Rightarrow> re option"

section \<open>Flags\<close>

definition TXFlagsNothing :: int where "TXFlagsNothing = 0"
definition TXFlagsExecute :: int where "TXFlagsExecute = 1"
definition TXFlagsNoPool :: int where "TXFlagsNoPool = 2"
definition TXFlagsSkipSQLBaseCheck :: int where "TXFlagsSkipSQLBaseCheck = 4"
definition TXFlagsSkipSQLBaseCheckIfNotOnTop :: int where "TXFlagsSkipSQLBaseCheckIfNotOnTop = 8"
definition TXFlagsNoExecute :: int where "TXFlagsNoExecute = 16"
definition TXFlagsVerifyAllowMissed :: int where "TXFlagsVerifyAllowMissed = 32"
definition TXFlagsBasedOnTopOfChain :: int where "TXFlagsBasedOnTopOfChain = 64"
definition TXFlagsVerifyAllowMissedForDelete :: int where "TXFlagsVerifyAllowMissedForDelete = 128"

lemmas tx_flags = TXFlagsNothing_def TXFlagsExecute_def TXFlagsNoPool_def TXFlagsSkipSQLBaseCheck_def
  TXFlagsSkipSQLBaseCheckIfNotOnTop_def TXFlagsNoExecute_def TXFlagsVerifyAllowMissed_def
  TXFlagsBasedOnTopOfChain_def TXFlagsVerifyAllowMissedForDelete_def

definition has_flag :: "int \<Rightarrow> int \<Rightarrow> bool" where
  "has_flag flags f \<longleftrightarrow> flags AND f > 0"

section \<open>Queries of the database manager\<close>

definition ExecuteSQL :: "'m sql_env \<Rightarrow> 'm node_db \<Rightarrow> string \<Rightarrow> unit res \<times> 'm node_db" where
  "ExecuteSQL e db sql =
     bindS (getConnection db, db) (\<lambda>_ db.
       let (r, m) = sq_exec e sql (db_app db) in (r, db\<lparr>db_app := m\<rparr>))"

text \<open>The first row as a map; a later column replaces an earlier one of the same name.\<close>

definition ExecuteSQLSelectRow ::
  "'m sql_env \<Rightarrow> 'm node_db \<Rightarrow> string \<Rightarrow> (string \<times> string) list res" where
  "ExecuteSQLSelectRow e db sqlcommand =
     bindR (getConnection db) (\<lambda>_.
     bindR (sq_query e (db_app db) sqlcommand) (\<lambda>(cols, rows).
       case rows of
         [] \<Rightarrow> Err (ErrDB ''rownotfound'')
       | row # _ \<Rightarrow>
           Ok (foldl (\<lambda>data (c, v). tput data c (case v of None \<Rightarrow> [] | Some s \<Rightarrow> s)) [] (zip cols row))))"

text \<open>The fields of \<^verbatim>\<open>SQLExplainInfo\<close> are not used by any caller.\<close>

definition ExecuteSQLExplain :: "'m sql_env \<Rightarrow> 'm node_db \<Rightarrow> string \<Rightarrow> unit res" where
  "ExecuteSQLExplain e db sql = bindR (ExecuteSQLSelectRow e db (''EXPLAIN '' @ sql)) (\<lambda>_. Ok ())"

definition map_get :: "(string \<times> string) list \<Rightarrow> string \<Rightarrow> string" where
  "map_get m k = (case tget m k of None \<Rightarrow> [] | Some v \<Rightarrow> v)"

definition ExecuteSQLPrimaryKey :: "'m sql_env \<Rightarrow> 'm node_db \<Rightarrow> string \<Rightarrow> string res" where
  "ExecuteSQLPrimaryKey e db table =
     bindR (ExecuteSQLSelectRow e db (''SHOW KEYS FROM '' @ table @ '' WHERE Key_name = '' @
              [CHR 0x27] @ ''PRIMARY'' @ [CHR 0x27])) (\<lambda>row. Ok (map_get row ''Column_name''))"

definition ExecuteSQLNextKeyValue :: "'m sql_env \<Rightarrow> 'm node_db \<Rightarrow> string \<Rightarrow> string res" where
  "ExecuteSQLNextKeyValue e db table =
     bindR (ExecuteSQLSelectRow e db (''SHOW TABLE STATUS LIKE '' @ [CHR 0x27] @ table @ [CHR 0x27]))
       (\<lambda>row. Ok (map_get row ''Auto_increment''))"

section \<open>Parsed queries\<close>

record query_parsed =
  qp_SQL :: string
  qp_PubKey :: bytes
  qp_Signature :: bytes
  qp_TransactionBytes :: bytes
  qp_KeyCol :: string
  qp_KeyVal :: string
  qp_RowBeforeQuery :: "(string \<times> string) list"
  qp_RowDoesNotExist :: bool
  qp_Structure :: sqlParser

definition qp_kind :: "query_parsed \<Rightarrow> string" where
  "qp_kind qp = sp_kind (qp_Structure qp)"

definition qp_table :: "query_parsed \<Rightarrow> string" where
  "qp_table qp = sp_table (qp_Structure qp)"

definition ReferenceID :: "query_parsed \<Rightarrow> string" where
  "ReferenceID qp =
     (if qp_kind qp = QueryKindCreate \<or> qp_kind qp = QueryKindDrop then qp_table qp @ '':*''
      else qp_table qp @ '':'' @ qp_KeyVal qp)"

definition IsSelect :: "query_parsed \<Rightarrow> bool" where
  "IsSelect qp \<longleftrightarrow> qp_kind qp = QueryKindSelect"

definition IsUpdateOther :: "query_parsed \<Rightarrow> bool" where
  "IsUpdateOther qp \<longleftrightarrow> qp_kind qp = QueryKindSet"

definition IsUpdate :: "query_parsed \<Rightarrow> bool" where
  "IsUpdate qp \<longleftrightarrow>
     qp_kind qp = QueryKindCreate \<or> qp_kind qp = QueryKindDrop \<or> qp_kind qp = QueryKindDelete \<or>
     qp_kind qp = QueryKindInsert \<or> qp_kind qp = QueryKindUpdate"

definition sql_eq :: "string \<Rightarrow> string \<Rightarrow> string" where
  "sql_eq col val = col @ ''='' @ [CHR 0x27] @ Quote val @ [CHR 0x27]"

definition makeInsertRollback :: "query_parsed \<Rightarrow> string" where
  "makeInsertRollback qp =
     ''DELETE FROM '' @ qp_table qp @ '' WHERE '' @ sql_eq (qp_KeyCol qp) (qp_KeyVal qp)"

fun update_pairs :: "(string \<times> string) list \<Rightarrow> (string \<times> string) list \<Rightarrow> bool \<Rightarrow> string \<Rightarrow> string res" where
  "update_pairs row [] first sql = Ok sql"
| "update_pairs row ((col, _) # cols) first sql =
     (case tget row col of
        None \<Rightarrow> Err (ErrNew ''Can not find current value for column'')
      | Some curVal \<Rightarrow>
          update_pairs row cols False (sql @ (if first then [] else '', '') @ '' '' @ sql_eq col curVal))"

definition makeUpdateRollback :: "query_parsed \<Rightarrow> string res" where
  "makeUpdateRollback qp =
     bindR (update_pairs (qp_RowBeforeQuery qp) (sp_updateColumns (qp_Structure qp)) True
              (''UPDATE '' @ qp_table qp @ '' SET '')) (\<lambda>sql.
       Ok (sql @ '' WHERE '' @ sql_eq (qp_KeyCol qp) (qp_KeyVal qp)))"

fun row_pairs :: "(string \<times> string) list \<Rightarrow> bool \<Rightarrow> string \<Rightarrow> string" where
  "row_pairs [] first sql = sql"
| "row_pairs ((col, curVal) # row) first sql =
     row_pairs row False (sql @ (if first then [] else '', '') @ '' '' @ sql_eq col curVal)"

definition makeDeleteRollback :: "query_parsed \<Rightarrow> string" where
  "makeDeleteRollback qp =
     row_pairs (qp_RowBeforeQuery qp) True (''INSERT INTO '' @ qp_table qp @ '' SET '')"

definition buildRollbackSQL :: "query_parsed \<Rightarrow> string res" where
  "buildRollbackSQL qp =
     (if qp_kind qp = QueryKindCreate then Ok (''DROP TABLE '' @ qp_table qp)
      else if qp_kind qp = QueryKindDrop then Ok []
      else if qp_kind qp = QueryKindInsert then Ok (makeInsertRollback qp)
      else if qp_kind qp = QueryKindDelete then Ok (makeDeleteRollback qp)
      else if qp_kind qp = QueryKindUpdate then makeUpdateRollback qp
      else Ok [])"

section \<open>Signature, data and key in a comment\<close>

fun hex_char :: "nat \<Rightarrow> char" where
  "hex_char n = (if n < 10 then char_of (48 + n) else char_of (87 + n))"

definition hex_EncodeToString :: "bytes \<Rightarrow> string" where
  "hex_EncodeToString b = concat (map (\<lambda>w. [hex_char (unat w div 16), hex_char (unat w mod 16)]) b)"

definition hex_digit :: "char \<Rightarrow> nat option" where
  "hex_digit c =
     (if in_range 48 57 c then Some (of_char c - 48)
      else if in_range 97 102 c then Some (of_char c - 87)
      else if in_range 65 70 c then Some (of_char c - 55)
      else None)"

fun hex_DecodeString :: "string \<Rightarrow> bytes res" where
  "hex_DecodeString [] = Ok []"
| "hex_DecodeString [c] = Err (ErrNew ''encoding/hex'')"
| "hex_DecodeString (c # d # s) =
     (case (hex_digit c, hex_digit d) of
        (Some a, Some b) \<Rightarrow> bindR (hex_DecodeString s) (\<lambda>r. Ok (word_of_nat (16 * a + b) # r))
      | _ \<Rightarrow> Err (ErrNew ''encoding/hex''))"

definition comment_field :: "string \<Rightarrow> string \<Rightarrow> bytes res" where
  "comment_field name comment =
     (case FindStringSubmatch (sq [lit (name @ '':''), Grp 1 (Plus (Cls (\<lambda>c. c \<noteq> CHR '';''))), ch (CHR '';'')]) comment of
        None \<Rightarrow> Ok []
      | Some g \<Rightarrow> hex_DecodeString (g 1))"

text \<open>Public key, signature and transaction bytes.\<close>

definition parseInfoFromComments :: "query_parsed \<Rightarrow> (bytes \<times> bytes \<times> bytes) res" where
  "parseInfoFromComments qp =
     (case sp_comments (qp_Structure qp) of
        [] \<Rightarrow> Ok ([], [], [])
      | comment # _ \<Rightarrow>
          bindR (comment_field ''SIGN'' comment) (\<lambda>signature.
          bindR (comment_field ''DATA'' comment) (\<lambda>txbytes.
          bindR (comment_field ''PUBKEY'' comment) (\<lambda>pubKey. Ok (pubKey, signature, txbytes)))))"

section \<open>The query processor\<close>

definition checkQuerySyntax :: "'m sql_env \<Rightarrow> 'm node_db \<Rightarrow> sqlParser \<Rightarrow> unit res" where
  "checkQuerySyntax e db q =
     (if sp_kind q = QueryKindInsert \<or> sp_kind q = QueryKindDelete \<or> sp_kind q = QueryKindUpdate then
        (case ExecuteSQLExplain e db (sp_canonicalQuery q) of
           Err _ \<Rightarrow> Err (ErrNew ''Syntax check error'') | r \<Rightarrow> r)
      else Ok ())"

definition is_RowNotFound :: "err \<Rightarrow> bool" where
  "is_RowNotFound x \<longleftrightarrow> x = ErrDB ''rownotfound''"

text \<open>The key column of a table, from the cache or from the server.\<close>

definition key_column :: "'m sql_env \<Rightarrow> 'm node_db \<Rightarrow> string \<Rightarrow> string res \<times> 'm node_db" where
  "key_column e db table =
     (let k = map_get (db_pkcache db) table
      in if k \<noteq> [] then (Ok k, db)
         else bindS (ExecuteSQLPrimaryKey e db table, db) (\<lambda>k db.
                (Ok k, db\<lparr>db_pkcache := tput (db_pkcache db) table k\<rparr>)))"

definition patchRowInfo ::
  "'m sql_env \<Rightarrow> 'm node_db \<Rightarrow> query_parsed \<Rightarrow> int \<Rightarrow> query_parsed res \<times> 'm node_db" where
  "patchRowInfo e db parsed flags =
     (let kind = qp_kind parsed; table = qp_table parsed
      in if kind \<noteq> QueryKindUpdate \<and> kind \<noteq> QueryKindDelete \<and> kind \<noteq> QueryKindInsert then (Ok parsed, db)
         else bindS (key_column e db table) (\<lambda>keyCol db.
           let parsed = parsed\<lparr>qp_KeyCol := keyCol\<rparr>
           in if kind = QueryKindUpdate \<or> kind = QueryKindDelete then
                (let (cKey, cVal) = GetOneColumnCondition (qp_Structure parsed)
                 in if cKey \<noteq> keyCol then (Err (ErrNew ''Query condition has no a primary key''), db)
                    else
                      bindS ((case ExecuteSQLSelectRow e db (''SELECT * FROM '' @ table @ '' WHERE '' @ sql_eq keyCol cVal) of
                                Ok currentRow \<Rightarrow>
                                  Ok (parsed\<lparr>qp_RowDoesNotExist := False, qp_RowBeforeQuery := currentRow\<rparr>)
                              | Err x \<Rightarrow>
                                  (if (has_flag flags TXFlagsVerifyAllowMissed \<or>
                                       kind = QueryKindDelete \<and> has_flag flags TXFlagsVerifyAllowMissedForDelete) \<and>
                                      is_RowNotFound x
                                   then Ok (parsed\<lparr>qp_RowDoesNotExist := True, qp_RowBeforeQuery := []\<rparr>)
                                   else Err x)
                              | Panic \<Rightarrow> Panic
                              | Diverge \<Rightarrow> Diverge), db) (\<lambda>parsed db.
                        let parsed = parsed\<lparr>qp_KeyVal := cVal\<rparr>
                        in if kind = QueryKindUpdate then
                             (case tget (sp_updateColumns (qp_Structure parsed)) keyCol of
                                Some val \<Rightarrow>
                                  (if val \<noteq> keyCol
                                   then (Err (ErrNew ''Update of primary key value is not allowed''), db)
                                   else (Ok parsed, db))
                              | None \<Rightarrow> (Ok parsed, db))
                           else (Ok parsed, db)))
              else
                (case tget (sp_updateColumns (qp_Structure parsed)) keyCol of
                   Some val \<Rightarrow> (Ok (parsed\<lparr>qp_KeyVal := val\<rparr>), db)
                 | None \<Rightarrow>
                     bindS (ExecuteSQLNextKeyValue e db table, db) (\<lambda>nextID db.
                       if nextID = [] then
                         (Err (ErrNew ''Can not build reference ID for inserted row. Table has no auto_increment key''), db)
                       else bindS (ExtendInsert (sq_compile e) (qp_Structure parsed) keyCol nextID ''string'', db) (\<lambda>q db.
                         (Ok (parsed\<lparr>qp_Structure := q, qp_KeyVal := nextID, qp_SQL := sp_canonicalQuery q\<rparr>), db))))))"

definition new_query :: "sqlParser \<Rightarrow> query_parsed" where
  "new_query q =
     \<lparr>qp_SQL = [], qp_PubKey = [], qp_Signature = [], qp_TransactionBytes = [], qp_KeyCol = [],
      qp_KeyVal = [], qp_RowBeforeQuery = [], qp_RowDoesNotExist = False, qp_Structure = q\<rparr>"

definition ParseQuery ::
  "'m sql_env \<Rightarrow> 'm node_db \<Rightarrow> string \<Rightarrow> int \<Rightarrow> query_parsed res \<times> 'm node_db" where
  "ParseQuery e db sqlquery flags =
     bindS (Parse (sq_order e) sqlquery, db) (\<lambda>q db.
     bindS (checkQuerySyntax e db q, db) (\<lambda>_ db.
     bindS (patchRowInfo e db (new_query q) flags) (\<lambda>r db.
     bindS (parseInfoFromComments r, db) (\<lambda>(pubKey, signature, txbytes) db.
       (Ok (r\<lparr>qp_PubKey := pubKey, qp_Signature := signature, qp_TransactionBytes := txbytes,
              qp_SQL := sp_canonicalQuery (qp_Structure r)\<rparr>), db)))))"

definition MakeSQLUpdateStructure :: "query_parsed \<Rightarrow> sqlupdate res" where
  "MakeSQLUpdateStructure parsed =
     bindR (buildRollbackSQL parsed) (\<lambda>rollSQL.
       Ok (NewSQLUpdate (qp_SQL parsed) (ReferenceID parsed) rollSQL))"

definition ExecuteParsedQuery ::
  "'m sql_env \<Rightarrow> 'm node_db \<Rightarrow> query_parsed \<Rightarrow> sqlupdate res \<times> 'm node_db" where
  "ExecuteParsedQuery e db parsed =
     bindS (MakeSQLUpdateStructure parsed, db) (\<lambda>su db.
     bindS (ExecuteSQL e db (qp_SQL parsed)) (\<lambda>_ db. (Ok su, db)))"

definition ExecuteQuery :: "'m sql_env \<Rightarrow> 'm node_db \<Rightarrow> string \<Rightarrow> sqlupdate res \<times> 'm node_db" where
  "ExecuteQuery e db sql = bindS (ParseQuery e db sql 0) (\<lambda>qparsed db. ExecuteParsedQuery e db qparsed)"

definition ExecuteQueryFromTX :: "'m sql_env \<Rightarrow> 'm node_db \<Rightarrow> sqlupdate \<Rightarrow> unit res \<times> 'm node_db" where
  "ExecuteQueryFromTX e db sql = ExecuteSQL e db (string_of_bytes (su_Query sql))"

definition ExecuteRollbackQueryFromTX :: "'m sql_env \<Rightarrow> 'm node_db \<Rightarrow> sqlupdate \<Rightarrow> unit res \<times> 'm node_db" where
  "ExecuteRollbackQueryFromTX e db sql = ExecuteSQL e db (string_of_bytes (su_RollbackQuery sql))"

section \<open>Which SQL transaction can follow which\<close>

record sql_update_manager =
  um_SQLUpdate :: sqlupdate
  um_Parsed :: sqlParser

definition NewSQLUpdateManager :: "'m sql_env \<Rightarrow> sqlupdate \<Rightarrow> sql_update_manager res" where
  "NewSQLUpdateManager e su =
     bindR (Parse (sq_order e) (string_of_bytes (su_Query su))) (\<lambda>q.
       Ok \<lparr>um_SQLUpdate = su, um_Parsed = q\<rparr>)"

definition parse_prev :: "'m sql_env \<Rightarrow> sqlupdate option \<Rightarrow> sqlParser option res" where
  "parse_prev e prev =
     (case prev of
        None \<Rightarrow> Ok None
      | Some p \<Rightarrow> bindR (Parse (sq_order e) (string_of_bytes (su_Query p))) (\<lambda>q. Ok (Some q)))"

definition CheckUpdateCanFollow ::
  "'m sql_env \<Rightarrow> sql_update_manager \<Rightarrow> sqlupdate option \<Rightarrow> unit res" where
  "CheckUpdateCanFollow e um sqlUpdPrev =
     bindR (parse_prev e sqlUpdPrev) (\<lambda>sqlparsed1.
       let kind = sp_kind (um_Parsed um)
       in if kind \<noteq> QueryKindCreate \<and> kind \<noteq> QueryKindInsert \<and> kind \<noteq> QueryKindUpdate \<and> kind \<noteq> QueryKindDelete
          then Err (ErrNew ''Operation is not an update query'')
          else if sqlparsed1 = None \<and> kind \<noteq> QueryKindCreate
          then Err (ErrNew ''Operation is not allowed on base of given transaction'')
          else if kind = QueryKindCreate then Ok ()
          else bindR (deref sqlparsed1) (\<lambda>p1.
            if sp_table p1 \<noteq> sp_table (um_Parsed um)
            then Err (ErrNew ''Table of this SQL query must be same as a base transaction'')
            else if kind = QueryKindInsert \<and> sp_kind p1 = QueryKindCreate then Ok ()
            else if (kind = QueryKindUpdate \<or> kind = QueryKindDelete) \<and>
                    (sp_kind p1 = QueryKindInsert \<and> sp_kind p1 = QueryKindUpdate) \<and>
                    (\<exists>p\<in>set_option sqlUpdPrev. su_ReferenceID p = su_ReferenceID (um_SQLUpdate um) \<and>
                                             length (su_ReferenceID p) > 0)
            then Ok ()
            else Err (ErrNew ''Operation is not allowed on base of given transaction'')))"

definition CheckAllowsMultipleSubtransactions ::
  "'m sql_env \<Rightarrow> sql_update_manager \<Rightarrow> sqlupdate option \<Rightarrow> bool res" where
  "CheckAllowsMultipleSubtransactions e um sqlUpdPrev =
     (if sqlUpdPrev = None \<and> sp_kind (um_Parsed um) = QueryKindCreate then Ok True
      else bindR (deref sqlUpdPrev) (\<lambda>p.
        bindR (Parse (sq_order e) (string_of_bytes (su_Query p))) (\<lambda>p1.
          Ok (sp_kind p1 = QueryKindCreate \<and> sp_kind (um_Parsed um) = QueryKindInsert))))"

text \<open>Reference id of the transaction to look for instead, and whether that one can be the base of many.\<close>

definition GetAlternativeRefID :: "sql_update_manager \<Rightarrow> bytes \<times> bool" where
  "GetAlternativeRefID um =
     (if sp_kind (um_Parsed um) = QueryKindInsert
      then (bytes_of_string (sp_table (um_Parsed um) @ '':*''), True)
      else ([], False))"

definition RequiresBaseTransation :: "sql_update_manager \<Rightarrow> bool" where
  "RequiresBaseTransation um \<longleftrightarrow> sp_kind (um_Parsed um) \<noteq> QueryKindCreate"

section \<open>Properties\<close>

lemma kind_neqs:
  "QueryKindInsert \<noteq> QueryKindUpdate" "QueryKindUpdate \<noteq> QueryKindInsert"
  "QueryKindInsert \<noteq> QueryKindDelete" "QueryKindDelete \<noteq> QueryKindInsert"
  "QueryKindInsert \<noteq> QueryKindCreate" "QueryKindCreate \<noteq> QueryKindInsert"
  "QueryKindUpdate \<noteq> QueryKindDelete" "QueryKindDelete \<noteq> QueryKindUpdate"
  "QueryKindUpdate \<noteq> QueryKindCreate" "QueryKindCreate \<noteq> QueryKindUpdate"
  "QueryKindDelete \<noteq> QueryKindCreate" "QueryKindCreate \<noteq> QueryKindDelete"
  "QueryKindDrop \<noteq> QueryKindCreate" "QueryKindDrop \<noteq> QueryKindDelete"
  "QueryKindDrop \<noteq> QueryKindInsert" "QueryKindDrop \<noteq> QueryKindUpdate"
  by (simp_all add: query_kinds)

lemma CheckUpdateCanFollow_Ok:
  "CheckUpdateCanFollow e um prev = Ok () \<longleftrightarrow>
     (\<exists>p1. parse_prev e prev = Ok p1 \<and>
       (sp_kind (um_Parsed um) = QueryKindCreate \<or>
        sp_kind (um_Parsed um) = QueryKindInsert \<and>
        (\<exists>q. p1 = Some q \<and> sp_table q = sp_table (um_Parsed um) \<and> sp_kind q = QueryKindCreate)))"
proof (cases "parse_prev e prev")
  case (Ok p1)
  then show ?thesis
    by (cases p1) (auto simp: CheckUpdateCanFollow_def Let_def kind_neqs)
qed (simp_all add: CheckUpdateCanFollow_def)

lemma GetOneColumnCondition_single:
  "GetOneColumnCondition q = (k, v) \<Longrightarrow> k \<noteq> [] \<Longrightarrow> sp_conditionColumns q = [(k, v, ''='')]"
  by (auto simp: GetOneColumnCondition_def split: list.splits if_splits prod.splits)

end
