(* ===== verification/Pool.thy ===== *)
theory Pool
  imports Unspent DbQuery "HOL-Library.Multiset" "HOL-Library.Sublist"
begin

text \<open>
  \<^verbatim>\<open>node/transactions/pending.go\<close>: the pool of unapproved transactions, a table of the database with a
  copy in memory (\<open>transactionsCache\<close>, \<open>None\<close> while it is not loaded). The lock of the copy is not
  modelled: every operation runs alone. A Go map is read in the order of its list; \<open>sort.Sort\<close> is the
  argument \<open>srt\<close>. The theory shows that the copy always agrees with the table, that the pool stays free of
  conflicting inputs, and what the selection of transactions for a block returns.
\<close>

definition maxCountOfTransactionInMemoryCache :: nat where
  "maxCountOfTransactionInMemoryCache = 20000"

section \<open>The copy in memory\<close>

definition pool_GetCount :: "'m node_db \<Rightarrow> nat res" where
  "pool_GetCount db = bindR (getConnection db) (\<lambda>_. Ok (length (db_pool db)))"

text \<open>\<^verbatim>\<open>GetAll\<close> returns at most 1000000 rows, more than the count allows here.\<close>

definition renewCache :: "'m node_db \<Rightarrow> unit res \<times> 'm node_db" where
  "renewCache db =
     (let db = db\<lparr>db_txcache := None\<rparr>
      in bindS (pool_GetCount db, db) (\<lambda>c db.
           if c > maxCountOfTransactionInMemoryCache then (Err (ErrTXPool ''noenoughfunds''), db)
           else (Ok (), db\<lparr>db_txcache := Some (foldl (\<lambda>t p. tput t (tx_ID (snd p)) (snd p)) [] (db_pool db))\<rparr>)))"

definition renewCacheIfNeeded :: "'m node_db \<Rightarrow> unit res \<times> 'm node_db" where
  "renewCacheIfNeeded db = (if db_txcache db \<noteq> None then (Ok (), db) else renewCache db)"

text \<open>
  \<^verbatim>\<open>forEachTransaction\<close>: over the copy the loop stops when the callback says so; over the table the
  answer of the callback is dropped and every record is visited.
\<close>

fun each_cached :: "(transaction \<Rightarrow> 's \<Rightarrow> (bool \<times> 's) res) \<Rightarrow> transaction list \<Rightarrow> 's \<Rightarrow> 's res" where
  "each_cached f [] s = Ok s"
| "each_cached f (tx # txs) s =
     bindR (f tx s) (\<lambda>(stop, s). if stop then Ok s else each_cached f txs s)"

fun each_stored :: "(transaction \<Rightarrow> 's \<Rightarrow> (bool \<times> 's) res) \<Rightarrow> transaction list \<Rightarrow> 's \<Rightarrow> 's res" where
  "each_stored f [] s = Ok s"
| "each_stored f (tx # txs) s = bindR (f tx s) (\<lambda>(_, s). each_stored f txs s)"

definition forEachTransaction :: "'m node_db \<Rightarrow> (transaction \<Rightarrow> 's \<Rightarrow> (bool \<times> 's) res) \<Rightarrow> 's \<Rightarrow> 's res" where
  "forEachTransaction db f s =
     (case db_txcache db of
        Some c \<Rightarrow> each_cached f (map snd c) s
      | None \<Rightarrow> bindR (getConnection db) (\<lambda>_. each_stored f (map snd (db_pool db)) s))"

definition pool_GetIfExists :: "'m node_db \<Rightarrow> bytes \<Rightarrow> transaction option res" where
  "pool_GetIfExists db txid =
     (case db_txcache db of
        Some c \<Rightarrow> Ok (tget c txid)
      | None \<Rightarrow> bindR (getConnection db) (\<lambda>_. Ok (tget (db_pool db) txid)))"

definition pool_GetInputValue :: "'m node_db \<Rightarrow> txinput \<Rightarrow> float64 res" where
  "pool_GetInputValue db input =
     bindR (pool_GetIfExists db (vin_Txid input)) (\<lambda>tx.
       case tx of
         None \<Rightarrow> Err (ErrNew ''TX not found in cache of unapproved'')
       | Some tx \<Rightarrow> bindR (index (tx_Vout tx) (vin_Vout input)) (\<lambda>out. Ok (vout_Value out)))"

section \<open>Checks of inputs\<close>

text \<open>
  The inputs are a map from positions; the result is the map of input transactions with the new ones.
  A pair of transaction and output that comes twice is an error.
\<close>

fun CheckInputsArePrepared ::
  "'m node_db \<Rightarrow> (int \<times> txinput) list \<Rightarrow> int list table \<Rightarrow> prevtxs \<Rightarrow> prevtxs res" where
  "CheckInputsArePrepared db [] checked inputTXs = Ok inputTXs"
| "CheckInputsArePrepared db ((vinInd, vin) # inputs) checked inputTXs =
     (if vin_Vout vin \<in> set (tlist checked (vin_Txid vin))
      then Err (ErrNew ''Duplicate usage of transaction output'')
      else bindR (pool_GetIfExists db (vin_Txid vin)) (\<lambda>tx.
        case tx of
          None \<Rightarrow> Err (ErrTXVerify ''noinput'' (vin_Txid vin))
        | Some t \<Rightarrow> CheckInputsArePrepared db inputs (tapp checked (vin_Txid vin) [vin_Vout vin])
                     (tput inputTXs vinInd (Some t))))"

fun CheckCurrencyInputsWereBefore ::
  "(int \<times> txinput) list \<Rightarrow> transaction list \<Rightarrow> int list table \<Rightarrow> prevtxs \<Rightarrow> prevtxs res" where
  "CheckCurrencyInputsWereBefore [] prevTXs checked inputTXs = Ok inputTXs"
| "CheckCurrencyInputsWereBefore ((vind, vin) # inputs) prevTXs checked inputTXs =
     (if vin_Vout vin \<in> set (tlist checked (vin_Txid vin))
      then Err (ErrNew ''Duplicate usage of transaction output'')
      else
        (case find (\<lambda>tx. tx_ID tx = vin_Txid vin) prevTXs of
           None \<Rightarrow> Err (ErrTXVerify ''noinput'' (vin_Txid vin))
         | Some tx \<Rightarrow> CheckCurrencyInputsWereBefore inputs prevTXs
                       (tapp checked (vin_Txid vin) [vin_Vout vin]) (tput inputTXs vind (Some tx))))"

section \<open>Pending transactions of an address\<close>

text \<open>An output keeps its serialised transaction in place of a block hash.\<close>

fun pending_outputs ::
  "gob \<Rightarrow> transaction \<Rightarrow> bytes \<Rightarrow> bytes \<Rightarrow> int \<Rightarrow> txoutput list \<Rightarrow> txoutput_independent list" where
  "pending_outputs gb tx pkh sender i [] = []"
| "pending_outputs gb tx pkh sender i (out # outs) =
     (if IsLockedWithKey out pkh
      then LoadFromSimple out (tx_ID tx) i sender (IsCoinbaseTransfer tx) (gob_tx gb tx)
             # pending_outputs gb tx pkh sender (i + 1) outs
      else pending_outputs gb tx pkh sender (i + 1) outs)"

definition uses_output :: "txoutput_independent \<Rightarrow> txinput \<Rightarrow> bool" where
  "uses_output out vin \<longleftrightarrow> vin_Txid vin = oi_TXID out \<and> vin_Vout vin = oi_OIndex out"

definition GetCurrencyTXsPreparedBy ::
  "'k crypto \<Rightarrow> 'm node_db \<Rightarrow> bytes \<Rightarrow> (txinput list \<times> txoutput_independent list \<times> txinput list) res" where
  "GetCurrencyTXsPreparedBy cr db PubKeyHash =
     bindR (forEachTransaction db (\<lambda>tx (inputs, outputs).
         let sender = (if IsCoinbaseTransfer tx then [] else tx_ByPubKey tx);
             inputs = (if \<not> IsCoinbaseTransfer tx \<and> CreatedByPubKeyHash cr tx PubKeyHash
                       then inputs @ tx_Vin tx else inputs)
         in Ok (False, (inputs, outputs @ pending_outputs (db_gob db) tx PubKeyHash sender 0 (tx_Vout tx))))
       ([], [])) (\<lambda>(inputs, outputs).
       let realoutputs = filter (\<lambda>out. \<not> (\<exists>vin\<in>set inputs. uses_output out vin)) outputs;
           approvedinputs = filter (\<lambda>vin. \<not> (\<exists>out\<in>set outputs. uses_output out vin)) inputs
       in Ok (inputs, realoutputs, approvedinputs))"

section \<open>Selections from the pool\<close>

definition select_transactions ::
  "(transaction list \<Rightarrow> transaction list) \<Rightarrow> 'm node_db \<Rightarrow> (transaction \<Rightarrow> bool) \<Rightarrow> int \<Rightarrow> transaction list res" where
  "select_transactions srt db keep number =
     bindR (forEachTransaction db (\<lambda>tx (txset, total_number).
         if \<not> keep tx then Ok (False, (txset, total_number))
         else let total_number = total_number + 1
              in Ok (total_number \<ge> number, (txset @ [tx], total_number))) ([], 0::int)) (\<lambda>(txset, _). Ok (srt txset))"

definition pool_GetTransactions where
  "pool_GetTransactions srt db number = select_transactions srt db (\<lambda>_. True) number"

definition GetTransactionsFilteredByList where
  "GetTransactionsFilteredByList srt db number ignoreTransactions =
     select_transactions srt db (\<lambda>tx. tx_ID tx \<notin> set ignoreTransactions) number"

definition GetTransactionsFilteredByTime where
  "GetTransactionsFilteredByTime srt db number minCreateTime ignoreTransactions =
     select_transactions srt db
       (\<lambda>tx. tx_ID tx \<notin> set ignoreTransactions \<and> \<not> tx_Time tx < minCreateTime) number"

definition GetCountFiltered :: "'m node_db \<Rightarrow> bytes list \<Rightarrow> int res" where
  "GetCountFiltered db ignoreTransactions =
     forEachTransaction db (\<lambda>tx c. if tx_ID tx \<in> set ignoreTransactions then Ok (False, c) else Ok (False, c + 1)) 0"

section \<open>Conflicts\<close>

definition share_input :: "transaction \<Rightarrow> transaction \<Rightarrow> bool" where
  "share_input a b \<longleftrightarrow>
     (\<exists>vin\<in>set (tx_Vin a). \<exists>vine\<in>set (tx_Vin b). vin_Txid vin = vin_Txid vine \<and> vin_Vout vin = vin_Vout vine)"

text \<open>The test of \<^verbatim>\<open>DetectConflictsForNew\<close> for one transaction of the pool.\<close>

definition conflicts_with :: "transaction \<Rightarrow> transaction \<Rightarrow> bool" where
  "conflicts_with txcheck txexi \<longleftrightarrow>
     tx_ID txexi \<noteq> tx_ID txcheck \<and>
     (share_input txcheck txexi \<or>
      IsSQLCommand txcheck \<and> IsSQLCommand txexi \<and> tx_ID txcheck \<noteq> tx_ID txexi \<and>
      length (tx_SQLBaseTX txexi) > 0 \<and> length (su_ReferenceID (tx_SQLCommand txexi)) > 0 \<and>
      tx_SQLBaseTX txexi = tx_SQLBaseTX txcheck \<and>
      su_ReferenceID (tx_SQLCommand txexi) = su_ReferenceID (tx_SQLCommand txcheck))"

definition DetectConflictsForNew :: "'m node_db \<Rightarrow> transaction \<Rightarrow> transaction option res" where
  "DetectConflictsForNew db txcheck =
     forEachTransaction db (\<lambda>txexi found.
       if conflicts_with txcheck txexi then Ok (True, Some txexi) else Ok (False, found)) None"

text \<open>The loop over the inputs of one transaction: was an input used before, and the outputs used now.\<close>

fun mark_inputs :: "txinput list \<Rightarrow> int list table \<Rightarrow> bool \<times> int list table" where
  "mark_inputs [] used = (False, used)"
| "mark_inputs (vin # vins) used =
     (if vin_Vout vin \<in> set (tlist used (vin_Txid vin)) then (True, used)
      else mark_inputs vins (tapp used (vin_Txid vin) [vin_Vout vin]))"

fun conflicts_loop ::
  "transaction list \<Rightarrow> int list table \<Rightarrow> transaction list \<Rightarrow> transaction list \<Rightarrow> transaction list \<times> transaction list" where
  "conflicts_loop [] usedoutputs good conflicts = (good, conflicts)"
| "conflicts_loop (tx # txs) usedoutputs good conflicts =
     (let (used, usedoutputs) = mark_inputs (tx_Vin tx) usedoutputs
      in if used then conflicts_loop txs usedoutputs good (conflicts @ [tx])
         else conflicts_loop txs usedoutputs (good @ [tx]) conflicts)"

definition DetectConflicts :: "transaction list \<Rightarrow> transaction list \<times> transaction list" where
  "DetectConflicts txs = conflicts_loop txs [] [] []"

section \<open>Changing the pool\<close>

definition cache_put :: "transaction \<Rightarrow> 'm node_db \<Rightarrow> 'm node_db" where
  "cache_put tx db =
     (case db_txcache db of None \<Rightarrow> db | Some c \<Rightarrow> db\<lparr>db_txcache := Some (tput c (tx_ID tx) tx)\<rparr>)"

definition pool_Add :: "transaction \<Rightarrow> 'm node_db \<Rightarrow> unit res \<times> 'm node_db" where
  "pool_Add txadd db =
     bindS (DetectConflictsForNew db txadd, db) (\<lambda>conflicts db.
       if conflicts \<noteq> None then (Err (ErrNew ''The transaction conflicts with other prepared transaction''), db)
       else bindS (getConnection db, db) (\<lambda>_ db.
         (Ok (), cache_put txadd (db\<lparr>db_pool := tput (db_pool db) (tx_ID txadd) txadd\<rparr>))))"

definition pool_Delete :: "bytes \<Rightarrow> 'm node_db \<Rightarrow> bool res \<times> 'm node_db" where
  "pool_Delete txid db =
     bindS (getConnection db, db) (\<lambda>_ db.
       if tget (db_pool db) txid \<noteq> None then
         (let db = db\<lparr>db_pool := tdel (db_pool db) txid\<rparr>
          in (Ok True, (case db_txcache db of
                          None \<Rightarrow> db | Some c \<Rightarrow> db\<lparr>db_txcache := Some (tdel c txid)\<rparr>)))
       else (Ok False, db))"

fun delete_txs :: "transaction list \<Rightarrow> 'm node_db \<Rightarrow> unit res \<times> 'm node_db" where
  "delete_txs [] db = (Ok (), db)"
| "delete_txs (tx # txs) db =
     (if IsCoinbaseTransfer tx then delete_txs txs db
      else ignoreS (pool_Delete (tx_ID tx) db) (delete_txs txs))"

definition DeleteFromBlock :: "block \<Rightarrow> 'm node_db \<Rightarrow> unit res \<times> 'm node_db" where
  "DeleteFromBlock b db = delete_txs (blk_Transactions b) db"

definition DeleteFromBlocks :: "block list \<Rightarrow> 'm node_db \<Rightarrow> unit res \<times> 'm node_db" where
  "DeleteFromBlocks blocks db = forS DeleteFromBlock blocks db"

fun add_txs :: "transaction list \<Rightarrow> 'm node_db \<Rightarrow> unit res \<times> 'm node_db" where
  "add_txs [] db = (Ok (), db)"
| "add_txs (tx # txs) db =
     (if IsCoinbaseTransfer tx then add_txs txs db else ignoreS (pool_Add tx db) (add_txs txs))"

definition AddFromCanceled :: "block \<Rightarrow> 'm node_db \<Rightarrow> unit res \<times> 'm node_db" where
  "AddFromCanceled b db = add_txs (blk_Transactions b) db"

definition pool_CleanUnapprovedCache :: "'m node_db \<Rightarrow> unit res \<times> 'm node_db" where
  "pool_CleanUnapprovedCache db =
     bindS (getConnection db, db) (\<lambda>_ db. (Ok (), db\<lparr>db_pool := [], db_txcache := Some []\<rparr>))"

section \<open>SQL references in the pool\<close>

text \<open>State of the search: transaction found, alternative found, transactions that are the base of others.\<close>

definition FindSQLReferenceTransaction :: "'m sql_env \<Rightarrow> 'm node_db \<Rightarrow> sqlupdate \<Rightarrow> bytes res" where
  "FindSQLReferenceTransaction e db sqlUpdate =
     bindR (NewSQLUpdateManager e sqlUpdate) (\<lambda>um.
       let (altRefID, altCanBeReused) = GetAlternativeRefID um
       in bindR (forEachTransaction db (\<lambda>tx (txID, alt, reused).
            if \<not> IsSQLCommand tx then Ok (False, (txID, alt, reused))
            else
              let ref = su_ReferenceID (tx_SQLCommand tx);
                  txID = (if ref = su_ReferenceID sqlUpdate \<and> tx_ID tx \<notin> set reused then tx_ID tx else txID);
                  isAlt = (ref = altRefID \<and> (altCanBeReused \<or> tx_ID tx \<notin> set reused));
                  alt = (if isAlt then tx_ID tx else alt)
              in if isAlt \<and> altCanBeReused then Ok (True, (txID, alt, reused))
                 else Ok (False, (txID, alt, if length (tx_SQLBaseTX tx) > 0 then reused @ [tx_SQLBaseTX tx] else reused)))
            ([], [], [])) (\<lambda>(txID, alt, _).
            Ok (if length txID = 0 \<and> length alt > 0 then alt else txID)))"

definition FindSQLBasedOnTransaction :: "'m node_db \<Rightarrow> bytes \<Rightarrow> bytes list res" where
  "FindSQLBasedOnTransaction db txid =
     forEachTransaction db (\<lambda>tx txIDs.
       if IsSQLCommand tx \<and> tx_SQLBaseTX tx = txid then Ok (False, txIDs @ [tx_ID tx]) else Ok (False, txIDs)) []"

section \<open>The copy agrees with the table\<close>

text \<open>\<open>pool_ok\<close>: the keys of the table are the ids, and a loaded copy answers every look-up as the table.\<close>

definition pool_ok :: "'m node_db \<Rightarrow> bool" where
  "pool_ok db \<longleftrightarrow>
     distinct (map fst (db_pool db)) \<and> (\<forall>p\<in>set (db_pool db). fst p = tx_ID (snd p)) \<and>
     (case db_txcache db of
        None \<Rightarrow> True
      | Some c \<Rightarrow> distinct (map fst c) \<and> (\<forall>k. tget c k = tget (db_pool db) k))"

lemma tget_set: "distinct (map fst t) \<Longrightarrow> (k, v) \<in> set t \<longleftrightarrow> tget t k = Some v"
  using tget_in tget_Some_in by metis

lemma set_tput: "set (tput t k v) \<subseteq> insert (k, v) (set t)"
  by (induction t k v rule: tput.induct) auto

lemma pool_values:
  assumes "pool_ok db" and "db_txcache db = Some c"
  shows "set c = set (db_pool db)"
proof -
  have "p \<in> set c \<longleftrightarrow> p \<in> set (db_pool db)" for p
    using assms tget_set[of c "fst p" "snd p"] tget_set[of "db_pool db" "fst p" "snd p"]
    by (simp add: pool_ok_def)
  then show ?thesis by blast
qed

lemma renewCache_ok:
  assumes "pool_ok db" and "db_opened db" and "length (db_pool db) \<le> maxCountOfTransactionInMemoryCache"
  shows "\<exists>c. renewCache db = (Ok (), db\<lparr>db_txcache := Some c\<rparr>) \<and> pool_ok (db\<lparr>db_txcache := Some c\<rparr>)"
proof -
  let ?f = "\<lambda>t p. tput t (tx_ID (snd p)) (snd p)"
  have load: "distinct (map fst ps) \<Longrightarrow> \<forall>p\<in>set ps. fst p = tx_ID (snd p) \<Longrightarrow> distinct (map fst t) \<Longrightarrow>
      distinct (map fst (foldl ?f t ps)) \<and>
      (\<forall>k. tget (foldl ?f t ps) k = (case tget ps k of Some v \<Rightarrow> Some v | None \<Rightarrow> tget t k))" for ps t
  proof (induction ps arbitrary: t)
    case (Cons p ps)
    obtain k v where p: "p = (k, v)" by fastforce
    have "k \<notin> fst ` set ps" using Cons.prems(1) p by simp
    then have "tget ps k = None" by (simp add: tget_None)
    then show ?case
      using Cons.IH[of "?f t p"] Cons.prems p distinct_tput[of t k v]
      by (auto simp: table_simps split: option.splits)
  qed simp
  have "distinct (map fst (foldl ?f [] (db_pool db)))"
    "\<And>k. tget (foldl ?f [] (db_pool db)) k = tget (db_pool db) k"
    using load[of "db_pool db" "[]"] assms(1) by (auto simp: pool_ok_def split: option.split)
  then show ?thesis using assms
    by (intro exI[of _ "foldl ?f [] (db_pool db)"])
      (auto simp: renewCache_def pool_GetCount_def getConnection_def Let_def pool_ok_def)
qed

lemma pool_GetIfExists_ok:
  "pool_ok db \<Longrightarrow> db_opened db \<Longrightarrow> pool_GetIfExists db k = Ok (tget (db_pool db) k)"
  by (auto simp: pool_GetIfExists_def pool_ok_def split: option.split)

lemma pool_put_ok:
  assumes "pool_ok db"
  shows "pool_ok (cache_put tx (db\<lparr>db_pool := tput (db_pool db) (tx_ID tx) tx\<rparr>))"
proof -
  have "\<forall>p\<in>set (tput (db_pool db) (tx_ID tx) tx). fst p = tx_ID (snd p)"
    using set_tput[of "db_pool db" "tx_ID tx" tx] assms by (auto simp: pool_ok_def)
  then show ?thesis using assms
    by (auto simp: pool_ok_def cache_put_def distinct_tput table_simps split: option.splits)
qed

lemma pool_Delete_run:
  assumes "pool_ok db" and "db_opened db"
  shows "\<exists>db'. pool_Delete k db = (Ok (tget (db_pool db) k \<noteq> None), db') \<and> pool_ok db' \<and> db_opened db' \<and>
           (\<forall>k'. tget (db_pool db') k' = (if k' = k then None else tget (db_pool db) k'))"
proof (cases "tget (db_pool db) k = None")
  case True
  then show ?thesis using assms by (intro exI[of _ db]) (auto simp: pool_Delete_def)
next
  case False
  have keys: "\<forall>p\<in>set (tdel (db_pool db) k). fst p = tx_ID (snd p)" using assms(1) by (auto simp: pool_ok_def tdel_def)
  show ?thesis
  proof (cases "db_txcache db")
    case None
    then show ?thesis using assms False keys
      by (intro exI[of _ "db\<lparr>db_pool := tdel (db_pool db) k\<rparr>"])
        (auto simp: pool_Delete_def pool_ok_def distinct_tdel table_simps)
  next
    case (Some c)
    then show ?thesis using assms False keys
      by (intro exI[of _ "db\<lparr>db_pool := tdel (db_pool db) k, db_txcache := Some (tdel c k)\<rparr>"])
        (auto simp: pool_Delete_def pool_ok_def distinct_tdel table_simps)
  qed
qed

section \<open>The pool has no conflicts\<close>

lemma find_snoc: "find P (xs @ [x]) = (case find P xs of Some t \<Rightarrow> Some t | None \<Rightarrow> if P x then Some x else None)"
  by (induction xs) auto

lemma find_SomeD: "find P xs = Some x \<Longrightarrow> x \<in> set xs \<and> P x"
  by (induction xs) (auto split: if_splits)

lemma each_found:
  "each_cached (\<lambda>tx found. if P tx then Ok (True, Some tx) else Ok (False, found)) txs None = Ok (find P txs)"
  by (induction txs) auto

lemma each_stored_found:
  "each_stored (\<lambda>tx found. if P tx then Ok (True, Some tx) else Ok (False, found)) txs r =
     Ok (case find P (rev txs) of Some tx \<Rightarrow> Some tx | None \<Rightarrow> r)"
proof (induction txs arbitrary: r)
  case (Cons tx txs)
  show ?case by (auto simp: Cons.IH find_snoc split: option.splits)
qed simp

lemma DetectConflictsForNew_spec:
  assumes "pool_ok db" and "db_opened db"
  shows "\<exists>r. DetectConflictsForNew db tx = Ok r \<and>
     (case r of None \<Rightarrow> \<forall>p\<in>set (db_pool db). \<not> conflicts_with tx (snd p)
              | Some t \<Rightarrow> t \<in> snd ` set (db_pool db) \<and> conflicts_with tx t)"
proof (cases "db_txcache db")
  case None
  then have "DetectConflictsForNew db tx = Ok (find (conflicts_with tx) (rev (map snd (db_pool db))))"
    using assms(2) by (auto simp: DetectConflictsForNew_def forEachTransaction_def each_stored_found split: option.split)
  then show ?thesis
    by (intro exI[of _ "find (conflicts_with tx) (rev (map snd (db_pool db)))"])
      (auto split: option.split simp: find_None_iff dest!: find_SomeD)
next
  case (Some c)
  then have "DetectConflictsForNew db tx = Ok (find (conflicts_with tx) (map snd c))"
    by (simp add: DetectConflictsForNew_def forEachTransaction_def each_found)
  moreover have "set (map snd c) = snd ` set (db_pool db)" using pool_values[OF assms(1) Some] by simp
  ultimately show ?thesis
    by (intro exI[of _ "find (conflicts_with tx) (map snd c)"])
      (auto split: option.split simp: find_None_iff dest!: find_SomeD)
qed

definition pool_free :: "'m node_db \<Rightarrow> bool" where
  "pool_free db \<longleftrightarrow>
     (\<forall>p\<in>set (db_pool db). \<forall>q\<in>set (db_pool db). fst p \<noteq> fst q \<longrightarrow> \<not> share_input (snd p) (snd q))"

lemma share_input_sym: "share_input a b \<longleftrightarrow> share_input b a"
  unfolding share_input_def by metis

lemma cache_put_fields [simp]:
  "db_pool (cache_put tx db) = db_pool db" "db_opened (cache_put tx db) = db_opened db"
  by (simp_all add: cache_put_def split: option.split)

lemma pool_Add_run:
  assumes ok: "pool_ok db" and op: "db_opened db" and free: "pool_free db"
  shows "\<exists>r db'. pool_Add tx db = (r, db') \<and> pool_ok db' \<and> pool_free db' \<and> db_opened db' \<and>
     (if \<exists>p\<in>set (db_pool db). conflicts_with tx (snd p)
      then r = Err (ErrNew ''The transaction conflicts with other prepared transaction'') \<and> db' = db
      else r = Ok () \<and> (\<forall>k. tget (db_pool db') k = (if k = tx_ID tx then Some tx else tget (db_pool db) k)))"
proof -
  obtain c where c: "DetectConflictsForNew db tx = Ok c"
    "case c of None \<Rightarrow> \<forall>p\<in>set (db_pool db). \<not> conflicts_with tx (snd p)
             | Some t \<Rightarrow> t \<in> snd ` set (db_pool db) \<and> conflicts_with tx t"
    using DetectConflictsForNew_spec[OF ok op] by blast
  show ?thesis
  proof (cases c)
    case (Some t)
    then have "\<exists>p\<in>set (db_pool db). conflicts_with tx (snd p)" using c(2) by auto
    then show ?thesis using c(1) Some assms by (simp add: pool_Add_def)
  next
    case None
    let ?db = "cache_put tx (db\<lparr>db_pool := tput (db_pool db) (tx_ID tx) tx\<rparr>)"
    have no: "\<forall>p\<in>set (db_pool db). \<not> conflicts_with tx (snd p)" using c(2) None by simp
    have "pool_free ?db"
      unfolding pool_free_def
    proof (intro ballI impI)
      fix p q assume pq: "p \<in> set (db_pool ?db)" "q \<in> set (db_pool ?db)" "fst p \<noteq> fst q"
      then have "p = (tx_ID tx, tx) \<or> p \<in> set (db_pool db)" "q = (tx_ID tx, tx) \<or> q \<in> set (db_pool db)"
        using set_tput[of "db_pool db" "tx_ID tx" tx] by auto
      moreover have "\<not> share_input tx (snd r)" if "r \<in> set (db_pool db)" "fst r \<noteq> tx_ID tx" for r
        using no that ok by (auto simp: conflicts_with_def pool_ok_def)
      ultimately show "\<not> share_input (snd p) (snd q)"
        using pq(3) free share_input_sym unfolding pool_free_def by (metis fst_conv snd_conv)
    qed
    moreover have "pool_Add tx db = (Ok (), ?db)" using c(1) None op by (simp add: pool_Add_def)
    moreover have "\<not> (\<exists>p\<in>set (db_pool db). conflicts_with tx (snd p))" using no by blast
    ultimately show ?thesis using pool_put_ok[OF ok] op by (auto simp: table_simps)
  qed
qed

lemma pool_Delete_free:
  assumes "pool_ok db" "db_opened db" "pool_free db" and "pool_Delete k db = (r, db')"
  shows "pool_free db'"
proof -
  have "set (db_pool db') \<subseteq> set (db_pool db)"
    using assms(2,4) by (auto simp: pool_Delete_def tdel_def Let_def split: if_splits option.splits)
  then show ?thesis using assms(3) unfolding pool_free_def by blast
qed

lemma delete_txs_run:
  assumes "pool_ok db" "db_opened db" "pool_free db"
  shows "\<exists>db'. delete_txs txs db = (Ok (), db') \<and> pool_ok db' \<and> db_opened db' \<and> pool_free db' \<and>
     (\<forall>k. tget (db_pool db') k =
        (if \<exists>tx\<in>set txs. \<not> IsCoinbaseTransfer tx \<and> tx_ID tx = k then None else tget (db_pool db) k))"
  using assms
proof (induction txs arbitrary: db)
  case (Cons tx txs)
  show ?case
  proof (cases "IsCoinbaseTransfer tx")
    case True
    then show ?thesis using Cons.IH[OF Cons.prems] by auto
  next
    case False
    obtain d where d: "pool_Delete (tx_ID tx) db = (Ok (tget (db_pool db) (tx_ID tx) \<noteq> None), d)" "pool_ok d"
      "db_opened d" "\<forall>k. tget (db_pool d) k = (if k = tx_ID tx then None else tget (db_pool db) k)"
      using pool_Delete_run[OF Cons.prems(1,2)] by blast
    have "pool_free d" using pool_Delete_free[OF Cons.prems d(1)] .
    then show ?thesis using Cons.IH[OF d(2,3)] d(1,4) False by auto
  qed
qed auto

lemma add_txs_run:
  assumes "pool_ok db" "db_opened db" "pool_free db"
  shows "\<exists>db'. add_txs txs db = (Ok (), db') \<and> pool_ok db' \<and> db_opened db' \<and> pool_free db'"
  using assms
proof (induction txs arbitrary: db)
  case (Cons tx txs)
  show ?case
  proof (cases "IsCoinbaseTransfer tx")
    case True
    then show ?thesis using Cons by simp
  next
    case False
    obtain r d where d: "pool_Add tx db = (r, d)" "pool_ok d" "pool_free d" "db_opened d"
      "r = Ok () \<or> (\<exists>e. r = Err e)"
      using pool_Add_run[OF Cons.prems, of tx] by (fastforce split: if_splits)
    then show ?thesis using Cons.IH[OF d(2,4,3)] False by auto
  qed
qed auto

section \<open>Transactions for a block\<close>

definition inputs_of :: "transaction \<Rightarrow> (bytes \<times> int) list" where
  "inputs_of tx = map (\<lambda>v. (vin_Txid v, vin_Vout v)) (tx_Vin tx)"

definition used_set :: "int list table \<Rightarrow> (bytes \<times> int) set" where
  "used_set used = {(k, v). v \<in> set (tlist used k)}"

lemma used_set_tapp: "used_set (tapp used k [v]) = insert (k, v) (used_set used)"
  by (auto simp: used_set_def tlist_tapp split: if_splits)

lemma used_set_Nil: "used_set [] = {}"
  by (simp add: used_set_def tlist_def)

lemma mark_inputs_spec:
  "mark_inputs vins used = (b, used') \<Longrightarrow>
     used_set used \<subseteq> used_set used' \<and>
     used_set used' \<subseteq> used_set used \<union> (\<lambda>v. (vin_Txid v, vin_Vout v)) ` set vins \<and>
     (let ins = map (\<lambda>v. (vin_Txid v, vin_Vout v)) vins
      in (b \<longleftrightarrow> \<not> (distinct ins \<and> set ins \<inter> used_set used = {})) \<and> (\<not> b \<longrightarrow> set ins \<subseteq> used_set used'))"
proof (induction vins arbitrary: used)
  case (Cons vin vins)
  let ?p = "(vin_Txid vin, vin_Vout vin)"
  show ?case
  proof (cases "?p \<in> used_set used")
    case True
    then show ?thesis using Cons.prems by (auto simp: used_set_def Let_def)
  next
    case False
    then have "mark_inputs vins (tapp used (vin_Txid vin) [vin_Vout vin]) = (b, used')"
      using Cons.prems by (simp add: used_set_def)
    from Cons.IH[OF this] False show ?thesis unfolding used_set_tapp Let_def by auto
  qed
qed (simp add: Let_def)

lemma conflicts_loop_spec:
  "conflicts_loop txs used good bad = (good', bad') \<Longrightarrow>
     distinct (concat (map inputs_of good)) \<Longrightarrow> \<Union> (set ` inputs_of ` set good) \<subseteq> used_set used \<Longrightarrow>
     distinct (concat (map inputs_of good')) \<and>
     (\<exists>g b. good' = good @ g \<and> bad' = bad @ b \<and> mset txs = mset g + mset b \<and> subseq g txs)"
proof (induction txs arbitrary: used good bad)
  case (Cons tx txs)
  obtain b used1 where m: "mark_inputs (tx_Vin tx) used = (b, used1)" by fastforce
  note ms = mark_inputs_spec[OF m, folded inputs_of_def, unfolded Let_def]
  show ?case
  proof (cases b)
    case True
    have run: "conflicts_loop txs used1 good (bad @ [tx]) = (good', bad')" using Cons.prems(1) m True by simp
    have "\<Union> (set ` inputs_of ` set good) \<subseteq> used_set used1" using Cons.prems(3) ms by blast
    from Cons.IH[OF run Cons.prems(2) this] obtain g c where g: "distinct (concat (map inputs_of good'))"
      "good' = good @ g" "bad' = (bad @ [tx]) @ c" "mset txs = mset g + mset c" "subseq g txs" by blast
    then have "bad' = bad @ (tx # c)" "mset (tx # txs) = mset g + mset (tx # c)" "subseq g (tx # txs)" by auto
    then show ?thesis using g(1,2) by blast
  next
    case False
    have run: "conflicts_loop txs used1 (good @ [tx]) bad = (good', bad')" using Cons.prems(1) m False by simp
    have new: "distinct (inputs_of tx)" "set (inputs_of tx) \<inter> used_set used = {}" "set (inputs_of tx) \<subseteq> used_set used1"
      using ms False by (auto simp: inputs_of_def)
    have "distinct (concat (map inputs_of (good @ [tx])))"
      using Cons.prems(2,3) new by auto
    moreover have "\<Union> (set ` inputs_of ` set (good @ [tx])) \<subseteq> used_set used1"
      using Cons.prems(3) new ms by auto
    ultimately obtain g c where g: "distinct (concat (map inputs_of good'))"
      "good' = (good @ [tx]) @ g" "bad' = bad @ c" "mset txs = mset g + mset c" "subseq g txs"
      using Cons.IH[OF run] by blast
    then have "good' = good @ (tx # g)" "mset (tx # txs) = mset (tx # g) + mset c" "subseq (tx # g) (tx # txs)" by auto
    then show ?thesis using g(1,3) by blast
  qed
qed auto

lemma DetectConflicts_spec:
  assumes "DetectConflicts txs = (good, bad)"
  shows "distinct (concat (map inputs_of good)) \<and> mset txs = mset good + mset bad \<and> subseq good txs"
  using conflicts_loop_spec[OF assms[unfolded DetectConflicts_def]] by (simp add: used_set_Nil)

lemma mark_inputs_free:
  assumes "distinct (map (\<lambda>v. (vin_Txid v, vin_Vout v)) vins)"
    and "(\<lambda>v. (vin_Txid v, vin_Vout v)) ` set vins \<inter> used_set used = {}"
  shows "\<exists>used'. mark_inputs vins used = (False, used') \<and>
    used_set used' = used_set used \<union> (\<lambda>v. (vin_Txid v, vin_Vout v)) ` set vins"
proof -
  obtain b used' where m: "mark_inputs vins used = (b, used')" by fastforce
  from mark_inputs_spec[OF m] assms show ?thesis using m by (auto simp: Let_def)
qed

lemma conflicts_loop_free:
  assumes "distinct (concat (map inputs_of txs))" and "\<Union> (set ` inputs_of ` set txs) \<inter> used_set used = {}"
  shows "conflicts_loop txs used good bad = (good @ txs, bad)"
  using assms
proof (induction txs arbitrary: used good)
  case (Cons tx txs)
  obtain used' where m: "mark_inputs (tx_Vin tx) used = (False, used')"
    "used_set used' = used_set used \<union> set (inputs_of tx)"
    using mark_inputs_free[of "tx_Vin tx" used] Cons.prems by (auto simp: inputs_of_def)
  have "\<Union> (set ` inputs_of ` set txs) \<inter> used_set used' = {}" using Cons.prems m(2) by auto
  then show ?case using Cons.IH[of used' "good @ [tx]"] Cons.prems(1) m(1) by simp
qed simp

text \<open>The transactions that are kept spend no output twice; when the whole list spends none twice, all are kept.\<close>

lemma DetectConflicts_split:
  assumes "DetectConflicts txs = (good, bad)"
  shows "distinct (concat (map inputs_of good)) \<and> mset txs = mset good + mset bad \<and> subseq good txs \<and>
     (bad = [] \<longleftrightarrow> distinct (concat (map inputs_of txs)))"
proof -
  note spec = DetectConflicts_spec[OF assms]
  have "distinct (concat (map inputs_of txs))" if "bad = []"
  proof -
    have "length good = length txs" using spec that by (metis add.right_neutral mset.simps(1) size_mset)
    then have "good = txs" using spec subseq_same_length by blast
    then show ?thesis using spec by simp
  qed
  moreover have "bad = []" if "distinct (concat (map inputs_of txs))"
    using conflicts_loop_free[OF that, of "[]" "[]" "[]"] assms by (simp add: DetectConflicts_def used_set_Nil)
  ultimately show ?thesis using spec by blast
qed

text \<open>
  C25: Adding to the pool keeps the pool in step with its cache and free of two transactions that
  spend the same output; a transaction is added exactly when it conflicts with none there, and
  nothing else changes.
\<close>

lemma pool_Add_conflict_free:
  assumes "pool_ok db" and "db_opened db" and "pool_free db" and "pool_Add tx db = (r, db')"
  shows "pool_ok db' \<and> pool_free db' \<and> (r = Ok () \<longleftrightarrow> (\<forall>p\<in>set (db_pool db). \<not> conflicts_with tx (snd p))) \<and>
     (\<forall>k. tget (db_pool db') k = (if r = Ok () \<and> k = tx_ID tx then Some tx else tget (db_pool db) k))"
  using pool_Add_run[OF assms(1-3), of tx] assms(4) by (auto split: if_splits)

end
