(* ===== verification/TxManager.thy ===== *)
theory TxManager
  imports Pool
begin

text \<open>
  \<^verbatim>\<open>node/transactions/manager.go\<close>: the transactions manager, which joins the pool, the index, the table of
  unspent outputs and the table of row references, and verifies and prepares transactions. \<open>txm_env\<close> holds what
  the manager is built with: the cryptography, the server of the application's tables, the reward of a block,
  the two calls of \<open>sort.Sort\<close> and the clock. \<open>opn\<close> is \<^verbatim>\<open>getUnapprovedTransactionsManager\<close>: the first call
  loads the copy of the pool (\<open>open_pool\<close>), a later call of the same manager returns the same object (\<open>id\<close>).
\<close>

record ('k, 'm) txm_env =
  te_crypto :: "'k crypto"
  te_sql :: "'m sql_env"
  te_coins :: float64
  te_sort_outs :: "txoutput_independent list \<Rightarrow> txoutput_independent list"
  te_sort_txs :: "transaction list \<Rightarrow> transaction list"
  te_now :: int

definition open_pool :: "'m node_db \<Rightarrow> 'm node_db" where
  "open_pool db = snd (renewCacheIfNeeded db)"

text \<open>\<open>errors.New(fmt.Sprintf("...: %s", err.Error()))\<close>: another error in place of the error.\<close>

fun errR :: "string \<Rightarrow> 'a res \<Rightarrow> 'a res" where
  "errR m (Err e) = Err (ErrNew m)"
| "errR m r = r"

section \<open>Balances and look-ups\<close>

text \<open>The error of \<^verbatim>\<open>AddresToPubKeyHash\<close> is dropped.\<close>

definition pkh_of_address :: "'k crypto \<Rightarrow> string \<Rightarrow> bytes res" where
  "pkh_of_address cr address = (case AddresToPubKeyHash cr address of Err e \<Rightarrow> Ok [] | r \<Rightarrow> r)"

fun sub_inputs :: "'m node_db \<Rightarrow> txinput list \<Rightarrow> float64 \<Rightarrow> float64 res" where
  "sub_inputs db [] b = Ok b"
| "sub_inputs db (i # is) b =
     bindR (errR ''Pending Balance Error: input check fails on unspent'' (GetInputValue db i))
       (\<lambda>v. sub_inputs db is (fsub b v))"

definition getAddressPendingBalance ::
  "('k, 'm) txm_env \<Rightarrow> ('m node_db \<Rightarrow> 'm node_db) \<Rightarrow> string \<Rightarrow> 'm node_db \<Rightarrow> float64 res \<times> 'm node_db" where
  "getAddressPendingBalance e opn address db =
     bindS (pkh_of_address (te_crypto e) address, db) (\<lambda>pkh db.
       let db = opn db
       in (bindR (GetCurrencyTXsPreparedBy (te_crypto e) db pkh) (\<lambda>(_, outputs, inputs).
             sub_inputs db inputs (fsum (map oi_Value outputs))), db))"

text \<open>Total, approved and pending balance.\<close>

definition txm_GetAddressBalance ::
  "('k, 'm) txm_env \<Rightarrow> string \<Rightarrow> 'm node_db \<Rightarrow> (float64 \<times> float64 \<times> float64) res \<times> 'm node_db" where
  "txm_GetAddressBalance e address db =
     bindS (uo_GetAddressBalance (te_crypto e) db address, db) (\<lambda>approved db.
     bindS (getAddressPendingBalance e open_pool address db) (\<lambda>pending db.
       (Ok (fadd approved pending, approved, pending), db)))"

definition txm_ReindexData :: "('k, 'm) txm_env \<Rightarrow> 'm node_db \<Rightarrow> nat res \<times> 'm node_db" where
  "txm_ReindexData e db = bindS (index_Reindex db) (\<lambda>_ db. uo_Reindex (te_crypto e) db)"

definition GetUnapprovedCount :: "'m node_db \<Rightarrow> nat res \<times> 'm node_db" where
  "GetUnapprovedCount db = (let db = open_pool db in (pool_GetCount db, db))"

definition txm_GetIfExists :: "bytes \<Rightarrow> 'm node_db \<Rightarrow> transaction option res \<times> 'm node_db" where
  "txm_GetIfExists txid db =
     (let db = open_pool db
      in bindS (pool_GetIfExists db txid, db) (\<lambda>tx db.
           if tx \<noteq> None then (Ok tx, db)
           else bindS (GetCurrencyTransactionAllInfo db txid [], db) (\<lambda>(tx, _, _) db. (Ok tx, db))))"

definition GetIfUnapprovedExists :: "bytes \<Rightarrow> 'm node_db \<Rightarrow> transaction option res \<times> 'm node_db" where
  "GetIfUnapprovedExists txid db = (let db = open_pool db in (pool_GetIfExists db txid, db))"

definition GetUnapprovedTransactionsFiltered ::
  "('k, 'm) txm_env \<Rightarrow> int \<Rightarrow> int \<Rightarrow> bytes list \<Rightarrow> 'm node_db \<Rightarrow> bytes list res \<times> 'm node_db" where
  "GetUnapprovedTransactionsFiltered e minCreateTime maxCount ignoreTransactions db =
     (let maxCount = (if maxCount < 1 then 10000 else maxCount);
          minCreateTime = (if minCreateTime < 1 then te_now e - 3600 * 24 * 30 else minCreateTime);
          db = open_pool db
      in bindS (GetCountFiltered db ignoreTransactions, db) (\<lambda>c db.
           let txList =
                 (if c < maxCount then GetTransactionsFilteredByList (te_sort_txs e) db maxCount ignoreTransactions
                  else GetTransactionsFilteredByTime (te_sort_txs e) db maxCount minCreateTime ignoreTransactions)
           in (case txList of
                 Ok txs \<Rightarrow> Ok (map tx_ID txs) | Err _ \<Rightarrow> Ok [] | Panic \<Rightarrow> Panic | Diverge \<Rightarrow> Diverge, db)))"

section \<open>The base transaction of an SQL transaction\<close>

definition getBaseTransactionInChain ::
  "('k, 'm) txm_env \<Rightarrow> 'm node_db \<Rightarrow> sqlupdate \<Rightarrow> bytes \<Rightarrow> bytes res" where
  "getBaseTransactionInChain e db sqlUpdate tip =
     bindR (NewSQLUpdateManager (te_sql e) sqlUpdate) (\<lambda>um.
       if \<not> RequiresBaseTransation um then Ok []
       else
         let (altRefID, _) = GetAlternativeRefID um
         in if length tip > 0 then GetTXForRefIDByTIP db (su_ReferenceID sqlUpdate) altRefID tip
            else bindR (GetTXForRefID db (su_ReferenceID sqlUpdate)) (\<lambda>txID.
              case txID of
                Some t \<Rightarrow> Ok t
              | None \<Rightarrow>
                  if altRefID = [] then Err (ErrNew ''Base Trasaction can not be found'')
                  else bindR (GetTXForRefID db altRefID) (\<lambda>txID.
                    case txID of Some t \<Rightarrow> Ok t | None \<Rightarrow> Err (ErrNew ''Base Trasaction can not be found''))))"

text \<open>The id of the last transaction of a list that changed a given row.\<close>

definition last_with_ref :: "bytes \<Rightarrow> transaction list \<Rightarrow> bytes" where
  "last_with_ref ref txs =
     foldl (\<lambda>txID tx. if ref = su_ReferenceID (tx_SQLCommand tx) then tx_ID tx else txID) [] txs"

definition getBaseTransactionInList ::
  "('k, 'm) txm_env \<Rightarrow> 'm node_db \<Rightarrow> sqlupdate \<Rightarrow> transaction list \<Rightarrow> bytes \<Rightarrow> bytes res" where
  "getBaseTransactionInList e db sqlUpdate prevtxs tip =
     bindR (NewSQLUpdateManager (te_sql e) sqlUpdate) (\<lambda>um.
       if \<not> RequiresBaseTransation um then Ok []
       else
         let (altRefID, _) = GetAlternativeRefID um;
             txID = last_with_ref (su_ReferenceID sqlUpdate) prevtxs
         in if length txID > 0 then Ok txID
            else
              let txID = (if altRefID \<noteq> [] then last_with_ref altRefID prevtxs else [])
              in if length txID > 0 then Ok txID else getBaseTransactionInChain e db sqlUpdate tip)"

definition getBaseTransaction ::
  "('k, 'm) txm_env \<Rightarrow> ('m node_db \<Rightarrow> 'm node_db) \<Rightarrow> sqlupdate \<Rightarrow> 'm node_db \<Rightarrow> bytes res \<times> 'm node_db" where
  "getBaseTransaction e opn sqlUpdate db =
     (let db = opn db
      in bindS (FindSQLReferenceTransaction (te_sql e) db sqlUpdate, db) (\<lambda>txID db.
           if length txID > 0 then (Ok txID, db) else (getBaseTransactionInChain e db sqlUpdate [], db)))"

text \<open>\<open>prevtxs\<close> is a slice that can be \<open>nil\<close>: \<open>None\<close>.\<close>

definition checkBaseTransaction ::
  "('k, 'm) txm_env \<Rightarrow> ('m node_db \<Rightarrow> 'm node_db) \<Rightarrow> transaction \<Rightarrow> transaction list option \<Rightarrow> bytes
     \<Rightarrow> 'm node_db \<Rightarrow> unit res \<times> 'm node_db" where
  "checkBaseTransaction e opn tx prevtxs tip db =
     (let compare = (\<lambda>inputSQLTX db.
            if length inputSQLTX = 0 then (Err (ErrTXVerify ''sqlbaseisdifferent'' []), db)
            else if inputSQLTX \<noteq> tx_SQLBaseTX tx then (Err (ErrTXVerify ''sqlbaseisdifferent'' inputSQLTX), db)
            else (Ok (), db))
      in case prevtxs of
           None \<Rightarrow>
             (let db = opn db
              in bindS (pool_GetIfExists db (tx_ID tx), db) (\<lambda>txt db.
                   if txt \<noteq> None then (Ok (), db)
                   else bindS (getBaseTransaction e opn (tx_SQLCommand tx) db) compare))
         | Some txs \<Rightarrow> bindS (getBaseTransactionInList e db (tx_SQLCommand tx) txs tip, db) compare)"

section \<open>Verification\<close>

text \<open>
  The loop of \<^verbatim>\<open>getCurrencyInputTransactionsState\<close>, from input number \<open>vind\<close> on: transactions found, with
  \<open>None\<close> for the others, and the inputs not found.
\<close>

fun inputs_state ::
  "'m node_db \<Rightarrow> bytes \<Rightarrow> int \<Rightarrow> txinput list \<Rightarrow> prevtxs \<times> (int \<times> txinput) list
     \<Rightarrow> (prevtxs \<times> (int \<times> txinput) list) res" where
  "inputs_state db tip vind [] s = Ok s"
| "inputs_state db tip vind (vin # vins) (prevTXs, badinputs) =
     bindR (GetTranactionBlocks db (vin_Txid vin)) (\<lambda>txBockHashes.
     bindR (ChooseHashUnderTip db txBockHashes tip) (\<lambda>txBockHash.
       if txBockHash = [] then
         inputs_state db tip (vind + 1) vins (tput prevTXs vind None, badinputs @ [(vind, vin)])
       else
         bindR (GetTransactionFromBlock db (vin_Txid vin) txBockHash) (\<lambda>prevTX.
         bindR (GetTranactionOutputsSpent db (vin_Txid vin) txBockHash tip) (\<lambda>spentouts.
           if \<exists>so\<in>set spentouts. so_OutInd so = vin_Vout vin
           then Err (ErrNew ''Transaction input was already spent before'')
           else inputs_state db tip (vind + 1) vins (tput prevTXs vind (Some prevTX), badinputs)))))"

definition getCurrencyInputTransactionsState ::
  "'m node_db \<Rightarrow> transaction \<Rightarrow> bytes \<Rightarrow> (prevtxs \<times> (int \<times> txinput) list) res" where
  "getCurrencyInputTransactionsState db tx tip =
     (if IsCoinbaseTransfer tx then Ok ([], [])
      else inputs_state db tip 0 (tx_Vin tx) ([], []))"

definition verify_transaction ::
  "('k, 'm) txm_env \<Rightarrow> ('m node_db \<Rightarrow> 'm node_db) \<Rightarrow> transaction \<Rightarrow> transaction list option \<Rightarrow> bytes \<Rightarrow> int
     \<Rightarrow> 'm node_db \<Rightarrow> bool res \<times> 'm node_db" where
  "verify_transaction e opn tx prevtxs tip flags db =
     bindS (getCurrencyInputTransactionsState db tx tip, db) (\<lambda>(inputTXs, notFoundInputs) db.
     bindS
       (if length notFoundInputs > 0 then
          (let db = opn db
           in case prevtxs of
                None \<Rightarrow> (CheckInputsArePrepared db notFoundInputs [] inputTXs, db)
              | Some txs \<Rightarrow> (CheckCurrencyInputsWereBefore notFoundInputs txs [] inputTXs, db))
        else (Ok inputTXs, db)) (\<lambda>inputTXs db.
     bindS (Verify (te_crypto e) tx inputTXs (te_coins e), db) (\<lambda>_ db.
       if IsSQLCommand tx \<and> \<not> has_flag flags TXFlagsSkipSQLBaseCheck \<and> length (tx_SQLBaseTX tx) > 0 then
         bindS (checkBaseTransaction e opn tx prevtxs (if has_flag flags TXFlagsBasedOnTopOfChain then [] else tip) db)
           (\<lambda>_ db. (Ok True, db))
       else (Ok True, db))))"

definition txm_VerifyTransaction ::
  "('k, 'm) txm_env \<Rightarrow> transaction \<Rightarrow> transaction list option \<Rightarrow> bytes \<Rightarrow> int \<Rightarrow> 'm node_db
     \<Rightarrow> bool res \<times> 'm node_db" where
  "txm_VerifyTransaction e tx prevtxs tip flags db = verify_transaction e open_pool tx prevtxs tip flags db"

section \<open>Adding and cancelling transactions\<close>

definition cancel_transaction ::
  "('k, 'm) txm_env \<Rightarrow> bytes \<Rightarrow> bool \<Rightarrow> 'm node_db \<Rightarrow> unit res \<times> 'm node_db" where
  "cancel_transaction e txid sqlrollbacktoexecute db =
     bindS (pool_GetIfExists db txid, db) (\<lambda>tx db.
       case tx of
         None \<Rightarrow> (Err (ErrNew ''TX not found''), db)
       | Some tx \<Rightarrow>
           bindS (if IsSQLCommand tx \<and> sqlrollbacktoexecute
                  then ExecuteRollbackQueryFromTX (te_sql e) db (tx_SQLCommand tx) else (Ok (), db)) (\<lambda>_ db.
             case pool_Delete txid db of
               (Ok found, db) \<Rightarrow>
                 (if \<not> found
                  then (Err (ErrNew ''Transaction ID not found in the list of unapproved transactions''), db)
                  else (Ok (), db))
             | (Err _, db) \<Rightarrow> (Ok (), db)
             | (Panic, db) \<Rightarrow> (Panic, db)
             | (Diverge, db) \<Rightarrow> (Diverge, db)))"

definition CancelTransaction ::
  "('k, 'm) txm_env \<Rightarrow> bytes \<Rightarrow> bool \<Rightarrow> 'm node_db \<Rightarrow> unit res \<times> 'm node_db" where
  "CancelTransaction e txid sqlrollbacktoexecute db = cancel_transaction e txid sqlrollbacktoexecute (open_pool db)"

definition CleanUnapprovedCache :: "'m node_db \<Rightarrow> unit res \<times> 'm node_db" where
  "CleanUnapprovedCache db = pool_CleanUnapprovedCache (open_pool db)"

definition add_new_transaction ::
  "('k, 'm) txm_env \<Rightarrow> ('m node_db \<Rightarrow> 'm node_db) \<Rightarrow> transaction \<Rightarrow> int \<Rightarrow> 'm node_db \<Rightarrow> unit res \<times> 'm node_db" where
  "add_new_transaction e opn tx flags db =
     bindS
       (if IsSQLCommand tx \<and> has_flag flags TXFlagsExecute then
          (let (r, db) = ExecuteQuery (te_sql e) db (GetSQLQuery tx)
           in (errR ''Can not execute query from new TX'' (bindR r (\<lambda>_. Ok ())), db))
        else (Ok (), db)) (\<lambda>_ db.
       if has_flag flags TXFlagsNoPool then (Ok (), db)
       else (let (r, db) = pool_Add tx (opn db) in (errR ''Can not add TX to the pool'' r, db)))"

definition AddNewTransaction ::
  "('k, 'm) txm_env \<Rightarrow> transaction \<Rightarrow> int \<Rightarrow> 'm node_db \<Rightarrow> unit res \<times> 'm node_db" where
  "AddNewTransaction e tx flags db = add_new_transaction e open_pool tx flags db"

section \<open>Transactions for a new block\<close>

fun verify_for_block ::
  "('k, 'm) txm_env \<Rightarrow> transaction list \<Rightarrow> transaction list \<Rightarrow> 'm node_db \<Rightarrow> transaction list res \<times> 'm node_db" where
  "verify_for_block e [] txs db = (Ok txs, db)"
| "verify_for_block e (tx # txlist) txs db =
     (case verify_transaction e id tx (Some txs) [] TXFlagsNothing db of
        (Ok True, db) \<Rightarrow> verify_for_block e txlist (txs @ [tx]) db
      | (Panic, db) \<Rightarrow> (Panic, db)
      | (Diverge, db) \<Rightarrow> (Diverge, db)
      | (_, db) \<Rightarrow> ignoreS (cancel_transaction e (tx_ID tx) True db) (verify_for_block e txlist txs))"

fun cancel_all :: "('k, 'm) txm_env \<Rightarrow> transaction list \<Rightarrow> 'm node_db \<Rightarrow> unit res \<times> 'm node_db" where
  "cancel_all e [] db = (Ok (), db)"
| "cancel_all e (tx # txs) db = ignoreS (cancel_transaction e (tx_ID tx) True db) (cancel_all e txs)"

text \<open>An error of \<^verbatim>\<open>GetTransactions\<close> is not looked at: the list is empty then.\<close>

definition GetUnapprovedTransactionsForNewBlock ::
  "('k, 'm) txm_env \<Rightarrow> int \<Rightarrow> 'm node_db \<Rightarrow> transaction list res \<times> 'm node_db" where
  "GetUnapprovedTransactionsForNewBlock e number db =
     (let db = open_pool db
      in bindS (case pool_GetTransactions (te_sort_txs e) db number of Err _ \<Rightarrow> Ok [] | r \<Rightarrow> r, db) (\<lambda>txlist db.
         bindS (verify_for_block e txlist [] db) (\<lambda>txs db.
           if length txs = 0 then (Err (ErrNew ''All transactions are invalid! Waiting for new ones...''), db)
           else
             let (good, bad) = DetectConflicts txs
             in bindS (cancel_all e bad db) (\<lambda>_ db. (Ok good, db)))))"

section \<open>Blocks on and off the chain\<close>

text \<open>The endless \<open>for\<close> loop that cancels the conflicts of one transaction; it adds the ids it deleted.\<close>

fun cancel_conflicts ::
  "nat \<Rightarrow> ('k, 'm) txm_env \<Rightarrow> transaction \<Rightarrow> bytes list \<Rightarrow> 'm node_db \<Rightarrow> bytes list res \<times> 'm node_db" where
  "cancel_conflicts 0 e tx ids db = (Diverge, db)"
| "cancel_conflicts (Suc fuel) e tx ids db =
     bindS (DetectConflictsForNew db tx, db) (\<lambda>conflictTX db.
       case conflictTX of
         None \<Rightarrow> (Ok ids, db)
       | Some c \<Rightarrow>
           bindS (cancel_transaction e (tx_ID c) True db) (\<lambda>_ db.
             cancel_conflicts fuel e tx (ids @ [tx_ID c]) db))"

fun rollback_direct ::
  "('k, 'm) txm_env \<Rightarrow> transaction list \<Rightarrow> bytes list \<Rightarrow> 'm node_db \<Rightarrow> bytes list res \<times> 'm node_db" where
  "rollback_direct e [] ids db = (Ok ids, db)"
| "rollback_direct e (tx # txs) ids db =
     bindS (if IsSQLCommand tx then cancel_conflicts (Suc (length (db_pool db))) e tx ids db else (Ok ids, db))
       (\<lambda>ids db. rollback_direct e txs ids db)"

text \<open>The work list: transactions of the pool that are based on a deleted one are deleted too.\<close>

fun rollback_based :: "nat \<Rightarrow> ('k, 'm) txm_env \<Rightarrow> bytes list \<Rightarrow> 'm node_db \<Rightarrow> unit res \<times> 'm node_db" where
  "rollback_based fuel e [] db = (Ok (), db)"
| "rollback_based 0 e (txID # ids) db = (Diverge, db)"
| "rollback_based (Suc fuel) e (txID # ids) db =
     bindS (FindSQLBasedOnTransaction db txID, db) (\<lambda>conflicts db.
     bindS (forS (\<lambda>c db. cancel_transaction e c True db) conflicts db) (\<lambda>_ db.
       rollback_based fuel e (ids @ conflicts) db))"

definition rollbackConflictingFromPool ::
  "('k, 'm) txm_env \<Rightarrow> transaction list \<Rightarrow> 'm node_db \<Rightarrow> unit res \<times> 'm node_db" where
  "rollbackConflictingFromPool e txList db =
     (let db = snd (renewCache (open_pool db))
      in bindS (rollback_direct e txList [] db) (\<lambda>ids db.
           rollback_based (length ids + length (db_pool db)) e ids db))"

definition transactionsFromAddedBlock ::
  "('k, 'm) txm_env \<Rightarrow> transaction list \<Rightarrow> 'm node_db \<Rightarrow> unit res \<times> 'm node_db" where
  "transactionsFromAddedBlock e txList db =
     bindS (rollbackConflictingFromPool e txList db) (\<lambda>_ db.
       forS (\<lambda>tx db.
         if \<not> IsSQLCommand tx then (Ok (), db)
         else
           case pool_GetIfExists db (tx_ID tx) of
             Panic \<Rightarrow> (Panic, db)
           | Diverge \<Rightarrow> (Diverge, db)
           | Ok (Some _) \<Rightarrow> (Ok (), db)
           | _ \<Rightarrow> ExecuteQueryFromTX (te_sql e) db (tx_SQLCommand tx)) txList db)"

definition added_to_top :: "('k, 'm) txm_env \<Rightarrow> block \<Rightarrow> 'm node_db \<Rightarrow> unit res \<times> 'm node_db" where
  "added_to_top e b db =
     ignoreS (transactionsFromAddedBlock e (blk_Transactions b) db) (\<lambda>db.
     ignoreS (DeleteFromBlock b db) (\<lambda>db.
     ignoreS (uo_UpdateOnBlockAdd (te_crypto e) b db) (\<lambda>db.
     ignoreS (rr_UpdateOnBlockAdd b db) (\<lambda>db. (Ok (), db)))))"

definition txm_BlockAdded :: "('k, 'm) txm_env \<Rightarrow> block \<Rightarrow> bool \<Rightarrow> 'm node_db \<Rightarrow> unit res \<times> 'm node_db" where
  "txm_BlockAdded e b ontopofchain db =
     ignoreS (index_BlockAdded b db) (\<lambda>db. if ontopofchain then added_to_top e b db else (Ok (), db))"

definition txm_BlockRemoved :: "('k, 'm) txm_env \<Rightarrow> block \<Rightarrow> 'm node_db \<Rightarrow> unit res \<times> 'm node_db" where
  "txm_BlockRemoved e b db =
     ignoreS (AddFromCanceled b (open_pool db)) (\<lambda>db.
     ignoreS (uo_UpdateOnBlockCancel (te_crypto e) b db) (\<lambda>db.
     ignoreS (index_BlockRemoved b db) (\<lambda>db.
     ignoreS (rr_UpdateOnBlockCancel b db) (\<lambda>db. (Ok (), db)))))"

definition BlockAddedToPrimaryChain ::
  "('k, 'm) txm_env \<Rightarrow> block \<Rightarrow> 'm node_db \<Rightarrow> unit res \<times> 'm node_db" where
  "BlockAddedToPrimaryChain e b db = added_to_top e b db"

definition BlockRemovedFromPrimaryChain ::
  "('k, 'm) txm_env \<Rightarrow> block \<Rightarrow> 'm node_db \<Rightarrow> unit res \<times> 'm node_db" where
  "BlockRemovedFromPrimaryChain e b db =
     bindS
       (forS (\<lambda>tx db.
          if IsCoinbaseTransfer tx \<or> \<not> IsSQLCommand tx then (Ok (), db)
          else ExecuteRollbackQueryFromTX (te_sql e) db (tx_SQLCommand tx)) (rev (blk_Transactions b)) db) (\<lambda>_ db.
     ignoreS (uo_UpdateOnBlockCancel (te_crypto e) b db) (\<lambda>db.
     ignoreS (rr_UpdateOnBlockCancel b db) (\<lambda>db. (Ok (), db))))"

section \<open>Preparing transactions\<close>

text \<open>
  \<^verbatim>\<open>prepareNewCurrencyTransactionStart\<close>: amount rounded to 8 decimal places, inputs, their total and the
  transactions they spend. An error of \<^verbatim>\<open>GetCurrencyTXsPreparedBy\<close> is overwritten by the next call.
\<close>

definition prepareNewCurrencyTransactionStart ::
  "('k, 'm) txm_env \<Rightarrow> ('m node_db \<Rightarrow> 'm node_db) \<Rightarrow> bytes \<Rightarrow> float64 \<Rightarrow> 'm node_db
     \<Rightarrow> (float64 \<times> txinput list \<times> float64 \<times> (bytes \<times> transaction) list) res \<times> 'm node_db" where
  "prepareNewCurrencyTransactionStart e opn PubKey amount db =
     (let amount = ffix8 amount; cr = te_crypto e; db = opn db
      in (bindR (case GetCurrencyTXsPreparedBy cr db (HashPubKey cr PubKey) of Err _ \<Rightarrow> Ok ([], [], []) | r \<Rightarrow> r)
            (\<lambda>(pendinginputs, pendingoutputs, _).
          bindR (GetNewTransactionInputs cr (te_sort_outs e) db PubKey amount pendinginputs)
            (\<lambda>(inputs, prevTXs, totalamount).
          bindR
            (if flt totalamount amount then
               (if length pendingoutputs = 0 then Err (ErrTXPrepare ''noenoughfunds'')
                else ExtendNewTransactionInputs (db_gob db) amount totalamount inputs prevTXs pendingoutputs)
             else Ok (inputs, prevTXs, totalamount)) (\<lambda>(inputs, prevTXs, totalamount).
            if flt totalamount amount then Err (ErrNew ''No anough funds to make new transaction'')
            else Ok (amount, inputs, totalamount, prevTXs)))), db))"

text \<open>Serialised transaction, data to sign, and the transactions of the inputs by position.\<close>

definition inputs_by_position :: "txinput list \<Rightarrow> (bytes \<times> transaction) list \<Rightarrow> prevtxs" where
  "inputs_by_position inputs prevTXs =
     map (\<lambda>i. (int i, tget prevTXs (vin_Txid (inputs ! i)))) [0..<length inputs]"

definition prepareNewCurrencyTransactionComplete ::
  "('k, 'm) txm_env \<Rightarrow> gob \<Rightarrow> bytes \<Rightarrow> string \<Rightarrow> float64 \<Rightarrow> txinput list \<Rightarrow> float64
     \<Rightarrow> (bytes \<times> transaction) list \<Rightarrow> (bytes \<times> bytes \<times> prevtxs) res" where
  "prepareNewCurrencyTransactionComplete e gb PubKey to_addr amount inputs totalamount prevTXs =
     (let cr = te_crypto e;
          change = fsub totalamount amount;
          outputs = [NewTXOutput cr amount to_addr] @
            (if flt amount totalamount \<and> flt CurrencySmallestUnit change
             then [NewTXOutput cr change (PubKeyToAddres cr PubKey)] else []);
          inputTXs = inputs_by_position inputs prevTXs
      in bindR (PrepareSignData cr (NewTransaction (te_now e) inputs outputs) PubKey inputTXs) (\<lambda>(signdata, tx).
           Ok (gob_tx gb tx, signdata, inputTXs)))"

definition PrepareNewCurrencyTransaction ::
  "('k, 'm) txm_env \<Rightarrow> bytes \<Rightarrow> string \<Rightarrow> float64 \<Rightarrow> 'm node_db \<Rightarrow> (bytes \<times> bytes) res \<times> 'm node_db" where
  "PrepareNewCurrencyTransaction e PubKey to_addr amount db =
     bindS (prepareNewCurrencyTransactionStart e open_pool PubKey amount db)
       (\<lambda>(amount, inputs, totalamount, prevTXs) db.
     bindS (prepareNewCurrencyTransactionComplete e (db_gob db) PubKey to_addr amount inputs totalamount prevTXs, db)
       (\<lambda>(txBytes, signdata, _) db. (Ok (txBytes, signdata), db)))"

definition PrepareNewSQLTransaction ::
  "('k, 'm) txm_env \<Rightarrow> bytes \<Rightarrow> sqlupdate \<Rightarrow> float64 \<Rightarrow> string \<Rightarrow> 'm node_db \<Rightarrow> (bytes \<times> bytes) res \<times> 'm node_db" where
  "PrepareNewSQLTransaction e PubKey sqlUpdate amount to_addr db =
     bindS
       (if flt 0 amount then
          bindS (prepareNewCurrencyTransactionStart e open_pool PubKey amount db)
            (\<lambda>(amount, inputs, totalamount, prevTXs) db.
          bindS (prepareNewCurrencyTransactionComplete e (db_gob db) PubKey to_addr amount inputs totalamount prevTXs,
                 db) (\<lambda>(txBytes, _, inputsTX) db.
          bindS (gob_untx (db_gob db) txBytes, db) (\<lambda>tx db.
            (Ok (tx\<lparr>tx_SQLCommand := sqlUpdate\<rparr>, inputsTX), db))))
        else bindS (NewSQLTransaction (te_now e) sqlUpdate [] [], db) (\<lambda>tx db. (Ok (tx, []), db)))
       (\<lambda>(tx, inputsTX) db.
     bindS (getBaseTransaction e open_pool sqlUpdate db) (\<lambda>inputSQLTX db.
     bindS (errR ''Error serialyxing prepared TX''
              (PrepareSignData (te_crypto e) (tx\<lparr>tx_SQLBaseTX := inputSQLTX\<rparr>) PubKey inputsTX), db)
       (\<lambda>(datatosign, tx) db. (Ok (gob_tx (db_gob db) tx, datatosign), db))))"

text \<open>
  \<^verbatim>\<open>PrepareSQLTransactionSignatureData\<close>: the loop assigns the transaction it looks up to \<open>tx\<close> itself and
  stores the empty \<open>txi\<close> as the transaction of the input.
\<close>

fun resign_inputs ::
  "int \<Rightarrow> txinput list \<Rightarrow> transaction \<times> prevtxs \<Rightarrow> 'm node_db \<Rightarrow> (transaction \<times> prevtxs) res \<times> 'm node_db" where
  "resign_inputs k [] s db = (Ok s, db)"
| "resign_inputs k (vin # vins) (tx, inputTX) db =
     bindS (txm_GetIfExists (vin_Txid vin) db) (\<lambda>found db.
       case found of
         None \<Rightarrow> (Err (ErrNew ''Input transaction is not found''), db)
       | Some tx \<Rightarrow> resign_inputs (k + 1) vins (tx, tput inputTX k (Some emptyTransaction)) db)"

definition PrepareSQLTransactionSignatureData ::
  "('k, 'm) txm_env \<Rightarrow> transaction \<Rightarrow> 'm node_db \<Rightarrow> (bytes \<times> bytes) res \<times> 'm node_db" where
  "PrepareSQLTransactionSignatureData e tx db =
     bindS (resign_inputs 0 (tx_Vin tx) (tx, []) db) (\<lambda>(tx, inputTX) db.
     bindS (errR ''Error serialyzing prepared TX''
              (PrepareSignData (te_crypto e) tx (tx_ByPubKey tx) inputTX), db) (\<lambda>(datatosign, tx) db.
       (Ok (gob_tx (db_gob db) tx, datatosign), db)))"

text \<open>\<open>i\<close> counts the calls of \<open>ecdsa.Sign\<close>.\<close>

definition CreateCurrencyTransaction ::
  "('k, 'm) txm_env \<Rightarrow> nat \<Rightarrow> bytes \<Rightarrow> 'k \<Rightarrow> string \<Rightarrow> float64 \<Rightarrow> 'm node_db \<Rightarrow> transaction res \<times> 'm node_db" where
  "CreateCurrencyTransaction e i PubKey privKey to_addr amount db =
     (if fle amount 0 then (Err (ErrNew ''Amount must be positive value''), db)
      else if to_addr = '''' then (Err (ErrNew ''Recipient address is not provided''), db)
      else
        bindS (let (r, db) = PrepareNewCurrencyTransaction e PubKey to_addr amount db in (errR ''Prepare error'' r, db))
          (\<lambda>(txBytes, DataToSign) db.
        bindS (errR ''Sign error'' (SignDataByPubKey (te_crypto e) i PubKey privKey DataToSign), db) (\<lambda>signatures db.
        bindS (gob_untx (db_gob db) txBytes, db) (\<lambda>NewTX db.
          let NewTX = CompleteTransaction (te_crypto e) (db_gob db) NewTX signatures
          in bindS (let (r, db) = add_new_transaction e id NewTX TXFlagsExecute db
                    in (errR ''Final ading TX error'' r, db)) (\<lambda>_ db. (Ok NewTX, db))))))"

section \<open>The pool under the manager\<close>

lemma open_pool_frame [simp]:
  "db_opened (open_pool db) = db_opened db" "db_pool (open_pool db) = db_pool db"
  "db_app (open_pool db) = db_app db" "db_blocks (open_pool db) = db_blocks db"
  "db_chain (open_pool db) = db_chain db"
  by (auto simp: open_pool_def renewCacheIfNeeded_def renewCache_def pool_GetCount_def getConnection_def Let_def)

lemma open_pool_ok:
  assumes "pool_ok db" and "db_opened db"
  shows "pool_ok (open_pool db)"
proof (cases "length (db_pool db) \<le> maxCountOfTransactionInMemoryCache")
  case True
  then obtain c where "renewCache db = (Ok (), db\<lparr>db_txcache := Some c\<rparr>)" "pool_ok (db\<lparr>db_txcache := Some c\<rparr>)"
    using renewCache_ok[OF assms] by blast
  then show ?thesis using assms by (simp add: open_pool_def renewCacheIfNeeded_def)
next
  case False
  then show ?thesis using assms
    by (auto simp: open_pool_def renewCacheIfNeeded_def renewCache_def pool_GetCount_def getConnection_def pool_ok_def)
qed

lemma renewCache_keeps:
  assumes "pool_ok db" and "db_opened db"
  shows "pool_ok (snd (renewCache db)) \<and> db_opened (snd (renewCache db)) \<and> db_pool (snd (renewCache db)) = db_pool db"
proof (cases "length (db_pool db) \<le> maxCountOfTransactionInMemoryCache")
  case True
  then obtain c where "renewCache db = (Ok (), db\<lparr>db_txcache := Some c\<rparr>)" "pool_ok (db\<lparr>db_txcache := Some c\<rparr>)"
    using renewCache_ok[OF assms] by blast
  then show ?thesis using assms by simp
next
  case False
  then show ?thesis using assms
    by (auto simp: renewCache_def pool_GetCount_def getConnection_def pool_ok_def)
qed

text \<open>\<open>app_step\<close>: the state of the application's tables changed, nothing else.\<close>

lemma ExecuteSQL_app: "\<exists>r m. ExecuteSQL e db q = (r, db\<lparr>db_app := m\<rparr>)"
proof (cases "db_opened db")
  case True
  then show ?thesis
    by (cases "sq_exec e q (db_app db)") (auto simp: ExecuteSQL_def getConnection_def)
next
  case False
  then show ?thesis by (intro exI[of _ "Err _"] exI[of _ "db_app db"]) (simp add: ExecuteSQL_def getConnection_def)
qed

lemma pool_ok_app [simp]:
  "pool_ok (db\<lparr>db_app := m\<rparr>) = pool_ok db" "pool_free (db\<lparr>db_app := m\<rparr>) = pool_free db"
  by (simp_all add: pool_ok_def pool_free_def cong: option.case_cong)

text \<open>What \<^verbatim>\<open>CancelTransaction\<close> does: the rollback runs first, then the transaction leaves the pool.\<close>

lemma cancel_transaction_run:
  assumes ok: "pool_ok db" and op: "db_opened db" and free: "pool_free db"
    and run: "cancel_transaction e k rb db = (r, db')"
  shows "pool_ok db' \<and> pool_free db' \<and> db_opened db' \<and>
    (r = Ok () \<longrightarrow> tget (db_pool db) k \<noteq> None \<and>
       (\<forall>k'. tget (db_pool db') k' = (if k' = k then None else tget (db_pool db) k'))) \<and>
    (r \<noteq> Ok () \<longrightarrow> db_pool db' = db_pool db)"
proof (cases "tget (db_pool db) k")
  case None
  then show ?thesis using assms by (auto simp: cancel_transaction_def pool_GetIfExists_ok)
next
  case (Some tx)
  have get: "pool_GetIfExists db k = Ok (Some tx)" using pool_GetIfExists_ok[OF ok op] Some by simp
  obtain r1 m where m: "(if IsSQLCommand tx \<and> rb then ExecuteRollbackQueryFromTX (te_sql e) db (tx_SQLCommand tx)
      else (Ok (), db)) = (r1, db\<lparr>db_app := m\<rparr>)"
    using ExecuteSQL_app[of "te_sql e" db "string_of_bytes (su_RollbackQuery (tx_SQLCommand tx))"]
    unfolding ExecuteRollbackQueryFromTX_def
    by (cases "IsSQLCommand tx \<and> rb") (auto intro: that[of "Ok ()" "db_app db"])
  let ?db = "db\<lparr>db_app := m\<rparr>"
  have ok1: "pool_ok ?db" "db_opened ?db" "pool_free ?db" using assms by simp_all
  obtain d where d: "pool_Delete k ?db = (Ok True, d)" "pool_ok d" "db_opened d"
    "\<forall>k'. tget (db_pool d) k' = (if k' = k then None else tget (db_pool db) k')"
    using pool_Delete_run[OF ok1(1,2), of k] Some by auto
  have fd: "pool_free d" using pool_Delete_free[OF ok1 d(1)] .
  show ?thesis
  proof (cases "r1 = Ok ()")
    case True
    then have "(r, db') = (Ok (), d)" using run by (simp add: cancel_transaction_def get m d(1))
    then show ?thesis using d fd Some by simp
  next
    case False
    then have "r \<noteq> Ok () \<and> db' = ?db" using run by (cases r1) (auto simp: cancel_transaction_def get m)
    then show ?thesis using ok1 by simp
  qed
qed

lemma distinct_keys_less:
  assumes "distinct (map fst t)" and "distinct (map fst t')" and "tget t k \<noteq> None"
    and "\<forall>k'. tget t' k' = (if k' = k then None else tget t k')"
  shows "length t' < length t"
proof -
  have keys: "fst ` set x = {k. tget x k \<noteq> None}" for x :: "('a \<times> 'b) list"
    by (auto simp: tget_None)
  have "x \<in> fst ` set t' \<Longrightarrow> x \<in> fst ` set t" for x unfolding keys using assms(4) by (simp split: if_splits)
  moreover have "k \<in> fst ` set t" "k \<notin> fst ` set t'" unfolding keys using assms(3,4) by simp_all
  ultimately have "fst ` set t' \<subset> fst ` set t" by blast
  then have "card (fst ` set t') < card (fst ` set t)" by (intro psubset_card_mono) auto
  moreover have "card (fst ` set t) = length t" "card (fst ` set t') = length t'"
    using assms(1,2) distinct_card[of "map fst t"] distinct_card[of "map fst t'"] by simp_all
  ultimately show ?thesis by simp
qed

section \<open>Conflicts leave the pool\<close>

text \<open>The state of the pool that every loop below keeps.\<close>

definition pool_good :: "'m node_db \<Rightarrow> bool" where
  "pool_good db \<longleftrightarrow> pool_ok db \<and> pool_free db \<and> db_opened db"

lemma pool_set: "pool_good db \<Longrightarrow> (k, t) \<in> set (db_pool db) \<longleftrightarrow> tget (db_pool db) k = Some t"
  unfolding pool_good_def pool_ok_def by (simp add: tget_set)

text \<open>The server of the application's tables answers every statement, with or without an error.\<close>

definition server_answers :: "'m sql_env \<Rightarrow> bool" where
  "server_answers e \<longleftrightarrow> (\<forall>q m. fst (sq_exec e q m) \<noteq> Panic \<and> fst (sq_exec e q m) \<noteq> Diverge)"

lemma ExecuteSQL_answers:
  "server_answers e \<Longrightarrow> fst (ExecuteSQL e db q) \<noteq> Panic \<and> fst (ExecuteSQL e db q) \<noteq> Diverge"
proof -
  assume "server_answers e"
  then have "fst (sq_exec e q (db_app db)) \<noteq> Panic \<and> fst (sq_exec e q (db_app db)) \<noteq> Diverge"
    by (simp add: server_answers_def)
  then show ?thesis by (cases "sq_exec e q (db_app db)") (simp add: ExecuteSQL_def getConnection_def)
qed

lemma cancel_answers:
  assumes good: "pool_good db" and "server_answers (te_sql e)" and run: "cancel_transaction e k rb db = (r, db')"
  shows "r \<noteq> Panic \<and> r \<noteq> Diverge"
proof -
  have ok: "pool_ok db" "db_opened db" using good by (simp_all add: pool_good_def)
  show ?thesis
  proof (cases "tget (db_pool db) k")
    case None
    then show ?thesis using run pool_GetIfExists_ok[OF ok] by (auto simp: cancel_transaction_def)
  next
    case (Some tx)
    obtain r1 d where d: "(if IsSQLCommand tx \<and> rb then ExecuteRollbackQueryFromTX (te_sql e) db (tx_SQLCommand tx)
      else (Ok (), db)) = (r1, d)" by fastforce
    then have "r1 \<noteq> Panic \<and> r1 \<noteq> Diverge"
      using ExecuteSQL_answers[OF assms(2), of db "string_of_bytes (su_RollbackQuery (tx_SQLCommand tx))"]
      by (auto simp: ExecuteRollbackQueryFromTX_def split: if_splits)
    moreover have "fst (pool_Delete k d) \<noteq> Panic \<and> fst (pool_Delete k d) \<noteq> Diverge"
      by (auto simp: pool_Delete_def getConnection_def Let_def)
    ultimately show ?thesis
      using run Some pool_GetIfExists_ok[OF ok] d
      by (cases r1) (auto simp: cancel_transaction_def split: res.splits prod.splits if_splits)
  qed
qed

lemma cancel_shrinks:
  assumes good: "pool_good db" and run: "cancel_transaction e k rb db = (r, db')"
  shows "pool_good db' \<and> set (db_pool db') \<subseteq> set (db_pool db) \<and>
     (r = Ok () \<longrightarrow> length (db_pool db') < length (db_pool db))"
proof -
  note c = cancel_transaction_run[OF _ _ _ run]
  have g: "pool_good db'" using c good by (simp add: pool_good_def)
  show ?thesis
  proof (cases "r = Ok ()")
    case True
    then have t: "tget (db_pool db) k \<noteq> None"
      "\<forall>k'. tget (db_pool db') k' = (if k' = k then None else tget (db_pool db) k')"
      using c good by (simp_all add: pool_good_def)
    have "p \<in> set (db_pool db)" if "p \<in> set (db_pool db')" for p
      using that pool_set[OF g, of "fst p" "snd p"] pool_set[OF good, of "fst p" "snd p"] t(2) by (simp split: if_splits)
    moreover have "length (db_pool db') < length (db_pool db)"
      using good g distinct_keys_less[OF _ _ t] by (simp add: pool_good_def pool_ok_def)
    ultimately show ?thesis using g by blast
  next
    case False
    then show ?thesis using c good g by (simp add: pool_good_def)
  qed
qed

lemma DetectConflicts_good:
  assumes "pool_good db"
  obtains c where "DetectConflictsForNew db tx = Ok c"
    "case c of None \<Rightarrow> \<forall>p\<in>set (db_pool db). \<not> conflicts_with tx (snd p)
             | Some t \<Rightarrow> t \<in> snd ` set (db_pool db) \<and> conflicts_with tx t"
  using DetectConflictsForNew_spec[of db tx] assms unfolding pool_good_def by blast

lemma cancel_conflicts_spec:
  assumes "pool_good db" and "server_answers (te_sql e)" and "length (db_pool db) < fuel"
    and "cancel_conflicts fuel e tx ids db = (r, db')"
  shows "pool_good db' \<and> set (db_pool db') \<subseteq> set (db_pool db) \<and> r \<noteq> Panic \<and> r \<noteq> Diverge \<and>
     (\<forall>ids'. r = Ok ids' \<longrightarrow> (\<forall>p\<in>set (db_pool db'). \<not> conflicts_with tx (snd p)) \<and>
        length (db_pool db') + length ids' \<le> length (db_pool db) + length ids)"
  using assms
proof (induction fuel arbitrary: ids db)
  case (Suc fuel)
  obtain c where c: "DetectConflictsForNew db tx = Ok c"
    "case c of None \<Rightarrow> \<forall>p\<in>set (db_pool db). \<not> conflicts_with tx (snd p)
             | Some t \<Rightarrow> t \<in> snd ` set (db_pool db) \<and> conflicts_with tx t"
    using DetectConflicts_good[OF Suc.prems(1)] by blast
  show ?case
  proof (cases c)
    case None
    then show ?thesis using c Suc.prems by auto
  next
    case (Some t)
    obtain r1 d where d: "cancel_transaction e (tx_ID t) True db = (r1, d)" by fastforce
    note sh = cancel_shrinks[OF Suc.prems(1) d] and an = cancel_answers[OF Suc.prems(1,2) d]
    show ?thesis
    proof (cases "r1 = Ok ()")
      case True
      then have run: "cancel_conflicts fuel e tx (ids @ [tx_ID t]) d = (r, db')" and less: "length (db_pool d) < fuel"
        using Suc.prems(3,4) c(1) Some d sh by simp_all
      show ?thesis using Suc.IH[OF _ Suc.prems(2) less run] sh True by auto
    next
      case False
      then obtain er where "r1 = Err er" using an by (cases r1) auto
      then show ?thesis using Suc.prems(4) c(1) Some d sh by auto
    qed
  qed
qed simp


lemma rollback_direct_spec:
  assumes "pool_good db" and "server_answers (te_sql e)" and "rollback_direct e txs ids db = (r, db')"
  shows "pool_good db' \<and> set (db_pool db') \<subseteq> set (db_pool db) \<and> r \<noteq> Panic \<and> r \<noteq> Diverge \<and>
     (\<forall>ids'. r = Ok ids' \<longrightarrow>
        (\<forall>tx\<in>set txs. IsSQLCommand tx \<longrightarrow> (\<forall>p\<in>set (db_pool db'). \<not> conflicts_with tx (snd p))))"
  using assms
proof (induction txs arbitrary: ids db)
  case (Cons tx txs)
  obtain r1 d where d: "(if IsSQLCommand tx then cancel_conflicts (Suc (length (db_pool db))) e tx ids db
    else (Ok ids, db)) = (r1, d)" by fastforce
  have sp: "pool_good d \<and> set (db_pool d) \<subseteq> set (db_pool db) \<and> r1 \<noteq> Panic \<and> r1 \<noteq> Diverge \<and>
     (\<forall>ids'. r1 = Ok ids' \<longrightarrow> IsSQLCommand tx \<longrightarrow> (\<forall>p\<in>set (db_pool d). \<not> conflicts_with tx (snd p)))"
    using cancel_conflicts_spec[OF Cons.prems(1,2) lessI, of tx ids r1 d] d Cons.prems(1)
    by (cases "IsSQLCommand tx") auto
  show ?case
  proof (cases r1)
    case (Ok ids1)
    then have run: "rollback_direct e txs ids1 d = (r, db')" using Cons.prems(3) d by simp
    show ?thesis using Cons.IH[OF _ Cons.prems(2) run] sp Ok by (auto 4 3)
  next
    case (Err er)
    then show ?thesis using Cons.prems(3) d sp by auto
  qed (use sp in auto)
qed auto

lemma cancel_list_spec:
  assumes "pool_good db" and "server_answers (te_sql e)"
    and "forS (\<lambda>c. cancel_transaction e c True) cs db = (r, db')"
  shows "pool_good db' \<and> set (db_pool db') \<subseteq> set (db_pool db) \<and> r \<noteq> Panic \<and> r \<noteq> Diverge \<and>
     (r = Ok () \<longrightarrow> length (db_pool db') + length cs \<le> length (db_pool db))"
  using assms
proof (induction cs arbitrary: db)
  case (Cons c cs)
  obtain r1 d where d: "cancel_transaction e c True db = (r1, d)" by fastforce
  note sh = cancel_shrinks[OF Cons.prems(1) d] and an = cancel_answers[OF Cons.prems(1,2) d]
  show ?case
  proof (cases r1)
    case (Ok u)
    then have run: "forS (\<lambda>c. cancel_transaction e c True) cs d = (r, db')" using Cons.prems(3) d by simp
    show ?thesis using Cons.IH[OF _ Cons.prems(2) run] sh Ok by auto
  next
    case (Err er)
    then show ?thesis using Cons.prems(3) d sh by auto
  qed (use an in auto)
qed auto

lemma FindSQLBased_total:
  "db_opened db \<Longrightarrow> \<exists>ids. FindSQLBasedOnTransaction db k = Ok ids"
proof -
  let ?f = "\<lambda>tx txIDs. if IsSQLCommand tx \<and> tx_SQLBaseTX tx = k then Ok (False, txIDs @ [tx_ID tx]) else Ok (False, txIDs)"
  have "\<exists>ids. each_cached ?f txs s = Ok ids" "\<exists>ids. each_stored ?f txs s = Ok ids" for txs s
    by (induction txs arbitrary: s) auto
  then show "db_opened db \<Longrightarrow> ?thesis"
    by (auto simp: FindSQLBasedOnTransaction_def forEachTransaction_def getConnection_def split: option.split)
qed

lemma rollback_based_spec:
  assumes "pool_good db" and "server_answers (te_sql e)" and "length ids + length (db_pool db) \<le> fuel"
    and "rollback_based fuel e ids db = (r, db')"
  shows "pool_good db' \<and> set (db_pool db') \<subseteq> set (db_pool db) \<and> r \<noteq> Panic \<and> r \<noteq> Diverge"
  using assms
proof (induction fuel e ids db rule: rollback_based.induct)
  case (3 fuel e txID ids db)
  obtain cs where cs: "FindSQLBasedOnTransaction db txID = Ok cs"
    using FindSQLBased_total 3(2) unfolding pool_good_def by blast
  obtain r1 d where d: "forS (\<lambda>c. cancel_transaction e c True) cs db = (r1, d)" by fastforce
  note sp = cancel_list_spec[OF "3.prems"(1,2) d]
  show ?case
  proof (cases r1)
    case (Ok u)
    then have run: "rollback_based fuel e (ids @ cs) d = (r, db')" and le: "length (ids @ cs) + length (db_pool d) \<le> fuel"
      using "3.prems"(3,4) cs d sp by simp_all
    have "pool_good db' \<and> set (db_pool db') \<subseteq> set (db_pool d) \<and> r \<noteq> Panic \<and> r \<noteq> Diverge"
      using "3.IH"[of cs db "()" d] run le cs d Ok sp "3.prems"(2) by simp
    then show ?thesis using sp by auto
  next
    case (Err er)
    then have "r = Err er \<and> db' = d" using "3.prems"(4) cs d by simp
    then show ?thesis using sp by simp
  qed (use sp in auto)
qed auto

text \<open>
  C26: rollbackConflictingFromPool always returns, only removes from the pool, keeps it consistent,
  and after it returned without an error no transaction of the pool conflicts with an SQL
  transaction of the list.
\<close>

lemma rollbackConflicting_spec:
  assumes "pool_good db" and "server_answers (te_sql e)" and "rollbackConflictingFromPool e txs db = (r, db')"
  shows "pool_good db' \<and> set (db_pool db') \<subseteq> set (db_pool db) \<and> r \<noteq> Panic \<and> r \<noteq> Diverge \<and>
    (r = Ok () \<longrightarrow> (\<forall>tx\<in>set txs. IsSQLCommand tx \<longrightarrow> (\<forall>p\<in>set (db_pool db'). \<not> conflicts_with tx (snd p))))"
proof -
  let ?d0 = "snd (renewCache (open_pool db))"
  have g0: "pool_good ?d0" "db_pool ?d0 = db_pool db"
    using assms(1) renewCache_keeps[of "open_pool db"] open_pool_ok[of db]
    by (simp_all add: pool_good_def pool_free_def)
  obtain r1 d where d: "rollback_direct e txs [] ?d0 = (r1, d)" by fastforce
  note sp = rollback_direct_spec[OF g0(1) assms(2) d]
  show ?thesis
  proof (cases r1)
    case (Ok ids)
    then have run: "rollback_based (length ids + length (db_pool d)) e ids d = (r, db')"
      using assms(3) d by (simp add: rollbackConflictingFromPool_def Let_def)
    have gd: "pool_good d" "set (db_pool d) \<subseteq> set (db_pool db)" using sp g0(2) by simp_all
    have free: "\<not> conflicts_with tx (snd p)" if "tx \<in> set txs" "IsSQLCommand tx" "p \<in> set (db_pool d)" for tx p
      using sp Ok that by simp
    note rb = rollback_based_spec[OF gd(1) assms(2) order_refl run]
    have sub: "set (db_pool db') \<subseteq> set (db_pool d)" using rb by simp
    have "\<forall>tx\<in>set txs. IsSQLCommand tx \<longrightarrow> (\<forall>p\<in>set (db_pool db'). \<not> conflicts_with tx (snd p))"
      using sub free by blast
    then show ?thesis using rb gd(2) sub by simp
  next
    case (Err er)
    then have "r = Err er \<and> db' = d" using assms(3) d by (simp add: rollbackConflictingFromPool_def Let_def)
    then show ?thesis using sp g0(2) by simp
  qed (use sp in auto)
qed

section \<open>Adding and removing\<close>

text \<open>The query of a new transaction runs before the pool decides whether it takes the transaction.\<close>

lemma AddNewTransaction_executes_first:
  assumes "IsSQLCommand tx" and "has_flag flags TXFlagsExecute" and "\<not> has_flag flags TXFlagsNoPool"
    and "ExecuteQuery (te_sql e) db (GetSQLQuery tx) = (Ok su, d)"
    and "pool_good (open_pool d)" and "p \<in> set (db_pool d)" and "conflicts_with tx (snd p)"
  shows "AddNewTransaction e tx flags db = (Err (ErrNew ''Can not add TX to the pool''), open_pool d)"
proof -
  have "pool_Add tx (open_pool d) =
      (Err (ErrNew ''The transaction conflicts with other prepared transaction''), open_pool d)"
  proof -
    have "\<exists>p\<in>set (db_pool (open_pool d)). conflicts_with tx (snd p)" using assms(6,7) by auto
    then show ?thesis using pool_Add_run[of "open_pool d" tx] assms(5) unfolding pool_good_def by metis
  qed
  then show ?thesis using assms(1-4) by (simp add: AddNewTransaction_def add_new_transaction_def)
qed

text \<open>Running the queries of a block and then the rollbacks in reverse order.\<close>

definition run_block_queries :: "'m sql_env \<Rightarrow> transaction list \<Rightarrow> 'm node_db \<Rightarrow> unit res \<times> 'm node_db" where
  "run_block_queries e txs db =
     forS (\<lambda>tx db. if \<not> IsSQLCommand tx then (Ok (), db) else ExecuteQueryFromTX e db (tx_SQLCommand tx)) txs db"

definition run_block_rollbacks :: "'m sql_env \<Rightarrow> transaction list \<Rightarrow> 'm node_db \<Rightarrow> unit res \<times> 'm node_db" where
  "run_block_rollbacks e txs db =
     forS (\<lambda>tx db. if IsCoinbaseTransfer tx \<or> \<not> IsSQLCommand tx then (Ok (), db)
                    else ExecuteRollbackQueryFromTX e db (tx_SQLCommand tx)) (rev txs) db"

text \<open>The rollback of a transaction undoes its query.\<close>

definition rollback_undoes :: "'m sql_env \<Rightarrow> transaction \<Rightarrow> bool" where
  "rollback_undoes e tx \<longleftrightarrow>
     (\<forall>m m'. sq_exec e (string_of_bytes (su_Query (tx_SQLCommand tx))) m = (Ok (), m') \<longrightarrow>
        sq_exec e (string_of_bytes (su_RollbackQuery (tx_SQLCommand tx))) m' = (Ok (), m))"

lemma rollbacks_undo_queries:
  assumes "\<forall>tx\<in>set txs. IsSQLCommand tx \<longrightarrow> \<not> IsCoinbaseTransfer tx \<and> rollback_undoes e tx"
    and "run_block_queries e txs db = (Ok (), db')"
  shows "run_block_rollbacks e txs db' = (Ok (), db)"
  using assms
proof (induction txs arbitrary: db)
  case (Cons tx txs)
  obtain d where d: "(if \<not> IsSQLCommand tx then (Ok (), db) else ExecuteQueryFromTX e db (tx_SQLCommand tx)) = (Ok (), d)"
    "run_block_queries e txs d = (Ok (), db')"
    using Cons.prems(2) by (auto simp: run_block_queries_def res_simps)
  have ih: "run_block_rollbacks e txs db' = (Ok (), d)" using Cons.IH[OF _ d(2)] Cons.prems(1) by simp
  have "(if IsCoinbaseTransfer tx \<or> \<not> IsSQLCommand tx then (Ok (), d)
                    else ExecuteRollbackQueryFromTX e d (tx_SQLCommand tx)) = (Ok (), db)"
  proof (cases "IsSQLCommand tx")
    case True
    then have "rollback_undoes e tx" "\<not> IsCoinbaseTransfer tx" using Cons.prems(1) by simp_all
    moreover obtain m where "db_opened db" "d = db\<lparr>db_app := m\<rparr>"
      "sq_exec e (string_of_bytes (su_Query (tx_SQLCommand tx))) (db_app db) = (Ok (), m)"
      using d(1) True
      by (auto simp: ExecuteQueryFromTX_def ExecuteSQL_def getConnection_def split: if_splits prod.splits)
    ultimately show ?thesis using True
      by (simp add: rollback_undoes_def ExecuteRollbackQueryFromTX_def ExecuteSQL_def getConnection_def)
  qed (use d(1) in simp)
  then show ?case using ih unfolding run_block_rollbacks_def by (simp add: forS_append)
qed (simp add: run_block_queries_def run_block_rollbacks_def)

text \<open>Cancelling a block leaves the application's tables alone.\<close>

lemma forS_frame:
  assumes "\<And>x s r s'. f x s = (r, s') \<Longrightarrow> g s' = g s" and "forS f xs s = (r, s')"
  shows "g s' = g s"
  using assms(2)
proof (induction xs arbitrary: s)
  case (Cons x xs)
  obtain r1 d where d: "f x s = (r1, d)" by fastforce
  then show ?case using Cons assms(1)[OF d] by (cases r1) auto
qed simp

lemma restore_inputs_app: "restore_inputs cr b tx vins db = (r, d) \<Longrightarrow> db_app d = db_app db"
proof (induction cr b tx vins db rule: restore_inputs.induct)
  case (2 cr b tx vin vins db)
  show ?case
  proof (cases "GetCurrencyTransactionAllInfo db (vin_Txid vin) (blk_PrevBlockHash b)")
    case (Ok x)
    obtain txi spent h where "x = (txi, spent, h)" by (cases x)
    then show ?thesis using 2 Ok by (cases txi) (auto simp: Let_def)
  qed (use 2 in auto)
qed simp

lemma uo_cancel_tx_app: "uo_cancel_tx cr b tx db = (r, d) \<Longrightarrow> db_app d = db_app db"
  using restore_inputs_app[of cr b tx "tx_Vin tx" "db\<lparr>db_unspent := tdel (db_unspent db) (tx_ID tx)\<rparr>" r d]
  by (auto simp: uo_cancel_tx_def Let_def split: if_splits)

lemma uo_cancel_app: "uo_UpdateOnBlockCancel cr b db = (r, d) \<Longrightarrow> db_app d = db_app db"
  using forS_frame[where f = "uo_cancel_tx cr b" and g = db_app, OF uo_cancel_tx_app]
  by (cases "db_opened db") (auto simp: uo_UpdateOnBlockCancel_def getConnection_def)

lemma rr_cancel_tx_app:
  assumes "rr_cancel_tx tx db = (r, d)"
  shows "db_app d = db_app db"
proof (cases "IsSQLCommand tx \<and> su_ReferenceID (tx_SQLCommand tx) \<noteq> []")
  case True
  then show ?thesis using assms
    by (cases "index_GetTransaction db (tx_SQLBaseTX tx) []")
      (auto simp: rr_cancel_tx_def Let_def split: option.splits if_splits)
qed (use assms in \<open>auto simp: rr_cancel_tx_def Let_def split: if_splits\<close>)

lemma rr_cancel_app: "rr_UpdateOnBlockCancel b db = (r, d) \<Longrightarrow> db_app d = db_app db"
  using forS_frame[where f = rr_cancel_tx and g = db_app, OF rr_cancel_tx_app]
  by (cases "db_opened db") (auto simp: rr_UpdateOnBlockCancel_def getConnection_def)

lemma BlockRemovedFromPrimaryChain_app:
  assumes "run_block_rollbacks (te_sql e) (blk_Transactions b) db = (Ok (), d)"
    and "BlockRemovedFromPrimaryChain e b db = (r, d')"
  shows "db_app d' = db_app d"
proof -
  obtain r1 d1 where d1: "uo_UpdateOnBlockCancel (te_crypto e) b d = (r1, d1)" by fastforce
  obtain r2 d2 where d2: "rr_UpdateOnBlockCancel b d1 = (r2, d2)" by fastforce
  have "d' = d1 \<or> d' = d2"
    using assms d1 d2 unfolding BlockRemovedFromPrimaryChain_def run_block_rollbacks_def
    by (cases r1; cases r2) auto
  then show ?thesis using uo_cancel_app[OF d1] rr_cancel_app[OF d2] by auto
qed

text \<open>With an empty pool nothing conflicts, and every query of the block runs.\<close>

lemma empty_pool_reload:
  "db_opened db \<Longrightarrow> db_pool db = [] \<Longrightarrow> renewCache db = (Ok (), db\<lparr>db_txcache := Some []\<rparr>)"
  by (simp add: renewCache_def pool_GetCount_def getConnection_def Let_def)

lemma rollback_direct_empty:
  "db_txcache db = Some [] \<Longrightarrow> rollback_direct e txs [] db = (Ok [], db)"
  by (induction txs) (auto simp: DetectConflictsForNew_def forEachTransaction_def)

lemma run_block_queries_cached:
  assumes "db_txcache db = Some []"
  shows "forS (\<lambda>tx db.
         if \<not> IsSQLCommand tx then (Ok (), db)
         else case pool_GetIfExists db (tx_ID tx) of Panic \<Rightarrow> (Panic, db) | Diverge \<Rightarrow> (Diverge, db)
              | Ok (Some _) \<Rightarrow> (Ok (), db) | _ \<Rightarrow> ExecuteQueryFromTX e db (tx_SQLCommand tx)) txs db
       = run_block_queries e txs db"
  using assms unfolding run_block_queries_def
proof (induction txs arbitrary: db)
  case (Cons tx txs)
  have eq: "pool_GetIfExists db (tx_ID tx) = Ok None" using Cons.prems by (simp add: pool_GetIfExists_def)
  obtain r m where "ExecuteQueryFromTX e db (tx_SQLCommand tx) = (r, db\<lparr>db_app := m\<rparr>)"
    using ExecuteSQL_app[of e db] unfolding ExecuteQueryFromTX_def by metis
  then show ?case using Cons eq by (cases r) auto
qed simp

lemma transactionsFromAddedBlock_empty:
  assumes "db_opened db" and "db_pool db = []"
  shows "transactionsFromAddedBlock e txs db = run_block_queries (te_sql e) txs (db\<lparr>db_txcache := Some []\<rparr>)"
proof -
  have "snd (renewCache (open_pool db)) = db\<lparr>db_txcache := Some []\<rparr>"
    using assms empty_pool_reload[of db] empty_pool_reload[of "db\<lparr>db_txcache := Some []\<rparr>"]
    by (auto simp: open_pool_def renewCacheIfNeeded_def empty_pool_reload)
  then show ?thesis
    using run_block_queries_cached[of "db\<lparr>db_txcache := Some []\<rparr>" "te_sql e" txs]
    by (simp add: transactionsFromAddedBlock_def rollbackConflictingFromPool_def rollback_direct_empty)
qed


section \<open>Signing again\<close>

lemma resign_inputs_shape:
  assumes "resign_inputs k vins (tx, t) db = (Ok (tx', t'), db')"
  shows "(vins = [] \<longrightarrow> tx' = tx) \<and>
     (\<forall>j. tget t' j = (if k \<le> j \<and> j < k + int (length vins) then Some (Some emptyTransaction) else tget t j))"
  using assms
proof (induction vins arbitrary: k tx t db)
  case (Cons vin vins)
  obtain found d where g: "txm_GetIfExists (vin_Txid vin) db = (Ok (Some found), d)"
    "resign_inputs (k + 1) vins (found, tput t k (Some emptyTransaction)) d = (Ok (tx', t'), db')"
    using Cons.prems by (auto simp: res_simps split: option.splits)
  from Cons.IH[OF g(2)] show ?case by (auto simp: table_simps)
qed auto

lemma PrepareSQLTransactionSignatureData_inputs:
  assumes "tx_Vin tx \<noteq> []" and "PrepareSQLTransactionSignatureData e tx db = (Ok r, db')"
  shows "\<exists>tx' t d. resign_inputs 0 (tx_Vin tx) (tx, []) db = (Ok (tx', t), d) \<and> tx_Vin tx' = []"
proof -
  obtain tx' t d where run: "resign_inputs 0 (tx_Vin tx) (tx, []) db = (Ok (tx', t), d)"
    and p: "\<exists>x. PrepareSignData (te_crypto e) tx' (tx_ByPubKey tx') t = Ok x"
    using assms(2) by (auto simp: PrepareSQLTransactionSignatureData_def res_simps elim: errR.elims)
  have "tget t 0 = Some (Some emptyTransaction)"
    using resign_inputs_shape[OF run] assms(1) by simp
  then have "tx_Vin tx' = []"
    using p by (cases "tx_Vin tx'") (auto simp: PrepareSignData_def res_simps index_def emptyTransaction_def split: if_splits)
  then show ?thesis using run by blast
qed

end
