(* ===== verification/Tx_Spending.thy ===== *)
theory Tx_Spending
  imports TxManager
begin

text \<open>
  What the transactions manager guarantees about spending: the inputs of a transaction that
  \<^verbatim>\<open>VerifyTransaction\<close> accepts come, each, from the chain under the tip, where they are unspent, or from the
  unconfirmed transactions it may build on; and the transactions chosen for a new block are valid one after
  the other, with no output spent twice.
\<close>

section \<open>What a verified transaction spends\<close>

text \<open>An input that the chain under a tip resolves and leaves unspent, and one that is on no block of it.\<close>

definition input_on_chain :: "'m node_db \<Rightarrow> bytes \<Rightarrow> txinput \<Rightarrow> transaction \<Rightarrow> bool" where
  "input_on_chain db tip vin p \<longleftrightarrow>
     (\<exists>bl h spent. GetTranactionBlocks db (vin_Txid vin) = Ok bl \<and> ChooseHashUnderTip db bl tip = Ok h \<and> h \<noteq> [] \<and>
        GetTransactionFromBlock db (vin_Txid vin) h = Ok p \<and>
        GetTranactionOutputsSpent db (vin_Txid vin) h tip = Ok spent \<and>
        (\<forall>so\<in>set spent. so_OutInd so \<noteq> vin_Vout vin))"

definition input_missing :: "'m node_db \<Rightarrow> bytes \<Rightarrow> txinput \<Rightarrow> bool" where
  "input_missing db tip vin \<longleftrightarrow>
     (\<exists>bl. GetTranactionBlocks db (vin_Txid vin) = Ok bl \<and> ChooseHashUnderTip db bl tip = Ok [])"

lemma inputs_state_step:
  "inputs_state db tip k (vin # vins) (prev, bad) = Ok s \<longleftrightarrow>
     (\<exists>p. input_on_chain db tip vin p \<and> inputs_state db tip (k + 1) vins (tput prev k (Some p), bad) = Ok s) \<or>
     (input_missing db tip vin \<and> inputs_state db tip (k + 1) vins (tput prev k None, bad @ [(k, vin)]) = Ok s)"
  unfolding input_on_chain_def input_missing_def by (auto simp: res_simps split: if_splits)

fun missing_at :: "int \<Rightarrow> txinput list \<Rightarrow> transaction option list \<Rightarrow> (int \<times> txinput) list" where
  "missing_at k (vin # vins) (p # ps) = (if p = None then [(k, vin)] else []) @ missing_at (k + 1) vins ps"
| "missing_at k vins ps = []"

fun set_prevs :: "prevtxs \<Rightarrow> int \<Rightarrow> transaction option list \<Rightarrow> prevtxs" where
  "set_prevs t k [] = t"
| "set_prevs t k (p # ps) = set_prevs (tput t k p) (k + 1) ps"

definition resolves :: "'m node_db \<Rightarrow> bytes \<Rightarrow> txinput \<Rightarrow> transaction option \<Rightarrow> bool" where
  "resolves db tip vin p \<longleftrightarrow> (case p of Some t \<Rightarrow> input_on_chain db tip vin t | None \<Rightarrow> input_missing db tip vin)"

lemma inputs_state_iff:
  "inputs_state db tip k vins (prev, bad) = Ok s \<longleftrightarrow>
     (\<exists>ps. list_all2 (resolves db tip) vins ps \<and> s = (set_prevs prev k ps, bad @ missing_at k vins ps))"
proof (induction vins arbitrary: k prev bad)
  case (Cons vin vins)
  have "(\<exists>ps. list_all2 (resolves db tip) (vin # vins) ps \<and> P ps) \<longleftrightarrow>
      (\<exists>t. input_on_chain db tip vin t \<and> (\<exists>ps. list_all2 (resolves db tip) vins ps \<and> P (Some t # ps))) \<or>
      (input_missing db tip vin \<and> (\<exists>ps. list_all2 (resolves db tip) vins ps \<and> P (None # ps)))" for P
    by (auto simp: list_all2_Cons1 resolves_def split: option.splits)
  then show ?case unfolding inputs_state_step Cons.IH by simp
qed auto

lemma tget_set_prevs:
  "tget (set_prevs t k ps) j =
     (if k \<le> j \<and> j < k + int (length ps) then Some (ps ! nat (j - k)) else tget t j)"
proof (induction ps arbitrary: t k)
  case (Cons p ps)
  have "nat (j - k) = Suc (nat (j - (k + 1)))" if "k < j" using that by simp
  then show ?case by (auto simp: Cons.IH table_simps)
qed auto

lemma missing_at_set:
  "length ps = length vins \<Longrightarrow>
   (j, v) \<in> set (missing_at k vins ps) \<longleftrightarrow>
     (\<exists>i<length vins. j = k + int i \<and> v = vins ! i \<and> ps ! i = None)"
proof (induction k vins ps rule: missing_at.induct)
  case (1 k vin vins p ps)
  have "(\<exists>i<length (vin # vins). P i) \<longleftrightarrow> P 0 \<or> (\<exists>i<length vins. P (Suc i))" for P
    using Ex_less_Suc2 by simp
  then show ?case using 1 by (auto simp: add.assoc)
qed auto

lemma missing_at_keys: "distinct (map fst (missing_at k vins ps)) \<and> (\<forall>p\<in>set (missing_at k vins ps). k \<le> fst p)"
  by (induction k vins ps rule: missing_at.induct) fastforce+

text \<open>Inputs found among earlier transactions: each is there, and no output comes twice.\<close>

definition out_ref :: "txinput \<Rightarrow> bytes \<times> int" where
  "out_ref vin = (vin_Txid vin, vin_Vout vin)"

lemma CheckWereBefore_sound:
  assumes "CheckCurrencyInputsWereBefore mis prev checked t = Ok t'" and "distinct (map fst mis)"
  shows "distinct (map (out_ref \<circ> snd) mis) \<and> (\<forall>(j, v)\<in>set mis. out_ref v \<notin> used_set checked) \<and>
    (\<forall>(j, v)\<in>set mis. \<exists>p\<in>set prev. tx_ID p = vin_Txid v \<and> tget t' j = Some (Some p)) \<and>
    (\<forall>j. j \<notin> fst ` set mis \<longrightarrow> tget t' j = tget t j)"
  using assms
proof (induction mis prev checked t rule: CheckCurrencyInputsWereBefore.induct)
  case (2 vind vin inputs prev checked t)
  obtain p where p: "find (\<lambda>tx. tx_ID tx = vin_Txid vin) prev = Some p"
    using "2.prems"(1) by (auto split: if_splits option.splits)
  have new: "vin_Vout vin \<notin> set (tlist checked (vin_Txid vin))" using "2.prems"(1) by (auto split: if_splits)
  have run: "CheckCurrencyInputsWereBefore inputs prev (tapp checked (vin_Txid vin) [vin_Vout vin])
      (tput t vind (Some p)) = Ok t'"
    using "2.prems"(1) new p by simp
  have d: "distinct (map fst inputs)" "vind \<notin> fst ` set inputs" using "2.prems"(2) by auto
  note ih = "2.IH"[OF new p run d(1)]
  have "tget t' vind = Some (Some p)" using ih d(2) by (auto simp: table_simps)
  moreover have "p \<in> set prev" "tx_ID p = vin_Txid vin" using find_SomeD[OF p] by simp_all
  moreover have "out_ref vin \<notin> used_set checked" using new by (simp add: used_set_def out_ref_def)
  moreover have "(\<forall>(j, v)\<in>set inputs. out_ref v \<notin> used_set checked \<and> out_ref v \<noteq> out_ref vin)"
    using ih by (auto simp: used_set_tapp out_ref_def)
  moreover have "tget t' j = tget t j" if "j \<notin> fst ` set ((vind, vin) # inputs)" for j
    using ih that by (auto simp: table_simps)
  ultimately show ?case using ih by auto
qed (auto)


lemma CheckPrepared_sound:
  assumes "CheckInputsArePrepared db mis checked t = Ok t'" and "distinct (map fst mis)"
  shows "distinct (map (out_ref \<circ> snd) mis) \<and> (\<forall>(j, v)\<in>set mis. out_ref v \<notin> used_set checked) \<and>
    (\<forall>(j, v)\<in>set mis. \<exists>p. pool_GetIfExists db (vin_Txid v) = Ok (Some p) \<and> tget t' j = Some (Some p)) \<and>
    (\<forall>j. j \<notin> fst ` set mis \<longrightarrow> tget t' j = tget t j)"
  using assms
proof (induction db mis checked t rule: CheckInputsArePrepared.induct)
  case (2 db vind vin inputs checked t)
  obtain p where p: "pool_GetIfExists db (vin_Txid vin) = Ok (Some p)"
    using "2.prems"(1) by (auto simp: res_simps split: if_splits option.splits)
  have new: "vin_Vout vin \<notin> set (tlist checked (vin_Txid vin))" using "2.prems"(1) by (auto split: if_splits)
  have run: "CheckInputsArePrepared db inputs (tapp checked (vin_Txid vin) [vin_Vout vin])
      (tput t vind (Some p)) = Ok t'"
    using "2.prems"(1) new p by simp
  have d: "distinct (map fst inputs)" "vind \<notin> fst ` set inputs" using "2.prems"(2) by auto
  note ih = "2.IH"[OF new p refl run d(1)]
  have "tget t' vind = Some (Some p)" using ih d(2) by (auto simp: table_simps)
  moreover have "out_ref vin \<notin> used_set checked" using new by (simp add: used_set_def out_ref_def)
  moreover have "(\<forall>(j, v)\<in>set inputs. out_ref v \<notin> used_set checked \<and> out_ref v \<noteq> out_ref vin)"
    using ih by (auto simp: used_set_tapp out_ref_def)
  moreover have "tget t' j = tget t j" if "j \<notin> fst ` set ((vind, vin) # inputs)" for j
    using ih that by (auto simp: table_simps)
  ultimately show ?case using ih p by auto
qed (auto)

text \<open>Where an input may come from: the chain under the tip, or a source of unconfirmed transactions.\<close>

definition backed :: "'m node_db \<Rightarrow> bytes \<Rightarrow> (txinput \<Rightarrow> transaction \<Rightarrow> bool) \<Rightarrow> txinput list \<Rightarrow> prevtxs \<Rightarrow> bool" where
  "backed db tip src vins inputTXs \<longleftrightarrow>
     (\<forall>i<length vins. \<exists>p. tget inputTXs (int i) = Some (Some p) \<and>
        (input_on_chain db tip (vins ! i) p \<or> input_missing db tip (vins ! i) \<and> src (vins ! i) p)) \<and>
     (\<forall>i<length vins. \<forall>j<length vins. i \<noteq> j \<and> input_missing db tip (vins ! i) \<and> input_missing db tip (vins ! j) \<longrightarrow>
        out_ref (vins ! i) \<noteq> out_ref (vins ! j))"

lemma not_both: "input_on_chain db tip vin p \<Longrightarrow> \<not> input_missing db tip vin"
  by (auto simp: input_on_chain_def input_missing_def)

lemma backedI:
  assumes ps: "list_all2 (resolves db tip) vins ps"
    and mis: "mis = missing_at 0 vins ps"
    and dist: "distinct (map (out_ref \<circ> snd) mis)"
    and src: "\<forall>(j, v)\<in>set mis. \<exists>p. src v p \<and> tget t j = Some (Some p)"
    and keep: "\<forall>j. j \<notin> fst ` set mis \<longrightarrow> tget t j = tget (set_prevs [] 0 ps) j"
  shows "backed db tip src vins t"
proof -
  have len: "length ps = length vins" using list_all2_lengthD[OF ps] by simp
  note mem = missing_at_set[OF len, of _ _ 0, folded mis]
  have res: "resolves db tip (vins ! i) (ps ! i)" if "i < length vins" for i
    using list_all2_nthD[OF ps that] .
  have "\<exists>p. tget t (int i) = Some (Some p) \<and>
        (input_on_chain db tip (vins ! i) p \<or> input_missing db tip (vins ! i) \<and> src (vins ! i) p)"
    if i: "i < length vins" for i
  proof (cases "ps ! i")
    case None
    then have "(int i, vins ! i) \<in> set mis" using mem i by auto
    then show ?thesis using src res[OF i] None by (fastforce simp: resolves_def)
  next
    case (Some p)
    then have "int i \<notin> fst ` set mis" using mem by auto
    then have "tget t (int i) = Some (Some p)" using keep tget_set_prevs[of "[]" 0 ps "int i"] i len Some by simp
    then show ?thesis using res[OF i] Some by (simp add: resolves_def)
  qed
  moreover have "out_ref (vins ! i) \<noteq> out_ref (vins ! j)"
    if ij: "i < length vins" "j < length vins" "i \<noteq> j" "input_missing db tip (vins ! i)" "input_missing db tip (vins ! j)" for i j
  proof -
    have none: "ps ! k = None" if "k < length vins" "input_missing db tip (vins ! k)" for k
      using res[OF that(1)] that(2) not_both by (auto simp: resolves_def split: option.splits)
    have "(int i, vins ! i) \<in> set mis" "(int j, vins ! j) \<in> set mis" "(int i, vins ! i) \<noteq> (int j, vins ! j)"
      using mem ij none by auto
    then show ?thesis using dist unfolding distinct_map inj_on_def by fastforce
  qed
  ultimately show ?thesis unfolding backed_def by blast
qed

text \<open>The source of the unconfirmed inputs: the earlier transactions of a block, or the pool.\<close>

definition source :: "'m node_db \<Rightarrow> transaction list option \<Rightarrow> txinput \<Rightarrow> transaction \<Rightarrow> bool" where
  "source db prevtxs vin p \<longleftrightarrow>
     (case prevtxs of
        Some txs \<Rightarrow> p \<in> set txs \<and> tx_ID p = vin_Txid vin
      | None \<Rightarrow> pool_GetIfExists db (vin_Txid vin) = Ok (Some p))"

lemma verify_transaction_sound:
  assumes "\<not> IsCoinbaseTransfer tx" and "verify_transaction e opn tx prevtxs tip flags db = (Ok b, db')"
  shows "\<exists>inputTXs. tx_accepted (te_crypto e) tx inputTXs \<and> backed db tip (source (opn db) prevtxs) (tx_Vin tx) inputTXs"
proof -
  obtain t mis where st: "inputs_state db tip 0 (tx_Vin tx) ([], []) = Ok (t, mis)"
    using assms by (auto simp: verify_transaction_def getCurrencyInputTransactionsState_def res_simps)
  then obtain ps where ps: "list_all2 (resolves db tip) (tx_Vin tx) ps" "t = set_prevs [] 0 ps"
    "mis = missing_at 0 (tx_Vin tx) ps"
    unfolding inputs_state_iff by auto
  have keys: "distinct (map fst mis)" using missing_at_keys ps(3) by blast
  have acc: "tx_accepted (te_crypto e) tx t'" if "Verify (te_crypto e) tx t' (te_coins e) = Ok ()" for t'
    using that Verify_Ok_iff[OF assms(1)] by blast
  have pre: "getCurrencyInputTransactionsState db tx tip = Ok (t, mis)"
    using assms st by (auto simp: verify_transaction_def getCurrencyInputTransactionsState_def res_simps)
  show ?thesis
  proof (cases "mis = []")
    case True
    then have "Verify (te_crypto e) tx t (te_coins e) = Ok ()" using assms(2) pre by (auto simp: verify_transaction_def res_simps)
    then show ?thesis using acc backedI[OF ps(1,3)] True ps(2) by (intro exI[of _ t]) simp
  next
    case False
    show ?thesis
    proof (cases prevtxs)
      case None
      then obtain t' where t': "CheckInputsArePrepared (opn db) mis [] t = Ok t'" "Verify (te_crypto e) tx t' (te_coins e) = Ok ()"
        using assms(2) pre False by (auto simp: verify_transaction_def res_simps Let_def)
      note c = CheckPrepared_sound[OF t'(1) keys]
      have "backed db tip (source (opn db) prevtxs) (tx_Vin tx) t'"
        by (rule backedI[OF ps(1,3)]) (use c None ps(2) in \<open>auto simp: source_def\<close>)
      then show ?thesis using acc[OF t'(2)] by blast
    next
      case (Some txs)
      then obtain t' where t': "CheckCurrencyInputsWereBefore mis txs [] t = Ok t'" "Verify (te_crypto e) tx t' (te_coins e) = Ok ()"
        using assms(2) pre False by (auto simp: verify_transaction_def res_simps Let_def)
      note c = CheckWereBefore_sound[OF t'(1) keys]
      have "backed db tip (source (opn db) prevtxs) (tx_Vin tx) t'"
        by (rule backedI[OF ps(1,3)]) (use c Some ps(2) in \<open>fastforce simp: source_def\<close>)+
      then show ?thesis using acc[OF t'(2)] by blast
    qed
  qed
qed

lemma double_input_state:
  assumes "input_on_chain db tip v p"
  shows "inputs_state db tip 0 [v, v] ([], []) = Ok ([(0, Some p), (1, Some p)], [])"
  unfolding inputs_state_iff using assms
  by (intro exI[of _ "[Some p, Some p]"]) (simp add: resolves_def)

section \<open>The transactions of a new block\<close>

text \<open>Everything but the pool, its cache and the application's tables.\<close>

definition same_chain :: "'m node_db \<Rightarrow> 'm node_db \<Rightarrow> bool" where
  "same_chain d db \<longleftrightarrow> db_opened d = db_opened db \<and> db_blocks d = db_blocks db \<and> db_chain d = db_chain db \<and>
     db_txblocks d = db_txblocks db \<and> db_txspent d = db_txspent db \<and> db_unspent d = db_unspent db \<and>
     db_rowrefs d = db_rowrefs db \<and> db_gob d = db_gob db"

lemma same_chain_simps [simp]:
  "same_chain db db" "same_chain (d\<lparr>db_app := m\<rparr>) db = same_chain d db"
  "same_chain (d\<lparr>db_pkcache := k\<rparr>) db = same_chain d db"
  "same_chain (d\<lparr>db_pool := p\<rparr>) db = same_chain d db" "same_chain (d\<lparr>db_txcache := c\<rparr>) db = same_chain d db"
  by (simp_all add: same_chain_def)

lemma same_chain_trans: "same_chain d1 d2 \<Longrightarrow> same_chain d2 d3 \<Longrightarrow> same_chain d1 d3"
  by (simp add: same_chain_def)

lemma pool_Delete_same: "same_chain (snd (pool_Delete k db)) db"
  by (auto simp: pool_Delete_def getConnection_def Let_def split: option.splits)

lemma open_pool_same: "same_chain (open_pool db) db"
  by (auto simp: open_pool_def renewCacheIfNeeded_def renewCache_def pool_GetCount_def getConnection_def Let_def)

lemma cancel_same: "same_chain (snd (cancel_transaction e k rb db)) db"
proof -
  have del: "same_chain (snd (case pool_Delete k d of
               (Ok found, db) \<Rightarrow> (if \<not> found then (Err x, db) else (Ok (), db))
             | (Err _, db) \<Rightarrow> (Ok (), db) | (Panic, db) \<Rightarrow> (Panic, db) | (Diverge, db) \<Rightarrow> (Diverge, db))) db"
    if "same_chain d db" for d and x :: err
    using same_chain_trans[OF pool_Delete_same that, of k] by (auto split: prod.splits res.splits)
  have roll: "same_chain (snd (ExecuteSQL (te_sql e) db q)) db" for q
    using ExecuteSQL_app[of "te_sql e" db q] by auto
  have run: "same_chain (snd (bindS (if P then ExecuteSQL (te_sql e) db q else (Ok (), db)) (\<lambda>_ db.
             case pool_Delete k db of
               (Ok found, db) \<Rightarrow> (if \<not> found then (Err x, db) else (Ok (), db))
             | (Err _, db) \<Rightarrow> (Ok (), db) | (Panic, db) \<Rightarrow> (Panic, db) | (Diverge, db) \<Rightarrow> (Diverge, db)))) db"
    for P q and x :: err
  proof -
    obtain r d where "(if P then ExecuteSQL (te_sql e) db q else (Ok (), db)) = (r, d)" by fastforce
    moreover from this have "same_chain d db" using roll[of q] by (auto split: if_splits)
    ultimately show ?thesis using del[of d x] by (cases r) simp_all
  qed
  show ?thesis
    unfolding cancel_transaction_def ExecuteRollbackQueryFromTX_def
    by (cases "pool_GetIfExists db k") (simp_all add: run split: option.split)
qed

lemma bindS_keeps:
  assumes "P (snd r)" and "\<And>x s. P s \<Longrightarrow> P (snd (f x s))"
  shows "P (snd (bindS r f))"
  using assms by (cases r; cases "fst r") auto

text \<open>With the list of earlier transactions at hand, verification changes nothing.\<close>

lemma check_base_listed: "snd (checkBaseTransaction e opn tx (Some prev) tip db) = db"
  unfolding checkBaseTransaction_def by (simp add: Let_def, intro bindS_keeps[where P = "\<lambda>s. s = db"]) simp_all

lemma verify_listed: "snd (verify_transaction e id tx (Some prev) tip flags db) = db"
  unfolding verify_transaction_def
  by (intro bindS_keeps[where P = "\<lambda>s. s = db"])
    (simp_all add: split_beta Let_def bindS_keeps[where P = "\<lambda>s. s = db"] check_base_listed)

text \<open>What the verification of inputs reads is the same.\<close>

lemma same_reads:
  assumes "same_chain d db"
  shows "getConnection d = getConnection db" "db_chain d = db_chain db" "db_GetBlock d = db_GetBlock db"
    "GetBlock d = GetBlock db" "iter_Next d = iter_Next db" "walk_fuel d = walk_fuel db" "GetTopHash d = GetTopHash db"
    "GetTranactionBlocks d = GetTranactionBlocks db" "GetTransactionFromBlock d = GetTransactionFromBlock db"
proof -
  show *: "getConnection d = getConnection db" "db_chain d = db_chain db" "db_GetBlock d = db_GetBlock db"
      "walk_fuel d = walk_fuel db"
    using assms by (simp_all add: same_chain_def getConnection_def db_GetBlock_def walk_fuel_def fun_eq_iff)
  show 1: "GetBlock d = GetBlock db" "iter_Next d = iter_Next db" "GetTopHash d = GetTopHash db"
    using * assms by (simp_all add: fun_eq_iff GetBlock_def iter_Next_def GetTopHash_def same_chain_def cong: option.case_cong)
  show "GetTranactionBlocks d = GetTranactionBlocks db" "GetTransactionFromBlock d = GetTransactionFromBlock db"
    using * 1 assms by (simp_all add: fun_eq_iff GetTranactionBlocks_def GetTransactionFromBlock_def same_chain_def)
qed

lemma same_first_below: "same_chain d db \<Longrightarrow> first_below d b hs = first_below db b hs"
  by (induction hs) (simp_all add: same_reads cong: if_cong)

lemma same_choose: "same_chain d db \<Longrightarrow> ChooseHashUnderTip d hs tip = ChooseHashUnderTip db hs tip"
  by (simp add: ChooseHashUnderTip_def choose_walk_def same_reads same_first_below cong: if_cong option.case_cong sum.case_cong)

lemma same_range: "same_chain d db \<Longrightarrow> CheckBlockIsInRange d h l t = CheckBlockIsInRange db h l t"
  by (simp add: CheckBlockIsInRange_def range_walk_def same_reads cong: if_cong sum.case_cong)

lemma same_filter_spent:
  "same_chain d db \<Longrightarrow> filterTranactionOutputsSpent d rs h t = filterTranactionOutputsSpent db rs h t"
  by (induction rs) (simp_all add: same_range cong: if_cong)

lemma same_outputs_spent:
  assumes "same_chain d db"
  shows "GetTranactionOutputsSpent d i h t = GetTranactionOutputsSpent db i h t"
proof -
  have "db_txspent d = db_txspent db" using assms by (simp add: same_chain_def)
  then show ?thesis using assms by (simp add: GetTranactionOutputsSpent_def same_reads same_filter_spent cong: option.case_cong)
qed

lemma same_backed: "same_chain d db \<Longrightarrow> backed d tip src vins ts = backed db tip src vins ts"
  by (simp add: backed_def input_on_chain_def input_missing_def same_reads same_choose same_outputs_spent)

text \<open>What a block needs of each of its transactions, given the transactions before it.\<close>

definition block_tx_valid ::
  "('k, 'm) txm_env \<Rightarrow> 'm node_db \<Rightarrow> bytes \<Rightarrow> transaction list \<Rightarrow> transaction \<Rightarrow> bool" where
  "block_tx_valid e db tip prev tx \<longleftrightarrow>
     (if IsCoinbaseTransfer tx then \<exists>out. tx_Vout tx = [out] \<and> feq (vout_Value out) (te_coins e)
      else \<exists>inputTXs. tx_accepted (te_crypto e) tx inputTXs \<and>
             backed db tip (source db (Some prev)) (tx_Vin tx) inputTXs)"

lemma same_valid: "same_chain d db \<Longrightarrow> block_tx_valid e d = block_tx_valid e db"
proof -
  assume "same_chain d db"
  moreover have "source d (Some prev) = source db (Some prev)" for prev by (simp add: source_def fun_eq_iff)
  ultimately show ?thesis by (intro ext) (simp add: block_tx_valid_def same_backed cong: if_cong)
qed

lemma verified_block_tx:
  assumes "verify_transaction e opn tx (Some prev) tip flags d = (Ok b, d')" and "same_chain d db"
  shows "block_tx_valid e db tip prev tx"
proof (cases "IsCoinbaseTransfer tx")
  case True
  then have "Verify (te_crypto e) tx [] (te_coins e) = Ok ()"
    using assms(1) by (auto simp: verify_transaction_def getCurrencyInputTransactionsState_def res_simps)
  then show ?thesis using Verify_coinbase_Ok_iff[OF True, of "te_crypto e" "[]" "te_coins e"] True by (simp add: block_tx_valid_def)
next
  case False
  have "source (opn d) (Some prev) = source db (Some prev)" by (simp add: source_def fun_eq_iff)
  then show ?thesis
    using verify_transaction_sound[OF False assms(1)] False same_backed[OF assms(2)] by (simp add: block_tx_valid_def)
qed

lemma verify_for_block_spec:
  assumes "verify_for_block e txlist txs db = (Ok txs', db')"
  shows "\<exists>new. txs' = txs @ new \<and> subseq new txlist \<and> same_chain db' db \<and>
    (\<forall>i<length new. block_tx_valid e db [] (txs @ take i new) (new ! i))"
  using assms
proof (induction txlist arbitrary: txs db)
  case (Cons tx txlist)
  obtain r where v: "verify_transaction e id tx (Some txs) [] TXFlagsNothing db = (r, db)"
    using verify_listed[of e tx txs "[]" TXFlagsNothing db] by (metis prod.collapse)
  show ?case
  proof (cases "r = Ok True")
    case True
    then have "verify_for_block e txlist (txs @ [tx]) db = (Ok txs', db')" using Cons.prems v by simp
    from Cons.IH[OF this] obtain new where new: "txs' = (txs @ [tx]) @ new" "subseq new txlist" "same_chain db' db"
      "\<forall>i<length new. block_tx_valid e db [] ((txs @ [tx]) @ take i new) (new ! i)" by blast
    have "block_tx_valid e db [] txs tx" using verified_block_tx[OF v[unfolded True]] by simp
    then have "block_tx_valid e db [] (txs @ take i (tx # new)) ((tx # new) ! i)" if "i < length (tx # new)" for i
      using that new(4) by (cases i) auto
    moreover have "txs' = txs @ (tx # new)" "subseq (tx # new) (tx # txlist)" using new(1,2) by simp_all
    ultimately show ?thesis using new(3) by blast
  next
    case False
    obtain d2 where d2: "verify_for_block e txlist txs d2 = (Ok txs', db')" "same_chain d2 db"
      using Cons.prems v False cancel_same[of e "tx_ID tx" True db]
      by (cases "cancel_transaction e (tx_ID tx) True db"; cases "fst (cancel_transaction e (tx_ID tx) True db)")
        (auto split: res.splits bool.splits)
    from Cons.IH[OF d2(1)] obtain new where "txs' = txs @ new" "subseq new txlist" "same_chain db' d2"
      "\<forall>i<length new. block_tx_valid e d2 [] (txs @ take i new) (new ! i)" by blast
    then show ?thesis using same_valid[OF d2(2), of e] same_chain_trans[OF _ d2(2)] list_emb_Cons by metis
  qed
qed simp

lemma cancel_all_same: "same_chain (snd (cancel_all e txs db)) db"
proof (induction txs arbitrary: db)
  case (Cons tx txs)
  obtain r d where "cancel_transaction e (tx_ID tx) True db = (r, d)" by fastforce
  then show ?case using cancel_same[of e "tx_ID tx" True db] Cons.IH[of d] same_chain_trans by (cases r) auto
qed simp

text \<open>
  Every transaction of the result is valid after some of the other transactions of the pool that passed, its
  conflicts among them left out.
\<close>

lemma new_block_transactions:
  assumes "GetUnapprovedTransactionsForNewBlock e n db = (Ok txs, db')"
  shows "distinct (concat (map inputs_of txs)) \<and> same_chain db' db \<and>
    (\<exists>all. subseq txs all \<and> (\<forall>i<length all. block_tx_valid e db [] (take i all) (all ! i)))"
proof -
  obtain txlist all d2 bad where run: "verify_for_block e txlist [] (open_pool db) = (Ok all, d2)"
    "DetectConflicts all = (txs, bad)" "cancel_all e bad d2 = (Ok (), db')"
    using assms
    by (auto simp: GetUnapprovedTransactionsForNewBlock_def Let_def res_simps split: if_splits prod.splits)
  have "\<forall>i<length all. block_tx_valid e db [] (take i all) (all ! i)"
    using verify_for_block_spec[OF run(1)] same_valid[OF open_pool_same[of db], of e] by auto
  moreover have "same_chain db' db"
    using verify_for_block_spec[OF run(1)] cancel_all_same[of e bad d2] run(3) same_chain_trans open_pool_same[of db]
    by (metis snd_conv)
  ultimately show ?thesis using DetectConflicts_spec[OF run(2)] by blast
qed

section \<open>Verification of a transaction\<close>

text \<open>
  \<^verbatim>\<open>VerifyTransaction\<close> never answers false: a transaction that is not valid is an error. An output of the chain that
  two inputs spend is not an error.
\<close>

text \<open>
  C21: A transaction that VerifyTransaction accepts is signed by the owner of what it spends, its
  outputs sum up to its inputs, and each input is found unspent on the chain under the tip or among
  the unconfirmed transactions it may build on, no unconfirmed output twice; a coinbase transfer has
  one output, of the reward.
\<close>

lemma VerifyTransaction_sound:
  assumes "txm_VerifyTransaction e tx prevtxs tip flags db = (Ok b, db')"
  shows "b \<and>
    (if IsCoinbaseTransfer tx then \<exists>out. tx_Vout tx = [out] \<and> feq (vout_Value out) (te_coins e)
     else \<exists>inputTXs. tx_accepted (te_crypto e) tx inputTXs \<and>
            backed db tip (source (open_pool db) prevtxs) (tx_Vin tx) inputTXs)"
proof -
  have run: "verify_transaction e open_pool tx prevtxs tip flags db = (Ok b, db')"
    using assms by (simp add: txm_VerifyTransaction_def)
  have b by (use run in \<open>auto simp: verify_transaction_def res_simps Let_def split: if_splits prod.splits option.splits\<close>)
  moreover have "\<exists>out. tx_Vout tx = [out] \<and> feq (vout_Value out) (te_coins e)" if "IsCoinbaseTransfer tx"
    using run that Verify_coinbase_Ok_iff[OF that]
    by (auto simp: verify_transaction_def getCurrencyInputTransactionsState_def res_simps)
  ultimately show ?thesis using verify_transaction_sound[OF _ run] by simp
qed

text \<open>
  C30: A transaction whose two inputs are the same output of the chain is accepted when its outputs
  sum up to twice that output.
\<close>

lemma double_input_verified:
  assumes "\<not> IsCoinbaseTransfer tx" and "\<not> IsSQLCommand tx" and "tx_Vin tx = [v, v]" and "input_on_chain db tip v p"
    and "tx_accepted (te_crypto e) tx [(0, Some p), (1, Some p)]"
  shows "txm_VerifyTransaction e tx prevtxs tip flags db = (Ok True, db)"
proof -
  have "Verify (te_crypto e) tx [(0, Some p), (1, Some p)] (te_coins e) = Ok ()"
    using assms(5) Verify_Ok_iff[OF assms(1)] by blast
  moreover have "getCurrencyInputTransactionsState db tx tip = Ok ([(0, Some p), (1, Some p)], [])"
    using assms(1,3) double_input_state[OF assms(4)] by (simp add: getCurrencyInputTransactionsState_def del: inputs_state.simps)
  ultimately show ?thesis using assms(2) by (simp add: txm_VerifyTransaction_def verify_transaction_def)
qed

end
