(* ===== verification/Consensus_Rules.thy ===== *)
theory Consensus_Rules
  imports DbQuery
begin

text \<open>
  The rules of \<^verbatim>\<open>node/consensus\<close>: the configuration (\<^verbatim>\<open>config.go\<close>), the permissions and prices of SQL
  queries (\<^verbatim>\<open>verifier.go\<close>) and the proof of work (\<^verbatim>\<open>proofofwork.go\<close>). The \<open>Settings\<close> map of the
  configuration is kept as the record that \<^verbatim>\<open>mapstructure.Decode\<close> makes of it; reading and writing the
  configuration file is not modelled.
\<close>

section \<open>Configuration\<close>

record config_cost =
  cc_Default :: float64
  cc_RowDelete :: float64
  cc_RowUpdate :: float64
  cc_RowInsert :: float64
  cc_TableCreate :: float64
  cc_ApplyAfterBlock :: int

record config_table =
  ct_Table :: string
  ct_AllowRowDelete :: bool
  ct_AllowRowUpdate :: bool
  ct_AllowRowInsert :: bool
  ct_AllowTableCreate :: bool
  ct_TransactionCost :: config_cost
  ct_ApplyAfterBlock :: int

record pow_settings =
  ps_Complexity :: int
  ps_ComplexityStep2 :: int
  ps_MaxMinNumberTransactionInBlock :: int
  ps_MaxNumberTransactionInBlock :: int
  ps_MaxBlockSize :: int

record consensus_config =
  cfg_AppName :: string
  cfg_Kind :: string
  cfg_CoinsForBlockMade :: float64
  cfg_Settings :: pow_settings
  cfg_ApplyRulesAfterBlock :: int
  cfg_AllowTableCreate :: bool
  cfg_AllowTableDrop :: bool
  cfg_AllowRowDelete :: bool
  cfg_TransactionCost :: config_cost
  cfg_UnmanagedTables :: "string list"
  cfg_TableRules :: "config_table list"
  cfg_InitNodesAddreses :: "string list"
  cfg_PaidTransactionsWallet :: string
  cfg_isDefault :: bool
  cfg_filePath :: string

definition KindConseususPoW :: string where "KindConseususPoW = ''proofofwork''"

definition zeroCost :: config_cost where
  "zeroCost = \<lparr>cc_Default = 0, cc_RowDelete = 0, cc_RowUpdate = 0, cc_RowInsert = 0, cc_TableCreate = 0,
     cc_ApplyAfterBlock = 0\<rparr>"

definition completeSettings :: "pow_settings \<Rightarrow> pow_settings" where
  "completeSettings s =
     (let s = (if ps_Complexity s < 1 then s\<lparr>ps_Complexity := 16\<rparr> else s);
          s = (if ps_ComplexityStep2 s < 1 then s\<lparr>ps_ComplexityStep2 := 24\<rparr> else s);
          s = (if ps_MaxMinNumberTransactionInBlock s < 1 then s\<lparr>ps_MaxMinNumberTransactionInBlock := 1000\<rparr> else s)
      in if ps_MaxNumberTransactionInBlock s < ps_MaxMinNumberTransactionInBlock s
         then s\<lparr>ps_MaxNumberTransactionInBlock := 10000\<rparr> else s)"

definition emptySettings :: pow_settings where
  "emptySettings = \<lparr>ps_Complexity = 0, ps_ComplexityStep2 = 0, ps_MaxMinNumberTransactionInBlock = 0,
     ps_MaxNumberTransactionInBlock = 0, ps_MaxBlockSize = 0\<rparr>"

text \<open>The float constant 10.\<close>

definition ten :: float64 where "ten = 0x4024000000000000"

definition NewConfigDefault :: consensus_config where
  "NewConfigDefault =
     \<lparr>cfg_AppName = [], cfg_Kind = KindConseususPoW, cfg_CoinsForBlockMade = ten,
      cfg_Settings = completeSettings emptySettings, cfg_ApplyRulesAfterBlock = 0,
      cfg_AllowTableCreate = True, cfg_AllowTableDrop = True, cfg_AllowRowDelete = True,
      cfg_TransactionCost = zeroCost, cfg_UnmanagedTables = [], cfg_TableRules = [],
      cfg_InitNodesAddreses = [], cfg_PaidTransactionsWallet = [], cfg_isDefault = True, cfg_filePath = []\<rparr>"

text \<open>What \<^verbatim>\<open>load\<close> does with the configuration that the JSON decoder filled in.\<close>

definition load_completed :: "consensus_config \<Rightarrow> consensus_config" where
  "load_completed c =
     (let c = (if feq (cfg_CoinsForBlockMade c) 0 then c\<lparr>cfg_CoinsForBlockMade := ten\<rparr> else c);
          c = (if cfg_Kind c = [] then c\<lparr>cfg_Kind := KindConseususPoW\<rparr> else c)
      in if cfg_Kind c = KindConseususPoW then c\<lparr>cfg_Settings := completeSettings (cfg_Settings c)\<rparr> else c)"

fun split_on :: "char \<Rightarrow> string \<Rightarrow> string list" where
  "split_on sep [] = [[]]"
| "split_on sep (c # s) =
     (if c = sep then [] # split_on sep s
      else (case split_on sep s of a # r \<Rightarrow> (c # a) # r | [] \<Rightarrow> [[c]]))"

definition export_addresses :: "string \<Rightarrow> string \<Rightarrow> string list" where
  "export_addresses defaultaddresses thisnodeaddr =
     (if defaultaddresses = [] then []
      else foldl (\<lambda>addresses a.
             if a = [] then addresses
             else if a = ''own'' then (if thisnodeaddr \<noteq> [] then addresses @ [thisnodeaddr] else addresses)
             else addresses @ [a]) [] (split_on (CHR '','') defaultaddresses))"

text \<open>The configuration that \<^verbatim>\<open>Export\<close> marshals.\<close>

definition Export :: "consensus_config \<Rightarrow> string \<Rightarrow> string \<Rightarrow> string \<Rightarrow> consensus_config res" where
  "Export cc defaultaddresses appname thisnodeaddr =
     (let addresses = export_addresses defaultaddresses thisnodeaddr;
          cc = (if length addresses > 0 then cc\<lparr>cfg_InitNodesAddreses := addresses\<rparr> else cc);
          cc = (if length (cfg_InitNodesAddreses cc) = 0 \<and> thisnodeaddr \<noteq> []
                then cc\<lparr>cfg_InitNodesAddreses := [thisnodeaddr]\<rparr> else cc)
      in if length (cfg_InitNodesAddreses cc) = 0 then Err (ErrNew ''List of default addresses is empty'')
         else
           let cc = (if appname \<noteq> [] then cc\<lparr>cfg_AppName := appname\<rparr> else cc)
           in if cfg_AppName cc = [] then Err (ErrNew ''Application name is empty. It is required'')
              else Ok cc)"

definition GetPaidTransactionsWalletPubKeyHash :: "'k crypto \<Rightarrow> consensus_config \<Rightarrow> bytes" where
  "GetPaidTransactionsWalletPubKeyHash cr cc =
     (if cfg_PaidTransactionsWallet cc = [] then []
      else (case AddresToPubKeyHash cr (cfg_PaidTransactionsWallet cc) of Ok h \<Rightarrow> h | _ \<Rightarrow> []))"

definition GetPaidTransactionsWallet :: "'k crypto \<Rightarrow> consensus_config \<Rightarrow> string" where
  "GetPaidTransactionsWallet cr cc =
     (if cfg_PaidTransactionsWallet cc = [] then []
      else (case AddresToPubKeyHash cr (cfg_PaidTransactionsWallet cc) of
              Ok h \<Rightarrow> (if length h = 0 then [] else PubKeyHashToAddres cr h)
            | _ \<Rightarrow> []))"

definition getTableCustomConfig :: "consensus_config \<Rightarrow> query_parsed \<Rightarrow> config_table option" where
  "getTableCustomConfig cc qp =
     (if \<not> IsUpdate qp then None else find (\<lambda>t. ct_Table t = qp_table qp) (cfg_TableRules cc))"

definition hasAnyNonDefaut :: "config_cost \<Rightarrow> bool" where
  "hasAnyNonDefaut c \<longleftrightarrow>
     cc_ApplyAfterBlock c > 0 \<or> flt 0 (cc_Default c) \<or> flt 0 (cc_RowDelete c) \<or> flt 0 (cc_RowInsert c) \<or>
     flt 0 (cc_RowUpdate c) \<or> flt 0 (cc_TableCreate c)"

definition extend_cost :: "int \<Rightarrow> config_cost \<Rightarrow> config_cost \<times> bool" where
  "extend_cost h c =
     (if cc_ApplyAfterBlock c < h \<and> hasAnyNonDefaut c then (c\<lparr>cc_ApplyAfterBlock := h\<rparr>, True) else (c, False))"

definition extend_rule :: "int \<Rightarrow> config_table \<Rightarrow> config_table \<times> bool" where
  "extend_rule h t =
     (let (t, ch) = (if ct_ApplyAfterBlock t < h then (t\<lparr>ct_ApplyAfterBlock := h\<rparr>, True) else (t, False));
          (c, ch2) = extend_cost h (ct_TransactionCost t)
      in (t\<lparr>ct_TransactionCost := c\<rparr>, ch \<or> ch2))"

text \<open>The new configuration, and whether it is written back to its file.\<close>

definition ExtendRulesApplyStartHeigh :: "consensus_config \<Rightarrow> int \<Rightarrow> consensus_config \<times> bool" where
  "ExtendRulesApplyStartHeigh cc setHeigh =
     (let ch1 = cfg_ApplyRulesAfterBlock cc < setHeigh;
          cc = (if ch1 then cc\<lparr>cfg_ApplyRulesAfterBlock := setHeigh\<rparr> else cc);
          (c, ch2) = extend_cost setHeigh (cfg_TransactionCost cc);
          rules = map (extend_rule setHeigh) (cfg_TableRules cc)
      in (cc\<lparr>cfg_TransactionCost := c, cfg_TableRules := map fst rules\<rparr>,
          ch1 \<or> ch2 \<or> (\<exists>r\<in>set rules. snd r)))"

section \<open>Permissions and prices\<close>

text \<open>\<open>verifyManager\<close>: the configuration and the height of the previous block.\<close>

record verify_manager =
  vm_previousBlockHeigh :: int
  vm_config :: consensus_config

text \<open>\<open>(hasCustom, allow)\<close>.\<close>

definition checkExecutePermissionsAsTable :: "verify_manager \<Rightarrow> query_parsed \<Rightarrow> bytes \<Rightarrow> bool \<times> bool" where
  "checkExecutePermissionsAsTable vm qp pubKey =
     (case getTableCustomConfig (vm_config vm) qp of
        None \<Rightarrow> (False, False)
      | Some t \<Rightarrow>
          if ct_ApplyAfterBlock t > vm_previousBlockHeigh vm then (True, True)
          else if \<not> ct_AllowRowDelete t \<and> qp_kind qp = QueryKindDelete then (True, False)
          else if \<not> ct_AllowRowInsert t \<and> qp_kind qp = QueryKindInsert then (True, False)
          else if \<not> ct_AllowRowUpdate t \<and> qp_kind qp = QueryKindUpdate then (True, False)
          else if \<not> ct_AllowTableCreate t \<and> qp_kind qp = QueryKindCreate then (True, False)
          else (True, True))"

definition CheckExecutePermissions :: "verify_manager \<Rightarrow> query_parsed \<Rightarrow> bytes \<Rightarrow> bool res" where
  "CheckExecutePermissions vm qp pubKey =
     (if \<not> IsUpdate qp then Ok True
      else
        let (hasCustom, allow) = checkExecutePermissionsAsTable vm qp pubKey
        in if hasCustom then Ok allow
           else if cfg_ApplyRulesAfterBlock (vm_config vm) > vm_previousBlockHeigh vm then Ok True
           else if qp_kind qp = QueryKindCreate \<and> \<not> cfg_AllowTableCreate (vm_config vm) then Ok False
           else if qp_kind qp = QueryKindDrop \<and> \<not> cfg_AllowTableDrop (vm_config vm) then Ok False
           else if qp_kind qp = QueryKindDelete \<and> \<not> cfg_AllowRowDelete (vm_config vm) then Ok False
           else Ok True)"

definition CheckQueryNeedsPayment :: "verify_manager \<Rightarrow> query_parsed \<Rightarrow> float64" where
  "CheckQueryNeedsPayment vm qp =
     (let trcost = (case getTableCustomConfig (vm_config vm) qp of
                      Some t \<Rightarrow> ct_TransactionCost t | None \<Rightarrow> cfg_TransactionCost (vm_config vm))
      in if cc_ApplyAfterBlock trcost > vm_previousBlockHeigh vm then 0
         else if qp_kind qp = QueryKindDelete \<and> flt 0 (cc_RowDelete trcost) then cc_RowDelete trcost
         else if qp_kind qp = QueryKindInsert \<and> flt 0 (cc_RowInsert trcost) then cc_RowInsert trcost
         else if qp_kind qp = QueryKindUpdate \<and> flt 0 (cc_RowUpdate trcost) then cc_RowUpdate trcost
         else if qp_kind qp = QueryKindCreate \<and> flt 0 (cc_TableCreate trcost) then cc_TableCreate trcost
         else if flt 0 (cc_Default trcost) then cc_Default trcost
         else 0)"

section \<open>Proof of work\<close>

record proof_of_work =
  pow_block :: "block option"
  pow_target :: nat
  pow_settings_of :: pow_settings

text \<open>
  The shift by \<^verbatim>\<open>uint(256-tb)\<close>: for \<open>tb > 256\<close> the difference wraps to a shift of almost \<open>2 ^ 64\<close> bits,
  for which \<^verbatim>\<open>big.Int\<close> cannot allocate its words and panics.
\<close>

definition NewProofOfWork :: "block option \<Rightarrow> pow_settings \<Rightarrow> proof_of_work res" where
  "NewProofOfWork b settings =
     (let s = completeSettings settings;
          tb = (if \<exists>bl\<in>set_option b. blk_Height bl \<ge> ps_MaxMinNumberTransactionInBlock s
                then ps_ComplexityStep2 s else ps_Complexity s)
      in if tb > 256 then Panic
         else Ok \<lparr>pow_block = b, pow_target = 2 ^ nat (256 - tb), pow_settings_of = s\<rparr>)"

definition prepareData :: "'k crypto \<Rightarrow> proof_of_work \<Rightarrow> bytes res" where
  "prepareData cr pow =
     bindR (deref (pow_block pow)) (\<lambda>b.
     bindR (HashTransactions cr b) (\<lambda>txshash.
       Ok (blk_PrevBlockHash b @ txshash @ IntToHex (blk_Timestamp b) @
           IntToHex (ps_Complexity (pow_settings_of pow)))))"

definition addNonceToPrepared :: "bytes \<Rightarrow> int \<Rightarrow> bytes" where
  "addNonceToPrepared data nonce = data @ IntToHex nonce"

definition maxNonce :: int where "maxNonce = 9223372036854775807"

text \<open>
  The loop of \<^verbatim>\<open>Run\<close>. It ends at \<open>maxNonce\<close>, which no machine reaches: \<open>fuel\<close> is the number of nonces
  tried, and \<open>Diverge\<close> says that more would be needed.
\<close>

fun pow_loop :: "nat \<Rightarrow> 'k crypto \<Rightarrow> nat \<Rightarrow> bytes \<Rightarrow> int \<Rightarrow> bytes \<Rightarrow> (int \<times> bytes) res" where
  "pow_loop fuel cr target predata nonce hash =
     (if \<not> nonce < maxNonce then Ok (nonce, hash)
      else (case fuel of
              0 \<Rightarrow> Diverge
            | Suc n \<Rightarrow>
                (let hash = sha256 cr (addNonceToPrepared predata nonce)
                 in if be_nat hash < target then Ok (nonce, hash)
                    else pow_loop n cr target predata (nonce + 1) hash)))"

declare pow_loop.simps [simp del]

definition Run :: "nat \<Rightarrow> 'k crypto \<Rightarrow> proof_of_work \<Rightarrow> (int \<times> bytes) res" where
  "Run fuel cr pow =
     (case prepareData cr pow of
        Err e \<Rightarrow> Err (ErrNew ''Pow run'')
      | r \<Rightarrow> bindR r (\<lambda>predata. pow_loop fuel cr (pow_target pow) predata 0 (zeros 32)))"

definition Validate :: "'k crypto \<Rightarrow> proof_of_work \<Rightarrow> bool res" where
  "Validate cr pow =
     bindR (prepareData cr pow) (\<lambda>predata.
     bindR (deref (pow_block pow)) (\<lambda>b.
       Ok (be_nat (sha256 cr (addNonceToPrepared predata (blk_Nonce b))) < pow_target pow)))"

definition GetTransactionLimitsPerBlock :: "proof_of_work \<Rightarrow> int \<Rightarrow> int \<times> int" where
  "GetTransactionLimitsPerBlock pow h =
     (let m = (if h > ps_MaxMinNumberTransactionInBlock (pow_settings_of pow)
               then ps_MaxMinNumberTransactionInBlock (pow_settings_of pow)
               else if h < 1 then 1 else h)
      in (m, ps_MaxNumberTransactionInBlock (pow_settings_of pow)))"

section \<open>Properties\<close>

lemma completeSettings_fields:
  "ps_Complexity (completeSettings s) = (if ps_Complexity s < 1 then 16 else ps_Complexity s)"
  "ps_ComplexityStep2 (completeSettings s) = (if ps_ComplexityStep2 s < 1 then 24 else ps_ComplexityStep2 s)"
  "ps_MaxMinNumberTransactionInBlock (completeSettings s) =
     (if ps_MaxMinNumberTransactionInBlock s < 1 then 1000 else ps_MaxMinNumberTransactionInBlock s)"
  by (auto simp: completeSettings_def Let_def)

lemma completeSettings_idem: "completeSettings (completeSettings s) = completeSettings s"
  by (auto simp: completeSettings_def Let_def)

text \<open>Below 10001 the two limits of a block are in order; above, the default can fall below the minimum.\<close>

lemma completeSettings_limits:
  "ps_MaxMinNumberTransactionInBlock (completeSettings s) \<le> 10000 \<Longrightarrow>
     ps_MaxMinNumberTransactionInBlock (completeSettings s) \<le> ps_MaxNumberTransactionInBlock (completeSettings s)"
  by (auto simp: completeSettings_def Let_def split: if_splits)

lemma pow_loop_step:
  "nonce < maxNonce \<Longrightarrow> pow_loop (Suc fuel) cr target predata nonce h0 =
     (if be_nat (sha256 cr (addNonceToPrepared predata nonce)) < target
      then Ok (nonce, sha256 cr (addNonceToPrepared predata nonce))
      else pow_loop fuel cr target predata (nonce + 1) (sha256 cr (addNonceToPrepared predata nonce)))"
  "nonce < maxNonce \<Longrightarrow> pow_loop 0 cr target predata nonce h0 = Diverge"
  "\<not> nonce < maxNonce \<Longrightarrow> pow_loop fuel cr target predata nonce h0 = Ok (nonce, h0)"
  by (simp_all add: pow_loop.simps[of 0] pow_loop.simps[of "Suc fuel"] pow_loop.simps[of fuel] Let_def)

lemma pow_loop_ge: "pow_loop fuel cr target predata nonce h0 = Ok (n, h) \<Longrightarrow> nonce \<le> n"
proof (induction fuel arbitrary: nonce h0)
  case 0
  then show ?case by (cases "nonce < maxNonce") (auto simp: pow_loop_step)
next
  case (Suc fuel)
  then show ?case by (cases "nonce < maxNonce") (fastforce simp: pow_loop_step split: if_splits)+
qed

lemma pow_loop_sound:
  "pow_loop fuel cr target predata nonce h0 = Ok (n, h) \<Longrightarrow> n < maxNonce \<Longrightarrow>
     h = sha256 cr (addNonceToPrepared predata n) \<and> be_nat h < target \<and>
     (\<forall>m. nonce \<le> m \<and> m < n \<longrightarrow> \<not> be_nat (sha256 cr (addNonceToPrepared predata m)) < target)"
proof (induction fuel arbitrary: nonce h0)
  case 0
  then show ?case by (cases "nonce < maxNonce") (auto simp: pow_loop_step)
next
  case (Suc fuel)
  let ?h = "sha256 cr (addNonceToPrepared predata nonce)"
  have lt: "nonce < maxNonce" using Suc.prems pow_loop_ge by fastforce
  show ?case
  proof (cases "be_nat ?h < target")
    case True
    then show ?thesis using Suc.prems lt by (auto simp: pow_loop_step)
  next
    case False
    then have r: "pow_loop fuel cr target predata (nonce + 1) ?h = Ok (n, h)"
      using Suc.prems lt by (simp add: pow_loop_step)
    have "\<not> be_nat (sha256 cr (addNonceToPrepared predata m)) < target" if "nonce \<le> m" "m < n" for m
      using Suc.IH[OF r Suc.prems(2)] that False by (cases "m = nonce") auto
    then show ?thesis using Suc.IH[OF r Suc.prems(2)] by blast
  qed
qed

lemma pow_loop_finds:
  "nonce + int k < maxNonce \<Longrightarrow> be_nat (sha256 cr (addNonceToPrepared predata (nonce + int k))) < target \<Longrightarrow>
     k < fuel \<Longrightarrow> \<exists>n h. pow_loop fuel cr target predata nonce h0 = Ok (n, h) \<and> n \<le> nonce + int k"
proof (induction k arbitrary: nonce h0 fuel)
  case 0
  then obtain f where "fuel = Suc f" by (cases fuel) auto
  then show ?case using 0 by (simp add: pow_loop_step)
next
  case (Suc k)
  obtain f where f: "fuel = Suc f" using Suc.prems by (cases fuel) auto
  have lt: "nonce < maxNonce" using Suc.prems(1) by simp
  show ?case
  proof (cases "be_nat (sha256 cr (addNonceToPrepared predata nonce)) < target")
    case True
    then show ?thesis using f lt by (simp add: pow_loop_step)
  next
    case False
    have "nonce + int (Suc k) = (nonce + 1) + int k" by simp
    then show ?thesis
      using Suc.IH[of "nonce + 1" f "sha256 cr (addNonceToPrepared predata nonce)"] Suc.prems f lt False
      by (simp add: pow_loop_step add.assoc)
  qed
qed

text \<open>The nonce that \<^verbatim>\<open>Run\<close> finds is one that \<^verbatim>\<open>Validate\<close> accepts, whatever the block says its hash is.\<close>

lemma Run_Validate:
  assumes "Run fuel cr \<lparr>pow_block = Some b, pow_target = tg, pow_settings_of = s\<rparr> = Ok (n, h)" and "n < maxNonce"
  shows "Validate cr \<lparr>pow_block = Some (b\<lparr>blk_Nonce := n, blk_Hash := x\<rparr>), pow_target = tg, pow_settings_of = s\<rparr> = Ok True"
proof -
  let ?p = "\<lparr>pow_block = Some b, pow_target = tg, pow_settings_of = s\<rparr>"
  let ?q = "\<lparr>pow_block = Some (b\<lparr>blk_Nonce := n, blk_Hash := x\<rparr>), pow_target = tg, pow_settings_of = s\<rparr>"
  obtain pre where pre: "prepareData cr ?p = Ok pre" "pow_loop fuel cr tg pre 0 (zeros 32) = Ok (n, h)"
    using assms(1) by (auto simp: Run_def split: res.splits)
  have "prepareData cr ?q = Ok pre" using pre(1) by (simp add: prepareData_def HashTransactions_def)
  then show ?thesis using pow_loop_sound[OF pre(2) assms(2)] by (auto simp: Validate_def)
qed

lemma Validate_ignores_hash:
  "Validate cr \<lparr>pow_block = Some (b\<lparr>blk_Hash := x, blk_Height := y\<rparr>), pow_target = tg, pow_settings_of = s\<rparr> =
   Validate cr \<lparr>pow_block = Some b, pow_target = tg, pow_settings_of = s\<rparr>"
  by (simp add: Validate_def prepareData_def HashTransactions_def)

text \<open>The permissions as one condition: whether the query kind is allowed by the rule that is in force.\<close>

definition rule_allows :: "config_table \<Rightarrow> string \<Rightarrow> bool" where
  "rule_allows t k \<longleftrightarrow>
     (k = QueryKindDelete \<longrightarrow> ct_AllowRowDelete t) \<and> (k = QueryKindInsert \<longrightarrow> ct_AllowRowInsert t) \<and>
     (k = QueryKindUpdate \<longrightarrow> ct_AllowRowUpdate t) \<and> (k = QueryKindCreate \<longrightarrow> ct_AllowTableCreate t)"

definition config_allows :: "consensus_config \<Rightarrow> string \<Rightarrow> bool" where
  "config_allows c k \<longleftrightarrow>
     (k = QueryKindCreate \<longrightarrow> cfg_AllowTableCreate c) \<and> (k = QueryKindDrop \<longrightarrow> cfg_AllowTableDrop c) \<and>
     (k = QueryKindDelete \<longrightarrow> cfg_AllowRowDelete c)"

lemma CheckExecutePermissions_spec:
  "CheckExecutePermissions vm qp pubKey = Ok
     (IsUpdate qp \<longrightarrow>
       (case find (\<lambda>t. ct_Table t = qp_table qp) (cfg_TableRules (vm_config vm)) of
          Some t \<Rightarrow> vm_previousBlockHeigh vm < ct_ApplyAfterBlock t \<or> rule_allows t (qp_kind qp)
        | None \<Rightarrow> vm_previousBlockHeigh vm < cfg_ApplyRulesAfterBlock (vm_config vm) \<or>
                  config_allows (vm_config vm) (qp_kind qp)))"
proof (cases "IsUpdate qp")
  case True
  show ?thesis
  proof (cases "find (\<lambda>t. ct_Table t = qp_table qp) (cfg_TableRules (vm_config vm))")
    case None
    then show ?thesis using True kind_neqs
      by (simp add: CheckExecutePermissions_def checkExecutePermissionsAsTable_def getTableCustomConfig_def
          config_allows_def)
  next
    case (Some t)
    then show ?thesis using True kind_neqs
      by (simp add: CheckExecutePermissions_def checkExecutePermissionsAsTable_def getTableCustomConfig_def
          rule_allows_def)
  qed
qed (simp add: CheckExecutePermissions_def)

lemma CheckQueryNeedsPayment_nonneg: "CheckQueryNeedsPayment vm qp = 0 \<or> flt 0 (CheckQueryNeedsPayment vm qp)"
  by (auto simp: CheckQueryNeedsPayment_def Let_def)

text \<open>
  C29: When some nonce within the limit gives a hash below the target, the search of the proof of
  work ends with the first one or an earlier one, and the block with that nonce is valid.
\<close>

lemma Run_finds:
  assumes "prepareData cr \<lparr>pow_block = Some b, pow_target = tg, pow_settings_of = s\<rparr> = Ok pre"
    and "be_nat (sha256 cr (addNonceToPrepared pre (int k))) < tg" and "int k < maxNonce" and "k < fuel"
  shows "\<exists>n h. Run fuel cr \<lparr>pow_block = Some b, pow_target = tg, pow_settings_of = s\<rparr> = Ok (n, h) \<and> n \<le> int k \<and>
     Validate cr \<lparr>pow_block = Some (b\<lparr>blk_Nonce := n, blk_Hash := h\<rparr>), pow_target = tg, pow_settings_of = s\<rparr> = Ok True"
proof -
  obtain n h where n: "pow_loop fuel cr tg pre 0 (zeros 32) = Ok (n, h)" "n \<le> int k"
    using pow_loop_finds[of 0 k cr pre tg fuel "zeros 32"] assms(2-4) by auto
  then have "Run fuel cr \<lparr>pow_block = Some b, pow_target = tg, pow_settings_of = s\<rparr> = Ok (n, h)"
    using assms(1) by (simp add: Run_def)
  then show ?thesis using Run_Validate[of fuel cr b tg s n h h] n(2) assms(3) by auto
qed

end
