(* ===== verification/BlockMaker.thy ===== *)
theory BlockMaker
  imports Tx_Spending Consensus_Rules
begin

text \<open>
  \<^verbatim>\<open>node/consensus/blockmaker.go\<close>: a node's block maker verifies transactions and blocks against the chain and
  the consensus rules, takes transactions into the pool, and makes a block from the pool. \<open>node_block_maker\<close> is
  \<^verbatim>\<open>NodeBlockMaker\<close> without its database and logger; \<open>rnd\<close> is what \<open>rand.Read\<close> fills, and \<open>fuel\<close> the number of
  nonces that \<^verbatim>\<open>CompleteBlock\<close> tries. The pause that makes a block last three seconds is not modelled.
\<close>

unbundle bit_operations_syntax

record node_block_maker =
  bm_MinterAddress :: string
  bm_PreparedBlock :: "block option"
  bm_config :: consensus_config

text \<open>\<^verbatim>\<open>BlockPrepare_\<close> constants.\<close>

datatype block_prepare = BlockPrepare_Done | BlockPrepare_NoTransactions | BlockPrepare_NotGoodTime

text \<open>\<^verbatim>\<open>getTransactionsManager\<close>: a manager with the reward of the configuration, with no pool object yet.\<close>

definition txm_of :: "consensus_config \<Rightarrow> ('k, 'm) txm_env \<Rightarrow> ('k, 'm) txm_env" where
  "txm_of cc e = e\<lparr>te_coins := cfg_CoinsForBlockMade cc\<rparr>"

definition getVerifyManager :: "consensus_config \<Rightarrow> int \<Rightarrow> verify_manager" where
  "getVerifyManager cc prevBlockNumber = \<lparr>vm_previousBlockHeigh = prevBlockNumber, vm_config = cc\<rparr>"

section \<open>Verification of a transaction\<close>

definition parseQueryFromTX ::
  "('k, 'm) txm_env \<Rightarrow> transaction \<Rightarrow> int \<Rightarrow> 'm node_db \<Rightarrow> query_parsed res \<times> 'm node_db" where
  "parseQueryFromTX e tx flags db = ParseQuery (te_sql e) db (GetSQLQuery tx) flags"

definition verifyTransactionSQLPermissions ::
  "consensus_config \<Rightarrow> transaction \<Rightarrow> query_parsed \<Rightarrow> int \<Rightarrow> unit res" where
  "verifyTransactionSQLPermissions cc tx qparsed prevBlockHeight =
     (if \<not> IsSQLCommand tx then Ok ()
      else bindR (CheckExecutePermissions (getVerifyManager cc prevBlockHeight) qparsed (tx_ByPubKey tx)) (\<lambda>hasPerm.
        if \<not> hasPerm then Err (ErrNew ''No permissions to execute this query'') else Ok ()))"

text \<open>The parsed query is always given here, so the branch that parses it again does not run.\<close>

definition verifyTransactionPaidSQL ::
  "'k crypto \<Rightarrow> consensus_config \<Rightarrow> transaction \<Rightarrow> query_parsed \<Rightarrow> int \<Rightarrow> unit res" where
  "verifyTransactionPaidSQL cr cc tx qparsed prevBlockHeight =
     (if \<not> (IsSQLCommand tx \<and> IsCurrencyTransfer tx) then Ok ()
      else
        let paidTXPubKeyHash = GetPaidTransactionsWalletPubKeyHash cr cc
        in if length paidTXPubKeyHash = 0 then Ok ()
           else
             bindR (CheckTXOutputsAreOnlyToGivenAddresses (tx_Vout tx)
                      [paidTXPubKeyHash, HashPubKey cr (tx_ByPubKey tx)]) (\<lambda>_.
               CheckTXOutputValueToAddress tx paidTXPubKeyHash
                 (CheckQueryNeedsPayment (getVerifyManager cc prevBlockHeight) qparsed)))"

definition bm_VerifyTransaction ::
  "('k, 'm) txm_env \<Rightarrow> consensus_config \<Rightarrow> transaction \<Rightarrow> transaction list option \<Rightarrow> bytes \<Rightarrow> int \<Rightarrow> int
     \<Rightarrow> 'm node_db \<Rightarrow> unit res \<times> 'm node_db" where
  "bm_VerifyTransaction e cc tx prevTXs prevBlockHash prevBlockHeight flags db =
     bindS (if length prevBlockHash > 0 then GetState db else Ok ([], 0), db) (\<lambda>(curBlockHash, curBlockHeight) db.
     let isOnTop = (prevBlockHash = [] \<or> curBlockHash = prevBlockHash);
         flags = (if isOnTop then flags OR TXFlagsBasedOnTopOfChain else flags)
     in bindS (txm_VerifyTransaction (txm_of cc e) tx prevTXs prevBlockHash flags db) (\<lambda>vtx db.
       if \<not> vtx then (Err (ErrNew ''Transaction in a block is not valid''), db)
       else if \<not> IsSQLCommand tx then (Ok (), db)
       else
         bindS (parseQueryFromTX e tx flags db) (\<lambda>qparsed db.
         bindS
           (if prevBlockHeight < 0 then
              (if length curBlockHash > 0 then (Ok curBlockHeight, db)
               else (bindR (GetState db) (\<lambda>(_, h). Ok h), db))
            else (Ok prevBlockHeight, db)) (\<lambda>prevBlockHeight db.
         bindS (verifyTransactionSQLPermissions cc tx qparsed prevBlockHeight, db) (\<lambda>_ db.
           (verifyTransactionPaidSQL (te_crypto e) cc tx qparsed prevBlockHeight, db))))))"

definition AddTransactionToPool ::
  "('k, 'm) txm_env \<Rightarrow> consensus_config \<Rightarrow> transaction \<Rightarrow> int \<Rightarrow> 'm node_db \<Rightarrow> unit res \<times> 'm node_db" where
  "AddTransactionToPool e cc tx flags db =
     (if IsCoinbaseTransfer tx then (Ok (), db)
      else bindS (bm_VerifyTransaction e cc tx None [] (- 1) flags db) (\<lambda>_ db.
             AddNewTransaction (txm_of cc e) tx flags db))"

section \<open>Verification of a block\<close>

definition getTransactionNumbersLimits :: "'m node_db \<Rightarrow> consensus_config \<Rightarrow> block option \<Rightarrow> (int \<times> int) res" where
  "getTransactionNumbersLimits db cc b =
     bindR (case b of None \<Rightarrow> bindR (GetBestHeight db) (\<lambda>h. Ok (wrap64 (h + 1))) | Some b \<Rightarrow> Ok (blk_Height b)) (\<lambda>h.
     bindR (NewProofOfWork None (cfg_Settings cc)) (\<lambda>pow. Ok (GetTransactionLimitsPerBlock pow h)))"

text \<open>The loop over the transactions: was a coinbase seen, the transactions before, the flags.\<close>

fun verify_block_txs ::
  "('k, 'm) txm_env \<Rightarrow> consensus_config \<Rightarrow> block \<Rightarrow> transaction list \<Rightarrow> bool \<Rightarrow> transaction list \<Rightarrow> int
     \<Rightarrow> 'm node_db \<Rightarrow> unit res \<times> 'm node_db" where
  "verify_block_txs e cc b [] coinbaseused prevTXs flags db =
     (if \<not> coinbaseused then (Err (ErrNew ''No coinbase TX in the block''), db) else (Ok (), db))"
| "verify_block_txs e cc b (tx # txs) coinbaseused prevTXs flags db =
     (if IsCoinbaseTransfer tx \<and> coinbaseused then (Err (ErrNew ''2 coin base TX in the block''), db)
      else
        let flags = flags OR TXFlagsVerifyAllowMissed
        in bindS (bm_VerifyTransaction e cc tx (Some prevTXs) (blk_PrevBlockHash b) (wrap64 (blk_Height b - 1)) flags db)
             (\<lambda>_ db. verify_block_txs e cc b txs (coinbaseused \<or> IsCoinbaseTransfer tx) (prevTXs @ [tx]) flags db))"

definition VerifyBlock ::
  "('k, 'm) txm_env \<Rightarrow> consensus_config \<Rightarrow> block \<Rightarrow> int \<Rightarrow> 'm node_db \<Rightarrow> unit res \<times> 'm node_db" where
  "VerifyBlock e cc b flags db =
     bindS (bindR (NewProofOfWork (Some b) (cfg_Settings cc)) (Validate (te_crypto e)), db) (\<lambda>valid db.
       if \<not> valid then (Err (ErrNew ''Block hash is not valid''), db)
       else
         let txnum = int (length (blk_Transactions b)) - 1
         in bindS (getTransactionNumbersLimits db cc (Some b), db) (\<lambda>(min, max) db.
           if txnum < min then (Err (ErrNew ''Number of transactions is too low''), db)
           else if txnum > max then (Err (ErrNew ''Number of transactions is too high''), db)
           else
             bindS
               (if has_flag flags TXFlagsSkipSQLBaseCheckIfNotOnTop then
                  bindR (GetState db) (\<lambda>(lastHash, _).
                    Ok (if lastHash \<noteq> blk_PrevBlockHash b then flags OR TXFlagsSkipSQLBaseCheck else flags))
                else Ok flags, db) (\<lambda>flags db.
             verify_block_txs e cc b (blk_Transactions b) False [] flags db)))"

section \<open>Making a block\<close>

text \<open>An error of \<^verbatim>\<open>getTransactionNumbersLimits\<close> is not looked at here: both limits are 0 then.\<close>

definition checkUnapprovedCache :: "consensus_config \<Rightarrow> 'm node_db \<Rightarrow> bool res \<times> 'm node_db" where
  "checkUnapprovedCache cc db =
     (case GetUnapprovedCount db of
        (Ok cnt, db) \<Rightarrow>
          (bindR (case getTransactionNumbersLimits db cc None of Err _ \<Rightarrow> Ok (0, 0) | r \<Rightarrow> r)
             (\<lambda>(min, _). Ok (int cnt \<ge> min)), db)
      | (Err _, db) \<Rightarrow> (Ok False, db)
      | (Panic, db) \<Rightarrow> (Panic, db)
      | (Diverge, db) \<Rightarrow> (Diverge, db))"

definition makeNewBlockFromTransactions ::
  "('k, 'm) txm_env \<Rightarrow> bytes option \<Rightarrow> node_block_maker \<Rightarrow> transaction list \<Rightarrow> 'm node_db \<Rightarrow> block res" where
  "makeNewBlockFromTransactions e rnd bm txs db =
     bindR (GetState db) (\<lambda>(lastHash, lastHeight).
     bindR (NewCoinbaseTransaction (te_crypto e) (db_gob db) (te_now e) rnd (bm_MinterAddress bm) ''''
              (cfg_CoinsForBlockMade (bm_config bm))) (\<lambda>cbTx.
       Ok (PrepareNewBlock (te_now e) (txs @ [cbTx]) lastHash (wrap64 (lastHeight + 1)))))"

definition doPrepareNewBlock ::
  "('k, 'm) txm_env \<Rightarrow> bytes option \<Rightarrow> node_block_maker \<Rightarrow> 'm node_db \<Rightarrow> node_block_maker res \<times> 'm node_db" where
  "doPrepareNewBlock e rnd bm db =
     (let cc = bm_config bm
      in bindS (GetUnapprovedCount db) (\<lambda>cnt db.
         bindS (getTransactionNumbersLimits db cc None, db) (\<lambda>(min, max) db.
           if \<not> int cnt \<ge> min then (Ok bm, db)
           else
             let cnt = (if int cnt > max then max else int cnt)
             in bindS (GetUnapprovedTransactionsForNewBlock (txm_of cc e) cnt db) (\<lambda>txs db.
                if int (length txs) < min
                then (Err (ErrNew ''No enought valid transactions! Waiting for new ones...''), db)
                else bindS (makeNewBlockFromTransactions e rnd bm txs db, db) (\<lambda>newBlock db.
                  (Ok (bm\<lparr>bm_PreparedBlock := Some newBlock\<rparr>), db))))))"

definition bm_PrepareNewBlock ::
  "('k, 'm) txm_env \<Rightarrow> bytes option \<Rightarrow> node_block_maker \<Rightarrow> 'm node_db
     \<Rightarrow> (block_prepare \<times> node_block_maker) res \<times> 'm node_db" where
  "bm_PrepareNewBlock e rnd bm db =
     (if bm_PreparedBlock bm \<noteq> None then (Err (ErrNew ''There is a block prepared already''), db)
      else
        bindS (checkUnapprovedCache (bm_config bm) db) (\<lambda>enough db.
          if \<not> enough then (Ok (BlockPrepare_NoTransactions, bm), db)
          else bindS (doPrepareNewBlock e rnd (bm\<lparr>bm_PreparedBlock := None\<rparr>) db) (\<lambda>bm db.
            if bm_PreparedBlock bm = None then (Ok (BlockPrepare_NoTransactions, bm), db)
            else (Ok (BlockPrepare_Done, bm), db))))"

definition SetPreparedBlock :: "block option \<Rightarrow> node_block_maker \<Rightarrow> node_block_maker" where
  "SetPreparedBlock b bm = bm\<lparr>bm_PreparedBlock := b\<rparr>"

definition IsBlockPrepared :: "node_block_maker \<Rightarrow> bool" where
  "IsBlockPrepared bm \<longleftrightarrow> bm_PreparedBlock bm \<noteq> None"

definition GetPreparedBlockTransactionsIDs :: "node_block_maker \<Rightarrow> bytes list res" where
  "GetPreparedBlockTransactionsIDs bm =
     (case bm_PreparedBlock bm of
        None \<Rightarrow> Err (ErrNew ''Block was not prepared'')
      | Some b \<Rightarrow> Ok (map tx_ID (filter (\<lambda>tx. \<not> IsCoinbaseTransfer tx) (blk_Transactions b))))"

text \<open>The block that is completed is the prepared one: it changes too.\<close>

definition CompleteBlock :: "'k crypto \<Rightarrow> nat \<Rightarrow> node_block_maker \<Rightarrow> (block \<times> node_block_maker) res" where
  "CompleteBlock cr fuel bm =
     (case bm_PreparedBlock bm of
        None \<Rightarrow> Err (ErrNew ''Block was not prepared'')
      | Some b \<Rightarrow>
          bindR (NewProofOfWork (Some b) (cfg_Settings (bm_config bm))) (\<lambda>pow.
          bindR (errR ''Pow error'' (Run fuel cr pow)) (\<lambda>(nonce, hash).
            let b = b\<lparr>blk_Hash := hash, blk_Nonce := nonce\<rparr>
            in Ok (b, bm\<lparr>bm_PreparedBlock := Some b\<rparr>))))"

section \<open>What a verified block satisfies\<close>

text \<open>Verification reads the chain and changes at most the caches.\<close>

lemma verify_open_pool: "same_chain (snd (txm_VerifyTransaction e tx (Some prev) tip flags db)) db"
  unfolding txm_VerifyTransaction_def verify_transaction_def
  by (intro bindS_keeps[where P = "\<lambda>s. same_chain s db"])
    (auto simp: split_beta Let_def open_pool_same same_chain_trans[OF open_pool_same] check_base_listed
       intro!: bindS_keeps[where P = "\<lambda>s. same_chain s db"])

lemma patchRowInfo_same: "same_chain (snd (patchRowInfo e db q flags)) db"
  unfolding patchRowInfo_def key_column_def Let_def
  by (auto intro!: bindS_keeps[where P = "\<lambda>s. same_chain s db"] split: prod.splits option.splits)

lemma ParseQuery_same: "same_chain (snd (ParseQuery e db q flags)) db"
  unfolding ParseQuery_def
  by (intro bindS_keeps[where P = "\<lambda>s. same_chain s db"])
    (auto intro: same_chain_trans[OF patchRowInfo_same] intro!: bindS_keeps[where P = "\<lambda>s. same_chain s db"])

lemma bm_VerifyTransaction_tx:
  assumes "bm_VerifyTransaction e cc tx (Some prev) h ht fl d = (Ok (), d')" and "same_chain d db"
  shows "block_tx_valid (txm_of cc e) db h prev tx \<and> same_chain d' db"
proof -
  obtain fl d1 where v: "txm_VerifyTransaction (txm_of cc e) tx (Some prev) h fl d = (Ok True, d1)"
    and rest: "d' = d1 \<or> (\<exists>fl r. parseQueryFromTX e tx fl d1 = (r, d'))"
    using assms(1) unfolding bm_VerifyTransaction_def by (auto simp: res_simps Let_def split: if_splits)
  have "same_chain d1 d" using verify_open_pool[of "txm_of cc e" tx prev h fl d] v by simp
  moreover have "same_chain d' d1"
    using rest ParseQuery_same[of "te_sql e" d1 "GetSQLQuery tx"] unfolding parseQueryFromTX_def
    by (metis same_chain_simps(1) snd_conv)
  ultimately have "same_chain d' db" using assms(2) same_chain_trans by blast
  then show ?thesis using verified_block_tx[OF v[unfolded txm_VerifyTransaction_def] assms(2)] by simp
qed

lemma verify_block_txs_sound:
  assumes "verify_block_txs e cc b txs used prev flags d = (Ok (), d')" and "same_chain d db"
  shows "length (filter IsCoinbaseTransfer txs) + (if used then 1 else 0) = 1 \<and>
    (\<forall>i<length txs. block_tx_valid (txm_of cc e) db (blk_PrevBlockHash b) (prev @ take i txs) (txs ! i))"
  using assms
proof (induction txs arbitrary: used prev flags d)
  case (Cons tx txs)
  let ?f = "flags OR TXFlagsVerifyAllowMissed"
  have nc: "\<not> (IsCoinbaseTransfer tx \<and> used)" using Cons.prems by (auto split: if_splits)
  obtain d1 where d1: "bm_VerifyTransaction e cc tx (Some prev) (blk_PrevBlockHash b) (wrap64 (blk_Height b - 1)) ?f d = (Ok (), d1)"
    "verify_block_txs e cc b txs (used \<or> IsCoinbaseTransfer tx) (prev @ [tx]) ?f d1 = (Ok (), d')"
    using Cons.prems nc by (auto simp: res_simps Let_def)
  note v = bm_VerifyTransaction_tx[OF d1(1) Cons.prems(2)]
  note ih = Cons.IH[OF d1(2)] v
  have "block_tx_valid (txm_of cc e) db (blk_PrevBlockHash b) (prev @ take i (tx # txs)) ((tx # txs) ! i)"
    if "i < length (tx # txs)" for i
    using that ih by (cases i) auto
  then show ?case using ih nc by auto
qed (auto split: if_splits)

text \<open>
  C22: A block that VerifyBlock accepts has a valid proof of work, exactly one coinbase transaction,
  a number of transactions between the limits for its height, and transactions that are each valid
  on the chain under its previous block after the ones before it.
\<close>

lemma VerifyBlock_sound:
  assumes "VerifyBlock e cc b flags db = (Ok (), db')"
  shows "length (filter IsCoinbaseTransfer (blk_Transactions b)) = 1 \<and>
    (\<exists>pow. NewProofOfWork (Some b) (cfg_Settings cc) = Ok pow \<and> Validate (te_crypto e) pow = Ok True) \<and>
    (\<exists>mi ma. getTransactionNumbersLimits db cc (Some b) = Ok (mi, ma) \<and>
       mi \<le> int (length (blk_Transactions b)) - 1 \<and> int (length (blk_Transactions b)) - 1 \<le> ma) \<and>
    (\<forall>i<length (blk_Transactions b). block_tx_valid (txm_of cc e) db (blk_PrevBlockHash b)
        (take i (blk_Transactions b)) (blk_Transactions b ! i))"
proof -
  obtain fl where v: "verify_block_txs e cc b (blk_Transactions b) False [] fl db = (Ok (), db')"
    using assms by (auto simp: VerifyBlock_def res_simps Let_def split: if_splits prod.splits)
  moreover have "(\<exists>pow. NewProofOfWork (Some b) (cfg_Settings cc) = Ok pow \<and> Validate (te_crypto e) pow = Ok True) \<and>
    (\<exists>mi ma. getTransactionNumbersLimits db cc (Some b) = Ok (mi, ma) \<and>
       mi \<le> int (length (blk_Transactions b)) - 1 \<and> int (length (blk_Transactions b)) - 1 \<le> ma)"
    using assms by (auto simp: VerifyBlock_def res_simps Let_def split: if_splits prod.splits)
  ultimately show ?thesis using verify_block_txs_sound[OF v same_chain_simps(1)] by auto
qed

section \<open>Gaps of the verification\<close>

text \<open>A block without transactions: its Merkle root reads the first of no nodes.\<close>

lemma VerifyBlock_empty:
  assumes "blk_Transactions b = []"
  shows "VerifyBlock e cc b flags db = (Panic, db)"
proof -
  have "bindR (NewProofOfWork (Some b) (cfg_Settings cc)) (Validate (te_crypto e)) = Panic"
    using assms NewMerkleTree_empty[of "te_crypto e"]
    by (auto simp: NewProofOfWork_def Let_def Validate_def prepareData_def HashTransactions_def)
  then show ?thesis by (simp add: VerifyBlock_def)
qed

text \<open>The signature of a coinbase transaction is not looked at, whether or not it carries an SQL command.\<close>

lemma signature_free_parts:
  "IsSQLCommand (tx\<lparr>tx_Signature := s\<rparr>) = IsSQLCommand tx"
  "IsCoinbaseTransfer (tx\<lparr>tx_Signature := s\<rparr>) = IsCoinbaseTransfer tx"
  "checkBaseTransaction e opn (tx\<lparr>tx_Signature := s\<rparr>) = checkBaseTransaction e opn tx"
  "parseQueryFromTX e (tx\<lparr>tx_Signature := s\<rparr>) = parseQueryFromTX e tx"
  "verifyTransactionSQLPermissions cc (tx\<lparr>tx_Signature := s\<rparr>) = verifyTransactionSQLPermissions cc tx"
  "verifyTransactionPaidSQL cr cc (tx\<lparr>tx_Signature := s\<rparr>) = verifyTransactionPaidSQL cr cc tx"
  by (simp_all add: fun_eq_iff IsSQLCommand_def IsCoinbaseTransfer_def checkBaseTransaction_def parseQueryFromTX_def
      GetSQLQuery_def verifyTransactionSQLPermissions_def verifyTransactionPaidSQL_def IsCurrencyTransfer_def
      CheckTXOutputValueToAddress_def Let_def cong: if_cong option.case_cong)

lemma verify_coinbase_signature:
  assumes "IsCoinbaseTransfer tx"
  shows "verify_transaction x opn (tx\<lparr>tx_Signature := s\<rparr>) prev tip fl = verify_transaction x opn tx prev tip fl"
  using assms
  by (simp add: fun_eq_iff verify_transaction_def getCurrencyInputTransactionsState_def signature_free_parts Verify_def
      cong: if_cong)

lemma coinbase_signature_free:
  assumes "IsCoinbaseTransfer tx"
  shows "bm_VerifyTransaction e cc (tx\<lparr>tx_Signature := s\<rparr>) prev h ht flags db =
         bm_VerifyTransaction e cc tx prev h ht flags db"
  by (simp add: bm_VerifyTransaction_def txm_VerifyTransaction_def signature_free_parts
      verify_coinbase_signature[OF assms] Let_def cong: if_cong)

text \<open>When the paid part of an SQL transaction is accepted: a transaction without a currency part pays nothing.\<close>

lemma verifyTransactionPaidSQL_Ok:
  "verifyTransactionPaidSQL cr cc tx q h = Ok () \<longleftrightarrow>
     \<not> IsSQLCommand tx \<or> (tx_Vin tx = [] \<and> tx_Vout tx = []) \<or> GetPaidTransactionsWalletPubKeyHash cr cc = [] \<or>
     (let w = GetPaidTransactionsWalletPubKeyHash cr cc
      in vout_PubKeyHash ` set (tx_Vout tx) \<subseteq> {w, HashPubKey cr (tx_ByPubKey tx)} \<and>
         feq (foldl (\<lambda>t out. if vout_PubKeyHash out = w then fadd t (vout_Value out) else t) 0 (tx_Vout tx))
             (CheckQueryNeedsPayment (getVerifyManager cc h) q))"
  by (auto simp: verifyTransactionPaidSQL_def Let_def check_outputs_Ok IsCurrencyTransfer_iff
      CheckTXOutputValueToAddress_def res_simps)

section \<open>Blocks the maker makes\<close>

lemma block_upd_commute: "b\<lparr>blk_Hash := h, blk_Nonce := n\<rparr> = b\<lparr>blk_Nonce := n, blk_Hash := h\<rparr>"
  by (cases b) simp

text \<open>
  C24: A completed block differs from the prepared one in hash and nonce only, passes the check of
  its proof of work, and its hash is the one of its data with that nonce.
\<close>

lemma CompleteBlock_valid:
  assumes "CompleteBlock cr fuel bm = Ok (b', bm')" and "blk_Nonce b' < maxNonce"
  shows "\<exists>b pow. bm_PreparedBlock bm = Some b \<and> b' = b\<lparr>blk_Hash := blk_Hash b', blk_Nonce := blk_Nonce b'\<rparr> \<and>
     bm_PreparedBlock bm' = Some b' \<and>
     NewProofOfWork (Some b') (cfg_Settings (bm_config bm)) = Ok pow \<and> Validate cr pow = Ok True \<and>
     (\<exists>pre. prepareData cr pow = Ok pre \<and> blk_Hash b' = sha256 cr (addNonceToPrepared pre (blk_Nonce b')))"
proof -
  obtain b pow nonce hash where b: "bm_PreparedBlock bm = Some b"
    "NewProofOfWork (Some b) (cfg_Settings (bm_config bm)) = Ok pow" "Run fuel cr pow = Ok (nonce, hash)"
    "b' = b\<lparr>blk_Hash := hash, blk_Nonce := nonce\<rparr>" "bm' = bm\<lparr>bm_PreparedBlock := Some b'\<rparr>"
    using assms(1) by (auto simp: CompleteBlock_def res_simps Let_def split: option.splits elim!: errR.elims)
  then have n: "nonce < maxNonce" using assms(2) by simp
  obtain tg s where pow: "pow = \<lparr>pow_block = Some b, pow_target = tg, pow_settings_of = s\<rparr>"
    using b(2) by (auto simp: NewProofOfWork_def Let_def split: if_splits)
  let ?pow = "\<lparr>pow_block = Some b', pow_target = tg, pow_settings_of = s\<rparr>"
  obtain pre where pre: "prepareData cr pow = Ok pre" "pow_loop fuel cr tg pre 0 (zeros 32) = Ok (nonce, hash)"
    using b(3) pow by (auto simp: Run_def split: res.splits)
  have "NewProofOfWork (Some b') (cfg_Settings (bm_config bm)) = Ok ?pow"
    using b(2,4) pow by (auto simp: NewProofOfWork_def Let_def split: if_splits)
  moreover have "Validate cr ?pow = Ok True"
    using Run_Validate[of fuel cr b tg s nonce hash hash] b(3,4) n pow
    by (simp add: block_upd_commute)
  moreover have "prepareData cr ?pow = Ok pre"
    using pre(1) b(4) pow by (simp add: prepareData_def HashTransactions_def)
  ultimately show ?thesis using b n pow_loop_sound[OF pre(2) n] by auto
qed

lemma makeNewBlock_spec:
  assumes "makeNewBlockFromTransactions e rnd bm txs db = Ok b"
  shows "\<exists>cb lastHash lastHeight. blk_Transactions b = txs @ [cb] \<and> IsCoinbaseTransfer cb \<and>
     GetState db = Ok (lastHash, lastHeight) \<and> blk_PrevBlockHash b = lastHash \<and> blk_Height b = wrap64 (lastHeight + 1)"
proof -
  obtain lastHash lastHeight cb where g: "GetState db = Ok (lastHash, lastHeight)"
    "NewCoinbaseTransaction (te_crypto e) (db_gob db) (te_now e) rnd (bm_MinterAddress bm) ''''
              (cfg_CoinsForBlockMade (bm_config bm)) = Ok cb"
    "b = PrepareNewBlock (te_now e) (txs @ [cb]) lastHash (wrap64 (lastHeight + 1))"
    using assms by (auto simp: makeNewBlockFromTransactions_def res_simps)
  then show ?thesis using NewCoinbase_is_coinbase[OF g(2)] by (auto simp: PrepareNewBlock_def)
qed

lemma same_heights: "same_chain d db \<Longrightarrow> GetBestHeight d = GetBestHeight db"
proof -
  assume same: "same_chain d db"
  have "GetTopBlock d = GetTopBlock db" by (simp add: GetTopBlock_def same_reads[OF same])
  then show ?thesis by (simp add: GetBestHeight_def same_reads[OF same])
qed

lemma PrepareNewBlock_main:
  fixes db db' :: "'m node_db"
  assumes "bm_PrepareNewBlock e rnd bm db = (Ok (BlockPrepare_Done, bm'), db')"
  shows "\<exists>b cb txs lastHash lastHeight mi ma. bm_PreparedBlock bm' = Some b \<and> blk_Transactions b = txs @ [cb] \<and>
     IsCoinbaseTransfer cb \<and> distinct (concat (map inputs_of txs)) \<and>
     (\<exists>passed. subseq txs passed \<and>
        (\<forall>i<length passed. block_tx_valid (txm_of (bm_config bm) e) db' [] (take i passed) (passed ! i))) \<and>
     GetState db' = Ok (lastHash, lastHeight) \<and> blk_PrevBlockHash b = lastHash \<and> blk_Height b = wrap64 (lastHeight + 1) \<and>
     getTransactionNumbersLimits db' (bm_config bm) None = Ok (mi, ma) \<and> mi \<le> int (length txs)"
proof -
  obtain d1 where p: "doPrepareNewBlock e rnd (bm\<lparr>bm_PreparedBlock := None\<rparr>) d1 = (Ok bm', db')"
    "bm_PreparedBlock bm' \<noteq> None"
    using assms by (auto simp: bm_PrepareNewBlock_def res_simps split: if_splits)
  then obtain d2 mi ma k txs b where q: "getTransactionNumbersLimits d2 (bm_config bm) None = Ok (mi, ma)"
    "GetUnapprovedTransactionsForNewBlock (txm_of (bm_config bm) e) k d2 = (Ok txs, db')" "mi \<le> int (length txs)"
    "makeNewBlockFromTransactions e rnd (bm\<lparr>bm_PreparedBlock := None\<rparr>) txs db' = Ok b"
    "bm_PreparedBlock bm' = Some b"
    by (auto simp: doPrepareNewBlock_def res_simps Let_def split: if_splits)
  note new = new_block_transactions[OF q(2)]
  then have same: "same_chain db' d2" by blast
  have "getTransactionNumbersLimits db' (bm_config bm) None = Ok (mi, ma)"
    using q(1) same_heights[OF same] by (simp add: getTransactionNumbersLimits_def)
  moreover obtain passed where "subseq txs passed"
    "\<forall>i<length passed. block_tx_valid (txm_of (bm_config bm) e) db' [] (take i passed) (passed ! i)"
    using new same_valid[OF same, of "txm_of (bm_config bm) e"] by auto
  moreover obtain cb lastHash lastHeight where "blk_Transactions b = txs @ [cb]" "IsCoinbaseTransfer cb"
    "GetState db' = Ok (lastHash, lastHeight)" "blk_PrevBlockHash b = lastHash" "blk_Height b = wrap64 (lastHeight + 1)"
    using makeNewBlock_spec[OF q(4)] by blast
  moreover have "distinct (concat (map inputs_of txs))" using new by blast
  ultimately show ?thesis using q(3,5)
    by (intro exI conjI)
qed


end
