(* ===== verification/QueryManager.thy ===== *)
theory QueryManager
  imports BlockMaker
begin

text \<open>
  \<^verbatim>\<open>node/consensus/querymanager.go\<close>: what happens with an SQL query that a client, the node itself or the
  database proxy sends. \<open>query_manager\<close> holds the keys of the node and the configuration; \<open>i\<close> counts the calls
  of \<open>ecdsa.Sign\<close>. A response that comes with an error is not used by the callers and is not part of the result.
\<close>

record 'k query_manager =
  qm_pubKey :: bytes
  qm_privKey :: 'k
  qm_config :: consensus_config

datatype query_status =
    ResultError
  | ResultExecuted
  | ResultPubKeyRequired
  | ResultSignatureRequired
  | ResultTransactionComplete
  | ResultTransactionCompleteInternally
  | ResultCanBeExecuted

record query_response =
  pr_status :: query_status
  pr_txdata :: bytes
  pr_stringtosign :: bytes
  pr_tx :: "transaction option"

definition response :: "query_status \<Rightarrow> bytes \<Rightarrow> bytes \<Rightarrow> transaction option \<Rightarrow> query_response" where
  "response st d s tx = \<lparr>pr_status = st, pr_txdata = d, pr_stringtosign = s, pr_tx = tx\<rparr>"

section \<open>Processing a query\<close>

definition checkQueryNeedsTransaction :: "consensus_config \<Rightarrow> query_parsed \<Rightarrow> bool" where
  "checkQueryNeedsTransaction cc qp \<longleftrightarrow>
     \<not> IsSelect qp \<and> \<not> IsUpdateOther qp \<and> qp_table qp \<notin> set (cfg_UnmanagedTables cc)"

definition processQueryWithSignature ::
  "('k, 'm) txm_env \<Rightarrow> 'k query_manager \<Rightarrow> bytes \<Rightarrow> bytes \<Rightarrow> int \<Rightarrow> 'm node_db
     \<Rightarrow> transaction res \<times> 'm node_db" where
  "processQueryWithSignature e q txEncoded signature flags db =
     bindS (gob_untx (db_gob db) txEncoded, db) (\<lambda>tx db.
       let tx = CompleteTransaction (te_crypto e) (db_gob db) tx signature
       in bindS (AddTransactionToPool e (qm_config q) tx flags db) (\<lambda>_ db. (Ok tx, db)))"

text \<open>The key to use: the argument, then the one in the comments of the query, then the key of the node.\<close>

definition choose_pubKey :: "'k query_manager \<Rightarrow> query_parsed \<Rightarrow> bytes \<Rightarrow> bytes" where
  "choose_pubKey q qparsed pubKey =
     (if length pubKey > 0 then pubKey
      else if length (qp_PubKey qparsed) > 0 then qp_PubKey qparsed else qm_pubKey q)"

definition prepare_transaction ::
  "('k, 'm) txm_env \<Rightarrow> 'k query_manager \<Rightarrow> nat \<Rightarrow> query_parsed \<Rightarrow> bytes \<Rightarrow> int \<Rightarrow> 'm node_db
     \<Rightarrow> query_response res \<times> 'm node_db" where
  "prepare_transaction e q i qparsed pubKey flags db =
     (let cc = qm_config q; cr = te_crypto e
      in bindS (GetState db, db) (\<lambda>(_, prevBlockHeight) db.
         bindS (CheckExecutePermissions (getVerifyManager cc prevBlockHeight) qparsed pubKey, db) (\<lambda>hasPerm db.
           if \<not> hasPerm then (Err (ErrNew ''No permissions to execute this query''), db)
           else
             let amount = CheckQueryNeedsPayment (getVerifyManager cc prevBlockHeight) qparsed
             in bindS (MakeSQLUpdateStructure qparsed, db) (\<lambda>sqlUpdate db.
                bindS (PrepareNewSQLTransaction (txm_of cc e) pubKey sqlUpdate amount (GetPaidTransactionsWallet cr cc) db)
                  (\<lambda>(txdata, stringtosign) db.
                bindS (gob_untx (db_gob db) txdata, db) (\<lambda>tx db.
                  if length (qm_pubKey q) > 0 \<and> qm_pubKey q = pubKey then
                    bindS (SignDataByPubKey cr i (qm_pubKey q) (qm_privKey q) stringtosign, db) (\<lambda>signature db.
                    bindS (processQueryWithSignature e q txdata signature flags db) (\<lambda>tx db.
                      (Ok (response ResultTransactionCompleteInternally txdata stringtosign (Some tx)), db)))
                  else (Ok (response ResultSignatureRequired txdata stringtosign (Some tx)), db)))))))"

definition processQuery ::
  "('k, 'm) txm_env \<Rightarrow> 'k query_manager \<Rightarrow> nat \<Rightarrow> string \<Rightarrow> bytes \<Rightarrow> int \<Rightarrow> 'm node_db
     \<Rightarrow> query_response res \<times> 'm node_db" where
  "processQuery e q i sql pubKey flags db =
     bindS (ParseQuery (te_sql e) db sql 0) (\<lambda>qparsed db.
       if length (qp_Signature qparsed) > 0 \<and> length (qp_TransactionBytes qparsed) > 0 then
         bindS (processQueryWithSignature e q (qp_TransactionBytes qparsed) (qp_Signature qparsed) flags db) (\<lambda>tx db.
           (Ok (response ResultTransactionComplete [] [] (Some tx)), db))
       else if \<not> checkQueryNeedsTransaction (qm_config q) qparsed then
         (if \<not> has_flag flags TXFlagsExecute then (Ok (response ResultCanBeExecuted [] [] None), db)
          else
            bindS (if IsUpdate qparsed
                   then (let (r, db) = ExecuteQuery (te_sql e) db (qp_SQL qparsed) in (bindR r (\<lambda>_. Ok ()), db))
                   else (Ok (), db)) (\<lambda>_ db.
              (Ok (response ResultExecuted [] [] None), db)))
       else
         let pubKey = choose_pubKey q qparsed pubKey
         in if length pubKey = 0 then (Ok (response ResultPubKeyRequired [] [] None), db)
            else prepare_transaction e q i qparsed pubKey flags db)"

section \<open>The entry points\<close>

definition NewQuery ::
  "('k, 'm) txm_env \<Rightarrow> 'k query_manager \<Rightarrow> nat \<Rightarrow> string \<Rightarrow> bytes \<Rightarrow> 'm node_db \<Rightarrow> query_response res \<times> 'm node_db" where
  "NewQuery e q i sql pubKey db = processQuery e q i sql pubKey TXFlagsExecute db"

definition NewQuerySigned ::
  "('k, 'm) txm_env \<Rightarrow> 'k query_manager \<Rightarrow> bytes \<Rightarrow> bytes \<Rightarrow> 'm node_db \<Rightarrow> transaction res \<times> 'm node_db" where
  "NewQuerySigned e q txEncoded signature db = processQueryWithSignature e q txEncoded signature TXFlagsExecute db"

definition NewQueryByNode ::
  "('k, 'm) txm_env \<Rightarrow> 'k query_manager \<Rightarrow> nat \<Rightarrow> string \<Rightarrow> bytes \<Rightarrow> 'k \<Rightarrow> 'm node_db
     \<Rightarrow> (query_status \<times> transaction option) res \<times> 'm node_db" where
  "NewQueryByNode e q i sql pubKey privKey db =
     bindS (processQuery e q i sql pubKey TXFlagsExecute db) (\<lambda>result db.
       if pr_status result \<in> {ResultExecuted, ResultTransactionComplete, ResultTransactionCompleteInternally}
       then (Ok (pr_status result, pr_tx result), db)
       else if pr_status result = ResultPubKeyRequired
       then (Err (ErrNew ''PubKey is not provided or is wrong''), db)
       else
         bindS (SignDataByPubKey (te_crypto e) (Suc i) pubKey privKey (pr_stringtosign result), db) (\<lambda>signature db.
         bindS (NewQuerySigned e q (pr_txdata result) signature db) (\<lambda>tx db.
           (Ok (ResultTransactionComplete, Some tx), db))))"

definition NewQueryByNodeInit ::
  "('k, 'm) txm_env \<Rightarrow> 'k query_manager \<Rightarrow> nat \<Rightarrow> string \<Rightarrow> bytes \<Rightarrow> 'k \<Rightarrow> 'm node_db
     \<Rightarrow> transaction option res \<times> 'm node_db" where
  "NewQueryByNodeInit e q i sql pubKey privKey db =
     bindS (processQuery e q i sql pubKey 0 db) (\<lambda>result db.
       if pr_status result = ResultSignatureRequired then
         bindS (SignDataByPubKey (te_crypto e) (Suc i) pubKey privKey (pr_stringtosign result), db) (\<lambda>signature db.
         bindS (processQueryWithSignature e q (pr_txdata result) signature 0 db) (\<lambda>tx db. (Ok (Some tx), db)))
       else if pr_status result \<noteq> ResultTransactionCompleteInternally
       then (Err (ErrNew ''Transaction was not complete''), db)
       else (Ok (pr_tx result), db))"

record query_from_proxy =
  fp_Status :: nat
  fp_TX :: "transaction option"
  fp_TXData :: bytes
  fp_StringToSign :: bytes
  fp_ReplaceQuery :: string
  fp_ErrorCode :: nat
  fp_Error :: "err option"

definition no_proxy_result :: query_from_proxy where
  "no_proxy_result = \<lparr>fp_Status = 0, fp_TX = None, fp_TXData = [], fp_StringToSign = [], fp_ReplaceQuery = [],
     fp_ErrorCode = 0, fp_Error = None\<rparr>"

text \<open>The transaction whose query replaces the one of the client is dereferenced.\<close>

definition proxy_result :: "query_response \<Rightarrow> query_from_proxy res" where
  "proxy_result r =
     (if pr_status r = ResultCanBeExecuted then Ok (no_proxy_result\<lparr>fp_Status := 3, fp_TX := pr_tx r\<rparr>)
      else if pr_status r \<in> {ResultExecuted, ResultTransactionComplete, ResultTransactionCompleteInternally} then
        bindR (deref (pr_tx r)) (\<lambda>tx.
          Ok (no_proxy_result\<lparr>fp_Status := 1, fp_ReplaceQuery := GetSQLQuery tx, fp_TX := pr_tx r\<rparr>))
      else if pr_status r = ResultPubKeyRequired then
        Ok (no_proxy_result\<lparr>fp_ErrorCode := 2, fp_Error := Some (ErrNew ''Error(2): Public Key required'')\<rparr>)
      else if pr_status r = ResultSignatureRequired then
        Ok (no_proxy_result\<lparr>fp_TXData := pr_txdata r, fp_StringToSign := pr_stringtosign r, fp_Status := 2\<rparr>)
      else Ok (no_proxy_result\<lparr>fp_ErrorCode := 5, fp_Error := Some (ErrNew ''Unknown query status'')\<rparr>))"

definition NewQueryFromProxy ::
  "('k, 'm) txm_env \<Rightarrow> 'k query_manager \<Rightarrow> nat \<Rightarrow> string \<Rightarrow> 'm node_db \<Rightarrow> query_from_proxy res \<times> 'm node_db" where
  "NewQueryFromProxy e q i sql db =
     (case processQuery e q i sql [] TXFlagsNoPool db of
        (Err er, db) \<Rightarrow> (Ok (no_proxy_result\<lparr>fp_ErrorCode := 4, fp_Error := Some er\<rparr>), db)
      | (Ok r, db) \<Rightarrow> (proxy_result r, db)
      | (Panic, db) \<Rightarrow> (Panic, db)
      | (Diverge, db) \<Rightarrow> (Diverge, db))"

section \<open>Transactions of cancelled blocks\<close>

definition tryToRepeatTransactionResigned ::
  "('k, 'm) txm_env \<Rightarrow> 'k query_manager \<Rightarrow> nat \<Rightarrow> transaction \<Rightarrow> bytes \<Rightarrow> 'm node_db \<Rightarrow> unit res \<times> 'm node_db" where
  "tryToRepeatTransactionResigned e q i tx newSQLBaseTX db =
     (if \<not> IsSQLCommand tx then (Err (ErrNew ''Can repeat only SQL transactions''), db)
      else if length (qm_pubKey q) > 0 \<and> qm_pubKey q = tx_ByPubKey tx then
        bindS (PrepareSQLTransactionSignatureData (txm_of (qm_config q) e) (tx\<lparr>tx_SQLBaseTX := newSQLBaseTX\<rparr>) db)
          (\<lambda>(txdata, stringtosign) db.
        bindS (SignDataByPubKey (te_crypto e) i (qm_pubKey q) (qm_privKey q) stringtosign, db) (\<lambda>signature db.
        bindS (processQueryWithSignature e q txdata signature TXFlagsExecute db) (\<lambda>_ db. (Ok (), db))))
      else if length (qm_pubKey q) = 0
      then (Err (ErrNew ''The node has no private key to sign transactions''), db)
      else (Err (ErrNew ''Transaction was signed by different public key from current node key''), db))"

text \<open>Every error is logged and the next transaction is tried.\<close>

fun RepeatTransactionsFromCanceledBlocks ::
  "('k, 'm) txm_env \<Rightarrow> 'k query_manager \<Rightarrow> nat \<Rightarrow> transaction list \<Rightarrow> 'm node_db \<Rightarrow> unit res \<times> 'm node_db" where
  "RepeatTransactionsFromCanceledBlocks e q i [] db = (Ok (), db)"
| "RepeatTransactionsFromCanceledBlocks e q i (tx # txs) db =
     (case AddTransactionToPool e (qm_config q) tx TXFlagsExecute db of
        (Err (ErrTXVerify kind base), db) \<Rightarrow>
          ignoreS (if kind = ''sqlbaseisdifferent'' then tryToRepeatTransactionResigned e q i tx base db else (Ok (), db))
            (RepeatTransactionsFromCanceledBlocks e q (Suc i) txs)
      | (Panic, db) \<Rightarrow> (Panic, db)
      | (Diverge, db) \<Rightarrow> (Diverge, db)
      | (_, db) \<Rightarrow> RepeatTransactionsFromCanceledBlocks e q (Suc i) txs db)"

section \<open>What the proxy lets through\<close>

text \<open>The pool's entry point accepted the transaction in some state.\<close>

definition pool_accepts :: "('k, 'm) txm_env \<Rightarrow> consensus_config \<Rightarrow> transaction \<Rightarrow> int \<Rightarrow> bool" where
  "pool_accepts e cc tx flags \<longleftrightarrow> (\<exists>d d'. AddTransactionToPool e cc tx flags d = (Ok (), d'))"

lemma processQueryWithSignature_Ok:
  assumes "processQueryWithSignature e q txEncoded signature flags db = (Ok tx, db')"
  shows "pool_accepts e (qm_config q) tx flags"
proof -
  obtain tx0 where "tx = CompleteTransaction (te_crypto e) (db_gob db) tx0 signature"
    "AddTransactionToPool e (qm_config q) tx flags db = (Ok (), db')"
    using assms by (auto simp: processQueryWithSignature_def res_simps Let_def)
  then show ?thesis unfolding pool_accepts_def by blast
qed

lemma processQuery_noexec:
  assumes "processQuery e q i sql pk TXFlagsNoPool db = (Ok r, db')"
  shows "pr_status r \<in> {ResultCanBeExecuted, ResultPubKeyRequired, ResultSignatureRequired} \<or>
    pr_status r \<in> {ResultTransactionComplete, ResultTransactionCompleteInternally} \<and>
    (\<exists>tx. pr_tx r = Some tx \<and> pool_accepts e (qm_config q) tx TXFlagsNoPool)"
proof -
  have f: "\<not> has_flag TXFlagsNoPool TXFlagsExecute" by (simp add: has_flag_def tx_flags)
  show ?thesis
    using assms
    by (auto simp: processQuery_def prepare_transaction_def res_simps f response_def Let_def
        split: if_splits dest!: processQueryWithSignature_Ok)
qed

text \<open>
  The proxy passes a query on only with a transaction that the pool would accept, and then it is the query of that
  transaction, or as it is when the rules ask for no transaction.
\<close>

lemma NewQueryFromProxy_main:
  assumes "NewQueryFromProxy e q i sql db = (Ok r, db')"
  shows "(fp_Status r = 1 \<longrightarrow> (\<exists>tx. fp_TX r = Some tx \<and> fp_ReplaceQuery r = GetSQLQuery tx \<and>
            pool_accepts e (qm_config q) tx TXFlagsNoPool)) \<and>
     (fp_Status r = 3 \<longrightarrow> (\<exists>qp d. ParseQuery (te_sql e) db sql 0 = (Ok qp, d) \<and> \<not> checkQueryNeedsTransaction (qm_config q) qp))"
proof (cases "processQuery e q i sql [] TXFlagsNoPool db")
  case (Pair r1 d1)
  show ?thesis
  proof (cases r1)
    case (Ok p)
    then have pq: "processQuery e q i sql [] TXFlagsNoPool db = (Ok p, d1)" using Pair by simp
    have r: "proxy_result p = Ok r" using assms pq by (simp add: NewQueryFromProxy_def)
    have can: "\<exists>qp d. ParseQuery (te_sql e) db sql 0 = (Ok qp, d) \<and> \<not> checkQueryNeedsTransaction (qm_config q) qp"
      if "pr_status p = ResultCanBeExecuted"
      using pq that
      by (auto simp: processQuery_def prepare_transaction_def res_simps response_def Let_def split: if_splits)
    show ?thesis
      using processQuery_noexec[OF pq] r can
      by (auto simp: proxy_result_def no_proxy_result_def res_simps split: if_splits)
  qed (use assms Pair in \<open>auto simp: NewQueryFromProxy_def no_proxy_result_def\<close>)
qed

text \<open>The dereference of the transaction never meets a \<open>nil\<close>.\<close>

lemma NewQueryFromProxy_no_nil:
  assumes "processQuery e q i sql [] TXFlagsNoPool db = (Ok r, db')"
  shows "\<exists>f. proxy_result r = Ok f"
  using processQuery_noexec[OF assms] by (auto simp: proxy_result_def)

text \<open>A transaction that looks like a coinbase is taken without any check, whatever query it carries.\<close>

lemma unchecked_coinbase_query:
  assumes "gob_untx (db_gob db) txEncoded = Ok tx" and "IsCoinbaseTransfer tx"
  shows "processQueryWithSignature e q txEncoded signature flags db =
     (Ok (CompleteTransaction (te_crypto e) (db_gob db) tx signature), db)"
proof -
  have "IsCoinbaseTransfer (CompleteTransaction (te_crypto e) (db_gob db) tx signature)"
    using assms(2) by (simp add: CompleteTransaction_def IsCoinbaseTransfer_def)
  then show ?thesis using assms(1) by (simp add: processQueryWithSignature_def AddTransactionToPool_def Let_def)
qed

end
