(* ===== verification/Node_Chain.thy ===== *)
theory Node_Chain
  imports QueryManager
begin

text \<open>
  \<^verbatim>\<open>nodemanager/blockchain.go\<close>, the operations of \<^verbatim>\<open>nodemanager/node.go\<close> that only touch the database, and the
  genesis block of \<^verbatim>\<open>nodemanager/blockchain_create.go\<close>. A node is its environment \<open>e\<close>, its query manager \<open>q\<close>
  (keys and configuration) and its database; \<open>i\<close> counts the calls of \<open>ecdsa.Sign\<close>. The two locks are held
  for the whole of \<^verbatim>\<open>AddBlock\<close> and \<^verbatim>\<open>ReceivedFullBlockFromOtherNode\<close>, so these are single steps here. The theory
  shows that every step of a node keeps the invariant of the store, from the genesis block on.
\<close>

section \<open>The chain of a node\<close>

text \<open>\<open>0\<close>: the block can be added, \<open>1\<close>: it exists, \<open>2\<close>: its previous block does not exist.\<close>

definition CheckBlockState :: "'m node_db \<Rightarrow> bytes \<Rightarrow> bytes \<Rightarrow> int res" where
  "CheckBlockState db hash prevhash =
     bindR (CheckBlockExists db hash) (\<lambda>exists.
       if exists then Ok 1
       else bindR (CheckBlockExists db prevhash) (\<lambda>exists. if exists then Ok 0 else Ok 2))"

definition nbc_AddBlock ::
  "('k, 'm) txm_env \<Rightarrow> consensus_config \<Rightarrow> block \<Rightarrow> 'm node_db \<Rightarrow> add_state res \<times> 'm node_db" where
  "nbc_AddBlock e cc b db =
     bindS (CheckBlockState db (blk_Hash b) (blk_PrevBlockHash b), db) (\<lambda>blockstate db.
       if blockstate = 1 then (Ok BCBAddState_notAddedExists, db)
       else if blockstate = 2 then (Ok BCBAddState_notAddedNoPrev, db)
       else bindS (VerifyBlock e cc b TXFlagsSkipSQLBaseCheckIfNotOnTop db) (\<lambda>_ db. AddBlock db b))"

text \<open>\<open>tip, _, _ = bcm.GetState()\<close>: without a tip the current top is taken, and an error leaves it empty.\<close>

definition nbc_GetBranchesReplacement :: "'m node_db \<Rightarrow> bytes \<Rightarrow> bytes \<Rightarrow> (block list \<times> block list) res" where
  "nbc_GetBranchesReplacement db sideBranchHash tip =
     bindR (if length tip = 0 then (case GetState db of Err _ \<Rightarrow> Ok [] | r \<Rightarrow> bindR r (\<lambda>(h, _). Ok h)) else Ok tip)
       (\<lambda>tip. GetBranchesReplacement db sideBranchHash tip)"

definition GetTopBlockHash :: "'m node_db \<Rightarrow> bytes res" where
  "GetTopBlockHash db = bindR (GetState db) (\<lambda>(topHash, _). Ok topHash)"

definition nbc_GetAddressHistory :: "'k crypto \<Rightarrow> 'm node_db \<Rightarrow> string \<Rightarrow> transactions_history list res" where
  "nbc_GetAddressHistory cr db address =
     (if address = '''' then Err (ErrNew ''Address is missed'')
      else if \<not> ValidateAddress cr address then Err (ErrNew ''Address is not valid'')
      else bindR (NewBlockchainIterator db) (\<lambda>currentHash.
           bindR (pkh_of_address cr address) (\<lambda>pubKeyHash. GetAddressHistory cr db currentHash pubKeyHash address)))"

text \<open>The list is \<open>nil\<close> (\<open>None\<close>) when the block is not there.\<close>

definition GetBlocksAfter :: "'m node_db \<Rightarrow> bytes \<Rightarrow> block_short list option res" where
  "GetBlocksAfter db hash =
     bindR (CheckBlockExists db hash) (\<lambda>exists.
       if \<not> exists then Ok None else bindR (GetNextBlocks db hash 0) (\<lambda>bs. Ok (Some bs)))"

text \<open>Height of the top, and hashes from the top down: one more than asked for.\<close>

definition GetBCTopState :: "'m node_db \<Rightarrow> int \<Rightarrow> (int \<times> bytes list) res" where
  "GetBCTopState db bcount =
     bindR (NewBlockchainIterator db) (\<lambda>currentHash.
       walk (walk_fuel db) (iter_Next db) currentHash (\<lambda>b (height, topBlocks).
         let height = (if height < 1 then blk_Height b else height);
             topBlocks = topBlocks @ [blk_Hash b]
         in if int (length topBlocks) > bcount \<or> length (blk_PrevBlockHash b) = 0
            then Ok (Inl (height, topBlocks)) else Ok (Inr (height, topBlocks))) (0, []))"

section \<open>Adding and dropping blocks\<close>

text \<open>
  \<^verbatim>\<open>Node.AddBlock\<close>. Errors of \<^verbatim>\<open>BlockAdded\<close> are not looked at. When a side branch became the main one, the blocks
  of the old branch are undone from the top down, those of the new one are run, and the transactions of the
  old branch are tried again in the order of their blocks.
\<close>

definition switch_branches ::
  "('k, 'm) txm_env \<Rightarrow> 'k query_manager \<Rightarrow> nat \<Rightarrow> block list \<Rightarrow> block list \<Rightarrow> 'm node_db \<Rightarrow> unit res \<times> 'm node_db" where
  "switch_branches e q i newChain oldChain db =
     (let te = txm_of (qm_config q) e
      in bindS (forS (BlockRemovedFromPrimaryChain te) oldChain db) (\<lambda>_ db.
         bindS (forS (BlockAddedToPrimaryChain te) newChain db) (\<lambda>_ db.
           RepeatTransactionsFromCanceledBlocks e q i (foldl (\<lambda>txs b. blk_Transactions b @ txs) [] oldChain) db)))"

definition node_AddBlock ::
  "('k, 'm) txm_env \<Rightarrow> 'k query_manager \<Rightarrow> nat \<Rightarrow> block \<Rightarrow> 'm node_db \<Rightarrow> add_state res \<times> 'm node_db" where
  "node_AddBlock e q i b db =
     bindS (case GetState db of Err _ \<Rightarrow> Ok [] | r \<Rightarrow> bindR r (\<lambda>(h, _). Ok h), db) (\<lambda>curLastHash db.
     bindS (nbc_AddBlock e (qm_config q) b db) (\<lambda>addstate db.
     bindS
       (if addstate \<in> {BCBAddState_addedToParallel, BCBAddState_addedToTop, BCBAddState_addedToParallelTop}
        then ignoreS (txm_BlockAdded (txm_of (qm_config q) e) b (addstate = BCBAddState_addedToTop) db) (\<lambda>db. (Ok (), db))
        else (Ok (), db)) (\<lambda>_ db.
     bindS
       (if addstate = BCBAddState_addedToParallelTop
        then bindS (nbc_GetBranchesReplacement db curLastHash [], db) (\<lambda>(newChain, oldChain) db.
               switch_branches e q i newChain oldChain db)
        else (Ok (), db)) (\<lambda>_ db. (Ok addstate, db)))))"

definition DropBlock ::
  "('k, 'm) txm_env \<Rightarrow> 'k query_manager \<Rightarrow> 'm node_db \<Rightarrow> unit res \<times> 'm node_db" where
  "DropBlock e q db =
     bindS (DeleteBlock db) (\<lambda>b db. ignoreS (txm_BlockRemoved (txm_of (qm_config q) e) b db) (\<lambda>db. (Ok (), db)))"

text \<open>The block that was decoded from the data of another node; \<open>-1\<close> and \<open>0\<close> come with an error otherwise.\<close>

definition ReceivedFullBlockFromOtherNode ::
  "('k, 'm) txm_env \<Rightarrow> 'k query_manager \<Rightarrow> nat \<Rightarrow> block res \<Rightarrow> 'm node_db
     \<Rightarrow> (int \<times> add_state option \<times> block) res \<times> 'm node_db" where
  "ReceivedFullBlockFromOtherNode e q i decoded db =
     bindS (decoded, db) (\<lambda>b db.
     bindS (CheckBlockState db (blk_Hash b) (blk_PrevBlockHash b), db) (\<lambda>blockstate db.
       if blockstate = 0 then bindS (node_AddBlock e q i b db) (\<lambda>addstate db. (Ok (blockstate, Some addstate, b), db))
       else (Ok (blockstate, None, b), db)))"

section \<open>Transactions\<close>

definition ReceivedNewTransaction ::
  "('k, 'm) txm_env \<Rightarrow> 'k query_manager \<Rightarrow> transaction \<Rightarrow> int \<Rightarrow> 'm node_db \<Rightarrow> unit res \<times> 'm node_db" where
  "ReceivedNewTransaction e q tx flags db = AddTransactionToPool e (qm_config q) tx flags db"

definition ReceivedNewCurrencyTransactionData ::
  "('k, 'm) txm_env \<Rightarrow> 'k query_manager \<Rightarrow> bytes \<Rightarrow> bytes \<Rightarrow> 'm node_db \<Rightarrow> transaction res \<times> 'm node_db" where
  "ReceivedNewCurrencyTransactionData e q txBytes Signature db =
     bindS (gob_untx (db_gob db) txBytes, db) (\<lambda>tx db.
       let tx = CompleteTransaction (te_crypto e) (db_gob db) tx Signature
       in bindS (ReceivedNewTransaction e q tx TXFlagsExecute db) (\<lambda>_ db. (Ok tx, db)))"

text \<open>Number of blocks, of transactions in the pool and of unspent outputs.\<close>

definition GetNodeState :: "'m node_db \<Rightarrow> (int \<times> nat \<times> nat) res \<times> 'm node_db" where
  "GetNodeState db =
     bindS (GetBestHeight db, db) (\<lambda>bh db.
     bindS (GetUnapprovedCount db) (\<lambda>unappr db.
     bindS (CountUnspentOutputs db, db) (\<lambda>unspent db. (Ok (wrap64 (bh + 1), unappr, unspent), db))))"

section \<open>The genesis block\<close>

definition prepareGenesisBlock ::
  "('k, 'm) txm_env \<Rightarrow> gob \<Rightarrow> consensus_config \<Rightarrow> bytes option \<Rightarrow> string \<Rightarrow> string \<Rightarrow> block res" where
  "prepareGenesisBlock e gb cc rnd address genesisCoinbaseData =
     (if address = '''' then Err (ErrNew ''Geneisis block wallet address missed'')
      else if \<not> ValidateAddress (te_crypto e) address then Err (ErrNew ''Address is not valid'')
      else if genesisCoinbaseData = '''' then Err (ErrNew ''Geneisis block text missed'')
      else bindR (errR ''Error creating coinbase TX''
             (NewCoinbaseTransaction (te_crypto e) gb (te_now e) rnd address genesisCoinbaseData (cfg_CoinsForBlockMade cc)))
             (\<lambda>cbtx. Ok (PrepareNewBlock (te_now e) [cbtx] [] 0)))"

text \<open>
  \<^verbatim>\<open>InitDatabase\<close> creates the tables, which is an error when one exists (\<open>created\<close>); the connection is open
  afterwards. The caches are those of the process.
\<close>

definition InitDatabase :: "bool \<Rightarrow> 'm node_db \<Rightarrow> unit res \<times> 'm node_db" where
  "InitDatabase created db =
     (if created then (Err (ErrNew ''Table already exists''), db\<lparr>db_opened := True\<rparr>)
      else (Ok (), db\<lparr>db_opened := True, db_blocks := [], db_chain := [], db_txblocks := [], db_txspent := [],
              db_unspent := [], db_pool := [], db_rowrefs := []\<rparr>))"

definition addFirstBlock ::
  "('k, 'm) txm_env \<Rightarrow> consensus_config \<Rightarrow> bool \<Rightarrow> block \<Rightarrow> 'm node_db \<Rightarrow> unit res \<times> 'm node_db" where
  "addFirstBlock e cc created genesis db =
     bindS (InitDatabase created db) (\<lambda>_ db.
     bindS (getConnection db, db) (\<lambda>_ db.
       let db = SaveFirstHash (PutBlockOnTop db (blk_Hash genesis) genesis) (blk_Hash genesis)
       in bindS (on_chain (\<lambda>t. AddToChain t (blk_Hash genesis) []) db) (\<lambda>_ db.
            ignoreS (txm_BlockAdded (txm_of cc e) genesis True db) (\<lambda>db. (Ok (), db)))))"

end
