(* ===== verification/Node_Store.thy ===== *)
theory Node_Store
  imports Node_Chain
begin

text \<open>
  The frame of the operations of a node: all but those of the block chain leave the blocks and the chain table
  as they are (\<open>same_store\<close>). The rules of the collection \<open>keeps\<close> show it operation by operation: a result of
  \<open>bindS\<close>, \<open>ignoreS\<close> or \<open>forS\<close> has the property when its parts have it.
\<close>

named_theorems keeps "operations that leave the store of blocks as it is"

definition same_store :: "'m node_db \<Rightarrow> 'm node_db \<Rightarrow> bool" where
  "same_store d db \<longleftrightarrow> db_opened d = db_opened db \<and> db_blocks d = db_blocks db \<and> db_chain d = db_chain db"

lemma same_store_simps [simp]:
  "same_store db db" "same_store (d\<lparr>db_app := m\<rparr>) db = same_store d db"
  "same_store (d\<lparr>db_pkcache := k\<rparr>) db = same_store d db"
  "same_store (d\<lparr>db_pool := p\<rparr>) db = same_store d db" "same_store (d\<lparr>db_txcache := c\<rparr>) db = same_store d db"
  "same_store (d\<lparr>db_txblocks := b\<rparr>) db = same_store d db" "same_store (d\<lparr>db_txspent := s\<rparr>) db = same_store d db"
  "same_store (d\<lparr>db_unspent := u\<rparr>) db = same_store d db" "same_store (d\<lparr>db_rowrefs := r\<rparr>) db = same_store d db"
  by (simp_all add: same_store_def)

lemma same_store_trans: "same_store d1 d2 \<Longrightarrow> same_store d2 d3 \<Longrightarrow> same_store d1 d3"
  by (simp add: same_store_def)

lemma store_of_chain: "same_chain d db \<Longrightarrow> same_store d db"
  by (simp add: same_chain_def same_store_def)

lemma keeps_Pair [keeps]: "same_store s db \<Longrightarrow> same_store (snd (r, s)) db"
  by simp

lemma keeps_bindS [keeps]:
  assumes "same_store (snd r) db" and "\<And>x s. same_store s db \<Longrightarrow> same_store (snd (f x s)) db"
  shows "same_store (snd (bindS r f)) db"
  using assms by (cases r; cases "fst r") auto

lemma keeps_ignoreS [keeps]:
  assumes "same_store (snd r) db" and "\<And>s. same_store s db \<Longrightarrow> same_store (snd (f s)) db"
  shows "same_store (snd (ignoreS r f)) db"
  using assms by (cases r; cases "fst r") auto

lemma keeps_forS:
  assumes "same_store s db" and "\<And>x s. same_store s db \<Longrightarrow> same_store (snd (f x s)) db"
  shows "same_store (snd (forS f xs s)) db"
  using assms(1)
proof (induction xs arbitrary: s)
  case (Cons x xs)
  then show ?case using assms(2) by (auto intro!: keeps_bindS)
qed simp

text \<open>An operation that keeps the store from the state it starts in keeps it from any earlier one.\<close>

lemma keepsI: "(\<And>s. same_store (snd (f s)) s) \<Longrightarrow> same_store s db \<Longrightarrow> same_store (snd (f s)) db"
  using same_store_trans by blast

lemma keeps_case [keeps]:
  assumes "same_store (snd r) db" and "\<And>x s. same_store s db \<Longrightarrow> same_store (snd (f x s)) db"
  shows "same_store (snd (case r of (x, s) \<Rightarrow> f x s)) db"
  using assms by (cases r) auto

section \<open>Queries and the pool\<close>

lemma ExecuteSQL_keeps [keeps]: "same_store s db \<Longrightarrow> same_store (snd (ExecuteSQL e s q)) db"
  using ExecuteSQL_app[of e s q] by auto

lemma ParseQuery_keeps [keeps]: "same_store s db \<Longrightarrow> same_store (snd (ParseQuery e s q fl)) db"
  using store_of_chain[OF ParseQuery_same[of e s q fl]] same_store_trans by blast

lemma ExecuteQuery_keeps [keeps]: "same_store s db \<Longrightarrow> same_store (snd (ExecuteQuery e s q)) db"
  by (auto simp: ExecuteQuery_def ExecuteParsedQuery_def intro!: keeps)

lemma pool_Delete_keeps [keeps]: "same_store s db \<Longrightarrow> same_store (snd (pool_Delete k s)) db"
  using store_of_chain[OF pool_Delete_same] same_store_trans by blast

lemma pool_Add_keeps [keeps]: "same_store s db \<Longrightarrow> same_store (snd (pool_Add tx s)) db"
  by (auto simp: pool_Add_def cache_put_def intro!: keeps split: option.split)

lemma open_pool_keeps [simp]: "same_store (open_pool s) db = same_store s db"
  by (simp add: same_store_def)

lemma cancel_keeps [keeps]: "same_store s db \<Longrightarrow> same_store (snd (cancel_transaction e k rb s)) db"
  using store_of_chain[OF cancel_same] same_store_trans by blast

lemma delete_txs_keeps [keeps]: "same_store s db \<Longrightarrow> same_store (snd (delete_txs txs s)) db"
  by (induction txs arbitrary: s) (auto intro!: keeps)

lemma add_txs_keeps [keeps]: "same_store s db \<Longrightarrow> same_store (snd (add_txs txs s)) db"
  by (induction txs arbitrary: s) (auto intro!: keeps)

lemma AddNewTransaction_keeps [keeps]: "same_store s db \<Longrightarrow> same_store (snd (AddNewTransaction e tx fl s)) db"
  by (auto simp: AddNewTransaction_def add_new_transaction_def Let_def split_beta intro!: keeps)

section \<open>Index, unspent outputs, references\<close>

lemma index_keeps [keeps]:
  "same_store s db \<Longrightarrow> same_store (snd (index_BlockAdded b s)) db"
  "same_store s db \<Longrightarrow> same_store (snd (index_BlockRemoved b s)) db"
  by (auto simp: index_BlockAdded_def index_BlockRemoved_def index_add_tx_def index_remove_tx_def Let_def
    intro!: keeps keeps_forS)

lemma restore_inputs_keeps [keeps]: "same_store s db \<Longrightarrow> same_store (snd (restore_inputs cr b tx vins s)) db"
proof (induction vins arbitrary: s)
  case (Cons vin vins)
  show ?case unfolding restore_inputs.simps
    by (rule keeps_bindS) (use Cons in \<open>auto simp: Let_def split: option.split prod.split\<close>)
qed simp

lemma uo_keeps [keeps]:
  "same_store s db \<Longrightarrow> same_store (snd (uo_UpdateOnBlockAdd cr b s)) db"
  "same_store s db \<Longrightarrow> same_store (snd (uo_UpdateOnBlockCancel cr b s)) db"
  unfolding uo_UpdateOnBlockAdd_def uo_UpdateOnBlockCancel_def
  by (intro keeps_bindS keeps_forS; simp add: uo_add_tx_def uo_cancel_tx_def Let_def restore_inputs_keeps)+

lemma rr_keeps [keeps]:
  "same_store s db \<Longrightarrow> same_store (snd (rr_UpdateOnBlockAdd b s)) db"
  "same_store s db \<Longrightarrow> same_store (snd (rr_UpdateOnBlockCancel b s)) db"
  unfolding rr_UpdateOnBlockAdd_def rr_UpdateOnBlockCancel_def
  by (intro keeps_bindS keeps_forS; auto simp: rr_add_tx_def rr_cancel_tx_def Let_def intro!: keeps_bindS split: option.split)+

section \<open>Blocks on and off the chain\<close>

lemma cancel_conflicts_keeps [keeps]: "same_store s db \<Longrightarrow> same_store (snd (cancel_conflicts n e tx ids s)) db"
  by (induction n arbitrary: ids s) (auto intro!: keeps split: option.split)

lemma rollback_direct_keeps [keeps]: "same_store s db \<Longrightarrow> same_store (snd (rollback_direct e txs ids s)) db"
  by (induction txs arbitrary: ids s) (auto intro!: keeps simp del: cancel_conflicts.simps)

lemma rollback_based_keeps [keeps]: "same_store s db \<Longrightarrow> same_store (snd (rollback_based n e ids s)) db"
proof (induction n arbitrary: ids s)
  case (Suc n)
  then show ?case by (cases ids) (auto intro!: keeps keeps_forS)
next
  case 0
  then show ?case by (cases ids) simp_all
qed

lemma renewCache_keeps_store [keeps]: "same_store s db \<Longrightarrow> same_store (snd (renewCache s)) db"
  by (auto simp: renewCache_def pool_GetCount_def getConnection_def Let_def)

lemma transactionsFromAddedBlock_keeps [keeps]:
  "same_store s db \<Longrightarrow> same_store (snd (transactionsFromAddedBlock e txs s)) db"
  by (auto simp: transactionsFromAddedBlock_def rollbackConflictingFromPool_def Let_def ExecuteQueryFromTX_def
    intro!: keeps keeps_forS split: res.split option.split)

lemma added_to_top_keeps [keeps]: "same_store s db \<Longrightarrow> same_store (snd (added_to_top e b s)) db"
  by (auto simp: added_to_top_def DeleteFromBlock_def intro!: keeps)

lemma txm_keeps [keeps]:
  "same_store s db \<Longrightarrow> same_store (snd (txm_BlockAdded e b ontop s)) db"
  "same_store s db \<Longrightarrow> same_store (snd (txm_BlockRemoved e b s)) db"
  "same_store s db \<Longrightarrow> same_store (snd (BlockAddedToPrimaryChain e b s)) db"
  "same_store s db \<Longrightarrow> same_store (snd (BlockRemovedFromPrimaryChain e b s)) db"
  by (auto simp: txm_BlockAdded_def txm_BlockRemoved_def BlockAddedToPrimaryChain_def BlockRemovedFromPrimaryChain_def
    AddFromCanceled_def ExecuteRollbackQueryFromTX_def intro!: keeps keeps_forS)

section \<open>Verification and transactions tried again\<close>

lemma verify_transaction_keeps [keeps]:
  "same_store s db \<Longrightarrow> same_store (snd (txm_VerifyTransaction e tx prev tip fl s)) db"
  by (auto simp: txm_VerifyTransaction_def verify_transaction_def checkBaseTransaction_def getBaseTransaction_def Let_def
    intro!: keeps split: option.split)

lemma bm_VerifyTransaction_keeps [keeps]:
  "same_store s db \<Longrightarrow> same_store (snd (bm_VerifyTransaction e cc tx prev h k fl s)) db"
  by (auto simp: bm_VerifyTransaction_def parseQueryFromTX_def Let_def intro!: keeps)

lemma AddTransactionToPool_keeps [keeps]:
  "same_store s db \<Longrightarrow> same_store (snd (AddTransactionToPool e cc tx fl s)) db"
  by (auto simp: AddTransactionToPool_def intro!: keeps)

lemma verify_block_txs_keeps [keeps]:
  "same_store s db \<Longrightarrow> same_store (snd (verify_block_txs e cc b txs used prev fl s)) db"
  by (induction txs arbitrary: used prev fl s) (auto simp: Let_def intro!: keeps)

lemma VerifyBlock_keeps [keeps]: "same_store s db \<Longrightarrow> same_store (snd (VerifyBlock e cc b fl s)) db"
  by (auto simp: VerifyBlock_def Let_def intro!: keeps)

lemma resign_inputs_keeps [keeps]: "same_store s db \<Longrightarrow> same_store (snd (resign_inputs k vins st s)) db"
proof (induction vins arbitrary: k st s)
  case Nil
  then show ?case by (cases st) simp
next
  case (Cons vin vins)
  have "same_store (snd (txm_GetIfExists (vin_Txid vin) s)) db"
    using Cons.prems by (auto simp: txm_GetIfExists_def Let_def intro!: keeps)
  then show ?case using Cons.IH by (cases st) (auto intro!: keeps_bindS split: option.split)
qed

lemma resigned_keeps [keeps]:
  "same_store s db \<Longrightarrow> same_store (snd (tryToRepeatTransactionResigned e q i tx base s)) db"
  by (auto simp: tryToRepeatTransactionResigned_def PrepareSQLTransactionSignatureData_def processQueryWithSignature_def Let_def
    intro!: keeps)

lemma repeat_keeps [keeps]:
  "same_store s db \<Longrightarrow> same_store (snd (RepeatTransactionsFromCanceledBlocks e q i txs s)) db"
proof (induction txs arbitrary: i s)
  case (Cons tx txs)
  obtain r d where d: "AddTransactionToPool e (qm_config q) tx TXFlagsExecute s = (r, d)" by fastforce
  then have "same_store d db" using AddTransactionToPool_keeps[OF Cons.prems] by (metis snd_conv)
  then show ?case using d Cons.IH by (auto intro!: keeps split: res.split err.split)
qed simp

end
