(* ===== verification/Node_Machine.thy ===== *)
theory Node_Machine
  imports Node_Store
begin

text \<open>
  The node as a machine: its steps are the operations that other nodes, clients, the proxy and the block maker
  start, and every state that steps reach from the genesis block has the invariant of the store.
\<close>

section \<open>Adding a block\<close>

lemma store_same: "same_store d db \<Longrightarrow> store_inv n d hs = store_inv n db hs"
  by (simp add: same_store_def store_inv_def prev_is_def[abs_def] block_ok_def db_GetBlock_def)

lemma get_same: "same_store d db \<Longrightarrow> db_GetBlock d h = db_GetBlock db h"
  by (simp add: same_store_def db_GetBlock_def)

text \<open>
  What the code relies on for a block it is given: a hash of \<open>n\<close> bytes, a previous hash of \<open>n\<close> bytes, and
  a height above that of the previous block. None of this is checked by \<^verbatim>\<open>VerifyBlock\<close>.
\<close>

definition block_shape :: "nat \<Rightarrow> 'm node_db \<Rightarrow> block \<Rightarrow> bool" where
  "block_shape n db b \<longleftrightarrow>
     length (blk_Hash b) = n \<and> blk_Hash b \<noteq> zeros n \<and> length (blk_PrevBlockHash b) = n \<and>
     (\<forall>p. db_GetBlock db (blk_PrevBlockHash b) = Some (BlockData p) \<longrightarrow> blk_Height p < blk_Height b)"

definition keeps_blocks :: "'m node_db \<Rightarrow> 'm node_db \<Rightarrow> bool" where
  "keeps_blocks db db' \<longleftrightarrow> (\<forall>h v. h \<noteq> topKey \<longrightarrow> db_GetBlock db h = Some v \<longrightarrow> db_GetBlock db' h = Some v)"

text \<open>The main chain before and after a block, for each answer of \<^verbatim>\<open>AddBlock\<close>.\<close>

fun moved :: "bytes list \<Rightarrow> bytes \<Rightarrow> add_state \<Rightarrow> bytes list \<Rightarrow> bool" where
  "moved hs h BCBAddState_addedToTop hs' \<longleftrightarrow> hs' = hs @ [h]"
| "moved hs h BCBAddState_addedToParallelTop hs' \<longleftrightarrow>
     (\<exists>common old new. hs = common @ old \<and> hs' = common @ new @ [h] \<and> common \<noteq> [])"
| "moved hs h _ hs' \<longleftrightarrow> hs' = hs"

definition block_done :: "nat \<Rightarrow> 'm node_db \<Rightarrow> bytes list \<Rightarrow> block \<Rightarrow> add_state \<Rightarrow> 'm node_db \<Rightarrow> bytes list \<Rightarrow> bool" where
  "block_done n db hs b st db' hs' \<longleftrightarrow>
     store_inv n db' hs' \<and> keeps_blocks db db' \<and> moved hs (blk_Hash b) st hs' \<and>
     (st \<in> {BCBAddState_addedToTop, BCBAddState_addedToParallelTop, BCBAddState_addedToParallel} \<longrightarrow>
        db_GetBlock db' (blk_Hash b) = Some (BlockData b))"

lemma keeps_blocks_refl [simp]: "keeps_blocks db db"
  by (simp add: keeps_blocks_def)

lemma keeps_blocks_same: "same_store d db \<Longrightarrow> keeps_blocks db d" "same_store d db \<Longrightarrow> keeps_blocks d x = keeps_blocks db x"
  "same_store d db \<Longrightarrow> keeps_blocks x d = keeps_blocks x db"
  by (simp_all add: keeps_blocks_def get_same)

lemma AddBlock_store:
  assumes si: "store_inv n db hs" and sh: "block_shape n db b"
  shows "\<exists>st db' hs'. AddBlock db b = (Ok st, db') \<and> block_done n db hs b st db' hs'"
proof -
  note D = store_invD[OF si]
  have long: "length (blk_Hash b) \<noteq> 1" "length (blk_PrevBlockHash b) \<noteq> 1" "blk_PrevBlockHash b \<noteq> []"
    using sh D(2) by (auto simp: block_shape_def)
  consider (known) v where "db_GetBlock db (blk_Hash b) = Some v"
    | (lost) "db_GetBlock db (blk_Hash b) = None" "db_GetBlock db (blk_PrevBlockHash b) = None"
    | (fresh) v where "db_GetBlock db (blk_Hash b) = None" "db_GetBlock db (blk_PrevBlockHash b) = Some v"
    by fastforce
  then show ?thesis
  proof cases
    case known
    then show ?thesis using AddBlock_known[OF D(1)] si by (fastforce simp: block_done_def)
  next
    case lost
    then show ?thesis using AddBlock_no_prev[OF D(1)] si by (fastforce simp: block_done_def)
  next
    case fresh
    obtain p where "v = BlockData p" using fresh(2) D(8) long(2) by (cases v) auto
    with fresh sh long have nb: "new_block n db b" by (simp add: new_block_def block_shape_def)
    obtain st db' hs' where r: "AddBlock db b = (Ok st, db')" "store_inv n db' hs'" "stores_block db b db'"
      and c: "st = BCBAddState_addedToParallel \<and> hs' = hs \<or> st = BCBAddState_addedToTop \<and> hs' = hs @ [blk_Hash b] \<or>
        st = BCBAddState_addedToParallelTop \<and> (\<exists>hs1 p ds as. hs = hs1 @ p # ds \<and> hs' = hs1 @ p # as @ [blk_Hash b])"
      using AddBlock_main[OF si nb] by blast
    have "keeps_blocks db db'" unfolding keeps_blocks_def
    proof (intro allI impI)
      fix h x assume x: "h \<noteq> topKey" "db_GetBlock db h = Some x"
      then have "h \<noteq> blk_Hash b" using fresh(1) by auto
      then show "db_GetBlock db' h = Some x" using r(3) x by (simp add: stores_block_def)
    qed
    moreover have "moved hs (blk_Hash b) st hs'" using c
    proof (elim disjE conjE exE)
      fix hs1 p ds as assume "st = BCBAddState_addedToParallelTop" "hs = hs1 @ p # ds" "hs' = hs1 @ p # as @ [blk_Hash b]"
      then have "hs = (hs1 @ [p]) @ ds \<and> hs' = (hs1 @ [p]) @ as @ [blk_Hash b]" "st = BCBAddState_addedToParallelTop" by simp_all
      then show ?thesis by (auto simp del: append_assoc)
    qed simp_all
    moreover have "blk_Hash b \<noteq> topKey" using long(1) topKey_len by auto
    then have "db_GetBlock db' (blk_Hash b) = Some (BlockData b)" using r(3) by (simp add: stores_block_def)
    ultimately show ?thesis using r unfolding block_done_def by blast
  qed
qed

lemma nbc_AddBlock_store:
  assumes si: "store_inv n db hs" and sh: "block_shape n db b"
  obtains (stored) st db' hs' where "nbc_AddBlock e cc b db = (Ok st, db')" "block_done n db hs b st db' hs'"
    | (failed) r db' where "nbc_AddBlock e cc b db = (r, db')" "same_store db' db" "\<And>st. r \<noteq> Ok st"
proof -
  have open_db: "db_opened db" using store_invD(1)[OF si] .
  have "\<exists>s\<in>{0, 1, 2}. CheckBlockState db (blk_Hash b) (blk_PrevBlockHash b) = Ok s"
    using open_db by (simp add: CheckBlockState_def CheckBlockExists_def)
  then obtain s where s: "CheckBlockState db (blk_Hash b) (blk_PrevBlockHash b) = Ok s" "s \<in> {0, 1, 2}" by blast
  obtain v d where v: "VerifyBlock e cc b TXFlagsSkipSQLBaseCheckIfNotOnTop db = (v, d)" by fastforce
  then have d: "same_store d db" using VerifyBlock_keeps[of db db e cc b TXFlagsSkipSQLBaseCheckIfNotOnTop] by simp
  consider (added) "s = 0" "v = Ok ()" | (refused) "s = 0" "v \<noteq> Ok ()" | (exists) "s = 1" | (lost) "s = 2" using s(2) by auto
  then show ?thesis
  proof cases
    case added
    have "block_shape n d b" using sh by (simp add: block_shape_def get_same[OF d])
    moreover have "store_inv n d hs" using si by (simp add: store_same[OF d])
    ultimately obtain st db' hs' where r: "AddBlock d b = (Ok st, db')" "block_done n d hs b st db' hs'"
      using AddBlock_store by blast
    then have "nbc_AddBlock e cc b db = (Ok st, db')" using s(1) v added by (simp add: nbc_AddBlock_def)
    moreover have "block_done n db hs b st db' hs'" using r(2) by (simp add: block_done_def keeps_blocks_same[OF d])
    ultimately show ?thesis using that(1) by blast
  next
    case refused
    then have "nbc_AddBlock e cc b db = (case v of Err x \<Rightarrow> (Err x, d) | Panic \<Rightarrow> (Panic, d) | Diverge \<Rightarrow> (Diverge, d))"
      using s(1) v by (cases v) (simp_all add: nbc_AddBlock_def)
    then show ?thesis using refused that(2)[of _ d] d by (cases v) auto
  next
    case exists
    then have "nbc_AddBlock e cc b db = (Ok BCBAddState_notAddedExists, db)" using s(1) by (simp add: nbc_AddBlock_def)
    then show ?thesis using that(1)[of _ db hs] si by (simp add: block_done_def)
  next
    case lost
    then have "nbc_AddBlock e cc b db = (Ok BCBAddState_notAddedNoPrev, db)" using s(1) by (simp add: nbc_AddBlock_def)
    then show ?thesis using that(1)[of _ db hs] si by (simp add: block_done_def)
  qed
qed

lemma switch_branches_keeps [keeps]:
  "same_store s db \<Longrightarrow> same_store (snd (switch_branches e q i newc oldc s)) db"
  unfolding switch_branches_def Let_def by (intro keeps_bindS keeps_forS) (auto intro: keeps)

lemma GetState_store:
  assumes si: "store_inv n db hs"
  obtains t where "GetState db = Ok (List.last hs, blk_Height t)" "db_GetBlock db (List.last hs) = Some (BlockData t)"
proof -
  note D = store_invD[OF si]
  obtain t where t: "db_GetBlock db (List.last hs) = Some (BlockData t)" using D(6)[OF last_in_set[OF D(4)]] by blast
  then have "GetState db = Ok (List.last hs, blk_Height t)"
    using store_inv_top[OF si] D(1) D(7)[OF t] by (simp add: GetState_def GetTopBlock_def NewBlockFromBytes_def block_ok_def)
  with t that show ?thesis by blast
qed

lemma fst_bindS_Ok: "fst (bindS r f) = Ok y \<longleftrightarrow> (\<exists>x s. r = (Ok x, s) \<and> fst (f x s) = Ok y)"
  by (cases r; cases "fst r") auto

text \<open>After the block itself, \<^verbatim>\<open>AddBlock\<close> of the node only changes other tables.\<close>

lemma keeps_if:
  "(c \<Longrightarrow> same_store (snd r) db) \<Longrightarrow> (\<not> c \<Longrightarrow> same_store (snd r') db) \<Longrightarrow> same_store (snd (if c then r else r')) db"
  by simp

lemma keeps_case_pair: "(\<And>x y. same_store (snd (f x y s)) db) \<Longrightarrow> same_store (snd ((case p of (x, y) \<Rightarrow> f x y) s)) db"
  by (cases p) simp

lemma keeps_bind_pair: "(\<And>x. same_store (snd (f x d)) d) \<Longrightarrow> same_store (snd (bindS (r, d) f)) d"
  by (cases r) simp_all

lemma node_AddBlock_frame:
  assumes si: "store_inv n db hs" and nb: "nbc_AddBlock e (qm_config q) b db = (r, d)"
  shows "same_store (snd (node_AddBlock e q i b db)) d"
    "fst (node_AddBlock e q i b db) = Ok st \<Longrightarrow> r = Ok st"
proof -
  obtain t where t: "GetState db = Ok (List.last hs, blk_Height t)"
    "db_GetBlock db (List.last hs) = Some (BlockData t)" by (rule GetState_store[OF si])
  show "same_store (snd (node_AddBlock e q i b db)) d"
    unfolding node_AddBlock_def t res.case bindR.simps prod.case bindS.simps nb
    by (rule keeps_bind_pair)
      (intro keeps_bindS keeps_if keeps_case_pair keeps_ignoreS keeps_Pair switch_branches_keeps txm_keeps same_store_simps(1); assumption)
  show "fst (node_AddBlock e q i b db) = Ok st \<Longrightarrow> r = Ok st"
    unfolding node_AddBlock_def t res.case bindR.simps prod.case bindS.simps nb by (auto simp: fst_bindS_Ok)
qed

lemma block_done_same: "same_store d db' \<Longrightarrow> block_done n db hs b st d hs' = block_done n db hs b st db' hs'"
  by (simp add: block_done_def store_same keeps_blocks_same get_same)

lemma node_AddBlock_main:
  assumes si: "store_inv n db hs" and sh: "block_shape n db b"
  shows "\<exists>r db' hs'. node_AddBlock e q i b db = (r, db') \<and> store_inv n db' hs' \<and> keeps_blocks db db' \<and>
           (\<forall>st. r = Ok st \<longrightarrow> block_done n db hs b st db' hs')"
proof -
  obtain r db' where r: "node_AddBlock e q i b db = (r, db')" by fastforce
  show ?thesis
  proof (rule nbc_AddBlock_store[OF si sh, of e "qm_config q"])
    fix st d hs' assume d: "nbc_AddBlock e (qm_config q) b db = (Ok st, d)" "block_done n db hs b st d hs'"
    have same: "same_store db' d" and ok: "\<And>s. r = Ok s \<Longrightarrow> s = st"
      using node_AddBlock_frame[OF si d(1), of i] r by auto
    have "block_done n db hs b st db' hs'" using d(2) by (simp add: block_done_same[OF same])
    then show ?thesis using r ok unfolding block_done_def by blast
  next
    fix x d assume d: "nbc_AddBlock e (qm_config q) b db = (x, d)" "same_store d db" "\<And>st. x \<noteq> Ok st"
    have "same_store db' db" and ok: "\<And>s. r \<noteq> Ok s"
      using node_AddBlock_frame[OF si d(1), of i] r d(2,3) same_store_trans by auto
    then show ?thesis using r si by (metis keeps_blocks_same(1) store_same)
  qed
qed




section \<open>The state of a node from its genesis block on\<close>

text \<open>The first block never changes, and its hash is the record of the first hash.\<close>

definition node_inv :: "nat \<Rightarrow> bytes \<Rightarrow> 'm node_db \<Rightarrow> bytes list \<Rightarrow> bool" where
  "node_inv n g db hs \<longleftrightarrow> store_inv n db hs \<and> hd hs = g \<and> db_GetBlock db firstKey = Some (HashData g)"

lemma firstKey_topKey [simp]: "firstKey \<noteq> topKey" "length firstKey = 1"
  by (simp_all add: firstKey_def topKey_def)

lemma node_inv_same: "same_store d db \<Longrightarrow> node_inv n g d hs = node_inv n g db hs"
  by (simp add: node_inv_def store_same get_same)

lemma first_block:
  assumes si: "store_inv n db hs"
  shows "\<exists>b. db_GetBlock db (hd hs) = Some (BlockData b) \<and> blk_PrevBlockHash b = []"
    "db_GetBlock db h = Some (BlockData b) \<Longrightarrow> blk_PrevBlockHash b = [] \<Longrightarrow> h = hd hs"
proof -
  note D = store_invD[OF si]
  obtain x where x: "db_GetBlock db (hd hs) = Some (BlockData x)" using D(6) D(4) by fastforce
  then show "\<exists>b. db_GetBlock db (hd hs) = Some (BlockData b) \<and> blk_PrevBlockHash b = []"
    using D(7)[OF x] by (auto simp: block_ok_def)
  show "db_GetBlock db h = Some (BlockData b) \<Longrightarrow> blk_PrevBlockHash b = [] \<Longrightarrow> h = hd hs"
    using D(7)[of h b] by (auto simp: block_ok_def split: if_splits)
qed

lemma node_inv_kept:
  assumes "node_inv n g db hs" and si: "store_inv n db' hs'" and kb: "keeps_blocks db db'"
  shows "node_inv n g db' hs'"
proof -
  have inv: "store_inv n db hs" "hd hs = g" "db_GetBlock db firstKey = Some (HashData g)"
    using assms(1) by (simp_all add: node_inv_def)
  obtain b where b: "db_GetBlock db (hd hs) = Some (BlockData b)" "blk_PrevBlockHash b = []"
    using first_block(1)[OF inv(1)] by blast
  have "hd hs \<noteq> topKey" using b(1) store_invD(5)[OF inv(1)] by auto
  then have "db_GetBlock db' (hd hs) = Some (BlockData b)" using kb b(1) by (simp add: keeps_blocks_def)
  then have "hd hs = hd hs'" using first_block(2)[OF si] b(2) by blast
  moreover have "db_GetBlock db' firstKey = Some (HashData g)" using kb inv(3) by (simp add: keeps_blocks_def)
  ultimately show ?thesis using si inv(2) by (simp add: node_inv_def)
qed

lemma addFirstBlock_inv:
  assumes g: "length (blk_Hash b) = n" "blk_Hash b \<noteq> zeros n" "2 \<le> n" "blk_PrevBlockHash b = []"
  shows "node_inv n (blk_Hash b) (snd (addFirstBlock e cc False b db0)) [blk_Hash b]"
proof -
  obtain db where db: "db = db0\<lparr>db_opened := True, db_blocks := [], db_chain := [], db_txblocks := [], db_txspent := [],
              db_unspent := [], db_pool := [], db_rowrefs := []\<rparr>" by simp
  obtain db1 where db1: "db1 = SaveFirstHash (PutBlockOnTop db (blk_Hash b) b) (blk_Hash b)" by simp
  obtain t where t: "t = tput [] (blk_Hash b) (zeros (n * 2))" by simp
  have "chain_repr n ([] :: bytes table) []" using g(3) by (simp add: chain_repr_def)
  note c = AddToChain_first[OF this g(1,2)]
  have fields: "db_opened db" "db_opened db1" "db_chain db1 = []" by (simp_all add: db1 db SaveFirstHash_def PutBlockOnTop_def)
  have keys: "blk_Hash b \<noteq> topKey" "blk_Hash b \<noteq> firstKey"
    using g(1,3) topKey_len firstKey_topKey(2) by auto
  have get: "db_GetBlock db1 k = (if k = firstKey then Some (HashData (blk_Hash b)) else if k = topKey then Some (HashData (blk_Hash b))
      else if k = blk_Hash b then Some (BlockData b) else None)" for k
    using keys by (auto simp: db1 db SaveFirstHash_def PutBlockOnTop_def SaveTopHash_def db_PutBlock_def db_GetBlock_def tget_tput)
  have "node_inv n (blk_Hash b) (db1\<lparr>db_chain := t\<rparr>) [blk_Hash b]"
    using g c(2) fields keys topKey_len firstKey_topKey
    by (auto simp: node_inv_def store_inv_def t db_GetBlock_put get block_ok_def split: if_splits)
  moreover have "addFirstBlock e cc False b db0 = ignoreS (txm_BlockAdded (txm_of cc e) b True (db1\<lparr>db_chain := t\<rparr>)) (\<lambda>db. (Ok (), db))"
    using fields c(1) by (simp add: addFirstBlock_def InitDatabase_def getConnection_def db[symmetric] db1[symmetric] on_chain_def t Let_def)
  moreover have "same_store (snd (ignoreS (txm_BlockAdded (txm_of cc e) b True (db1\<lparr>db_chain := t\<rparr>)) (\<lambda>db. (Ok (), db)))) (db1\<lparr>db_chain := t\<rparr>)"
    by (intro keeps_ignoreS keeps_Pair txm_keeps same_store_simps(1))
  ultimately show ?thesis by (simp add: node_inv_same)
qed

text \<open>The top block can be dropped when it is not the first one and no block is built on it.\<close>

definition leaf_top :: "'m node_db \<Rightarrow> bool" where
  "leaf_top db \<longleftrightarrow> (\<exists>h b. GetTopHash db = Ok h \<and> db_GetBlock db h = Some (BlockData b) \<and> blk_PrevBlockHash b \<noteq> [] \<and>
     (\<forall>k x. db_GetBlock db k = Some (BlockData x) \<longrightarrow> blk_PrevBlockHash x \<noteq> h))"

lemma DropBlock_inv:
  assumes inv: "node_inv n g db hs" and leaf: "leaf_top db"
  shows "node_inv n g (snd (DropBlock e q db)) (butlast hs)"
proof -
  have si: "store_inv n db hs" and hg: "hd hs = g" and fk: "db_GetBlock db firstKey = Some (HashData g)"
    using inv by (simp_all add: node_inv_def)
  note D = store_invD[OF si]
  obtain b where b: "db_GetBlock db (List.last hs) = Some (BlockData b)" "blk_PrevBlockHash b \<noteq> []"
    and no: "\<forall>k x. db_GetBlock db k = Some (BlockData x) \<longrightarrow> blk_PrevBlockHash x \<noteq> List.last hs"
    using leaf store_inv_top[OF si] by (auto simp: leaf_top_def)
  have "List.last hs \<noteq> hd hs" using first_block(1)[OF si] b by auto
  then obtain ks p where hs: "hs = ks @ [p, List.last hs]"
    using D(4) by (metis (no_types, lifting) append_Cons append_Nil append_assoc last_snoc list.sel(1) rev_exhaust)
  then have bl: "butlast hs = ks @ [p]" by (metis butlast_append butlast_snoc append_Cons append_Nil list.simps(3) append_assoc)
  obtain db' where r: "DeleteBlock db = (Ok b, db')" "store_inv n db' (ks @ [p])"
    and get: "\<And>k. k \<noteq> topKey \<Longrightarrow> db_GetBlock db' k = (if k = List.last hs then None else db_GetBlock db k)"
    using DeleteBlock_main[of n db ks p "List.last hs" b] si hs b(1) no by metis
  have "List.last hs \<noteq> firstKey" using b(1) fk by auto
  then have "node_inv n g db' (ks @ [p])"
    using r(2) get[of firstKey] fk hg hs by (auto simp: node_inv_def) (metis hd_append list.sel(1))
  moreover have "DropBlock e q db = ignoreS (txm_BlockRemoved (txm_of (qm_config q) e) b db') (\<lambda>db. (Ok (), db))"
    using r(1) by (simp add: DropBlock_def)
  moreover have "same_store (snd (ignoreS (txm_BlockRemoved (txm_of (qm_config q) e) b db') (\<lambda>db. (Ok (), db)))) db'"
    by (intro keeps_ignoreS keeps_Pair txm_keeps same_store_simps(1))
  ultimately show ?thesis using bl by (simp add: node_inv_same)
qed

section \<open>Queries, transactions and blocks to make keep the store\<close>

lemma checkCache_keeps [keeps]: "same_store s db \<Longrightarrow> same_store (snd (checkUnapprovedCache cc s)) db"
  by (auto simp: checkUnapprovedCache_def GetUnapprovedCount_def Let_def split: res.split prod.split)

lemma withSignature_keeps [keeps]:
  "same_store s db \<Longrightarrow> same_store (snd (processQueryWithSignature e q txe sg fl s)) db"
  unfolding processQueryWithSignature_def Let_def by (intro keeps_bindS keeps_Pair AddTransactionToPool_keeps)

lemma PrepareNewSQL_keeps [keeps]:
  "same_store s db \<Longrightarrow> same_store (snd (PrepareNewSQLTransaction e k u am tt s)) db"
  by (auto simp: PrepareNewSQLTransaction_def prepareNewCurrencyTransactionStart_def getBaseTransaction_def Let_def
    intro!: keeps split: option.split)

lemma prepare_keeps [keeps]: "same_store s db \<Longrightarrow> same_store (snd (prepare_transaction e q i qp k fl s)) db"
  unfolding prepare_transaction_def Let_def
  by (intro keeps_bindS keeps_case_pair keeps_if keeps_Pair PrepareNewSQL_keeps withSignature_keeps)

lemma processQuery_keeps [keeps]: "same_store s db \<Longrightarrow> same_store (snd (processQuery e q i sql k fl s)) db"
  by (auto simp: processQuery_def Let_def split_beta intro!: keeps)

lemma queries_keep [keeps]:
  "same_store s db \<Longrightarrow> same_store (snd (NewQuery e q i sql k s)) db"
  "same_store s db \<Longrightarrow> same_store (snd (NewQuerySigned e q txe sg s)) db"
  "same_store s db \<Longrightarrow> same_store (snd (NewQueryByNode e q i sql k pk s)) db"
  by (auto simp: NewQuery_def NewQuerySigned_def NewQueryByNode_def intro!: keeps)

lemma NewQueryFromProxy_keeps [keeps]: "same_store s db \<Longrightarrow> same_store (snd (NewQueryFromProxy e q i sql s)) db"
  using processQuery_keeps[of s db e q i sql "[]" TXFlagsNoPool]
  by (auto simp: NewQueryFromProxy_def split: res.split prod.split)

lemma verify_for_block_keeps [keeps]: "same_store s db \<Longrightarrow> same_store (snd (verify_for_block e txl txs s)) db"
proof (induction txl arbitrary: txs s)
  case (Cons tx txl)
  obtain r d where d: "verify_transaction e id tx (Some txs) [] TXFlagsNothing s = (r, d)" by fastforce
  have "same_store (snd (verify_transaction e id tx (Some txs) [] TXFlagsNothing s)) db"
    using Cons.prems by (auto simp: verify_transaction_def checkBaseTransaction_def getBaseTransaction_def Let_def
      intro!: keeps split: option.split)
  then have "same_store d db" using d by simp
  then show ?case using d Cons.IH by (auto intro!: keeps_ignoreS cancel_keeps split: res.split bool.split)
qed simp

lemma cancel_all_keeps [keeps]: "same_store s db \<Longrightarrow> same_store (snd (cancel_all e txs s)) db"
  by (induction txs arbitrary: s) (auto intro!: keeps)

lemma PrepareNewBlock_keeps [keeps]: "same_store s db \<Longrightarrow> same_store (snd (bm_PrepareNewBlock e rnd bm s)) db"
  by (auto simp: bm_PrepareNewBlock_def doPrepareNewBlock_def GetUnapprovedTransactionsForNewBlock_def GetUnapprovedCount_def Let_def split_beta
    intro!: keeps)

lemma pool_steps_keep [keeps]:
  "same_store s db \<Longrightarrow> same_store (snd (CancelTransaction e k rb s)) db"
  "same_store s db \<Longrightarrow> same_store (snd (CleanUnapprovedCache s)) db"
  by (auto simp: CancelTransaction_def CleanUnapprovedCache_def pool_CleanUnapprovedCache_def intro!: keeps)

lemma received_keep [keeps]:
  "same_store s db \<Longrightarrow> same_store (snd (ReceivedNewTransaction e q tx fl s)) db"
  "same_store s db \<Longrightarrow> same_store (snd (ReceivedNewCurrencyTransactionData e q txe sg s)) db"
  by (auto simp: ReceivedNewTransaction_def ReceivedNewCurrencyTransactionData_def Let_def intro!: keeps)

section \<open>Steps of a node\<close>

text \<open>
  A step is one operation that another node, a client, the proxy or the block maker starts. \<open>E\<close> are the pairs of
  an environment (clock, keys, orders of maps, database server) and a query manager (keys and configuration)
  under which operations run: both may differ from step to step. A block comes with \<open>block_shape\<close>, a block is
  dropped only from a leaf, and nothing is asked for about any other argument.
\<close>

inductive node_step ::
  "nat \<Rightarrow> (('k, 'm) txm_env \<times> 'k query_manager) set \<Rightarrow> 'm node_db \<Rightarrow> 'm node_db \<Rightarrow> bool" for n E where
  step_block: "(e, q) \<in> E \<Longrightarrow> block_shape n db b \<Longrightarrow> node_step n E db (snd (node_AddBlock e q i b db))"
| step_received: "(e, q) \<in> E \<Longrightarrow> (\<And>b. decoded = Ok b \<Longrightarrow> block_shape n db b) \<Longrightarrow>
    node_step n E db (snd (ReceivedFullBlockFromOtherNode e q i decoded db))"
| step_drop: "(e, q) \<in> E \<Longrightarrow> leaf_top db \<Longrightarrow> node_step n E db (snd (DropBlock e q db))"
| step_transaction: "(e, q) \<in> E \<Longrightarrow> node_step n E db (snd (ReceivedNewTransaction e q tx flags db))"
| step_currency: "(e, q) \<in> E \<Longrightarrow> node_step n E db (snd (ReceivedNewCurrencyTransactionData e q txbytes sig db))"
| step_query: "(e, q) \<in> E \<Longrightarrow> node_step n E db (snd (NewQuery e q i sql pubKey db))"
| step_signed: "(e, q) \<in> E \<Longrightarrow> node_step n E db (snd (NewQuerySigned e q txbytes sig db))"
| step_by_node: "(e, q) \<in> E \<Longrightarrow> node_step n E db (snd (NewQueryByNode e q i sql pubKey privKey db))"
| step_proxy: "(e, q) \<in> E \<Longrightarrow> node_step n E db (snd (NewQueryFromProxy e q i sql db))"
| step_prepare: "(e, q) \<in> E \<Longrightarrow> node_step n E db (snd (bm_PrepareNewBlock e rnd bm db))"
| step_cancel: "(e, q) \<in> E \<Longrightarrow> node_step n E db (snd (CancelTransaction e txid rollback db))"
| step_clean: "node_step n E db (snd (CleanUnapprovedCache db))"

lemma received_block:
  assumes "db_opened db"
  shows "snd (ReceivedFullBlockFromOtherNode e q i decoded db) = db \<or>
    (\<exists>b. decoded = Ok b \<and> snd (ReceivedFullBlockFromOtherNode e q i decoded db) = snd (node_AddBlock e q i b db))"
proof (cases decoded)
  case (Ok b)
  obtain r d where d: "node_AddBlock e q i b db = (r, d)" by fastforce
  have "\<exists>s. CheckBlockState db (blk_Hash b) (blk_PrevBlockHash b) = Ok s"
    using assms by (simp add: CheckBlockState_def CheckBlockExists_def)
  then obtain s where s: "CheckBlockState db (blk_Hash b) (blk_PrevBlockHash b) = Ok s" by blast
  show ?thesis using Ok s d by (cases r) (auto simp: ReceivedFullBlockFromOtherNode_def)
qed (simp_all add: ReceivedFullBlockFromOtherNode_def)

lemma node_AddBlock_inv:
  assumes inv: "node_inv n g db hs" and "block_shape n db b"
  shows "\<exists>hs'. node_inv n g (snd (node_AddBlock e q i b db)) hs'"
proof -
  obtain r db' hs' where "node_AddBlock e q i b db = (r, db')" "store_inv n db' hs'" "keeps_blocks db db'"
    using node_AddBlock_main[of n db hs b e q i] assms by (auto simp: node_inv_def)
  then show ?thesis using node_inv_kept[OF inv] by auto
qed

lemma kept_inv: "same_store (snd r) db \<Longrightarrow> node_inv n g db hs \<Longrightarrow> \<exists>hs'. node_inv n g (snd r) hs'"
  using node_inv_same by blast

lemma node_step_inv:
  assumes "node_step n E db db'" and inv: "node_inv n g db hs"
  shows "\<exists>hs'. node_inv n g db' hs'"
  using assms(1)
proof cases
  case (step_block e q b i)
  then show ?thesis using node_AddBlock_inv[OF inv] by blast
next
  case (step_received e q decoded i)
  have "db_opened db" using inv store_invD(1) by (auto simp: node_inv_def)
  from received_block[OF this, of e q i decoded] show ?thesis
    using step_received node_AddBlock_inv[OF inv] inv by metis
next
  case (step_drop e q)
  then show ?thesis using DropBlock_inv[OF inv] by blast
qed (auto intro!: kept_inv[OF _ inv] keeps)

text \<open>The states of a node that was started with the first block \<open>b\<close>.\<close>

inductive reachable_node ::
  "nat \<Rightarrow> (('k, 'm) txm_env \<times> 'k query_manager) set \<Rightarrow> block \<Rightarrow> 'm node_db \<Rightarrow> bool" for n E b where
  reach_first: "(e, q) \<in> E \<Longrightarrow> length (blk_Hash b) = n \<Longrightarrow> blk_Hash b \<noteq> zeros n \<Longrightarrow> 2 \<le> n \<Longrightarrow> blk_PrevBlockHash b = [] \<Longrightarrow>
    reachable_node n E b (snd (addFirstBlock e (qm_config q) False b db0))"
| reach_step: "reachable_node n E b db \<Longrightarrow> node_step n E db db' \<Longrightarrow> reachable_node n E b db'"

lemma reachable_inv: "reachable_node n E b db \<Longrightarrow> \<exists>hs. node_inv n (blk_Hash b) db hs"
proof (induction rule: reachable_node.induct)
  case (reach_first e q db0)
  then show ?case using addFirstBlock_inv by blast
next
  case (reach_step db db')
  then show ?case using node_step_inv by blast
qed


end
