(* ===== verification/Node_Comm.thy ===== *)
theory Node_Comm
  imports Node_Client Node_Machine
begin

text \<open>
  What a node does with other nodes: \<^verbatim>\<open>nodemanager/communication.go\<close> and the operations of
  \<^verbatim>\<open>nodemanager/node.go\<close> that send. A node is its database, its list of known nodes and its client. \<open>node_env\<close>
  holds what it runs with: clock, keys and server of the application's tables (\<open>nv_env\<close>, \<open>nv_sign\<close>), which may
  change with every connection that is made, the network, the decoders of blocks, the wallet of the minter, the
  random bytes of a coinbase and the nonces that are tried. The theory shows that whatever other nodes answer, the
  store of the node stays a chain of stored blocks, and what the pulled changes of several nodes merge to.
\<close>

section \<open>A node and what it runs with\<close>

record 'm node_state =
  nd_db :: "'m node_db"
  nd_net :: node_network
  nd_client :: client

record ('k, 'm) node_env =
  nv_env :: "nat \<Rightarrow> ('k, 'm) txm_env"
  nv_sign :: "nat \<Rightarrow> nat"
  nv_qm :: "'k query_manager"
  nv_net :: net_env
  nv_unblock :: "bytes \<Rightarrow> block res"
  nv_short :: "block_short \<Rightarrow> bytes"
  nv_unshort :: "bytes \<Rightarrow> block_short res"
  nv_minter :: string
  nv_random :: "bytes option"
  nv_nonces :: nat

definition nd_time :: "'m node_state \<Rightarrow> nat" where
  "nd_time s = length (cl_sent (nd_client s))"

definition env_at :: "('k, 'm) node_env \<Rightarrow> 'm node_state \<Rightarrow> ('k, 'm) txm_env" where
  "env_at e s = nv_env e (nd_time s)"

definition sign_at :: "('k, 'm) node_env \<Rightarrow> 'm node_state \<Rightarrow> nat" where
  "sign_at e s = nv_sign e (nd_time s)"

definition on_db :: "('m node_db \<Rightarrow> 'a res \<times> 'm node_db) \<Rightarrow> 'm node_state \<Rightarrow> 'a res \<times> 'm node_state" where
  "on_db f s = (let (r, db) = f (nd_db s) in (r, s\<lparr>nd_db := db\<rparr>))"

definition on_client :: "(client \<Rightarrow> 'a res \<times> client) \<Rightarrow> 'm node_state \<Rightarrow> 'a res \<times> 'm node_state" where
  "on_client f s = (let (r, c) = f (nd_client s) in (r, s\<lparr>nd_client := c\<rparr>))"

definition is_self :: "node_addr \<Rightarrow> 'm node_state \<Rightarrow> bool" where
  "is_self node s \<longleftrightarrow> CompareToAddress node (cl_NodeAddress (nd_client s))"

text \<open>The result of a network operation with the node at a position, and then what follows.\<close>

fun result_err :: "'a res \<Rightarrow> err option res" where
  "result_err (Ok _) = Ok None"
| "result_err (Err e) = Ok (Some e)"
| "result_err Panic = Panic"
| "result_err Diverge = Diverge"

definition hooked :: "nat \<Rightarrow> 'a res \<times> 'm node_state \<Rightarrow> unit res \<times> 'm node_state" where
  "hooked i r =
     bindS (result_err (fst r), snd r) (\<lambda>er s.
     bindS (HookNeworkOperationResult er i (nd_net s), s) (\<lambda>net s. (Ok (), s\<lparr>nd_net := net\<rparr>)))"

text \<open>The loop over the known nodes, the node itself left out.\<close>

definition for_others ::
  "(nat \<Rightarrow> node_addr \<Rightarrow> 'm node_state \<Rightarrow> unit res \<times> 'm node_state) \<Rightarrow> 'm node_state \<Rightarrow> unit res \<times> 'm node_state" where
  "for_others f s =
     forS (\<lambda>(i, node) s. if is_self node s then (Ok (), s) else f i node s) (enumerate 0 (nn_Nodes (nd_net s))) s"

section \<open>Sending to other nodes\<close>

definition sendVersionToNodes ::
  "('k, 'm) node_env \<Rightarrow> node_addr list \<Rightarrow> int \<Rightarrow> 'm node_state \<Rightarrow> unit res \<times> 'm node_state" where
  "sendVersionToNodes e nodes bestHeight s =
     (let nodes = (if length nodes = 0 then nn_Nodes (nd_net s) else nodes)
      in forS (\<lambda>node s. if is_self node s then (Ok (), s)
                        else ignoreS (on_client (SendVersion (nv_net e) node bestHeight) s) (\<lambda>s. (Ok (), s))) nodes s)"

definition sendTransactionToAllASync ::
  "('k, 'm) node_env \<Rightarrow> transaction \<Rightarrow> 'm node_state \<Rightarrow> unit res \<times> 'm node_state" where
  "sendTransactionToAllASync e tx s =
     for_others (\<lambda>i node s. hooked i (on_client (SendInv (nv_net e) node ''tx'' [tx_ID tx]) s)) s"

definition sendTransactionToAllSync ::
  "('k, 'm) node_env \<Rightarrow> transaction \<Rightarrow> 'm node_state \<Rightarrow> unit res \<times> 'm node_state" where
  "sendTransactionToAllSync e tx s =
     (let txser = gob_tx (db_gob (nd_db s)) tx
      in for_others (\<lambda>i node s. hooked i (on_client (SendTx (nv_net e) node txser) s)) s)"

definition sendTransactionToAll ::
  "('k, 'm) node_env \<Rightarrow> transaction \<Rightarrow> 'm node_state \<Rightarrow> unit res \<times> 'm node_state" where
  "sendTransactionToAll e tx s =
     (if CheckHadInputConnects (nd_net s) then sendTransactionToAllASync e tx s else sendTransactionToAllSync e tx s)"

text \<open>The address to skip is an argument that is never looked at.\<close>

definition SendBlockToAllASync ::
  "('k, 'm) node_env \<Rightarrow> block \<Rightarrow> node_addr \<Rightarrow> 'm node_state \<Rightarrow> unit res \<times> 'm node_state" where
  "SendBlockToAllASync e newBlock skipaddr s =
     (let blockshortdata = nv_short e (GetShortCopy newBlock)
      in for_others (\<lambda>i node s. hooked i (on_client (SendInv (nv_net e) node ''block'' [blockshortdata]) s)) s)"

definition send_if_missing ::
  "('k, 'm) node_env \<Rightarrow> block \<Rightarrow> bytes \<Rightarrow> nat \<Rightarrow> node_addr \<Rightarrow> 'm node_state \<Rightarrow> unit res \<times> 'm node_state" where
  "send_if_missing e newBlock blockshortdata i node s =
     (let (result, s) = on_client (SendCheckBlock (nv_net e) node blockshortdata) s
      in bindS (hooked i (result, s)) (\<lambda>_ s.
           if result = Ok False
           then ignoreS (on_client (SendBlock (nv_net e) node (gob_block (db_gob (nd_db s)) newBlock)) s) (\<lambda>s. (Ok (), s))
           else (Ok (), s)))"

definition SendBlockToAllSync ::
  "('k, 'm) node_env \<Rightarrow> block \<Rightarrow> node_addr \<Rightarrow> 'm node_state \<Rightarrow> unit res \<times> 'm node_state" where
  "SendBlockToAllSync e newBlock skipaddr s =
     (let blockshortdata = nv_short e (GetShortCopy newBlock)
      in for_others (send_if_missing e newBlock blockshortdata) s)"

definition SendBlockToAll ::
  "('k, 'm) node_env \<Rightarrow> block \<Rightarrow> node_addr \<Rightarrow> 'm node_state \<Rightarrow> unit res \<times> 'm node_state" where
  "SendBlockToAll e newBlock skipaddr s =
     (if CheckHadInputConnects (nd_net s) then SendBlockToAllASync e newBlock skipaddr s
      else SendBlockToAllSync e newBlock skipaddr s)"

section \<open>Known nodes\<close>

definition SendVersionToNodes ::
  "('k, 'm) node_env \<Rightarrow> node_addr list \<Rightarrow> 'm node_state \<Rightarrow> unit res \<times> 'm node_state" where
  "SendVersionToNodes e nodes s =
     (case GetBestHeight (nd_db s) of
        Ok bestHeight \<Rightarrow> sendVersionToNodes e nodes bestHeight s
      | Err _ \<Rightarrow> (Ok (), s) | Panic \<Rightarrow> (Panic, s) | Diverge \<Rightarrow> (Diverge, s))"

definition checkAddressKnown ::
  "('k, 'm) node_env \<Rightarrow> node_addr \<Rightarrow> bool \<Rightarrow> 'm node_state \<Rightarrow> bool res \<times> 'm node_state" where
  "checkAddressKnown e addr afterinputconnect s =
     bindS
       (if \<not> CheckIsKnown (nd_net s) addr \<and> \<not> CompareToAddress addr (cl_NodeAddress (nd_client s)) then
          ignoreS (on_client (SendAddrList (nv_net e) addr (nn_Nodes (nd_net s))) s) (\<lambda>s.
            (Ok True, s\<lparr>nd_net := snd (AddNodeToKnown addr (nd_net s))\<rparr>))
        else (Ok False, s)) (\<lambda>added s.
       (Ok added, if afterinputconnect then s\<lparr>nd_net := InputConnectFromNode addr (nd_net s)\<rparr> else s))"

definition CheckAddressKnown ::
  "('k, 'm) node_env \<Rightarrow> node_addr \<Rightarrow> 'm node_state \<Rightarrow> bool res \<times> 'm node_state" where
  "CheckAddressKnown e addr s = checkAddressKnown e addr True s"

definition node_AddNodeToKnown ::
  "('k, 'm) node_env \<Rightarrow> node_addr \<Rightarrow> bool \<Rightarrow> 'm node_state \<Rightarrow> unit res \<times> 'm node_state" where
  "node_AddNodeToKnown e addr sendversion s =
     bindS (checkAddressKnown e addr False s) (\<lambda>added s.
       if added \<and> sendversion then SendVersionToNodes e [addr] s else (Ok (), s))"

definition InitNodes :: "node_addr list \<Rightarrow> bool \<Rightarrow> 'm node_state \<Rightarrow> 'm node_state" where
  "InitNodes nodes force s =
     s\<lparr>nd_net := (if length nodes = 0 \<and> \<not> force then LoadNodes (nd_net s) else SetNodes nodes True (nd_net s))\<rparr>"

text \<open>
  \<^verbatim>\<open>Clone\<close>: a node with the same database and storage of nodes, whose list of nodes is that of the original and
  whose marks of incoming connections are not set.
\<close>

definition Clone_node :: "'m node_state \<Rightarrow> 'm node_state" where
  "Clone_node orignode =
     InitNodes (nn_Nodes (nd_net orignode)) True
       (orignode\<lparr>nd_net := SetNodes [] True \<lparr>nn_Nodes = [], nn_hadInputConnects = False, nn_hadRecentInputConnects = False,
                             nn_Storage = nn_Storage (nd_net orignode)\<rparr>\<rparr>)"

section \<open>Pulling changes from other nodes\<close>

text \<open>The lists of blocks and transactions may be \<open>nil\<close>; the list of nodes is only read.\<close>

record changes_pull_results =
  pr_AddedTransactions :: "bytes list option"
  pr_AddedBlocks :: "bytes list option"
  pr_AddedNodes :: "node_addr list"

definition emptyPullResults :: changes_pull_results where
  "emptyPullResults = \<lparr>pr_AddedTransactions = None, pr_AddedBlocks = None, pr_AddedNodes = []\<rparr>"

fun add_missing :: "('a \<Rightarrow> 'a \<Rightarrow> bool) \<Rightarrow> 'a list \<Rightarrow> 'a list \<Rightarrow> 'a list" where
  "add_missing same xs [] = xs"
| "add_missing same xs (y # ys) = add_missing same (if \<exists>x\<in>set xs. same y x then xs else xs @ [y]) ys"

definition merge_ids :: "bytes list option \<Rightarrow> bytes list option \<Rightarrow> bytes list option" where
  "merge_ids p nr =
     (case p of None \<Rightarrow> nr | Some xs \<Rightarrow> (case nr of None \<Rightarrow> Some xs | Some ys \<Rightarrow> Some (add_missing (=) xs ys)))"

definition mergeResults :: "changes_pull_results \<Rightarrow> changes_pull_results \<Rightarrow> changes_pull_results" where
  "mergeResults p nr =
     \<lparr>pr_AddedTransactions = merge_ids (pr_AddedTransactions p) (pr_AddedTransactions nr),
      pr_AddedBlocks = merge_ids (pr_AddedBlocks p) (pr_AddedBlocks nr),
      pr_AddedNodes = add_missing CompareToAddress (pr_AddedNodes p) (pr_AddedNodes nr)\<rparr>"

definition ids_of :: "bytes list option \<Rightarrow> bytes list" where
  "ids_of p = (case p of None \<Rightarrow> [] | Some xs \<Rightarrow> xs)"

definition AnyChangesPulled :: "changes_pull_results \<Rightarrow> bool" where
  "AnyChangesPulled p \<longleftrightarrow>
     length (ids_of (pr_AddedBlocks p)) > 0 \<or> length (pr_AddedNodes p) > 0 \<or> length (ids_of (pr_AddedTransactions p)) > 0"

text \<open>A panic or a loop that does not end goes through; any other error only ends the step.\<close>

definition try_step ::
  "'a res \<times> 's \<Rightarrow> ('s \<Rightarrow> 'b res \<times> 's) \<Rightarrow> ('a \<Rightarrow> 's \<Rightarrow> 'b res \<times> 's) \<Rightarrow> 'b res \<times> 's" where
  "try_step r skip f = (case fst r of Ok x \<Rightarrow> f x (snd r) | Err _ \<Rightarrow> skip (snd r) | Panic \<Rightarrow> (Panic, snd r) | Diverge \<Rightarrow> (Diverge, snd r))"

text \<open>The loop over the blocks, from the last one to the first.\<close>

fun process_blocks ::
  "('k, 'm) node_env \<Rightarrow> node_addr \<Rightarrow> bytes list \<Rightarrow> bytes list \<Rightarrow> 'm node_state \<Rightarrow> bytes list res \<times> 'm node_state" where
  "process_blocks e node [] addedBlocks s = (Ok addedBlocks, s)"
| "process_blocks e node (b # blocks) addedBlocks s =
     (let next = process_blocks e node blocks addedBlocks
      in try_step (nv_unshort e b, s) next (\<lambda>bs s.
         try_step (CheckBlockState (nd_db s) (bs_Hash bs) (bs_PrevBlockHash bs), s) next (\<lambda>blockstate s.
           if blockstate = 2 then (Ok addedBlocks, s)
           else if blockstate = 0 then
             try_step (on_client (SendGetBlock (nv_net e) node (bs_Hash bs)) s) next (\<lambda>result s.
             try_step (on_db (ReceivedFullBlockFromOtherNode (env_at e s) (nv_qm e) (sign_at e s) (nv_unblock e result)) s) next
               (\<lambda>(blockstate, _, block) s.
                 process_blocks e node blocks (if blockstate = 0 then addedBlocks @ [blk_Hash block] else addedBlocks) s))
           else next s)))"

definition processBlocksFromOtherNode ::
  "('k, 'm) node_env \<Rightarrow> node_addr \<Rightarrow> bytes list \<Rightarrow> 'm node_state \<Rightarrow> bytes list option res \<times> 'm node_state" where
  "processBlocksFromOtherNode e node blocks s =
     (if length blocks = 0 then (Ok None, s)
      else bindS (process_blocks e node (rev blocks) [] s) (\<lambda>added s. (Ok (Some added), s)))"

text \<open>A transaction that is not found, or cannot be looked up, is asked for.\<close>

fun process_transactions ::
  "('k, 'm) node_env \<Rightarrow> node_addr \<Rightarrow> bytes list \<Rightarrow> bytes list \<Rightarrow> 'm node_state \<Rightarrow> bytes list res \<times> 'm node_state" where
  "process_transactions e node [] added s = (Ok added, s)"
| "process_transactions e node (txID # txs) added s =
     (let next = process_transactions e node txs added;
          ask = (\<lambda>s. try_step (on_client (SendGetTransaction (nv_net e) node txID) s) next (\<lambda>result s.
                     try_step (gob_untx (db_gob (nd_db s)) result, s) next (\<lambda>tx s.
                     try_step (on_db (AddTransactionToPool (env_at e s) (qm_config (nv_qm e)) tx TXFlagsExecute) s) next (\<lambda>_ s.
                       process_transactions e node txs (added @ [tx_ID tx]) s))))
      in try_step (on_db (txm_GetIfExists txID) s) ask (\<lambda>txe s. if txe \<noteq> None then next s else ask s))"

definition processTransactionsFromPoolOnOtherNode ::
  "('k, 'm) node_env \<Rightarrow> node_addr \<Rightarrow> bytes list \<Rightarrow> 'm node_state \<Rightarrow> bytes list option res \<times> 'm node_state" where
  "processTransactionsFromPoolOnOtherNode e node transactions s =
     (if length transactions = 0 then (Ok None, s)
      else bindS (process_transactions e node transactions [] s) (\<lambda>added s. (Ok (Some added), s)))"

fun processNodesFromPoolOnOtherNode ::
  "('k, 'm) node_env \<Rightarrow> node_addr_short list \<Rightarrow> node_addr list \<Rightarrow> 'm node_state \<Rightarrow> node_addr list res \<times> 'm node_state" where
  "processNodesFromPoolOnOtherNode e [] added s = (Ok added, s)"
| "processNodesFromPoolOnOtherNode e (ns # nodes) added s =
     (let addr = emptyNodeAddr\<lparr>na_Port := ns_Port ns, na_Host := string_of_bytes (ns_Host ns)\<rparr>
      in bindS (checkAddressKnown e addr False s) (\<lambda>isnew s.
           processNodesFromPoolOnOtherNode e nodes (if isnew then added @ [addr] else added) s))"

definition pullUpdatesFromNode ::
  "('k, 'm) node_env \<Rightarrow> node_addr \<Rightarrow> int \<Rightarrow> bytes list \<Rightarrow> int \<Rightarrow> 'm node_state
     \<Rightarrow> changes_pull_results res \<times> 'm node_state" where
  "pullUpdatesFromNode e node lastCheckTime topHashes myBestHeight s =
     (let (result, s) = on_client (SendGetUpdates (nv_net e) node lastCheckTime myBestHeight topHashes) s
      in case result of
           Err er \<Rightarrow> bindS (HookNeworkOperationResultForNode (Some er) node (nd_net s), s) (\<lambda>net s.
                       (Err er, s\<lparr>nd_net := net\<rparr>))
         | _ \<Rightarrow>
           bindS (result, s) (\<lambda>result s.
           bindS (processBlocksFromOtherNode e node (ru_Blocks result) s) (\<lambda>blocks s.
           bindS (processTransactionsFromPoolOnOtherNode e node (ru_TransactionsInPool result) s) (\<lambda>txs s.
           bindS (processNodesFromPoolOnOtherNode e (ru_Nodes result) [] s) (\<lambda>nodes s.
             (Ok \<lparr>pr_AddedTransactions = txs, pr_AddedBlocks = blocks, pr_AddedNodes = nodes\<rparr>, s))))))"

fun pull_from_nodes ::
  "('k, 'm) node_env \<Rightarrow> int \<Rightarrow> bytes list \<Rightarrow> int \<Rightarrow> node_addr list \<Rightarrow> changes_pull_results \<Rightarrow> 'm node_state
     \<Rightarrow> changes_pull_results res \<times> 'm node_state" where
  "pull_from_nodes e t topHashes h [] result s = (Ok result, s)"
| "pull_from_nodes e t topHashes h (node # nodes) result s =
     (if is_self node s then pull_from_nodes e t topHashes h nodes result s
      else try_step (pullUpdatesFromNode e node t topHashes h s) (pull_from_nodes e t topHashes h nodes result) (\<lambda>nr s.
             pull_from_nodes e t topHashes h nodes (mergeResults result nr) s))"

definition CheckForChangesOnOtherNodes ::
  "('k, 'm) node_env \<Rightarrow> nat list \<Rightarrow> int \<Rightarrow> 'm node_state \<Rightarrow> changes_pull_results res \<times> 'm node_state" where
  "CheckForChangesOnOtherNodes e rng lastCheckTime s =
     (let nodes = GetConnecttionVerifiedNodeAddresses rng 10 (nd_net s)
      in bindS (GetBCTopState (nd_db s) 5, s) (\<lambda>(myBestHeight, topHashes) s.
           pull_from_nodes e lastCheckTime topHashes myBestHeight nodes emptyPullResults s))"

section \<open>Sending what the node made\<close>

definition node_Send ::
  "('k, 'm) node_env \<Rightarrow> bytes \<Rightarrow> 'k \<Rightarrow> string \<Rightarrow> float64 \<Rightarrow> 'm node_state \<Rightarrow> bytes res \<times> 'm node_state" where
  "node_Send e PubKey privKey to_addr amount s =
     (if to_addr = [] then (Err (ErrNew ''Recipient address is not provided''), s)
      else if \<not> ValidateAddress (te_crypto (env_at e s)) to_addr then (Err (ErrNew ''Recipient address is not valid''), s)
      else bindS (on_db (CreateCurrencyTransaction (txm_of (qm_config (nv_qm e)) (env_at e s)) (sign_at e s) PubKey privKey
                    to_addr amount) s) (\<lambda>tx s.
           ignoreS (sendTransactionToAll e tx s) (\<lambda>s. (Ok (tx_ID tx), s))))"

text \<open>The id is \<open>None\<close> when the query was executed without a transaction.\<close>

definition SQLTransaction ::
  "('k, 'm) node_env \<Rightarrow> bytes \<Rightarrow> 'k \<Rightarrow> string \<Rightarrow> 'm node_state \<Rightarrow> bytes option res \<times> 'm node_state" where
  "SQLTransaction e PubKey privKey sqlcommand s =
     bindS (on_db (NewQueryByNode (env_at e s) (nv_qm e) (sign_at e s) sqlcommand PubKey privKey) s) (\<lambda>(_, tx) s.
       case tx of
         None \<Rightarrow> (Ok None, s)
       | Some tx \<Rightarrow> ignoreS (sendTransactionToAll e tx s) (\<lambda>s. (Ok (Some (tx_ID tx)), s)))"

text \<open>The part of \<^verbatim>\<open>TryToMakeBlock\<close> after a block was prepared. \<open>callback\<close> is told which transactions of the pool
  the new block holds before its proof of work is searched for.\<close>

definition finish_block ::
  "('k, 'm) node_env \<Rightarrow> (bytes list \<Rightarrow> 'm node_state \<Rightarrow> 'm node_state) option \<Rightarrow> node_block_maker \<Rightarrow> 'm node_state
     \<Rightarrow> bytes option res \<times> 'm node_state" where
  "finish_block e callback bm s =
     bindS (GetPreparedBlockTransactionsIDs bm, s) (\<lambda>txList s.
       let s = (case callback of None \<Rightarrow> s | Some f \<Rightarrow> f txList s)
       in bindS (CompleteBlock (te_crypto (env_at e s)) (nv_nonces e) bm, s) (\<lambda>(b, bm) s.
          bindS (on_db (node_AddBlock (env_at e s) (nv_qm e) (sign_at e s) b) s) (\<lambda>_ s.
          ignoreS (SendBlockToAll e b emptyNodeAddr s) (\<lambda>s. (Ok (Some (blk_Hash b)), s)))))"

definition TryToMakeBlock ::
  "('k, 'm) node_env \<Rightarrow> (bytes list \<Rightarrow> 'm node_state \<Rightarrow> 'm node_state) option \<Rightarrow> bytes \<Rightarrow> 'm node_state
     \<Rightarrow> bytes option res \<times> 'm node_state" where
  "TryToMakeBlock e callback newTransactionID s =
     (if nv_minter e = [] \<or> \<not> ValidateAddress (te_crypto (env_at e s)) (nv_minter e)
      then (Err (ErrNew ''Minter address is not provided''), s)
      else
        let bm = \<lparr>bm_MinterAddress = nv_minter e, bm_PreparedBlock = None, bm_config = qm_config (nv_qm e)\<rparr>
        in bindS (on_db (bm_PrepareNewBlock (env_at e s) (nv_random e) bm) s) (\<lambda>(prepres, bm) s.
           if prepres \<noteq> BlockPrepare_Done then
             (if length newTransactionID > 1 then
                try_step (on_db (GetIfUnapprovedExists newTransactionID) s) (\<lambda>s. (Ok None, s)) (\<lambda>tx s.
                  case tx of
                    None \<Rightarrow> (Ok None, s)
                  | Some tx \<Rightarrow> ignoreS (sendTransactionToAll e tx s) (\<lambda>s. (Ok None, s)))
              else (Ok None, s))
           else finish_block e callback bm s))"

text \<open>State of a block of which another node has told: \<open>0\<close> when it was asked for now.\<close>

definition ReceivedBlockFromOtherNode ::
  "('k, 'm) node_env \<Rightarrow> node_addr \<Rightarrow> bytes \<Rightarrow> 'm node_state \<Rightarrow> int res \<times> 'm node_state" where
  "ReceivedBlockFromOtherNode e addrfrom bsdata s =
     bindS (nv_unshort e bsdata, s) (\<lambda>bs s.
     bindS (CheckBlockState (nd_db s) (bs_Hash bs) (bs_PrevBlockHash bs), s) (\<lambda>blockstate s.
       if blockstate = 0
       then ignoreS (on_client (SendGetData (nv_net e) addrfrom ''block'' (bs_Hash bs)) s) (\<lambda>s. (Ok 0, s))
       else (Ok blockstate, s)))"

end
