(* ===== verification/Node_Peers.thy ===== *)
theory Node_Peers
  imports Node_Comm
begin

text \<open>
  What other nodes can do to a node: the answers to its requests, and the blocks and transactions they send, change
  its store only by adding blocks. The locale \<open>store_property\<close> is the interface between the store and the
  operations that talk to other nodes: a property of the store that the other tables do not matter for and that
  adding a block keeps is kept by all of them. It is interpreted on the invariant of a node.
\<close>

section \<open>What other nodes can do to the store\<close>

text \<open>
  Blocks carry a height, and nothing in the code ties it to their hash. \<open>H\<close> gives the heights by hash that
  honest blocks have: of \<open>peers_shape\<close> the code relies on every block it decodes, with hashes of \<open>n\<close> bytes.
\<close>

definition blocks_are :: "(bytes \<Rightarrow> block \<Rightarrow> bool) \<Rightarrow> 'm node_db \<Rightarrow> bool" where
  "blocks_are Q db \<longleftrightarrow> (\<forall>h b. db_GetBlock db h = Some (BlockData b) \<longrightarrow> Q h b)"

definition heights_by :: "(bytes \<Rightarrow> int) \<Rightarrow> 'm node_db \<Rightarrow> bool" where
  "heights_by H db \<longleftrightarrow> (\<forall>h b. db_GetBlock db h = Some (BlockData b) \<longrightarrow> blk_Height b = H h)"

definition block_by :: "nat \<Rightarrow> (bytes \<Rightarrow> int) \<Rightarrow> block \<Rightarrow> bool" where
  "block_by n H b \<longleftrightarrow>
     length (blk_Hash b) = n \<and> blk_Hash b \<noteq> zeros n \<and> length (blk_PrevBlockHash b) = n \<and>
     blk_Height b = H (blk_Hash b) \<and> H (blk_PrevBlockHash b) < H (blk_Hash b)"

definition peers_shape :: "nat \<Rightarrow> (bytes \<Rightarrow> int) \<Rightarrow> ('k, 'm) node_env \<Rightarrow> bool" where
  "peers_shape n H e \<longleftrightarrow> (\<forall>d b. nv_unblock e d = Ok b \<longrightarrow> block_by n H b)"

definition node_good :: "nat \<Rightarrow> bytes \<Rightarrow> (bytes \<Rightarrow> int) \<Rightarrow> 'm node_db \<Rightarrow> bool" where
  "node_good n g H db \<longleftrightarrow> (\<exists>hs. node_inv n g db hs) \<and> heights_by H db"

lemma block_by_shape: "heights_by H db \<Longrightarrow> block_by n H b \<Longrightarrow> block_shape n db b"
  by (auto simp: heights_by_def block_by_def block_shape_def)

text \<open>A property of the state goes through the combinators.\<close>

lemma kept_bindS: "P (snd r) \<Longrightarrow> (\<And>x s. P s \<Longrightarrow> P (snd (f x s))) \<Longrightarrow> P (snd (bindS r f))"
  by (rule bindS_keeps)

lemma kept_ignoreS: "P (snd r) \<Longrightarrow> (\<And>s. P s \<Longrightarrow> P (snd (f s))) \<Longrightarrow> P (snd (ignoreS r f))"
  by (cases r; cases "fst r") auto

lemma kept_try_step:
  "P (snd r) \<Longrightarrow> (\<And>s. P s \<Longrightarrow> P (snd (skip s))) \<Longrightarrow> (\<And>x s. P s \<Longrightarrow> P (snd (f x s))) \<Longrightarrow> P (snd (try_step r skip f))"
  by (auto simp: try_step_def split: res.split)

lemma kept_forS: "P s \<Longrightarrow> (\<And>x s. P s \<Longrightarrow> P (snd (f x s))) \<Longrightarrow> P (snd (forS f xs s))"
  by (induction xs arbitrary: s) (auto intro!: kept_bindS[where P = P])

lemma on_chain_blocks [simp]: "db_blocks (snd (on_chain f s)) = db_blocks s"
  by (simp add: on_chain_def split: prod.split)

lemma new_branch_blocks: "db_blocks (snd (UpdateChainOnNewBranch db h)) = db_blocks db"
  unfolding UpdateChainOnNewBranch_def
  by (intro kept_bindS[where P = "\<lambda>s. db_blocks s = db_blocks db"]) (auto intro!: kept_bindS[where P = "\<lambda>s. db_blocks s = db_blocks db"])

lemma blocks_same: "same_store d db \<Longrightarrow> blocks_are Q d = blocks_are Q db"
  by (simp add: blocks_are_def get_same)

lemma AddBlock_blocks:
  assumes "blocks_are Q db" and "Q (blk_Hash b) b"
  shows "blocks_are Q (snd (AddBlock db b))"
proof -
  have same: "db_blocks d = db_blocks s \<Longrightarrow> blocks_are Q s \<Longrightarrow> blocks_are Q d" for d s :: "'a node_db"
    by (simp add: blocks_are_def db_GetBlock_def)
  have put: "blocks_are Q d \<Longrightarrow> blocks_are Q (db_PutBlock d (blk_Hash b) b)" for d :: "'a node_db"
    using assms(2) by (auto simp: blocks_are_def db_GetBlock_put)
  have put_top: "blocks_are Q d \<Longrightarrow> blocks_are Q (SaveTopHash d h)" for d :: "'a node_db" and h
    by (auto simp: blocks_are_def db_GetBlock_put)
  have added: "blocks_are Q d \<Longrightarrow> blocks_are Q (snd (ignoreS (on_chain f d) (\<lambda>db. (Ok r, db))))"
    "blocks_are Q d \<Longrightarrow> blocks_are Q (snd (ignoreS (UpdateChainOnNewBranch d h) (\<lambda>db. (Ok r, db))))"
    for d :: "'a node_db" and f h and r :: add_state
    by (intro kept_ignoreS[where P = "blocks_are Q"]; simp add: same[of _ d] new_branch_blocks)+
  show ?thesis unfolding AddBlock_def Let_def
    by (intro kept_bindS[where P = "blocks_are Q"]) (auto simp: assms(1) intro!: added put_top put kept_bindS[where P = "blocks_are Q"])
qed

lemma nbc_AddBlock_blocks:
  assumes "blocks_are Q db" and "Q (blk_Hash b) b"
  shows "blocks_are Q (snd (nbc_AddBlock e cc b db))"
  unfolding nbc_AddBlock_def
  by (intro kept_bindS[where P = "blocks_are Q"])
    (use assms in \<open>auto simp: blocks_same[OF VerifyBlock_keeps[OF same_store_simps(1)]] intro!: AddBlock_blocks kept_bindS[where P = "blocks_are Q"]\<close>)

lemma heights_blocks: "heights_by H db = blocks_are (\<lambda>h b. blk_Height b = H h) db"
  by (simp add: heights_by_def blocks_are_def)

lemma heights_same: "same_store d db \<Longrightarrow> heights_by H d = heights_by H db"
  by (simp add: heights_by_def get_same)

lemma node_AddBlock_good:
  assumes good: "node_good n g H db" and b: "block_by n H b"
  shows "node_good n g H (snd (node_AddBlock e q i b db))"
proof -
  obtain hs where hs: "node_inv n g db hs" and h: "heights_by H db" using good by (auto simp: node_good_def)
  obtain r d where nb: "nbc_AddBlock e (qm_config q) b db = (r, d)" by fastforce
  have "heights_by H (snd (nbc_AddBlock e (qm_config q) b db))"
    using h b unfolding heights_blocks by (intro nbc_AddBlock_blocks) (simp_all add: block_by_def)
  moreover have "same_store (snd (node_AddBlock e q i b db)) d"
    using node_AddBlock_frame(1)[OF _ nb, of n hs i] hs by (simp add: node_inv_def)
  ultimately have "heights_by H (snd (node_AddBlock e q i b db))" using heights_same[of "snd (node_AddBlock e q i b db)" d H] nb by simp
  then show ?thesis using node_AddBlock_inv[OF hs block_by_shape[OF h b]] by (auto simp: node_good_def)
qed

lemma ignoreS_eq_Ok: "ignoreS r f = (Ok y, t) \<longleftrightarrow> (\<exists>x s. (r = (Ok x, s) \<or> (\<exists>e. r = (Err e, s))) \<and> f s = (Ok y, t))"
  by (cases r; cases "fst r") auto

lemma AddBlock_fresh:
  assumes "AddBlock db b = (Ok st, d)" and "db_GetBlock db (blk_Hash b) = None" and "db_GetBlock db (blk_PrevBlockHash b) \<noteq> None"
  shows "st \<in> {BCBAddState_addedToTop, BCBAddState_addedToParallelTop, BCBAddState_addedToParallel}"
  using assms by (auto simp: AddBlock_def res_simps Let_def ignoreS_eq_Ok split: if_splits)

text \<open>A block that was received and found new is stored under its hash once it was added without an error.\<close>

definition is_stored :: "'m node_db \<Rightarrow> bytes \<Rightarrow> bool" where
  "is_stored db h \<longleftrightarrow> h \<noteq> topKey \<and> (\<exists>b. db_GetBlock db h = Some (BlockData b))"

lemma is_stored_keeps: "keeps_blocks db db' \<Longrightarrow> is_stored db h \<Longrightarrow> is_stored db' h"
  unfolding keeps_blocks_def is_stored_def by metis

lemma received_block_stored:
  assumes good: "node_good n g H db" and dec: "\<And>b. decoded = Ok b \<Longrightarrow> block_by n H b"
    and r: "ReceivedFullBlockFromOtherNode e q i decoded db = (Ok (0, st, b), db')"
  shows "is_stored db' (blk_Hash b)"
proof -
  obtain hs where hs: "node_inv n g db hs" and h: "heights_by H db" using good by (auto simp: node_good_def)
  then have si: "store_inv n db hs" by (simp add: node_inv_def)
  obtain a where a: "decoded = Ok b" "CheckBlockState db (blk_Hash b) (blk_PrevBlockHash b) = Ok 0"
    "node_AddBlock e q i b db = (Ok a, db')"
    using r by (auto simp: ReceivedFullBlockFromOtherNode_def res_simps split: if_splits)
  have b: "block_by n H b" using dec a(1) by blast
  then have key: "length (blk_Hash b) \<noteq> 1" "blk_Hash b \<noteq> topKey" using store_invD(2)[OF si] topKey_len by (auto simp: block_by_def)
  obtain hs' where done': "block_done n db hs b a db' hs'"
    using node_AddBlock_main[OF si block_by_shape[OF h b], of e q i] a(3) by auto
  show ?thesis
  proof (cases "db_GetBlock db (blk_Hash b)")
    case (Some v)
    then obtain x where "v = BlockData x" using store_invD(8)[OF si] key(1) by (cases v) auto
    then have "is_stored db (blk_Hash b)" using Some key(2) by (simp add: is_stored_def)
    then show ?thesis using done' is_stored_keeps by (auto simp: block_done_def)
  next
    case None
    obtain x d where nb: "nbc_AddBlock e (qm_config q) b db = (x, d)" by fastforce
    then have x: "x = Ok a" using node_AddBlock_frame(2)[OF si nb, of i a] a(3) by simp
    obtain v d1 where v: "VerifyBlock e (qm_config q) b TXFlagsSkipSQLBaseCheckIfNotOnTop db = (v, d1)" by fastforce
    then have d1: "same_store d1 db" using VerifyBlock_keeps[of db db e "qm_config q" b TXFlagsSkipSQLBaseCheckIfNotOnTop] by simp
    have "AddBlock d1 b = (Ok a, d)" using nb x a(2) v by (cases v) (simp_all add: nbc_AddBlock_def)
    moreover have "db_GetBlock d1 (blk_Hash b) = None \<and> db_GetBlock d1 (blk_PrevBlockHash b) \<noteq> None"
      using a(2) None store_invD(1)[OF si]
      by (auto simp: CheckBlockState_def CheckBlockExists_def get_same[OF d1] db_CheckBlockExists_def split: if_splits option.splits)
    ultimately have "a \<in> {BCBAddState_addedToTop, BCBAddState_addedToParallelTop, BCBAddState_addedToParallel}"
      using AddBlock_fresh by blast
    then show ?thesis using done' key(2) by (auto simp: block_done_def is_stored_def)
  qed
qed

section \<open>Sending leaves the database as it is\<close>

lemma on_client_db [simp]: "nd_db (snd (on_client f s)) = nd_db s"
  by (simp add: on_client_def split: prod.split)

lemma on_db_db [simp]: "nd_db (snd (on_db f s)) = snd (f (nd_db s))" "fst (on_db f s) = fst (f (nd_db s))"
  by (simp_all add: on_db_def split: prod.split)

lemma hooked_db [simp]: "nd_db (snd (hooked i r)) = nd_db (snd r)"
  unfolding hooked_def by (intro kept_bindS[where P = "\<lambda>s. nd_db s = nd_db (snd r)"]) auto

lemma for_others_db: "(\<And>i node s. nd_db (snd (f i node s)) = nd_db s) \<Longrightarrow> nd_db (snd (for_others f s)) = nd_db s"
  unfolding for_others_def by (rule kept_forS[where P = "\<lambda>t. nd_db t = nd_db s"]) auto

lemma ignored_db: "nd_db (snd (ignoreS r (\<lambda>s. (x, s)))) = nd_db (snd r)"
  by (cases r; cases "fst r") auto

lemma send_if_missing_db: "nd_db (snd (send_if_missing e b d i node s)) = nd_db s"
proof -
  obtain r t where r: "on_client (SendCheckBlock (nv_net e) node d) s = (r, t)" by fastforce
  then have t: "nd_db t = nd_db s" using on_client_db[of _ s] by (metis snd_conv)
  show ?thesis unfolding send_if_missing_def r Let_def prod.case
    by (rule kept_bindS[where P = "\<lambda>x. nd_db x = nd_db s"]) (auto simp: t ignored_db)
qed

lemma sends_db [simp]:
  "nd_db (snd (sendVersionToNodes e nodes h s)) = nd_db s" "nd_db (snd (sendTransactionToAll e tx s)) = nd_db s"
  "nd_db (snd (SendBlockToAll e b a s)) = nd_db s" "nd_db (snd (SendVersionToNodes e nodes s)) = nd_db s"
proof -
  show v: "nd_db (snd (sendVersionToNodes e nodes h s)) = nd_db s" for h
    unfolding sendVersionToNodes_def Let_def by (rule kept_forS[where P = "\<lambda>t. nd_db t = nd_db s"]) (auto simp: ignored_db)
  show "nd_db (snd (sendTransactionToAll e tx s)) = nd_db s"
    by (simp add: sendTransactionToAll_def sendTransactionToAllASync_def sendTransactionToAllSync_def Let_def for_others_db)
  show "nd_db (snd (SendBlockToAll e b a s)) = nd_db s"
    by (simp add: SendBlockToAll_def SendBlockToAllASync_def SendBlockToAllSync_def Let_def for_others_db send_if_missing_db)
  show "nd_db (snd (SendVersionToNodes e nodes s)) = nd_db s"
    by (simp add: SendVersionToNodes_def v split: res.split)
qed

lemma checkAddressKnown_db [simp]: "nd_db (snd (checkAddressKnown e a c s)) = nd_db s"
  unfolding checkAddressKnown_def
  by (rule kept_bindS[where P = "\<lambda>t. nd_db t = nd_db s"])
    (auto intro!: kept_ignoreS[where P = "\<lambda>t. nd_db t = nd_db s"])

lemma known_db [simp]:
  "nd_db (snd (CheckAddressKnown e a s)) = nd_db s" "nd_db (snd (node_AddNodeToKnown e a v s)) = nd_db s"
  by (auto simp: CheckAddressKnown_def node_AddNodeToKnown_def intro!: kept_bindS[where P = "\<lambda>t. nd_db t = nd_db s"])

lemma processNodes_db [simp]: "nd_db (snd (processNodesFromPoolOnOtherNode e nodes added s)) = nd_db s"
proof (induction nodes arbitrary: added s)
  case (Cons ns nodes)
  show ?case unfolding processNodesFromPoolOnOtherNode.simps Let_def
    by (rule kept_bindS[where P = "\<lambda>t. nd_db t = nd_db s"]) (simp_all add: Cons)
qed simp

lemma ReceivedBlock_db [simp]: "nd_db (snd (ReceivedBlockFromOtherNode e a d s)) = nd_db s"
  unfolding ReceivedBlockFromOtherNode_def
  by (intro kept_bindS[where P = "\<lambda>t. nd_db t = nd_db s"]) (auto simp: ignored_db intro!: kept_bindS[where P = "\<lambda>t. nd_db t = nd_db s"])

lemma Clone_db [simp]: "nd_db (Clone_node s) = nd_db s"
  by (simp add: Clone_node_def InitNodes_def)

section \<open>A property of the store is kept\<close>

locale store_property =
  fixes P :: "'m node_db \<Rightarrow> bool" and shaped :: "block \<Rightarrow> bool" and q :: "'k query_manager"
  assumes same: "same_store d db \<Longrightarrow> P db \<Longrightarrow> P d"
    and added: "P db \<Longrightarrow> shaped b \<Longrightarrow> P (snd (node_AddBlock e q i b db))"
begin

lemma received:
  assumes "P db" and "\<And>b. decoded = Ok b \<Longrightarrow> shaped b"
  shows "P (snd (ReceivedFullBlockFromOtherNode e q i decoded db))"
proof (cases decoded)
  case (Ok b)
  show ?thesis unfolding ReceivedFullBlockFromOtherNode_def Ok bindS.simps
    by (rule kept_bindS[where P = P]) (use assms Ok in \<open>auto intro!: kept_bindS[where P = P] added\<close>)
qed (use assms in \<open>simp_all add: ReceivedFullBlockFromOtherNode_def\<close>)

lemma GetIfExists_same: "same_store (snd (txm_GetIfExists txid d)) d"
  by (auto simp: txm_GetIfExists_def Let_def intro!: keeps)

lemma pool_tables: "P d \<Longrightarrow> P (snd (txm_GetIfExists txid d))" "P d \<Longrightarrow> P (snd (AddTransactionToPool e cc tx fl d))"
  using same[OF GetIfExists_same] same[OF AddTransactionToPool_keeps[OF same_store_simps(1)]] by simp_all

lemma process_transactions_keeps:
  "nv_qm e = q \<Longrightarrow> P (nd_db s) \<Longrightarrow> P (nd_db (snd (process_transactions e node txs acc s)))"
proof (induction txs arbitrary: acc s)
  case (Cons txID txs)
  note k = kept_try_step[where P = "\<lambda>s. P (nd_db s)"]
  show ?case unfolding process_transactions.simps Let_def
    by (intro k) (auto simp: Cons pool_tables intro!: k)
qed simp

lemma process_blocks_keeps:
  assumes e: "nv_qm e = q" "\<And>d b. nv_unblock e d = Ok b \<Longrightarrow> shaped b"
  shows "P (nd_db s) \<Longrightarrow> P (nd_db (snd (process_blocks e node blocks acc s)))"
proof (induction blocks arbitrary: acc s)
  case (Cons d blocks)
  note k = kept_try_step[where P = "\<lambda>s. P (nd_db s)"]
  show ?case unfolding process_blocks.simps Let_def
    by (intro k) (auto simp: Cons e split: prod.split intro!: k received)
qed simp

lemma pullUpdates_keeps:
  assumes e: "nv_qm e = q" "\<And>d b. nv_unblock e d = Ok b \<Longrightarrow> shaped b" and "P (nd_db s)"
  shows "P (nd_db (snd (pullUpdatesFromNode e node t tops h s)))"
proof -
  note k = kept_bindS[where P = "\<lambda>s. P (nd_db s)"]
  obtain r s' where r: "on_client (SendGetUpdates (nv_net e) node t h tops) s = (r, s')" by fastforce
  then have "nd_db s' = nd_db s" using on_client_db[of _ s] by (metis snd_conv)
  then have s': "P (nd_db s')" using assms(3) by simp
  show ?thesis unfolding pullUpdatesFromNode_def r Let_def prod.case
    by (cases r) (auto simp: s' processBlocksFromOtherNode_def processTransactionsFromPoolOnOtherNode_def
      process_blocks_keeps[OF e] process_transactions_keeps[OF e(1)] intro!: k)
qed

lemma pull_from_nodes_keeps:
  assumes e: "nv_qm e = q" "\<And>d b. nv_unblock e d = Ok b \<Longrightarrow> shaped b"
  shows "P (nd_db s) \<Longrightarrow> P (nd_db (snd (pull_from_nodes e t tops h nodes acc s)))"
proof (induction nodes arbitrary: acc s)
  case (Cons node nodes)
  then show ?case by (auto intro!: kept_try_step[where P = "\<lambda>s. P (nd_db s)"] pullUpdates_keeps[OF e])
qed simp

lemma CheckForChanges_keeps:
  assumes "nv_qm e = q" "\<And>d b. nv_unblock e d = Ok b \<Longrightarrow> shaped b" and "P (nd_db s)"
  shows "P (nd_db (snd (CheckForChangesOnOtherNodes e rng t s)))"
  unfolding CheckForChangesOnOtherNodes_def Let_def
  by (rule kept_bindS[where P = "\<lambda>s. P (nd_db s)"]) (use assms in \<open>auto intro!: pull_from_nodes_keeps\<close>)

end

section \<open>What is merged\<close>

interpretation ids: keyed_list "\<lambda>x :: bytes. x" "(=)"
  by unfold_locales simp

lemma add_missing_foldl:
  "add_missing same xs ys = foldl (\<lambda>l y. if \<exists>x\<in>set l. same y x then l else l @ [y]) xs ys"
  by (induction ys arbitrary: xs) simp_all

lemma merge_ids_set: "set (ids_of (merge_ids p r)) = set (ids_of p) \<union> set (ids_of r)"
  using ids.add_all by (auto simp: merge_ids_def ids_of_def add_missing_foldl split: option.split)

lemma merge_ids_distinct: "distinct (ids_of p) \<Longrightarrow> distinct (ids_of r) \<Longrightarrow> distinct (ids_of (merge_ids p r))"
  using ids.add_all by (auto simp: merge_ids_def ids_of_def add_missing_foldl split: option.split)

text \<open>Changes stand for three sets: of transactions, of blocks, of nodes by their keys.\<close>

definition pulled :: "changes_pull_results \<Rightarrow> bytes set \<times> bytes set \<times> (string \<times> int) set" where
  "pulled p = (set (ids_of (pr_AddedTransactions p)), set (ids_of (pr_AddedBlocks p)), addr_key ` set (pr_AddedNodes p))"

definition no_duplicates :: "changes_pull_results \<Rightarrow> bool" where
  "no_duplicates p \<longleftrightarrow>
     distinct (ids_of (pr_AddedTransactions p)) \<and> distinct (ids_of (pr_AddedBlocks p)) \<and>
     distinct (map addr_key (pr_AddedNodes p))"

definition union3 :: "'a set \<times> 'b set \<times> 'c set \<Rightarrow> 'a set \<times> 'b set \<times> 'c set \<Rightarrow> 'a set \<times> 'b set \<times> 'c set" where
  "union3 x y = (fst x \<union> fst y, fst (snd x) \<union> fst (snd y), snd (snd x) \<union> snd (snd y))"

lemma mergeResults_refines:
  "pulled (mergeResults p r) = union3 (pulled p) (pulled r) \<and>
   (no_duplicates p \<and> no_duplicates r \<longrightarrow> no_duplicates (mergeResults p r)) \<and>
   (AnyChangesPulled p \<longleftrightarrow> pulled p \<noteq> ({}, {}, {}))"
  using addrs.add_all[of "pr_AddedNodes p" "pr_AddedNodes r"]
  by (auto simp: pulled_def union3_def no_duplicates_def mergeResults_def merge_ids_set merge_ids_distinct add_missing_foldl
      AnyChangesPulled_def)

section \<open>Pulled blocks are stored\<close>

interpretation good: store_property "\<lambda>db :: 'm node_db. node_good n g H db \<and> keeps_blocks db0 db" "block_by n H" "q :: 'k query_manager"
  for n g H db0 q
proof
  fix d db :: "'m node_db"
  assume s: "same_store d db" and k: "node_good n g H db \<and> keeps_blocks db0 db"
  then show "node_good n g H d \<and> keeps_blocks db0 d"
    using node_inv_same[OF s] heights_same[OF s] keeps_blocks_same(3)[OF s] by (simp add: node_good_def)
next
  fix db :: "'m node_db" and b e i
  assume k: "node_good n g H db \<and> keeps_blocks db0 db" and b: "block_by n H b"
  then obtain hs where hs: "node_inv n g db hs" "heights_by H db" by (auto simp: node_good_def)
  then obtain r db' where r: "node_AddBlock e q i b db = (r, db')" "keeps_blocks db db'"
    using node_AddBlock_main[OF _ block_by_shape[OF hs(2) b], of hs e q i] by (auto simp: node_inv_def)
  have "keeps_blocks db0 db'" using k r(2) by (auto simp: keeps_blocks_def)
  then show "node_good n g H (snd (node_AddBlock e q i b db)) \<and> keeps_blocks db0 (snd (node_AddBlock e q i b db))"
    using node_AddBlock_good[of n g H db b e q i] k b r(1) by simp
qed

text \<open>What holds of the result and of the state when a step ends without an error.\<close>

definition ends :: "('a \<Rightarrow> 's \<Rightarrow> bool) \<Rightarrow> 'a res \<times> 's \<Rightarrow> bool" where
  "ends Q r \<longleftrightarrow> (\<forall>y s. r = (Ok y, s) \<longrightarrow> Q y s)"

lemma ends_try_step:
  assumes "J (snd r)" and "\<And>s. J s \<Longrightarrow> ends Q (skip s)" and "\<And>x s. r = (Ok x, s) \<Longrightarrow> J s \<Longrightarrow> ends Q (f x s)"
  shows "ends Q (try_step r skip f)"
  using assms by (cases r; cases "fst r") (auto simp: try_step_def ends_def)

lemma ends_bindS:
  assumes "J (snd r)" and "\<And>x s. r = (Ok x, s) \<Longrightarrow> J s \<Longrightarrow> ends Q (f x s)"
  shows "ends Q (bindS r f)"
  using assms by (cases r; cases "fst r") (auto simp: ends_def)

lemma on_client_pair: "on_client f s = (r, t) \<Longrightarrow> nd_db t = nd_db s"
  using on_client_db[of f s] by simp

definition good_with :: "nat \<Rightarrow> bytes \<Rightarrow> (bytes \<Rightarrow> int) \<Rightarrow> bytes list \<Rightarrow> 'm node_state \<Rightarrow> bool" where
  "good_with n g H acc s \<longleftrightarrow> node_good n g H (nd_db s) \<and> (\<forall>h\<in>set acc. is_stored (nd_db s) h)"

lemma received_stored:
  assumes e: "peers_shape n H e" and s: "good_with n g H acc s"
    and r: "on_db (ReceivedFullBlockFromOtherNode ev (nv_qm e) i (nv_unblock e x)) s = (r, t)"
  shows "good_with n g H acc t" "r = Ok (0, st, b) \<Longrightarrow> good_with n g H (acc @ [blk_Hash b]) t"
proof -
  have dec: "\<And>b. nv_unblock e x = Ok b \<Longrightarrow> block_by n H b" using e by (simp add: peers_shape_def)
  have t: "ReceivedFullBlockFromOtherNode ev (nv_qm e) i (nv_unblock e x) (nd_db s) = (r, nd_db t)"
    using r by (auto simp: on_db_def split: prod.splits)
  then have k: "node_good n g H (nd_db t) \<and> keeps_blocks (nd_db s) (nd_db t)"
    using good.received[of n g H "nd_db s" "nd_db s" "nv_unblock e x" ev "nv_qm e" i] s dec by (simp add: good_with_def)
  then show k': "good_with n g H acc t" using s is_stored_keeps by (auto simp: good_with_def)
  show "r = Ok (0, st, b) \<Longrightarrow> good_with n g H (acc @ [blk_Hash b]) t"
    using received_block_stored[of n g H "nd_db s" "nv_unblock e x"] dec t s k' by (auto simp: good_with_def)
qed

lemma good_client: "good_with n g H acc s \<Longrightarrow> good_with n g H acc (snd (on_client f s))"
  by (simp add: good_with_def)

lemma ends_if: "(c \<Longrightarrow> ends Q x) \<Longrightarrow> (\<not> c \<Longrightarrow> ends Q y) \<Longrightarrow> ends Q (if c then x else y)"
  by simp

lemma process_blocks_stored:
  assumes e: "peers_shape n H e"
  shows "good_with n g H acc s \<Longrightarrow> ends (good_with n g H) (process_blocks e node blocks acc s)"
proof (induction blocks arbitrary: acc s)
  case (Cons d blocks)
  note k = ends_try_step[where J = "good_with n g H acc"]
  have asked: "ends (good_with n g H)
      (try_step (on_db (ReceivedFullBlockFromOtherNode (env_at e t) (nv_qm e) (sign_at e t) (nv_unblock e x)) t)
         (process_blocks e node blocks acc) (\<lambda>(blockstate, _, block) u.
            process_blocks e node blocks (if blockstate = 0 then acc @ [blk_Hash block] else acc) u))"
    if t: "good_with n g H acc t" for t x
  proof (rule k)
    let ?r = "on_db (ReceivedFullBlockFromOtherNode (env_at e t) (nv_qm e) (sign_at e t) (nv_unblock e x)) t"
    show "good_with n g H acc (snd ?r)" by (rule received_stored(1)[OF e t]) (rule prod.collapse[symmetric])
    fix y u assume r: "?r = (Ok y, u)" and u: "good_with n g H acc u"
    obtain bs st b where y: "y = (bs, st, b)" by (metis prod_cases3)
    have "good_with n g H (if bs = 0 then acc @ [blk_Hash b] else acc) u"
      using received_stored(2)[OF e t r] u y by simp
    then show "ends (good_with n g H) ((\<lambda>(blockstate, _, block) u.
        process_blocks e node blocks (if blockstate = 0 then acc @ [blk_Hash block] else acc) u) y u)"
      unfolding y prod.case by (rule Cons.IH)
  qed (rule Cons.IH)
  show ?case unfolding process_blocks.simps Let_def
    by (rule k, simp add: Cons.prems, erule Cons.IH, rule k, simp, erule Cons.IH, intro ends_if)
      (simp add: ends_def, rule k, erule good_client, erule Cons.IH, erule asked, erule Cons.IH)
qed (simp add: ends_def)

lemma good_with_more:
  "good_with n g H acc s \<Longrightarrow> node_good n g H (nd_db t) \<and> keeps_blocks (nd_db s) (nd_db t) \<Longrightarrow> good_with n g H acc t"
  using is_stored_keeps by (auto simp: good_with_def)

lemma pull_stored:
  assumes e: "peers_shape n H e" and s: "node_good n g H (nd_db s)"
  shows "ends (\<lambda>nr. good_with n g H (ids_of (pr_AddedBlocks nr))) (pullUpdatesFromNode e node t tops h s)"
proof -
  let ?Q = "\<lambda>nr. good_with n g H (ids_of (pr_AddedBlocks nr))"
  obtain r s' where r: "on_client (SendGetUpdates (nv_net e) node t h tops) s = (r, s')" by fastforce
  have s': "good_with n g H [] s'" using s on_client_pair[OF r] by (simp add: good_with_def)
  show ?thesis
  proof (cases r)
    case (Ok x)
    have rest: "ends ?Q (bindS (processBlocksFromOtherNode e node (ru_Blocks x) s') (\<lambda>blocks s.
           bindS (processTransactionsFromPoolOnOtherNode e node (ru_TransactionsInPool x) s) (\<lambda>txs s.
           bindS (processNodesFromPoolOnOtherNode e (ru_Nodes x) [] s) (\<lambda>nodes s.
             (Ok \<lparr>pr_AddedTransactions = txs, pr_AddedBlocks = blocks, pr_AddedNodes = nodes\<rparr>, s)))))"
    proof (rule ends_bindS[where J = "\<lambda>_. True"])
      fix blocks u assume b: "processBlocksFromOtherNode e node (ru_Blocks x) s' = (Ok blocks, u)"
      have u: "good_with n g H (ids_of blocks) u"
      proof (cases "ru_Blocks x = []")
        case True
        then show ?thesis using b s' by (auto simp: processBlocksFromOtherNode_def ids_of_def)
      next
        case False
        then show ?thesis using b process_blocks_stored[OF e s', of node "rev (ru_Blocks x)"]
          by (auto simp: processBlocksFromOtherNode_def ids_of_def ends_def res_simps)
      qed
      let ?r = "processTransactionsFromPoolOnOtherNode e node (ru_TransactionsInPool x) u"
      have "node_good n g H (nd_db (snd ?r)) \<and> keeps_blocks (nd_db u) (nd_db (snd ?r))"
        unfolding processTransactionsFromPoolOnOtherNode_def
        by (cases "length (ru_TransactionsInPool x) = 0", simp, use u in \<open>simp add: good_with_def\<close>, simp only: if_False, intro kept_bindS[where P = "\<lambda>s. node_good n g H (nd_db s) \<and> keeps_blocks (nd_db u) (nd_db s)"]
            good.process_transactions_keeps[OF refl]) (use u in \<open>simp_all add: good_with_def\<close>)
      then have v: "good_with n g H (ids_of blocks) (snd ?r)" by (rule good_with_more[OF u])
      show "ends ?Q (bindS ?r (\<lambda>txs s. bindS (processNodesFromPoolOnOtherNode e (ru_Nodes x) [] s) (\<lambda>nodes s.
             (Ok \<lparr>pr_AddedTransactions = txs, pr_AddedBlocks = blocks, pr_AddedNodes = nodes\<rparr>, s))))"
        by (rule ends_bindS, rule v, rule ends_bindS[where J = "good_with n g H (ids_of blocks)"])
          (simp_all add: good_with_def ends_def)
    qed simp
    show ?thesis unfolding pullUpdatesFromNode_def r Let_def prod.case Ok res.case bindS.simps by (rule rest)
  next
    case (Err er)
    show ?thesis unfolding pullUpdatesFromNode_def r Let_def prod.case Err res.case
      by (rule ends_bindS[where J = "\<lambda>_. True"]) (simp_all add: ends_def)
  qed (simp_all add: pullUpdatesFromNode_def r ends_def)
qed

lemma pull_from_nodes_stored:
  assumes e: "peers_shape n H e"
  shows "good_with n g H (ids_of (pr_AddedBlocks acc)) s \<Longrightarrow>
    ends (\<lambda>nr. good_with n g H (ids_of (pr_AddedBlocks nr))) (pull_from_nodes e t tops h nodes acc s)"
proof (induction nodes arbitrary: acc s)
  case (Cons node nodes)
  let ?r = "pullUpdatesFromNode e node t tops h s"
  have g: "node_good n g H (nd_db s)" using Cons.prems by (simp add: good_with_def)
  have dec: "\<And>d b. nv_unblock e d = Ok b \<Longrightarrow> block_by n H b" using e by (simp add: peers_shape_def)
  have k: "good_with n g H (ids_of (pr_AddedBlocks acc)) (snd ?r)"
    by (rule good_with_more[OF Cons.prems good.pullUpdates_keeps[OF refl dec]]) (simp_all add: g)
  have "ends (\<lambda>nr. good_with n g H (ids_of (pr_AddedBlocks nr)))
    (try_step ?r (pull_from_nodes e t tops h nodes acc) (\<lambda>nr s. pull_from_nodes e t tops h nodes (mergeResults acc nr) s))"
  proof (rule ends_try_step[where J = "good_with n g H (ids_of (pr_AddedBlocks acc))"], rule k, erule Cons.IH)
    fix nr u assume r: "?r = (Ok nr, u)" and u: "good_with n g H (ids_of (pr_AddedBlocks acc)) u"
    have "good_with n g H (ids_of (pr_AddedBlocks nr)) u" using pull_stored[OF e g] r by (auto simp: ends_def)
    then have "good_with n g H (ids_of (pr_AddedBlocks (mergeResults acc nr))) u"
      using u by (auto simp: good_with_def mergeResults_def merge_ids_set)
    then show "ends (\<lambda>nr. good_with n g H (ids_of (pr_AddedBlocks nr))) (pull_from_nodes e t tops h nodes (mergeResults acc nr) u)"
      by (rule Cons.IH)
  qed
  then show ?case using Cons by simp
qed (simp add: ends_def)

text \<open>
  Whatever other nodes answer, the store of the node stays a chain of stored blocks with the same first block, no
  block is lost, and every block that is reported as added is stored.
\<close>


section \<open>A block of the node's own\<close>

lemma pow_loop_hash: "pow_loop fuel cr tg pre nonce h0 = Ok (k, h) \<Longrightarrow> h = h0 \<or> (\<exists>x. h = sha256 cr x)"
proof (induction fuel arbitrary: nonce h0)
  case 0
  then show ?case by (simp add: pow_loop.simps split: if_splits)
next
  case (Suc fuel)
  show ?case using Suc.prems by (subst (asm) pow_loop.simps) (auto simp: Let_def split: if_splits dest!: Suc.IH)
qed

lemma Run_hash: "Run fuel cr pow = Ok (k, h) \<Longrightarrow> \<exists>x. h = sha256 cr x"
proof -
  assume "Run fuel cr pow = Ok (k, h)"
  then obtain pre where r: "pow_loop fuel cr (pow_target pow) pre 0 (zeros 32) = Ok (k, h)"
    by (auto simp: Run_def res_simps split: res.splits)
  then obtain n where "fuel = Suc n" by (cases fuel) (auto simp: pow_loop.simps maxNonce_def)
  with r show ?thesis
    by (subst (asm) pow_loop.simps) (auto simp: Let_def maxNonce_def split: if_splits dest!: pow_loop_hash)
qed

lemma CompleteBlock_shape:
  assumes "CompleteBlock cr fuel bm = Ok (b, bm')"
  shows "\<exists>b0 x. bm_PreparedBlock bm = Some b0 \<and> blk_PrevBlockHash b = blk_PrevBlockHash b0 \<and>
    blk_Height b = blk_Height b0 \<and> blk_Hash b = sha256 cr x"
  using assms by (auto simp: CompleteBlock_def res_simps Let_def split: option.splits elim!: errR.elims dest!: Run_hash)

text \<open>The blocks that a node makes of its pool, from this state on.\<close>

definition first_maker :: "('k, 'm) node_env \<Rightarrow> node_block_maker" where
  "first_maker e = \<lparr>bm_MinterAddress = nv_minter e, bm_PreparedBlock = None, bm_config = qm_config (nv_qm e)\<rparr>"

definition makes_only :: "(block \<Rightarrow> bool) \<Rightarrow> ('k, 'm) node_env \<Rightarrow> 'm node_state \<Rightarrow> bool" where
  "makes_only shaped e s \<longleftrightarrow>
     (\<forall>bm d b bm'. ValidateAddress (te_crypto (env_at e s)) (nv_minter e) \<longrightarrow> nv_minter e \<noteq> [] \<longrightarrow>
        bm_PrepareNewBlock (env_at e s) (nv_random e) (first_maker e) (nd_db s) = (Ok (BlockPrepare_Done, bm), d) \<longrightarrow>
        CompleteBlock (te_crypto (env_at e s)) (nv_nonces e) bm = Ok (b, bm') \<longrightarrow> shaped b)"

text \<open>A callback that only takes note of the transactions of the new block.\<close>

definition quiet :: "(bytes list \<Rightarrow> 'm node_state \<Rightarrow> 'm node_state) option \<Rightarrow> bool" where
  "quiet callback \<longleftrightarrow> (\<forall>f l s. callback = Some f \<longrightarrow> nd_db (f l s) = nd_db s \<and> nd_client (f l s) = nd_client s)"

lemma kept_bindS_result:
  "P (snd r) \<Longrightarrow> (\<And>x s. r = (Ok x, s) \<Longrightarrow> P s \<Longrightarrow> P (snd (f x s))) \<Longrightarrow> P (snd (bindS r f))"
  by (cases r; cases "fst r") auto

lemma env_at_db [simp]: "env_at e (s\<lparr>nd_db := d\<rparr>) = env_at e s" "sign_at e (s\<lparr>nd_db := d\<rparr>) = sign_at e s"
  by (simp_all add: env_at_def sign_at_def nd_time_def)

lemma ends_ignored: "Q x (snd r) \<Longrightarrow> ends Q (ignoreS r (\<lambda>s. (Ok x, s)))"
  by (cases r; cases "fst r") (auto simp: ends_def)

text \<open>The two ways in which \<^verbatim>\<open>TryToMakeBlock\<close> ends: without a block, or with one that was completed and added.\<close>

lemma TryToMakeBlock_cases:
  assumes run: "TryToMakeBlock e callback txid s = (r, s')" and q: "quiet callback"
  obtains (none) d where "same_store d (nd_db s)" "nd_db s' = d" "\<And>h. r \<noteq> Ok (Some h)"
    | (made) bm d b bm' a where "ValidateAddress (te_crypto (env_at e s)) (nv_minter e)" "nv_minter e \<noteq> []"
        "bm_PrepareNewBlock (env_at e s) (nv_random e) (first_maker e) (nd_db s) = (Ok (BlockPrepare_Done, bm), d)"
        "CompleteBlock (te_crypto (env_at e s)) (nv_nonces e) bm = Ok (b, bm')"
        "node_AddBlock (env_at e s) (nv_qm e) (sign_at e s) b d = (a, nd_db s')"
        "\<And>h. r = Ok (Some h) \<Longrightarrow> h = blk_Hash b \<and> (\<exists>st. a = Ok st)"
proof (cases "nv_minter e = [] \<or> \<not> ValidateAddress (te_crypto (env_at e s)) (nv_minter e)")
  case True
  have "r = Err (ErrNew ''Minter address is not provided'')" "s' = s"
    using run unfolding TryToMakeBlock_def if_P[OF True] by simp_all
  then show ?thesis by (intro none[of "nd_db s"]) simp_all
next
  case False
  obtain x d where p: "bm_PrepareNewBlock (env_at e s) (nv_random e) (first_maker e) (nd_db s) = (x, d)" by fastforce
  then have d: "same_store d (nd_db s)"
    using PrepareNewBlock_keeps[OF same_store_simps(1), of "env_at e s" "nv_random e" "first_maker e" "nd_db s"] by simp
  obtain s1 where s1: "s1 = s\<lparr>nd_db := d\<rparr>" by simp
  have od: "on_db (bm_PrepareNewBlock (env_at e s) (nv_random e) (first_maker e)) s = (x, s1)" using p s1 by (simp add: on_db_def)
  have eq: "TryToMakeBlock e callback txid s = bindS (x, s1) (\<lambda>(prepres, bm) s.
           if prepres \<noteq> BlockPrepare_Done then
             (if length txid > 1 then
                try_step (on_db (GetIfUnapprovedExists txid) s) (\<lambda>s. (Ok None, s)) (\<lambda>tx s.
                  case tx of None \<Rightarrow> (Ok None, s) | Some tx \<Rightarrow> ignoreS (sendTransactionToAll e tx s) (\<lambda>s. (Ok None, s)))
              else (Ok None, s))
           else finish_block e callback bm s)"
    unfolding TryToMakeBlock_def if_not_P[OF False] Let_def first_maker_def[symmetric] od by (rule refl)
  show ?thesis
  proof (cases "\<exists>bm. x = Ok (BlockPrepare_Done, bm)")
    case no: False
    have same: "same_store (nd_db (snd (TryToMakeBlock e callback txid s))) (nd_db s)" unfolding eq
      by (rule kept_bindS_result[where P = "\<lambda>u. same_store (nd_db u) (nd_db s)"])
        (use d no s1 in \<open>auto simp: GetIfUnapprovedExists_def Let_def split: option.split
          intro!: kept_try_step[where P = "\<lambda>u. same_store (nd_db u) (nd_db s)"] kept_ignoreS[where P = "\<lambda>u. same_store (nd_db u) (nd_db s)"]\<close>)
    have "ends (\<lambda>y _. y = None) (TryToMakeBlock e callback txid s)" unfolding eq
      by (rule ends_bindS[where J = "\<lambda>_. True"])
        (use no in \<open>auto simp: ends_def[of _ "(Ok _, _)"] ends_ignored split: option.split intro!: ends_try_step[where J = "\<lambda>_. True"]\<close>)
    then show ?thesis using none[OF _ refl] same run by (auto simp: ends_def)
  next
    case True
    then obtain bm where x: "x = Ok (BlockPrepare_Done, bm)" by blast
    have eq2: "TryToMakeBlock e callback txid s = finish_block e callback bm s1" unfolding eq x by simp
    show ?thesis
    proof (cases "GetPreparedBlockTransactionsIDs bm")
      case (Ok ids)
      obtain s2 where s2: "s2 = (case callback of None \<Rightarrow> s1 | Some f \<Rightarrow> f ids s1)" by simp
      have k: "nd_db s2 = d" "env_at e s2 = env_at e s" "sign_at e s2 = sign_at e s"
        using q s2 s1 by (auto simp: quiet_def env_at_def sign_at_def nd_time_def split: option.split)
      show ?thesis
      proof (cases "CompleteBlock (te_crypto (env_at e s)) (nv_nonces e) bm")
        case done': (Ok y)
        obtain b bm' where y: "y = (b, bm')" by fastforce
        obtain a d' where a: "node_AddBlock (env_at e s) (nv_qm e) (sign_at e s) b d = (a, d')" by fastforce
        obtain s3 where s3: "s3 = s2\<lparr>nd_db := d'\<rparr>" by simp
        have od3: "on_db (node_AddBlock (env_at e s) (nv_qm e) (sign_at e s) b) s2 = (a, s3)" using a k s3 by (simp add: on_db_def)
        have f: "(r, s') = bindS (a, s3) (\<lambda>_ s. ignoreS (SendBlockToAll e b emptyNodeAddr s) (\<lambda>s. (Ok (Some (blk_Hash b)), s)))"
          using run unfolding eq2 finish_block_def Ok bindS.simps Let_def s2[symmetric] k done' y prod.case od3 by simp
        have "nd_db (snd (r, s')) = d'" unfolding f
          by (rule kept_bindS[where P = "\<lambda>u. nd_db u = d'"]) (simp_all add: s3 ignored_db)
        moreover have "h = blk_Hash b \<and> (\<exists>st. a = Ok st)" if "r = Ok (Some h)" for h
          using f[symmetric] that by (cases a) (simp_all add: ignoreS_eq_Ok)
        ultimately show ?thesis using made[OF _ _ p[unfolded x] done'[unfolded y], of a] a False by simp
      qed (use run none[of d] d k in \<open>auto simp: eq2 finish_block_def Ok Let_def s2[symmetric]\<close>)
    qed (use run none[of d] d s1 in \<open>auto simp: eq2 finish_block_def\<close>)
  qed
qed

context store_property
begin

lemma TryToMakeBlock_keeps:
  assumes "P (nd_db s)" and "nv_qm e = q" and "quiet callback" and m: "makes_only shaped e s"
  shows "P (nd_db (snd (TryToMakeBlock e callback txid s)))"
proof -
  obtain r s' where run: "TryToMakeBlock e callback txid s = (r, s')" by fastforce
  show ?thesis
  proof (cases rule: TryToMakeBlock_cases[OF run assms(3)])
    case (1 d)
    then show ?thesis using run same[OF 1(1) assms(1)] by simp
  next
    case (2 bm d b bm' a)
    have "same_store d (nd_db s)"
      using PrepareNewBlock_keeps[OF same_store_simps(1), of "env_at e s" "nv_random e" "first_maker e" "nd_db s"] 2(3) by simp
    then have "P d" using same assms(1) by blast
    moreover have "shaped b" using m 2(1-4) unfolding makes_only_def by blast
    ultimately have "P (snd (node_AddBlock (env_at e s) q (sign_at e s) b d))" by (rule added)
    then show ?thesis using run 2(5) assms(2) by simp
  qed
qed

end

text \<open>A block that is completed has the shape of blocks, so it is added to the top or to a branch.\<close>

lemma own_block_main:
  assumes inv: "node_inv n g (nd_db s) hs"
    and hash: "\<forall>x. length (sha256 (te_crypto (env_at e s)) x) = n \<and> sha256 (te_crypto (env_at e s)) x \<noteq> zeros n"
    and height: "\<forall>h b. db_GetBlock (nd_db s) h = Some (BlockData b) \<longrightarrow> 0 \<le> blk_Height b \<and> blk_Height b < 2 ^ 63 - 1"
    and q: "quiet callback" and run: "TryToMakeBlock e callback txid s = (r, s')"
  shows "\<exists>hs'. node_inv n g (nd_db s') hs' \<and> keeps_blocks (nd_db s) (nd_db s') \<and>
    (\<forall>h. r = Ok (Some h) \<longrightarrow>
       (\<exists>b st. h = blk_Hash b \<and> blk_PrevBlockHash b = List.last hs \<and> block_done n (nd_db s) hs b st (nd_db s') hs'))"
proof (cases rule: TryToMakeBlock_cases[OF run q])
  case (1 d)
  then show ?thesis using inv node_inv_same[OF 1(1)] keeps_blocks_same(1)[OF 1(1)] by auto
next
  case (2 bm d b bm' a)
  have d: "same_store d (nd_db s)"
    using PrepareNewBlock_keeps[OF same_store_simps(1), of "env_at e s" "nv_random e" "first_maker e" "nd_db s"] 2(3) by simp
  have inv': "node_inv n g d hs" using inv node_inv_same[OF d] by simp
  then have si: "store_inv n d hs" by (simp add: node_inv_def)
  obtain t where t: "GetState d = Ok (List.last hs, blk_Height t)" "db_GetBlock d (List.last hs) = Some (BlockData t)"
    by (rule GetState_store[OF si])
  obtain b0 x where b0: "bm_PreparedBlock bm = Some b0" "blk_PrevBlockHash b = blk_PrevBlockHash b0"
    "blk_Height b = blk_Height b0" "blk_Hash b = sha256 (te_crypto (env_at e s)) x"
    using CompleteBlock_shape[OF 2(4)] by blast
  have pb: "blk_PrevBlockHash b0 = List.last hs" "blk_Height b0 = wrap64 (blk_Height t + 1)"
    using PrepareNewBlock_main[OF 2(3)] b0(1) t(1) by auto
  have "0 \<le> blk_Height t" "blk_Height t < 2 ^ 63 - 1" using height t(2) get_same[OF d] by auto
  then have h: "blk_Height b = blk_Height t + 1" using pb b0 by (simp add: wrap64_id in64_def)
  have "length (List.last hs) = n" using store_invD(7)[OF si t(2)] by (simp add: block_ok_def)
  then have sh: "block_shape n d b" using hash b0(4) b0(2) pb(1) h t(2) by (auto simp: block_shape_def)
  obtain hs' where hs': "store_inv n (nd_db s') hs'" "keeps_blocks d (nd_db s')"
    "\<And>st. a = Ok st \<Longrightarrow> block_done n d hs b st (nd_db s') hs'"
    using node_AddBlock_main[OF si sh, of "env_at e s" "nv_qm e" "sign_at e s"] 2(5) by auto
  have "node_inv n g (nd_db s') hs'" by (rule node_inv_kept[OF inv' hs'(1,2)])
  moreover have "keeps_blocks (nd_db s) (nd_db s')" using hs'(2) keeps_blocks_same(2)[OF d] by simp
  moreover have "block_done n (nd_db s) hs b st (nd_db s') hs'" if "a = Ok st" for st
    using hs'(3)[OF that] keeps_blocks_same(2)[OF d] by (simp add: block_done_def)
  ultimately show ?thesis using 2(6) b0(2) pb(1) by (intro exI[of _ hs'] conjI allI impI) (assumption, assumption, metis)
qed

text \<open>
  The node's own block: it is built on the top of the chain, and when \<^verbatim>\<open>TryToMakeBlock\<close> reports it, it is stored and
  the main chain grew by it, moved to a branch that ends with it, or, when a block of that hash was there already,
  stayed as it was. Whatever happens the invariant of the node and all stored blocks are kept. Hashes are assumed to
  have \<open>n\<close> bytes that are not all zero, and heights not to have reached the largest number.
\<close>

text \<open>
  C5: TryToMakeBlock keeps the invariant of the node and all stored blocks whatever happens; a block
  that it reports was built on the top of the chain, is stored, and the main chain grew by it, moved
  to a branch that ends with it, or stayed as it was, as the answer of adding it says.
\<close>

lemma own_block_added:
  assumes inv: "node_inv n g (nd_db s) hs"
    and hash: "\<forall>x. length (sha256 (te_crypto (env_at e s)) x) = n \<and> sha256 (te_crypto (env_at e s)) x \<noteq> zeros n"
    and height: "\<forall>h b. db_GetBlock (nd_db s) h = Some (BlockData b) \<longrightarrow> 0 \<le> blk_Height b \<and> blk_Height b < 2 ^ 63 - 1"
    and q: "quiet callback" and run: "TryToMakeBlock e callback txid s = (r, s')"
  shows "\<exists>hs'. node_inv n g (nd_db s') hs' \<and> keeps_blocks (nd_db s) (nd_db s') \<and>
    (\<forall>h. r = Ok (Some h) \<longrightarrow>
       (\<exists>b st. h = blk_Hash b \<and> blk_PrevBlockHash b = List.last hs \<and> block_done n (nd_db s) hs b st (nd_db s') hs'))"
  by (rule own_block_main[OF inv hash height q run])

end
