(* ===== verification/Proxy_Filter.thy ===== *)
theory Proxy_Filter
  imports Proxy_Codec Node_Machine
begin

text \<open>
  The proxy in front of the MySQL server at work: \<^verbatim>\<open>server/queryfilter.go\<close>, which asks the query manager about
  every query and keeps the transaction of a session until the server has answered, and the two packet parsers of
  \<^verbatim>\<open>dbproxy/mysqlproxy.go\<close>, which call it. Chunks of a connection come one at a time, in the order in which
  the two goroutines of a connection get to run; each is one call of \<^verbatim>\<open>Write\<close>. \<open>errtext\<close> is the text of an error.
  The theory shows what reaches the server, and that transactions of failed queries are forgotten.
\<close>

section \<open>The query filter\<close>

text \<open>
  The channel of the block maker holds up to 100 transaction ids; an id that does not fit is dropped.
\<close>

definition blockBuilderBuffer :: nat where "blockBuilderBuffer = 100"

definition bmk_NewTransaction :: "bytes \<Rightarrow> bytes list \<Rightarrow> bytes list" where
  "bmk_NewTransaction tx chan = (if length chan < blockBuilderBuffer then chan @ [tx] else chan)"

definition bmk_DoNewBlock :: "bytes list \<Rightarrow> bytes list" where
  "bmk_DoNewBlock chan = bmk_NewTransaction [1] chan"

record 'm query_filter =
  qf_db :: "'m node_db"
  qf_sessionTransactions :: "(string \<times> transaction) list"
  qf_blockBilderChan :: "bytes list"

datatype custom_action =
    CustomError string "16 word"
  | CustomRows "(string \<times> string) list"
  | CustomQuery string

definition RequestCallback ::
  "(err \<Rightarrow> string) \<Rightarrow> ('k, 'm) txm_env \<Rightarrow> 'k query_manager \<Rightarrow> nat \<Rightarrow> string \<Rightarrow> string \<Rightarrow> 'm query_filter
     \<Rightarrow> (custom_action option \<times> err option) res \<times> 'm query_filter" where
  "RequestCallback errtext e q i query sessionID s =
     (let (r, db) = NewQueryFromProxy e q i query (qf_db s)
      in bindS (r, s\<lparr>qf_db := db\<rparr>) (\<lambda>result s.
           case fp_Error result of
             Some er \<Rightarrow>
               (if fp_ErrorCode result > 0
                then (Ok (Some (CustomError (errtext er) (word_of_nat (fp_ErrorCode result))), None), s)
                else (Ok (None, Some er), s))
           | None \<Rightarrow>
               if fp_Status result = 2 then
                 (Ok (Some (CustomRows [(''Transaction'', hex_EncodeToString (fp_TXData result)),
                                        (''StringToSign'', hex_EncodeToString (fp_StringToSign result))]), None), s)
               else
                 let s = (case fp_TX result of
                            None \<Rightarrow> s
                          | Some tx \<Rightarrow> s\<lparr>qf_sessionTransactions := tput (qf_sessionTransactions s) sessionID tx\<rparr>)
                 in if fp_Status result = 3 then (Ok (None, None), s)
                    else (Ok (Some (CustomQuery (fp_ReplaceQuery result)), None), s)))"

text \<open>An error of adding to the pool is only logged; the block maker is told about the transaction in any case.\<close>

definition ResponseCallback ::
  "('k, 'm) txm_env \<Rightarrow> 'k query_manager \<Rightarrow> string \<Rightarrow> string option \<Rightarrow> 'm query_filter \<Rightarrow> unit res \<times> 'm query_filter" where
  "ResponseCallback e q sessionID er s =
     (case tget (qf_sessionTransactions s) sessionID of
        None \<Rightarrow> (Ok (), s)
      | Some tx \<Rightarrow>
          if er \<noteq> None then (Ok (), s\<lparr>qf_sessionTransactions := tdel (qf_sessionTransactions s) sessionID\<rparr>)
          else
            let (r, db) = ReceivedNewTransaction e q tx TXFlagsVerifyAllowMissedForDelete (qf_db s)
            in ignoreS (r, s\<lparr>qf_db := db\<rparr>) (\<lambda>s.
                 (Ok (), s\<lparr>qf_blockBilderChan := bmk_NewTransaction (tx_ID tx) (qf_blockBilderChan s),
                           qf_sessionTransactions := tdel (qf_sessionTransactions s) sessionID\<rparr>)))"

section \<open>The two sides of a connection\<close>

text \<open>What was written to the server and to the client, in order, is part of the state.\<close>

record 'm proxy_conn =
  pc_sessionID :: string
  pc_requestInitial :: bool
  pc_responseInitial :: bool
  pc_protocol :: protocol_info
  pc_filter :: "'m query_filter"
  pc_server :: "bytes list"
  pc_client :: "bytes list"

definition on_filter ::
  "('m query_filter \<Rightarrow> 'a res \<times> 'm query_filter) \<Rightarrow> 'm proxy_conn \<Rightarrow> 'a res \<times> 'm proxy_conn" where
  "on_filter f s = (let (r, qf) = f (pc_filter s) in (r, s\<lparr>pc_filter := qf\<rparr>))"

definition parseHandshake :: "bytes \<Rightarrow> 'm proxy_conn \<Rightarrow> 'm proxy_conn" where
  "parseHandshake packet s =
     (case decodeHandshakeV10 packet of
        Ok h \<Rightarrow> s\<lparr>pc_protocol := (pc_protocol s)\<lparr>pi_serverInfo := Some h\<rparr>\<rparr> | _ \<Rightarrow> s)"

definition parseHandshakeClientResponse :: "bytes \<Rightarrow> 'm proxy_conn \<Rightarrow> 'm proxy_conn" where
  "parseHandshakeClientResponse packet s =
     (case decodeHandshakeResponse41 packet of
        Ok h \<Rightarrow> s\<lparr>pc_protocol := (pc_protocol s)\<lparr>pi_clientInfo := Some h\<rparr>\<rparr> | _ \<Rightarrow> s)"

definition to_server :: "bytes \<Rightarrow> 'm proxy_conn \<Rightarrow> unit res \<times> 'm proxy_conn" where
  "to_server p s = (Ok (), s\<lparr>pc_server := pc_server s @ [p]\<rparr>)"

definition to_client :: "bytes \<Rightarrow> 'm proxy_conn \<Rightarrow> unit res \<times> 'm proxy_conn" where
  "to_client p s = (Ok (), s\<lparr>pc_client := pc_client s @ [p]\<rparr>)"

text \<open>
  \<^verbatim>\<open>requestPacketParser.Write\<close>, with a filter and no callback function. The case of \<^verbatim>\<open>comStmtPrepare\<close> has no
  statements and does not fall through. When the filter returns an error, the message is taken from the named
  result \<^verbatim>\<open>err\<close>, which is \<open>nil\<close>.
\<close>

definition request_Write ::
  "(err \<Rightarrow> string) \<Rightarrow> ('k, 'm) txm_env \<Rightarrow> 'k query_manager \<Rightarrow> nat \<Rightarrow> bytes \<Rightarrow> 'm proxy_conn \<Rightarrow> unit res \<times> 'm proxy_conn" where
  "request_Write errtext e q i p s =
     bindS (getPacketType p, s) (\<lambda>t s.
       let s = (if \<not> pc_requestInitial s then (parseHandshakeClientResponse p s)\<lparr>pc_requestInitial := True\<rparr> else s)
       in bindS
            (if t = comQuery then
               (case decodeQueryRequest p of
                  Ok sql \<Rightarrow> on_filter (RequestCallback errtext e q i sql (pc_sessionID s)) s
                | _ \<Rightarrow> (Ok (None, None), s))
             else (Ok (None, None), s)) (\<lambda>(customResponse, clientErr) s.
          if clientErr \<noteq> None then (Panic, s)
          else
            case customResponse of
              None \<Rightarrow> to_server p s
            | Some (CustomError m c) \<Rightarrow> to_client (customResponseError_getPacket m c) s
            | Some (CustomRows rows) \<Rightarrow>
                bindS (customResponseRows_getPacket (Some (pc_protocol s)) rows, s) (\<lambda>packet s. to_client packet s)
            | Some (CustomQuery sql) \<Rightarrow>
                bindS (customResponseReplaceQuery_getPacket p sql, s) (\<lambda>packet s. to_server packet s)))"

text \<open>\<^verbatim>\<open>responsePacketParser.Write\<close>; a message that is too short to decode is the empty text.\<close>

definition response_Write ::
  "('k, 'm) txm_env \<Rightarrow> 'k query_manager \<Rightarrow> bytes \<Rightarrow> 'm proxy_conn \<Rightarrow> unit res \<times> 'm proxy_conn" where
  "response_Write e q p s =
     bindS (getPacketType p, s) (\<lambda>t s.
     bindS
       (if t = responseErr then
          on_filter (ResponseCallback e q (pc_sessionID s)
            (Some (case decodeErrResponse p of Ok d \<Rightarrow> d | _ \<Rightarrow> ''''))) s
        else
          bindS (on_filter (ResponseCallback e q (pc_sessionID s) None) s) (\<lambda>_ s.
            (Ok (), if \<not> pc_responseInitial s then (parseHandshake p s)\<lparr>pc_responseInitial := True\<rparr> else s)))
       (\<lambda>_ s. to_client p s))"

section \<open>What reaches the server\<close>

lemma NewQueryFromProxy_status:
  assumes "NewQueryFromProxy e q i sql db = (Ok r, db')"
  shows "fp_Error r = None \<and> fp_Status r \<in> {1, 2, 3} \<or> fp_Error r \<noteq> None \<and> fp_ErrorCode r > 0"
  using assms
  by (auto simp: NewQueryFromProxy_def proxy_result_def no_proxy_result_def res_simps
      split: prod.splits res.splits if_splits)

lemma RequestCallback_cases:
  assumes "RequestCallback errtext e q i sql sid s = (Ok (a, ce), s')"
  obtains (pass) qp d where "ce = None" "a = None" "ParseQuery (te_sql e) (qf_db s) sql 0 = (Ok qp, d)"
      "\<not> checkQueryNeedsTransaction (qm_config q) qp"
    | (replace) tx where "ce = None" "a = Some (CustomQuery (GetSQLQuery tx))"
      "tget (qf_sessionTransactions s') sid = Some tx" "pool_accepts e (qm_config q) tx TXFlagsNoPool"
    | (answer) x where "ce = None" "a = Some x" "\<And>y. x \<noteq> CustomQuery y"
proof -
  obtain r db where r: "NewQueryFromProxy e q i sql (qf_db s) = (r, db)" by fastforce
  then obtain f where f: "r = Ok f" using assms by (cases r) (auto simp: RequestCallback_def)
  note st = NewQueryFromProxy_status[OF r[unfolded f]]
  note main = NewQueryFromProxy_main[OF r[unfolded f]]
  show ?thesis
  proof (cases "fp_Error f")
    case (Some er)
    then have "ce = None" "a = Some (CustomError (errtext er) (word_of_nat (fp_ErrorCode f)))"
      using assms st r f by (auto simp: RequestCallback_def)
    then show ?thesis using answer by blast
  next
    case None
    then consider "fp_Status f = 1" | "fp_Status f = 2" | "fp_Status f = 3" using st by auto
    then show ?thesis
    proof cases
      case 1
      then obtain tx where "fp_TX f = Some tx" "fp_ReplaceQuery f = GetSQLQuery tx"
        "pool_accepts e (qm_config q) tx TXFlagsNoPool" using main by blast
      moreover from this 1 have "ce = None" "a = Some (CustomQuery (GetSQLQuery tx))"
        "tget (qf_sessionTransactions s') sid = Some tx"
        using assms r f None by (auto simp: RequestCallback_def Let_def table_simps)
      ultimately show ?thesis using replace by blast
    next
      case 2
      then have "ce = None" "\<exists>rows. a = Some (CustomRows rows)"
        using assms r f None by (auto simp: RequestCallback_def)
      then show ?thesis using answer by blast
    next
      case 3
      then have "ce = None" "a = None" using assms r f None by (auto simp: RequestCallback_def Let_def)
      then show ?thesis using 3 main pass by blast
    qed
  qed
qed

lemma parse_keeps [simp]:
  "pc_sessionID (parseHandshakeClientResponse p s) = pc_sessionID s"
  "pc_filter (parseHandshakeClientResponse p s) = pc_filter s"
  "pc_server (parseHandshakeClientResponse p s) = pc_server s"
  "pc_client (parseHandshakeClientResponse p s) = pc_client s"
  "pc_requestInitial (parseHandshakeClientResponse p s) = pc_requestInitial s"
  by (auto simp: parseHandshakeClientResponse_def split: res.split)

lemma replaced_bytes:
  "customResponseReplaceQuery_getPacket p sql = Ok out \<Longrightarrow> drop 5 out = bytes_of_string sql \<and> out ! 4 = p ! 4"
  by (auto simp: customResponseReplaceQuery_getPacket_def Let_def nth_append split: if_splits)


text \<open>
  C31: A statement that a client prepares goes to the server as it is, whatever its query is and
  without asking the query manager: no transaction is made for it.
\<close>

lemma prepared_statement_unfiltered:
  assumes "5 \<le> length p" and "p ! 4 = comStmtPrepare"
  shows "\<exists>s'. request_Write errtext e q i p s = (Ok (), s') \<and> pc_server s' = pc_server s @ [p] \<and>
     pc_client s' = pc_client s \<and> pc_filter s' = pc_filter s"
proof -
  have "getPacketType p = Ok comStmtPrepare" "comStmtPrepare \<noteq> comQuery"
    using assms by (simp_all add: getPacketType_def index_def comStmtPrepare_def comQuery_def)
  then show ?thesis by (simp add: request_Write_def Let_def to_server_def)
qed

section \<open>What the answer of the server does\<close>

text \<open>
  C17: After a response of the server the session holds no transaction and the client has got the
  response; a transaction that the session held is given to the node and announced to the block
  maker exactly when the response is not an error, and the transactions of the other sessions stay.
\<close>

lemma response_settles_session:
  assumes run: "response_Write e q p s = (Ok (), s')" and tx: "tget (qf_sessionTransactions (pc_filter s)) (pc_sessionID s) = Some tx"
  shows "tget (qf_sessionTransactions (pc_filter s')) (pc_sessionID s) = None \<and>
     pc_client s' = pc_client s @ [p] \<and> pc_server s' = pc_server s \<and>
     (\<forall>k. k \<noteq> pc_sessionID s \<longrightarrow> tget (qf_sessionTransactions (pc_filter s')) k = tget (qf_sessionTransactions (pc_filter s)) k) \<and>
     (if p ! 4 = responseErr
      then qf_db (pc_filter s') = qf_db (pc_filter s) \<and> qf_blockBilderChan (pc_filter s') = qf_blockBilderChan (pc_filter s)
      else qf_db (pc_filter s') = snd (ReceivedNewTransaction e q tx TXFlagsVerifyAllowMissedForDelete (qf_db (pc_filter s))) \<and>
           qf_blockBilderChan (pc_filter s') = bmk_NewTransaction (tx_ID tx) (qf_blockBilderChan (pc_filter s)))"
proof -
  have h: "pc_filter (if c then (parseHandshake p x)\<lparr>pc_responseInitial := True\<rparr> else x) = pc_filter x"
    "pc_client (if c then (parseHandshake p x)\<lparr>pc_responseInitial := True\<rparr> else x) = pc_client x"
    "pc_server (if c then (parseHandshake p x)\<lparr>pc_responseInitial := True\<rparr> else x) = pc_server x" for c and x :: "'a proxy_conn"
    by (auto simp: parseHandshake_def split: res.split)
  have t: "getPacketType p = Ok (p ! 4)"
    using run by (auto simp: response_Write_def res_simps getPacketType_def index_def split: if_splits)
  show ?thesis
  proof (cases "p ! 4 = responseErr")
    case True
    then show ?thesis using run tx t
      by (auto simp: response_Write_def on_filter_def ResponseCallback_def to_client_def table_simps)
  next
    case False
    obtain r db where r: "ReceivedNewTransaction e q tx TXFlagsVerifyAllowMissedForDelete (qf_db (pc_filter s)) = (r, db)"
      by fastforce
    show ?thesis using run tx t False r
      by (cases r) (auto simp: response_Write_def on_filter_def ResponseCallback_def to_client_def table_simps h)
  qed
qed

text \<open>Without a transaction of the session a response only goes to the client.\<close>

lemma response_without_transaction:
  assumes "5 \<le> length p" and "tget (qf_sessionTransactions (pc_filter s)) (pc_sessionID s) = None"
  shows "\<exists>s'. response_Write e q p s = (Ok (), s') \<and> pc_filter s' = pc_filter s \<and> pc_client s' = pc_client s @ [p]"
  using assms
  by (auto simp: response_Write_def on_filter_def ResponseCallback_def to_client_def getPacketType_def index_def
    parseHandshake_def split: res.split)

section \<open>The store behind the proxy\<close>

lemma bindS_frame: "(\<And>x s. g (snd (f x s)) = g s) \<Longrightarrow> g (snd (bindS r f)) = g (snd r)"
  by (cases r; cases "fst r") auto

lemma send_frame [simp]: "pc_filter (snd (to_server p s)) = pc_filter s" "pc_filter (snd (to_client p s)) = pc_filter s"
  by (simp_all add: to_server_def to_client_def)

lemma RequestCallback_keeps: "same_store (qf_db (snd (RequestCallback errtext e q i sql sid f))) (qf_db f)"
proof -
  obtain r db where r: "NewQueryFromProxy e q i sql (qf_db f) = (r, db)" by fastforce
  then have "same_store db (qf_db f)" using NewQueryFromProxy_keeps[of "qf_db f" "qf_db f" e q i sql] by simp
  then show ?thesis using r by (cases r) (auto simp: RequestCallback_def Let_def split: option.split)
qed

lemma ResponseCallback_keeps: "same_store (qf_db (snd (ResponseCallback e q sid er f))) (qf_db f)"
proof (cases "tget (qf_sessionTransactions f) sid")
  case (Some tx)
  obtain r db where r: "ReceivedNewTransaction e q tx TXFlagsVerifyAllowMissedForDelete (qf_db f) = (r, db)" by fastforce
  then have "same_store db (qf_db f)"
    using received_keep(1)[of "qf_db f" "qf_db f" e q tx TXFlagsVerifyAllowMissedForDelete] by simp
  then show ?thesis using r Some by (cases r) (auto simp: ResponseCallback_def Let_def)
qed (simp add: ResponseCallback_def)

lemma request_filter:
  "pc_filter (snd (request_Write errtext e q i p s)) = pc_filter s \<or>
   (\<exists>sql. pc_filter (snd (request_Write errtext e q i p s)) = snd (RequestCallback errtext e q i sql (pc_sessionID s) (pc_filter s)))"
proof (cases "getPacketType p")
  case (Ok t)
  obtain s1 where s1: "s1 = (if \<not> pc_requestInitial s then (parseHandshakeClientResponse p s)\<lparr>pc_requestInitial := True\<rparr> else s)" by simp
  have same: "pc_filter s1 = pc_filter s" "pc_sessionID s1 = pc_sessionID s" by (simp_all add: s1)
  obtain m where m: "m = (if t = comQuery then
               (case decodeQueryRequest p of
                  Ok sql \<Rightarrow> on_filter (RequestCallback errtext e q i sql (pc_sessionID s1)) s1
                | _ \<Rightarrow> (Ok (None, None), s1))
             else (Ok (None, None), s1))" by simp
  have "pc_filter (snd (request_Write errtext e q i p s)) = pc_filter (snd m)"
    unfolding request_Write_def Ok bindS.simps Let_def s1[symmetric] m[symmetric]
    by (rule bindS_frame) (auto split: option.split custom_action.split simp: bindS_frame[of pc_filter] split_beta)
  moreover have "pc_filter (snd m) = pc_filter s \<or>
      (\<exists>sql. pc_filter (snd m) = snd (RequestCallback errtext e q i sql (pc_sessionID s) (pc_filter s)))"
    unfolding m same by (auto simp: on_filter_def same split: res.split prod.split) (metis snd_conv)
  ultimately show ?thesis by simp
qed (simp_all add: request_Write_def)

lemma response_filter:
  "pc_filter (snd (response_Write e q p s)) = pc_filter s \<or>
   (\<exists>er. pc_filter (snd (response_Write e q p s)) = snd (ResponseCallback e q (pc_sessionID s) er (pc_filter s)))"
proof (cases "getPacketType p")
  case (Ok t)
  obtain er where er: "er = (if t = responseErr then Some (case decodeErrResponse p of Ok d \<Rightarrow> d | _ \<Rightarrow> '''') else None)" by simp
  obtain r f where rf: "ResponseCallback e q (pc_sessionID s) er (pc_filter s) = (r, f)" by fastforce
  have "pc_filter (snd (response_Write e q p s)) = f"
    unfolding response_Write_def Ok bindS.simps
    by (subst bindS_frame) (use rf er in \<open>auto simp: on_filter_def parseHandshake_def bindS_frame[of pc_filter] split: res.split\<close>)
  then show ?thesis using rf by (metis snd_conv)
qed (simp_all add: response_Write_def)

text \<open>
  The proxy works on the database of the node: what it does keeps the invariant of a node's state, so the states
  of a node behind a proxy are reachable ones in the sense of the machine.
\<close>

lemma proxy_inv:
  assumes "node_inv n g (qf_db (pc_filter s)) hs"
  shows "node_inv n g (qf_db (pc_filter (snd (request_Write errtext e q i p s)))) hs"
    "node_inv n g (qf_db (pc_filter (snd (response_Write e q p s)))) hs"
proof -
  have "same_store (qf_db (pc_filter (snd (request_Write errtext e q i p s)))) (qf_db (pc_filter s))"
    using request_filter[of errtext e q i p s] RequestCallback_keeps by (metis same_store_simps(1))
  then show "node_inv n g (qf_db (pc_filter (snd (request_Write errtext e q i p s)))) hs"
    using assms by (simp add: node_inv_same)
  have "same_store (qf_db (pc_filter (snd (response_Write e q p s)))) (qf_db (pc_filter s))"
    using response_filter[of e q p s] ResponseCallback_keeps by (metis same_store_simps(1))
  then show "node_inv n g (qf_db (pc_filter (snd (response_Write e q p s)))) hs"
    using assms by (simp add: node_inv_same)
qed

end
