(* ===== verification/Server_Handlers.thy ===== *)
theory Server_Handlers
  imports Node_Peers Proxy_Filter
begin

text \<open>
  The server of a node at the level of requests: the handlers of \<^verbatim>\<open>server/handle.go\<close>, the choice of the handler and
  the answer in \<^verbatim>\<open>server/server.go\<close>. Each connection gets a clone of the node (\<open>sv_node\<close>), with a list of nodes
  of its own (\<open>sv_own\<close> is the list of the server) over the same database and the same storage of nodes; the blocks in
  transit, the channel of the block maker and the transactions it works on belong to the server. A request is one
  step. A clone and the server share the array of their lists until one of them grows; that counters of connections
  written by one are seen by the other is not modelled. The theory shows that no request breaks the store, that each
  one ends, and who gets an answer.
\<close>

section \<open>State and environment\<close>

record 'm server_state =
  sv_node :: "'m node_state"
  sv_own :: node_network
  sv_transit :: transit
  sv_MaxKnownHeigh :: int
  sv_chan :: "bytes list"
  sv_inProgress :: "bytes list"
  sv_HasResponse :: bool
  sv_Response :: "bytes option"

record ('k, 'm) server_env =
  sn_node :: "('k, 'm) node_env"
  sn_NodeAuthStr :: string
  sn_errtext :: "err \<Rightarrow> string"
  sn_marshal :: "consensus_config \<Rightarrow> bytes"

definition codec_of :: "('k, 'm) server_env \<Rightarrow> com_codec" where
  "codec_of e = ne_codec (nv_net (sn_node e))"

definition on_node :: "('m node_state \<Rightarrow> 'a res \<times> 'm node_state) \<Rightarrow> 'm server_state \<Rightarrow> 'a res \<times> 'm server_state" where
  "on_node f s = (let (r, n) = f (sv_node s) in (r, s\<lparr>sv_node := n\<rparr>))"

text \<open>An operation of the server's own node: same database, client and storage, but the server's list of nodes.\<close>

definition on_own :: "('m node_state \<Rightarrow> 'a res \<times> 'm node_state) \<Rightarrow> 'm server_state \<Rightarrow> 'a res \<times> 'm server_state" where
  "on_own f s =
     (let net = nd_net (sv_node s);
          (r, n) = f ((sv_node s)\<lparr>nd_net := (sv_own s)\<lparr>nn_Storage := nn_Storage net\<rparr>\<rparr>)
      in (r, s\<lparr>sv_own := nd_net n, sv_node := n\<lparr>nd_net := net\<lparr>nn_Storage := nn_Storage (nd_net n)\<rparr>\<rparr>\<rparr>))"

text \<open>The environment of an operation on the database and the counter of signatures, at this point.\<close>

definition env_of :: "('k, 'm) server_env \<Rightarrow> 'm server_state \<Rightarrow> ('k, 'm) txm_env" where
  "env_of e s = env_at (sn_node e) (sv_node s)"

definition sign_of :: "('k, 'm) server_env \<Rightarrow> 'm server_state \<Rightarrow> nat" where
  "sign_of e s = sign_at (sn_node e) (sv_node s)"

definition config_of :: "('k, 'm) server_env \<Rightarrow> consensus_config" where
  "config_of e = qm_config (nv_qm (sn_node e))"

definition db_of :: "'m server_state \<Rightarrow> 'm node_db" where
  "db_of s = nd_db (sv_node s)"

definition server_db :: "('m node_db \<Rightarrow> 'a res \<times> 'm node_db) \<Rightarrow> 'm server_state \<Rightarrow> 'a res \<times> 'm server_state" where
  "server_db f s = on_node (on_db f) s"

definition server_client :: "(client \<Rightarrow> 'a res \<times> client) \<Rightarrow> 'm server_state \<Rightarrow> 'a res \<times> 'm server_state" where
  "server_client f s = on_node (on_client f) s"

definition on_transit :: "(transit \<Rightarrow> 'a res \<times> transit) \<Rightarrow> 'm server_state \<Rightarrow> 'a res \<times> 'm server_state" where
  "on_transit f s = (let (r, t) = f (sv_transit s) in (r, s\<lparr>sv_transit := t\<rparr>))"

definition parseRequestData :: "(bytes \<Rightarrow> 'a res) \<Rightarrow> bytes \<Rightarrow> 'a res" where
  "parseRequestData dec request = errR ''Parse request'' (dec request)"

definition waits :: "'m server_state \<Rightarrow> 'm server_state" where
  "waits s = s\<lparr>sv_HasResponse := True\<rparr>"

definition respond :: "('k, 'm) server_env \<Rightarrow> com_response \<Rightarrow> 'm server_state \<Rightarrow> unit res \<times> 'm server_state" where
  "respond e result s = bindS (enc_response (codec_of e) result, s) (\<lambda>b s. (Ok (), s\<lparr>sv_Response := Some b\<rparr>))"

definition server_knows :: "('k, 'm) server_env \<Rightarrow> node_addr \<Rightarrow> 'm server_state \<Rightarrow> unit res \<times> 'm server_state" where
  "server_knows e addr s = bindS (on_node (CheckAddressKnown (sn_node e) addr) s) (\<lambda>_ s. (Ok (), s))"

definition server_NewTransaction :: "bytes \<Rightarrow> 'm server_state \<Rightarrow> 'm server_state" where
  "server_NewTransaction tx s = s\<lparr>sv_chan := bmk_NewTransaction tx (sv_chan s)\<rparr>"

definition DoNewBlock :: "'m server_state \<Rightarrow> 'm server_state" where
  "DoNewBlock s = server_NewTransaction [1] s"

section \<open>Wallets\<close>

definition handleGetUnspent :: "('k, 'm) server_env \<Rightarrow> bytes \<Rightarrow> 'm server_state \<Rightarrow> unit res \<times> 'm server_state" where
  "handleGetUnspent e request s =
     bindS (parseRequestData (dec_getunspent (codec_of e)) request, waits s) (\<lambda>payload s.
     bindS (GetTopBlockHash (db_of s), s) (\<lambda>lastBlock s.
     bindS (forEachUnspentOutput (te_crypto (env_of e s)) (db_of s) (cgu_Address payload), s) (\<lambda>outs s.
       respond e (ResponseUnspent
         \<lparr>cus_Transactions = map (\<lambda>(fromaddr, value, txID, output, isbase).
            \<lparr>cu_TXID = txID, cu_Vout = output, cu_Amount = value, cu_IsBase = isbase, cu_From = fromaddr\<rparr>) outs,
          cus_LastBlock = lastBlock\<rparr>) s)))"

definition handleGetHistory :: "('k, 'm) server_env \<Rightarrow> bytes \<Rightarrow> 'm server_state \<Rightarrow> unit res \<times> 'm server_state" where
  "handleGetHistory e request s =
     bindS (parseRequestData (dec_address (codec_of e)) request, waits s) (\<lambda>address s.
     bindS (nbc_GetAddressHistory (te_crypto (env_of e s)) (db_of s) address, s) (\<lambda>history s.
       respond e (ResponseHistory (map (\<lambda>t.
         \<lparr>ch_IOType = th_IOType t, ch_TXID = th_TXID t, ch_Amount = th_Value t,
          ch_From = (if th_IOType t then th_Address t else []), ch_To = (if th_IOType t then [] else th_Address t)\<rparr>) history)) s))"

definition handleGetBalance :: "('k, 'm) server_env \<Rightarrow> bytes \<Rightarrow> 'm server_state \<Rightarrow> unit res \<times> 'm server_state" where
  "handleGetBalance e request s =
     bindS (parseRequestData (dec_address (codec_of e)) request, waits s) (\<lambda>address s.
     bindS (server_db (txm_GetAddressBalance (txm_of (config_of e) (env_of e s)) address) s) (\<lambda>(whole, approved, pending) s.
       respond e (ResponseBalance \<lparr>cw_Total = whole, cw_Approved = approved, cw_Pending = pending\<rparr>) s))"

definition handleTxData :: "('k, 'm) server_env \<Rightarrow> bytes \<Rightarrow> 'm server_state \<Rightarrow> unit res \<times> 'm server_state" where
  "handleTxData e request s =
     bindS (parseRequestData (dec_newtxdata (codec_of e)) request, waits s) (\<lambda>payload s.
     bindS (let (r, s) = server_db (ReceivedNewCurrencyTransactionData (env_of e s) (nv_qm (sn_node e)) (cn_TX payload)
                                      (cn_Signature payload)) s
            in (errR ''Transaction accepting error'' r, s)) (\<lambda>tx s.
       respond e (ResponseTransactionID (tx_ID tx)) (server_NewTransaction (tx_ID tx) s)))"

definition handleTxCurRequest :: "('k, 'm) server_env \<Rightarrow> bytes \<Rightarrow> 'm server_state \<Rightarrow> unit res \<times> 'm server_state" where
  "handleTxCurRequest e request s =
     bindS (parseRequestData (dec_requesttx (codec_of e)) request, waits s) (\<lambda>payload s.
     bindS (server_db (PrepareNewCurrencyTransaction (txm_of (config_of e) (env_of e s)) (crt_PubKey payload) (crt_To payload)
              (crt_Amount payload)) s) (\<lambda>(txBytes, dataToSign) s.
       respond e (ResponseTransactionData \<lparr>crd_Finished = False, crd_TX = txBytes, crd_DataToSign = dataToSign\<rparr>) s))"

text \<open>The empty data of a finished transaction are overwritten by those of the query manager.\<close>

definition handleTxSQLRequest :: "('k, 'm) server_env \<Rightarrow> bytes \<Rightarrow> 'm server_state \<Rightarrow> unit res \<times> 'm server_state" where
  "handleTxSQLRequest e request s =
     bindS (parseRequestData (dec_requestsql (codec_of e)) request, waits s) (\<lambda>payload s.
     bindS (server_db (NewQuery (env_of e s) (nv_qm (sn_node e)) (sign_of e s) (crs_SQL payload) (crs_PubKey payload)) s) (\<lambda>r s.
       if pr_status r = ResultExecuted \<or> pr_status r = ResultTransactionCompleteInternally \<or> pr_status r = ResultSignatureRequired
       then respond e (ResponseTransactionData
              \<lparr>crd_Finished = (pr_status r \<noteq> ResultSignatureRequired), crd_TX = pr_txdata r,
               crd_DataToSign = pr_stringtosign r\<rparr>) s
       else (Err (ErrNew ''Unexpected response on tranaction preparing''), s)))"

section \<open>Data that other nodes ask for\<close>

definition handleGetTransaction :: "('k, 'm) server_env \<Rightarrow> bytes \<Rightarrow> 'm server_state \<Rightarrow> unit res \<times> 'm server_state" where
  "handleGetTransaction e request s =
     bindS (parseRequestData (dec_gettransaction (codec_of e)) request, waits s) (\<lambda>payload s.
     bindS (server_knows e (cgt_AddrFrom payload) s) (\<lambda>_ s.
     bindS (server_db (txm_GetIfExists (cgt_TransactionID payload)) s) (\<lambda>tx s.
       case tx of
         None \<Rightarrow> (Err (ErrNew ''Transaction not found in a pool''), s)
       | Some tx \<Rightarrow> respond e (ResponseGetTransaction (gob_tx (db_gob (db_of s)) tx)) s)))"

definition handleCheckBlock :: "('k, 'm) server_env \<Rightarrow> bytes \<Rightarrow> 'm server_state \<Rightarrow> unit res \<times> 'm server_state" where
  "handleCheckBlock e request s =
     bindS (parseRequestData (dec_checkblock (codec_of e)) request, waits s) (\<lambda>payload s.
     bindS (server_knows e (cck_AddrFrom payload) s) (\<lambda>_ s.
     bindS (nv_unshort (sn_node e) (cck_BlockHash payload), s) (\<lambda>bs s.
     bindS (CheckBlockState (db_of s) (bs_Hash bs) (bs_PrevBlockHash bs), s) (\<lambda>blockstate s.
       respond e (ResponseCheckBlock (blockstate \<noteq> 0)) s))))"

definition handleGetFirstBlocks :: "('k, 'm) server_env \<Rightarrow> 'm server_state \<Rightarrow> unit res \<times> 'm server_state" where
  "handleGetFirstBlocks e s =
     bindS (GetFirstBlocks (db_of s) 10, waits s) (\<lambda>(blocks, height) s.
       respond e (ResponseFirstBlocks
         \<lparr>cfb_Blocks = map (gob_block (db_gob (db_of s))) blocks, cfb_Height = height\<rparr>) s)"

definition handleGetConsensusData :: "('k, 'm) server_env \<Rightarrow> 'm server_state \<Rightarrow> unit res \<times> 'm server_state" where
  "handleGetConsensusData e s =
     (let appname = (if cfg_AppName (config_of e) = [] then ''UnnamedApp'' else cfg_AppName (config_of e))
      in bindS (Export (config_of e) ''own'' appname (NodeAddrToString (cl_NodeAddress (nd_client (sv_node s)))), waits s)
           (\<lambda>cc s. respond e (ResponseConsensusData (sn_marshal e cc)) s))"

definition handleGetBlock :: "('k, 'm) server_env \<Rightarrow> bytes \<Rightarrow> 'm server_state \<Rightarrow> unit res \<times> 'm server_state" where
  "handleGetBlock e request s =
     bindS (parseRequestData (dec_getblock (codec_of e)) request, waits s) (\<lambda>payload s.
     bindS (server_knows e (cgb_AddrFrom payload) s) (\<lambda>_ s.
     bindS (GetBlock (db_of s) (cgb_BlockHash payload), s) (\<lambda>b s.
       respond e (ResponseGetBlock (gob_block (db_gob (db_of s)) b)) s)))"

text \<open>Blocks are sent from the last of the list to its first. The error of sending is the error of the handler.\<close>

definition send_short_blocks ::
  "('k, 'm) server_env \<Rightarrow> node_addr \<Rightarrow> block_short list \<Rightarrow> 'm server_state \<Rightarrow> unit res \<times> 'm server_state" where
  "send_short_blocks e addr blocks s =
     bindS (server_knows e addr s) (\<lambda>_ s.
       server_client (SendInv (nv_net (sn_node e)) addr ''block'' (map (nv_short (sn_node e)) (rev blocks))) s)"

definition handleGetBlocks :: "('k, 'm) server_env \<Rightarrow> bytes \<Rightarrow> 'm server_state \<Rightarrow> unit res \<times> 'm server_state" where
  "handleGetBlocks e request s =
     bindS (parseRequestData (dec_getblocks (codec_of e)) request, s) (\<lambda>payload s.
     bindS (GetBlocksShortInfo (db_of s) (cgs_StartFrom payload) 1000, s) (\<lambda>blocks s.
       send_short_blocks e (cgs_AddrFrom payload) blocks s))"

definition handleGetBlocksUpper :: "('k, 'm) server_env \<Rightarrow> bytes \<Rightarrow> 'm server_state \<Rightarrow> unit res \<times> 'm server_state" where
  "handleGetBlocksUpper e request s =
     bindS (parseRequestData (dec_getblocks (codec_of e)) request, s) (\<lambda>payload s.
     bindS (GetBlocksAfter (db_of s) (cgs_StartFrom payload), s) (\<lambda>blocks s.
     bindS (case blocks of None \<Rightarrow> GetBlocksShortInfo (db_of s) [] 1000 | Some bs \<Rightarrow> Ok bs, s) (\<lambda>blocks s.
       send_short_blocks e (cgs_AddrFrom payload) blocks s)))"

definition handleGetData :: "('k, 'm) server_env \<Rightarrow> bytes \<Rightarrow> 'm server_state \<Rightarrow> unit res \<times> 'm server_state" where
  "handleGetData e request s =
     bindS (parseRequestData (dec_getdata (codec_of e)) request, s) (\<lambda>payload s.
     bindS
       (if cgd_Type payload = ''block'' then
          bindS (GetBlock (db_of s) (cgd_ID payload), s) (\<lambda>b s.
            ignoreS (server_client (SendBlock (nv_net (sn_node e)) (cgd_AddrFrom payload) (gob_block (db_gob (db_of s)) b)) s)
              (\<lambda>s. (Ok (), s)))
        else (Ok (), s)) (\<lambda>_ s.
     bindS
       (if cgd_Type payload = ''tx'' then
          try_step (server_db (GetIfUnapprovedExists (cgd_ID payload)) s) (\<lambda>s. (Ok (), s)) (\<lambda>txe s.
            case txe of
              None \<Rightarrow> (Ok (), s)
            | Some tx \<Rightarrow>
                ignoreS (server_client (SendTx (nv_net (sn_node e)) (cgd_AddrFrom payload) (gob_tx (db_gob (db_of s)) tx)) s)
                  (\<lambda>s. (Ok (), s)))
        else (Ok (), s)) (\<lambda>_ s.
       server_knows e (cgd_AddrFrom payload) s)))"

text \<open>At most 50 blocks (the code returns one more), made not long before the last check, and 1000 transactions.\<close>

definition handleGetUpdates :: "('k, 'm) server_env \<Rightarrow> bytes \<Rightarrow> 'm server_state \<Rightarrow> unit res \<times> 'm server_state" where
  "handleGetUpdates e request s =
     bindS (parseRequestData (dec_getupdates (codec_of e)) request, waits s) (\<lambda>payload s.
     bindS (GetBestHeight (db_of s), s) (\<lambda>height s.
     bindS (GetBlocksSince (db_of s) (cup_TopBlocks payload) (wrap64 (cup_LastCheckTime payload - 60 * 5)) 50, s) (\<lambda>blocks s.
     bindS (server_db GetUnapprovedCount s) (\<lambda>cnt s.
     bindS (server_db (GetUnapprovedTransactionsFiltered (env_of e s) (wrap64 (cup_LastCheckTime payload - 60 * 30)) 1000
              (sv_inProgress s)) s) (\<lambda>txs s.
       respond e (ResponseUpdates
         \<lparr>ru_CurrentBlockHeight = height, ru_CountTransactionsInPool = cnt,
          ru_Blocks = map (nv_short (sn_node e)) (rev blocks), ru_TransactionsInPool = txs,
          ru_Nodes = GetNodesToExport (nd_net (sv_node s))\<rparr>) s)))))"

section \<open>Blocks and transactions from other nodes\<close>

text \<open>What is done about the next block in transit: its state, after what is missing was asked for.\<close>

definition next_in_transit :: "('k, 'm) server_env \<Rightarrow> node_addr \<Rightarrow> 'm server_state \<Rightarrow> int res \<times> 'm server_state" where
  "next_in_transit e addrfrom s =
     bindS (on_transit (ShiftNextBlock addrfrom) s) (\<lambda>blockdata s.
     bindS (on_node (ReceivedBlockFromOtherNode (sn_node e) addrfrom blockdata) s) (\<lambda>blockstate s.
       if blockstate = 2 then
         bindS (on_transit (\<lambda>t. (Ok (), CleanBlocks addrfrom t)) s) (\<lambda>_ s.
         bindS (nv_unshort (sn_node e) blockdata, s) (\<lambda>bs s.
         ignoreS (server_client (SendGetBlocks (nv_net (sn_node e)) addrfrom (bs_PrevBlockHash bs)) s) (\<lambda>s. (Ok blockstate, s))))
       else (Ok blockstate, s)))"

lemma on_node_fields [simp]:
  "sv_transit (snd (on_node f s)) = sv_transit s" "sv_own (snd (on_node f s)) = sv_own s"
  "sv_chan (snd (on_node f s)) = sv_chan s" "sv_HasResponse (snd (on_node f s)) = sv_HasResponse s"
  "sv_Response (snd (on_node f s)) = sv_Response s" "sv_inProgress (snd (on_node f s)) = sv_inProgress s"
  "sv_MaxKnownHeigh (snd (on_node f s)) = sv_MaxKnownHeigh s"
  by (simp_all add: on_node_def split: prod.split)

lemma ShiftNextBlock_less: "ShiftNextBlock a t = (Ok b, t') \<Longrightarrow> GetBlocksCount a t' < GetBlocksCount a t"
  by (auto simp: ShiftNextBlock_def GetBlocksCount_def Let_def table_simps split: option.splits list.splits if_splits)

lemma CleanBlocks_count [simp]: "GetBlocksCount a (CleanBlocks a t) = 0"
  by (simp add: GetBlocksCount_def CleanBlocks_def table_simps)

lemma next_in_transit_ends:
  "ends (\<lambda>st t. GetBlocksCount a (sv_transit t) < GetBlocksCount a (sv_transit s)) (next_in_transit e a s)"
  unfolding next_in_transit_def
proof (rule ends_bindS[where J = "\<lambda>_. True"])
  fix b u assume "on_transit (ShiftNextBlock a) s = (Ok b, u)"
  then have u: "GetBlocksCount a (sv_transit u) < GetBlocksCount a (sv_transit s)"
    by (auto simp: on_transit_def ShiftNextBlock_less split: prod.splits)
  note k = ends_bindS[where J = "\<lambda>v. sv_transit v = CleanBlocks a (sv_transit u)"]
  let ?Q = "\<lambda>st t. GetBlocksCount a (sv_transit t) < GetBlocksCount a (sv_transit s)"
  show "ends ?Q (bindS (on_node (ReceivedBlockFromOtherNode (sn_node e) a b) u) (\<lambda>blockstate s.
       if blockstate = 2 then
         bindS (on_transit (\<lambda>t. (Ok (), CleanBlocks a t)) s) (\<lambda>_ s.
         bindS (nv_unshort (sn_node e) b, s) (\<lambda>bs s.
         ignoreS (server_client (SendGetBlocks (nv_net (sn_node e)) a (bs_PrevBlockHash bs)) s) (\<lambda>s. (Ok blockstate, s))))
       else (Ok blockstate, s)))"
    by (rule ends_bindS[where J = "\<lambda>v. sv_transit v = sv_transit u"], simp, intro ends_if k ends_ignored)
      (use u in \<open>simp_all add: on_transit_def server_client_def ends_def\<close>)
qed simp

lemma next_in_transit_less:
  "next_in_transit e a s = (Ok st, t) \<Longrightarrow> GetBlocksCount a (sv_transit t) < GetBlocksCount a (sv_transit s)"
  using next_in_transit_ends[of a s e] by (simp add: ends_def)

function transit_loop :: "('k, 'm) server_env \<Rightarrow> node_addr \<Rightarrow> 'm server_state \<Rightarrow> unit res \<times> 'm server_state" where
  "transit_loop e addrfrom s =
     bindS (next_in_transit e addrfrom s) (\<lambda>blockstate s.
       if blockstate = 0 then (Ok (), s)
       else if GetBlocksCount addrfrom (sv_transit s) = 0 then (Ok (), s)
       else transit_loop e addrfrom s)"
  by pat_completeness auto

termination
  by (relation "measure (\<lambda>(e, a, s). GetBlocksCount a (sv_transit s))") (simp_all add: next_in_transit_less)

declare transit_loop.simps [simp del]

definition handleBlock :: "('k, 'm) server_env \<Rightarrow> bytes \<Rightarrow> 'm server_state \<Rightarrow> unit res \<times> 'm server_state" where
  "handleBlock e request s =
     bindS (parseRequestData (dec_block (codec_of e)) request, s) (\<lambda>payload s.
     bindS (server_db (ReceivedFullBlockFromOtherNode (env_of e s) (nv_qm (sn_node e)) (sign_of e s)
              (nv_unblock (sn_node e) (cb_Block payload))) s) (\<lambda>(blockstate, addstate, block) s.
     bindS
       (if blockstate = 0 then
          ignoreS (on_node (SendBlockToAll (sn_node e) block (cb_AddrFrom payload)) s) (\<lambda>s. (Ok (), s))
        else (Ok (), s)) (\<lambda>_ s.
     bindS
       (if GetBlocksCount (cb_AddrFrom payload) (sv_transit s) > 0 then transit_loop e (cb_AddrFrom payload) s
        else (Ok (), s)) (\<lambda>_ s.
       let s = (if addstate = Some BCBAddState_addedToParallelTop then DoNewBlock s else s)
       in server_knows e (cb_AddrFrom payload) s))))"

text \<open>An inventory of blocks without a block, and one of transactions without a transaction, is a panic.\<close>

definition handleInv :: "('k, 'm) server_env \<Rightarrow> bytes \<Rightarrow> 'm server_state \<Rightarrow> unit res \<times> 'm server_state" where
  "handleInv e request s =
     bindS (parseRequestData (dec_inv (codec_of e)) request, s) (\<lambda>payload s.
     bindS
       (if ci_Type payload = ''block'' then
          bindS (on_transit (\<lambda>t. (Ok (), AddBlocks (ci_AddrFrom payload) (ci_Items payload) t)) s) (\<lambda>_ s.
            transit_loop e (ci_AddrFrom payload) s)
        else (Ok (), s)) (\<lambda>_ s.
     bindS
       (if ci_Type payload = ''tx'' then
          (case ci_Items payload of
             [] \<Rightarrow> (Panic, s)
           | txID # _ \<Rightarrow>
               try_step (server_db (txm_GetIfExists txID) s) (\<lambda>s. (Ok (), s)) (\<lambda>tx s.
                 if tx = None
                 then ignoreS (server_client (SendGetData (nv_net (sn_node e)) (ci_AddrFrom payload) ''tx'' txID) s) (\<lambda>s. (Ok (), s))
                 else (Ok (), s)))
        else (Ok (), s)) (\<lambda>_ s.
       server_knows e (ci_AddrFrom payload) s)))"

text \<open>A transaction that exists already ends the handler; one that cannot be looked up is taken as new.\<close>

definition handleTx :: "('k, 'm) server_env \<Rightarrow> bytes \<Rightarrow> 'm server_state \<Rightarrow> unit res \<times> 'm server_state" where
  "handleTx e request s =
     bindS (parseRequestData (dec_tx (codec_of e)) request, s) (\<lambda>payload s.
     bindS (gob_untx (db_gob (db_of s)) (ctx_Transaction payload), s) (\<lambda>tx s.
       let receive = (\<lambda>s. bindS (server_db (ReceivedNewTransaction (env_of e s) (nv_qm (sn_node e)) tx TXFlagsExecute) s)
                        (\<lambda>_ s. (Ok (), DoNewBlock s)))
       in try_step (server_db (txm_GetIfExists (tx_ID tx)) s) receive (\<lambda>txe s.
            if txe \<noteq> None then (Ok (), s) else receive s)))"

section \<open>Nodes\<close>

text \<open>New addresses go to the list of the server, and the version is sent by the node of the request.\<close>

fun add_addresses :: "node_addr list \<Rightarrow> node_addr list \<Rightarrow> 'm server_state \<Rightarrow> node_addr list res \<times> 'm server_state" where
  "add_addresses [] addednodes s = (Ok addednodes, s)"
| "add_addresses (node # nodes) addednodes s =
     bindS (on_own (\<lambda>n. let (isnew, net) = AddNodeToKnown node (nd_net n) in (Ok isnew, n\<lparr>nd_net := net\<rparr>)) s) (\<lambda>isnew s.
       add_addresses nodes (if isnew then addednodes @ [node] else addednodes) s)"

definition handleAddr :: "('k, 'm) server_env \<Rightarrow> bytes \<Rightarrow> 'm server_state \<Rightarrow> unit res \<times> 'm server_state" where
  "handleAddr e request s =
     bindS (parseRequestData (dec_addresses (codec_of e)) request, s) (\<lambda>payload s.
     bindS (server_knows e (ca_AddrFrom payload) s) (\<lambda>_ s.
     bindS (add_addresses (ca_Addresses payload) [] s) (\<lambda>addednodes s.
       if length addednodes > 0 then on_node (SendVersionToNodes (sn_node e) addednodes) s else (Ok (), s))))"

definition handleVersion :: "('k, 'm) server_env \<Rightarrow> string \<Rightarrow> bytes \<Rightarrow> 'm server_state \<Rightarrow> unit res \<times> 'm server_state" where
  "handleVersion e requestIP request s =
     bindS (parseRequestData (dec_version (codec_of e)) request, s) (\<lambda>payload s.
     bindS (GetState (db_of s), s) (\<lambda>(topHash, myBestHeight) s.
       let addr = cv_AddrFrom payload;
           addr = (if na_Host addr = ''localhost'' then addr\<lparr>na_Host := requestIP\<rparr> else addr);
           foreign = cv_BestHeight payload
       in bindS
            (if myBestHeight < foreign then
               let s = (if foreign > sv_MaxKnownHeigh s then s\<lparr>sv_MaxKnownHeigh := foreign\<rparr> else s)
               in ignoreS (server_client (SendGetBlocksUpper (nv_net (sn_node e)) addr topHash) s) (\<lambda>s. (Ok (), s))
             else if myBestHeight > foreign then
               ignoreS (server_client (SendVersion (nv_net (sn_node e)) addr myBestHeight) s) (\<lambda>s. (Ok (), s))
             else (Ok (), s)) (\<lambda>_ s.
          bindS (on_own (CheckAddressKnown (sn_node e) addr) s) (\<lambda>_ s. (Ok (), s)))))"

definition handleGetNodes :: "('k, 'm) server_env \<Rightarrow> 'm server_state \<Rightarrow> unit res \<times> 'm server_state" where
  "handleGetNodes e s = respond e (ResponseNodes (nn_Nodes (sv_own s))) (waits s)"

definition errAuth :: err where "errAuth = ErrNew ''Local Network Auth is required''"

definition handleAddNode :: "('k, 'm) server_env \<Rightarrow> bool \<Rightarrow> bytes \<Rightarrow> 'm server_state \<Rightarrow> unit res \<times> 'm server_state" where
  "handleAddNode e authIsGood request s =
     (if \<not> authIsGood then (Err errAuth, s)
      else
        bindS (parseRequestData (dec_managenode (codec_of e)) request, waits s) (\<lambda>node s.
        bindS (on_own (node_AddNodeToKnown (sn_node e) node True) s) (\<lambda>_ s. (Ok (), s\<lparr>sv_Response := Some []\<rparr>))))"

definition handleRemoveNode :: "('k, 'm) server_env \<Rightarrow> bool \<Rightarrow> bytes \<Rightarrow> 'm server_state \<Rightarrow> unit res \<times> 'm server_state" where
  "handleRemoveNode e authIsGood request s =
     (if \<not> authIsGood then (Err errAuth, s)
      else
        bindS (parseRequestData (dec_managenode (codec_of e)) request, waits s) (\<lambda>node s.
        bindS (on_own (\<lambda>n. (Ok (), n\<lparr>nd_net := RemoveNodeFromKnown node (nd_net n)\<rparr>)) s) (\<lambda>_ s.
          (Ok (), s\<lparr>sv_Response := Some []\<rparr>))))"

definition handleGetState :: "('k, 'm) server_env \<Rightarrow> bool \<Rightarrow> 'm server_state \<Rightarrow> unit res \<times> 'm server_state" where
  "handleGetState e authIsGood s =
     (if \<not> authIsGood then (Err errAuth, s)
      else
        bindS (server_db GetNodeState (waits s)) (\<lambda>(blocks, unappr, unspent) s.
          respond e (ResponseState
            \<lparr>cs_Host = [], cs_BlocksNumber = blocks, cs_ExpectingBlocksHeight = sv_MaxKnownHeigh s,
             cs_TransactionsCached = unappr, cs_UnspentOutputs = unspent\<rparr>) s))"

end
