(* ===== verification/Server_Connections.thy ===== *)
theory Server_Connections
  imports Server_Handlers
begin

text \<open>
  A connection to the server, from its bytes to the answer (\<^verbatim>\<open>server/server.go\<close>), and the two loops that run
  beside the connections: the block maker (\<^verbatim>\<open>server/blocksmaker.go\<close>) and the check for changes on other nodes
  (\<^verbatim>\<open>server/changeschecker.go\<close>), each as one turn of its loop. Goroutines are not modelled: a connection and a turn of
  a loop run from start to end. The theory shows what holds after any sequence of them.
\<close>

section \<open>Connections\<close>

text \<open>The handler of a command.\<close>

definition dispatch ::
  "('k, 'm) server_env \<Rightarrow> string \<Rightarrow> bool \<Rightarrow> string \<Rightarrow> bytes \<Rightarrow> 'm server_state \<Rightarrow> unit res \<times> 'm server_state" where
  "dispatch e requestIP authIsGood command request s =
     (if command = CommandAddresses then handleAddr e request s
      else if command = ''viod'' then (Ok (), s)
      else if command = CommandBlock then handleBlock e request s
      else if command = CommandGetBlock then handleGetBlock e request s
      else if command = ''inv'' then handleInv e request s
      else if command = ''getblocks'' then handleGetBlocks e request s
      else if command = ''getblocksup'' then handleGetBlocksUpper e request s
      else if command = ''getdata'' then handleGetData e request s
      else if command = ''getunspent'' then handleGetUnspent e request s
      else if command = ''gethistory'' then handleGetHistory e request s
      else if command = CommandGetBalance then handleGetBalance e request s
      else if command = CommandGetFirstBlocks then handleGetFirstBlocks e s
      else if command = CommandGetConsensusData then handleGetConsensusData e s
      else if command = ''tx'' then handleTx e request s
      else if command = ''txdata'' then handleTxData e request s
      else if command = ''txcurrequest'' then handleTxCurRequest e request s
      else if command = ''txsqlrequest'' then handleTxSQLRequest e request s
      else if command = ''getnodes'' then handleGetNodes e s
      else if command = ''addnode'' then handleAddNode e authIsGood request s
      else if command = ''removenode'' then handleRemoveNode e authIsGood request s
      else if command = CommandGetState then handleGetState e authIsGood s
      else if command = CommandGetUpdates then handleGetUpdates e request s
      else if command = CommandGetTransaction then handleGetTransaction e request s
      else if command = CommandCheckBlock then handleCheckBlock e request s
      else if command = ''version'' then handleVersion e requestIP request s
      else (Err (ErrNew ''Unknown command!''), s))"

text \<open>What is written to the connection; \<open>None\<close> when it is closed without a byte.\<close>

definition sendErrorBack :: "('k, 'm) server_env \<Rightarrow> string \<Rightarrow> bytes option res" where
  "sendErrorBack e text =
     (case enc_error (codec_of e) text of
        Ok payload \<Rightarrow> Ok (Some (0 # payload)) | Err _ \<Rightarrow> Ok None | Panic \<Rightarrow> Panic | Diverge \<Rightarrow> Diverge)"

text \<open>
  A request runs on a clone of the server's node, with a connection to the database that is opened if it is not;
  afterwards the storage of nodes is the one the clone has written to.
\<close>

definition new_request :: "'m server_state \<Rightarrow> 'm server_state" where
  "new_request s =
     (let node = (sv_node s)\<lparr>nd_net := (sv_own s)\<lparr>nn_Storage := nn_Storage (nd_net (sv_node s))\<rparr>\<rparr>;
          clone = Clone_node node
      in s\<lparr>sv_node := clone\<lparr>nd_db := (nd_db clone)\<lparr>db_opened := True\<rparr>\<rparr>, sv_HasResponse := False, sv_Response := None\<rparr>)"

definition end_request :: "'m server_state \<Rightarrow> 'm server_state" where
  "end_request s = s\<lparr>sv_own := (sv_own s)\<lparr>nn_Storage := nn_Storage (nd_net (sv_node s))\<rparr>\<rparr>"

definition handleConnection ::
  "('k, 'm) server_env \<Rightarrow> string \<Rightarrow> read_event list \<Rightarrow> 'm server_state \<Rightarrow> bytes option res \<times> 'm server_state" where
  "handleConnection e requestIP conn s =
     (case fst (readRequest conn) of
        Err er \<Rightarrow> (sendErrorBack e (''Network Data Reading Error: '' @ sn_errtext e er), s)
      | Panic \<Rightarrow> (Panic, s) | Diverge \<Rightarrow> (Diverge, s)
      | Ok (command, request, authstring) \<Rightarrow>
          let authIsGood = (sn_NodeAuthStr e = authstring \<and> length authstring > 0);
              (rerr, s) = dispatch e requestIP authIsGood command request (new_request s);
              s = end_request s
          in case rerr of
               Err er \<Rightarrow> (if sv_HasResponse s then sendErrorBack e (sn_errtext e er) else Ok None, s)
             | Ok _ \<Rightarrow>
                 (case sv_Response s of
                    Some answer \<Rightarrow> (Ok (if sv_HasResponse s then Some (1 # answer) else None), s)
                  | None \<Rightarrow> (Ok None, s))
             | Panic \<Rightarrow> (Panic, s) | Diverge \<Rightarrow> (Diverge, s))"

section \<open>The block maker\<close>

text \<open>
  A turn of the loop takes an id from the channel; an empty channel blocks, and the empty id ends the loop. The
  transactions in progress are known while a block is made, and none are when the turn is over. An error is only
  logged.
\<close>

definition bmk_turn :: "('k, 'm) server_env \<Rightarrow> 'm server_state \<Rightarrow> bool res \<times> 'm server_state" where
  "bmk_turn e s =
     (case sv_chan s of
        [] \<Rightarrow> (Ok True, s)
      | txID # chan \<Rightarrow>
          let s = s\<lparr>sv_chan := chan\<rparr>
          in if length txID = 0 then (Ok False, s)
             else try_step (on_own (\<lambda>n. let (r, c) = TryToMakeBlock (sn_node e) (Some (\<lambda>_ n. n)) txID (Clone_node n)
                                        in (r, c\<lparr>nd_net := (nd_net n)\<lparr>nn_Storage := nn_Storage (nd_net c)\<rparr>\<rparr>)) s)
                    (\<lambda>s. (Ok True, s\<lparr>sv_inProgress := []\<rparr>)) (\<lambda>_ s. (Ok True, s\<lparr>sv_inProgress := []\<rparr>)))"

section \<open>The check for changes\<close>

record changes_checker =
  cr_ticker :: int
  cr_lastCheckTime :: int

definition StartChangesChecker :: changes_checker where
  "StartChangesChecker = \<lparr>cr_ticker = 3, cr_lastCheckTime = 0\<rparr>"

definition processResults :: "changes_pull_results \<Rightarrow> 'm server_state \<Rightarrow> 'm server_state" where
  "processResults res s = (if length (ids_of (pr_AddedTransactions res)) > 0 then DoNewBlock s else s)"

text \<open>The time of the last check is never set: every check asks for everything.\<close>

definition checker_turn ::
  "('k, 'm) server_env \<Rightarrow> nat list \<Rightarrow> changes_checker \<Rightarrow> 'm server_state \<Rightarrow> changes_checker res \<times> 'm server_state" where
  "checker_turn e rng c s =
     (if cr_ticker c > 0 then (Ok (c\<lparr>cr_ticker := cr_ticker c - 1\<rparr>), s)
      else
        let again = (\<lambda>s. (Ok (c\<lparr>cr_ticker := (if CheckHadInputConnects (sv_own s) then 180 else 5)\<rparr>), s))
        in try_step (on_own (CheckForChangesOnOtherNodes (sn_node e) rng (cr_lastCheckTime c)) s) again
             (\<lambda>res s. again (processResults res s)))"

end
