(* ===== verification/Server_Safety.thy ===== *)
theory Server_Safety
  imports Server_Connections
begin

text \<open>
  What no request and no turn of the server's loops can do. The handlers keep every property of the store that
  adding a block keeps (the locale \<open>store_property\<close>), and every property of the server's other state that its few
  primitive steps keep (the locale \<open>request_property\<close>): the bound of the block maker's channel, and the mark that
  tells whether the other side waits for an answer.
\<close>

section \<open>What requests do to the database\<close>

lemma db_of_fields [simp]:
  "db_of (s\<lparr>sv_own := a\<rparr>) = db_of s" "db_of (s\<lparr>sv_transit := b\<rparr>) = db_of s" "db_of (s\<lparr>sv_MaxKnownHeigh := c\<rparr>) = db_of s"
  "db_of (s\<lparr>sv_chan := d\<rparr>) = db_of s" "db_of (s\<lparr>sv_inProgress := x\<rparr>) = db_of s" "db_of (s\<lparr>sv_HasResponse := f\<rparr>) = db_of s"
  "db_of (s\<lparr>sv_Response := g\<rparr>) = db_of s" "db_of (s\<lparr>sv_node := n\<rparr>) = nd_db n" "db_of (waits s) = db_of s"
  "db_of (server_NewTransaction t s) = db_of s" "db_of (DoNewBlock s) = db_of s" "db_of (end_request s) = db_of s"
  by (simp_all add: db_of_def waits_def server_NewTransaction_def DoNewBlock_def end_request_def)

lemma nd_db_net [simp]: "nd_db (n\<lparr>nd_net := net\<rparr>) = nd_db n"
  by simp

lemma on_node_database: "db_of (snd (on_node f s)) = nd_db (snd (f (sv_node s)))"
  by (simp add: on_node_def split: prod.split)

lemma on_own_database: "db_of (snd (on_own f s)) = nd_db (snd (f ((sv_node s)\<lparr>nd_net := (sv_own s)\<lparr>nn_Storage := nn_Storage (nd_net (sv_node s))\<rparr>\<rparr>)))"
  by (simp add: on_own_def Let_def split: prod.split)

lemma server_parts_db [simp]:
  "db_of (snd (server_db f s)) = snd (f (db_of s))" "db_of (snd (server_client c s)) = db_of s"
  "db_of (snd (on_transit t s)) = db_of s" "db_of (snd (respond e r s)) = db_of s"
  "db_of (snd (server_knows e a s)) = db_of s"
proof -
  show "db_of (snd (server_db f s)) = snd (f (db_of s))" by (simp add: server_db_def on_node_database) (simp add: db_of_def)
  show "db_of (snd (server_client c s)) = db_of s" by (simp add: server_client_def on_node_database) (simp add: db_of_def)
  show "db_of (snd (on_transit t s)) = db_of s" by (simp add: on_transit_def split: prod.split)
  show "db_of (snd (respond e r s)) = db_of s" unfolding respond_def
    by (rule kept_bindS[where P = "\<lambda>u. db_of u = db_of s"]) simp_all
  show "db_of (snd (server_knows e a s)) = db_of s" unfolding server_knows_def
    by (rule kept_bindS[where P = "\<lambda>u. db_of u = db_of s"]) (simp_all add: on_node_database, simp add: db_of_def)
qed

lemma add_addresses_db [simp]: "db_of (snd (add_addresses nodes added s)) = db_of s"
proof (induction nodes arbitrary: added s)
  case (Cons node nodes)
  show ?case unfolding add_addresses.simps
    by (rule kept_bindS[where P = "\<lambda>u. db_of u = db_of s"]) (simp_all add: Cons on_own_database split_beta, simp add: db_of_def)
qed simp

lemma next_in_transit_db [simp]: "db_of (snd (next_in_transit e a s)) = db_of s"
proof -
  note k = kept_bindS[where P = "\<lambda>u. db_of u = db_of s"]
  have n: "db_of (snd (on_node (ReceivedBlockFromOtherNode (sn_node e) a d) t)) = db_of t" for d t
    by (simp add: on_node_database) (simp add: db_of_def)
  show ?thesis unfolding next_in_transit_def
    by (intro k) (auto simp: n intro!: k kept_ignoreS[where P = "\<lambda>u. db_of u = db_of s"])
qed

lemma transit_loop_db [simp]: "db_of (snd (transit_loop e a s)) = db_of s"
proof (induction e a s rule: transit_loop.induct)
  case (1 e a s)
  note k = kept_bindS[where P = "\<lambda>u. db_of u = db_of s"]
  show ?case
  proof (cases "next_in_transit e a s")
    case (Pair r t)
    then have "db_of t = db_of s" using next_in_transit_db[of e a s] by simp
    then show ?thesis using 1 Pair by (cases r) (auto simp: transit_loop.simps[of e a s])
  qed
qed

lemma tables_keep [keeps]:
  "same_store s db \<Longrightarrow> same_store (snd (txm_GetAddressBalance te a s)) db"
  "same_store s db \<Longrightarrow> same_store (snd (PrepareNewCurrencyTransaction te k r m s)) db"
  "same_store s db \<Longrightarrow> same_store (snd (GetUnapprovedTransactionsFiltered te t c l s)) db"
  "same_store s db \<Longrightarrow> same_store (snd (GetUnapprovedCount s)) db"
  "same_store s db \<Longrightarrow> same_store (snd (GetNodeState s)) db"
  "same_store s db \<Longrightarrow> same_store (snd (GetIfUnapprovedExists h s)) db"
  "same_store s db \<Longrightarrow> same_store (snd (txm_GetIfExists h s)) db"
  by (auto simp: txm_GetAddressBalance_def getAddressPendingBalance_def PrepareNewCurrencyTransaction_def
      prepareNewCurrencyTransactionStart_def GetUnapprovedTransactionsFiltered_def GetUnapprovedCount_def GetNodeState_def
      GetIfUnapprovedExists_def txm_GetIfExists_def Let_def intro!: keeps)

section \<open>Requests keep a property of the store\<close>

text \<open>The environment of a server whose query manager is \<open>q\<close> and whose decoder gives only blocks of a shape.\<close>

definition serves :: "'k query_manager \<Rightarrow> (block \<Rightarrow> bool) \<Rightarrow> ('k, 'm) server_env \<Rightarrow> bool" where
  "serves q shaped e \<longleftrightarrow> nv_qm (sn_node e) = q \<and> (\<forall>d b. nv_unblock (sn_node e) d = Ok b \<longrightarrow> shaped b)"

context store_property
begin

lemma table_ops:
  "P d \<Longrightarrow> P (snd (txm_GetAddressBalance te a d))" "P d \<Longrightarrow> P (snd (PrepareNewCurrencyTransaction te k r m d))"
  "P d \<Longrightarrow> P (snd (GetUnapprovedTransactionsFiltered te t c l d))" "P d \<Longrightarrow> P (snd (GetUnapprovedCount d))"
  "P d \<Longrightarrow> P (snd (GetNodeState d))" "P d \<Longrightarrow> P (snd (GetIfUnapprovedExists h d))" "P d \<Longrightarrow> P (snd (txm_GetIfExists h d))"
  "P d \<Longrightarrow> P (snd (ReceivedNewCurrencyTransactionData te qm tb sg d))" "P d \<Longrightarrow> P (snd (NewQuery te qm i sql k d))"
  "P d \<Longrightarrow> P (snd (ReceivedNewTransaction te qm tx fl d))"
  by (rule same, rule keeps, rule same_store_simps, assumption)+

lemma wallet_handlers:
  assumes "P (db_of s)"
  shows "P (db_of (snd (handleGetUnspent e r s)))" "P (db_of (snd (handleGetHistory e r s)))"
    "P (db_of (snd (handleGetBalance e r s)))" "P (db_of (snd (handleTxData e r s)))"
    "P (db_of (snd (handleTxCurRequest e r s)))" "P (db_of (snd (handleTxSQLRequest e r s)))"
proof -
  note k = kept_bindS[where P = "\<lambda>s. P (db_of s)"]
  show "P (db_of (snd (handleGetUnspent e r s)))" unfolding handleGetUnspent_def by (intro k) (simp_all add: assms)
  show "P (db_of (snd (handleGetHistory e r s)))" unfolding handleGetHistory_def by (intro k) (simp_all add: assms)
  show "P (db_of (snd (handleGetBalance e r s)))" unfolding handleGetBalance_def
    by (intro k) (auto simp: assms table_ops)
  show "P (db_of (snd (handleTxData e r s)))" unfolding handleTxData_def
    by (intro k) (simp_all add: assms split_beta table_ops)
  show "P (db_of (snd (handleTxCurRequest e r s)))" unfolding handleTxCurRequest_def
    by (intro k) (auto simp: assms table_ops)
  show "P (db_of (snd (handleTxSQLRequest e r s)))" unfolding handleTxSQLRequest_def
    by (intro k) (simp_all add: assms table_ops)
qed

lemma data_handlers:
  assumes "P (db_of s)"
  shows "P (db_of (snd (handleGetTransaction e r s)))" "P (db_of (snd (handleCheckBlock e r s)))"
    "P (db_of (snd (handleGetFirstBlocks e s)))" "P (db_of (snd (handleGetConsensusData e s)))"
    "P (db_of (snd (handleGetBlock e r s)))" "P (db_of (snd (handleGetBlocks e r s)))"
    "P (db_of (snd (handleGetBlocksUpper e r s)))" "P (db_of (snd (handleGetData e r s)))"
    "P (db_of (snd (handleGetUpdates e r s)))"
proof -
  note k = kept_bindS[where P = "\<lambda>s. P (db_of s)"] kept_ignoreS[where P = "\<lambda>s. P (db_of s)"]
    kept_try_step[where P = "\<lambda>s. P (db_of s)"]
  show "P (db_of (snd (handleGetTransaction e r s)))" unfolding handleGetTransaction_def
    by (intro k) (auto simp: assms table_ops split: option.split)
  show "P (db_of (snd (handleCheckBlock e r s)))" unfolding handleCheckBlock_def by (intro k) (simp_all add: assms)
  show "P (db_of (snd (handleGetFirstBlocks e s)))" unfolding handleGetFirstBlocks_def by (intro k) (auto simp: assms)
  show "P (db_of (snd (handleGetConsensusData e s)))" unfolding handleGetConsensusData_def Let_def
    by (intro k) (simp_all add: assms)
  show "P (db_of (snd (handleGetBlock e r s)))" unfolding handleGetBlock_def by (intro k) (simp_all add: assms)
  show "P (db_of (snd (handleGetBlocks e r s)))" unfolding handleGetBlocks_def send_short_blocks_def
    by (intro k) (simp_all add: assms)
  show "P (db_of (snd (handleGetBlocksUpper e r s)))" unfolding handleGetBlocksUpper_def send_short_blocks_def
    by (intro k) (simp_all add: assms)
  show "P (db_of (snd (handleGetData e r s)))" unfolding handleGetData_def
    by (intro k) (auto simp: assms table_ops split: option.split intro!: k)
  show "P (db_of (snd (handleGetUpdates e r s)))" unfolding handleGetUpdates_def
    by (intro k) (simp_all add: assms table_ops)
qed

lemma peer_handlers:
  assumes "P (db_of s)" and e: "serves q shaped e"
  shows "P (db_of (snd (handleBlock e r s)))" "P (db_of (snd (handleInv e r s)))" "P (db_of (snd (handleTx e r s)))"
proof -
  note k = kept_bindS[where P = "\<lambda>s. P (db_of s)"] kept_ignoreS[where P = "\<lambda>s. P (db_of s)"]
    kept_try_step[where P = "\<lambda>s. P (db_of s)"]
  have sent: "P (db_of u) \<Longrightarrow> P (db_of (snd (on_node (SendBlockToAll (sn_node e) b a) u)))" for u b a
    by (simp add: on_node_database) (simp add: db_of_def)
  have full: "P d \<Longrightarrow> P (snd (ReceivedFullBlockFromOtherNode te (nv_qm (sn_node e)) i (nv_unblock (sn_node e) b) d))" for te i b d
    using received[of d "nv_unblock (sn_node e) b" te i] e by (simp add: serves_def)
  show "P (db_of (snd (handleBlock e r s)))" unfolding handleBlock_def
    by (intro k) (auto simp: assms(1) full Let_def sent intro!: k)
  show "P (db_of (snd (handleInv e r s)))" unfolding handleInv_def
    by (intro k) (auto simp: assms table_ops split: list.split intro!: k)
  show "P (db_of (snd (handleTx e r s)))" unfolding handleTx_def Let_def
    by (intro k) (auto simp: assms table_ops intro!: k)
qed

lemma node_handlers:
  assumes "P (db_of s)"
  shows "P (db_of (snd (handleAddr e r s)))" "P (db_of (snd (handleVersion e ip r s)))" "P (db_of (snd (handleGetNodes e s)))"
    "P (db_of (snd (handleAddNode e g r s)))" "P (db_of (snd (handleRemoveNode e g r s)))" "P (db_of (snd (handleGetState e g s)))"
proof -
  note k = kept_bindS[where P = "\<lambda>s. P (db_of s)"] kept_ignoreS[where P = "\<lambda>s. P (db_of s)"]
  have own: "P (db_of u) \<Longrightarrow> P (db_of (snd (on_own (CheckAddressKnown (sn_node e) a) u)))"
    "P (db_of u) \<Longrightarrow> P (db_of (snd (on_own (node_AddNodeToKnown (sn_node e) a v) u)))"
    "P (db_of u) \<Longrightarrow> P (db_of (snd (on_own (\<lambda>n. (Ok (), n\<lparr>nd_net := f n\<rparr>)) u)))"
    "P (db_of u) \<Longrightarrow> P (db_of (snd (on_node (SendVersionToNodes (sn_node e) l) u)))" for u a v f l
    by (simp_all add: on_own_database on_node_database) (simp_all add: db_of_def)
  show "P (db_of (snd (handleAddr e r s)))" unfolding handleAddr_def by (intro k) (simp_all add: assms own)
  show "P (db_of (snd (handleVersion e ip r s)))" unfolding handleVersion_def Let_def
    by (intro k) (auto simp: assms own intro!: k)
  show "P (db_of (snd (handleGetNodes e s)))" by (simp add: handleGetNodes_def assms)
  show "P (db_of (snd (handleAddNode e g r s)))" unfolding handleAddNode_def
    by (cases g) (auto simp: assms own intro!: k)
  show "P (db_of (snd (handleRemoveNode e g r s)))" unfolding handleRemoveNode_def
    by (cases g) (auto simp: assms own intro!: k)
  show "P (db_of (snd (handleGetState e g s)))" unfolding handleGetState_def
    by (cases g) (auto simp: assms table_ops intro!: k)
qed

lemma dispatch_keeps: "P (db_of s) \<Longrightarrow> serves q shaped e \<Longrightarrow> P (db_of (snd (dispatch e ip g cmd r s)))"
  unfolding dispatch_def by (simp add: wallet_handlers data_handlers peer_handlers node_handlers)

end

section \<open>Requests and the rest of the server's state\<close>

locale request_property =
  fixes Q :: "'m server_state \<Rightarrow> bool"
  assumes set_node: "Q s \<Longrightarrow> Q (s\<lparr>sv_node := n\<rparr>)"
    and set_own: "Q s \<Longrightarrow> Q (s\<lparr>sv_own := net\<rparr>)"
    and set_transit: "Q s \<Longrightarrow> Q (s\<lparr>sv_transit := tr\<rparr>)"
    and heights: "Q s \<Longrightarrow> Q (s\<lparr>sv_MaxKnownHeigh := k\<rparr>)"
    and answer: "Q s \<Longrightarrow> Q (s\<lparr>sv_Response := a\<rparr>)"
    and announce: "Q s \<Longrightarrow> Q (server_NewTransaction t s)"
begin

lemma node: "Q s \<Longrightarrow> Q (snd (on_node f s))"
  by (simp add: on_node_def set_node split: prod.split)

lemma own: "Q s \<Longrightarrow> Q (snd (on_own f s))"
  by (simp add: on_own_def Let_def set_own set_node split: prod.split)

lemma shifts: "Q s \<Longrightarrow> Q (snd (on_transit f s))"
  by (simp add: on_transit_def set_transit split: prod.split)

lemma parts:
  "Q s \<Longrightarrow> Q (snd (server_db f s))" "Q s \<Longrightarrow> Q (snd (server_client c s))" "Q s \<Longrightarrow> Q (snd (respond e x s))"
  "Q s \<Longrightarrow> Q (snd (server_knows e addr s))" "Q s \<Longrightarrow> Q (DoNewBlock s)"
  by (auto simp: server_db_def server_client_def respond_def server_knows_def DoNewBlock_def
    intro!: node answer announce kept_bindS[where P = Q])

lemmas steps = node own shifts heights answer announce parts

lemma answering:
  assumes "Q (waits s)"
  shows "Q (snd (handleGetUnspent e r s))" "Q (snd (handleGetHistory e r s))" "Q (snd (handleGetBalance e r s))"
    "Q (snd (handleTxData e r s))" "Q (snd (handleTxCurRequest e r s))" "Q (snd (handleTxSQLRequest e r s))"
    "Q (snd (handleGetTransaction e r s))" "Q (snd (handleCheckBlock e r s))" "Q (snd (handleGetFirstBlocks e s))"
    "Q (snd (handleGetConsensusData e s))" "Q (snd (handleGetBlock e r s))" "Q (snd (handleGetUpdates e r s))"
  unfolding handleGetUnspent_def handleGetHistory_def handleGetBalance_def handleTxData_def handleTxCurRequest_def
    handleTxSQLRequest_def handleGetTransaction_def handleCheckBlock_def handleGetFirstBlocks_def handleGetConsensusData_def
    handleGetBlock_def handleGetUpdates_def Let_def
  by (intro kept_bindS[where P = Q]; auto simp: assms split_beta split: option.split intro!: steps)+

lemma GetNodes_keeps: "Q (waits s) \<Longrightarrow> Q (snd (handleGetNodes e s))"
  by (simp add: handleGetNodes_def parts)

lemma authorised:
  assumes "Q s" "Q (waits s)"
  shows "Q (snd (handleAddNode e g r s))" "Q (snd (handleRemoveNode e g r s))" "Q (snd (handleGetState e g s))"
  by (auto simp: handleAddNode_def handleRemoveNode_def handleGetState_def assms intro!: steps kept_bindS[where P = Q])

lemma next_in_transit_keeps: "Q s \<Longrightarrow> Q (snd (next_in_transit e a s))"
  unfolding next_in_transit_def
  by (intro kept_bindS[where P = Q]) (auto intro!: steps kept_bindS[where P = Q] kept_ignoreS[where P = Q])

lemma transit_loop_keeps: "Q s \<Longrightarrow> Q (snd (transit_loop e a s))"
proof (induction e a s rule: transit_loop.induct)
  case (1 e a s)
  show ?case
  proof (cases "next_in_transit e a s")
    case (Pair r t)
    then have "Q t" using next_in_transit_keeps[OF 1(2), of e a] by simp
    then show ?thesis using 1(1) Pair by (cases r) (auto simp: transit_loop.simps[of e a s])
  qed
qed

lemma add_addresses_keeps: "Q s \<Longrightarrow> Q (snd (add_addresses nodes added s))"
  by (induction nodes arbitrary: added s) (auto intro!: steps kept_bindS[where P = Q])

lemma one_way:
  assumes "Q s"
  shows "Q (snd (handleGetBlocks e r s))" "Q (snd (handleGetBlocksUpper e r s))" "Q (snd (handleGetData e r s))"
    "Q (snd (handleBlock e r s))" "Q (snd (handleInv e r s))" "Q (snd (handleTx e r s))" "Q (snd (handleAddr e r s))"
    "Q (snd (handleVersion e ip r s))"
proof -
  note k = kept_bindS[where P = Q] kept_ignoreS[where P = Q] kept_try_step[where P = Q]
  show "Q (snd (handleGetBlocks e r s))" "Q (snd (handleGetBlocksUpper e r s))"
    unfolding handleGetBlocks_def handleGetBlocksUpper_def send_short_blocks_def by (intro k; auto simp: assms intro!: steps k)+
  show "Q (snd (handleGetData e r s))"
    unfolding handleGetData_def by (intro k) (auto simp: assms split: option.split intro!: steps k)
  show "Q (snd (handleBlock e r s))"
    unfolding handleBlock_def Let_def by (intro k) (auto simp: assms intro!: steps transit_loop_keeps k)
  show "Q (snd (handleInv e r s))"
    unfolding handleInv_def by (intro k) (auto simp: assms split: list.split intro!: steps transit_loop_keeps k)
  show "Q (snd (handleTx e r s))"
    unfolding handleTx_def Let_def by (intro k) (auto simp: assms intro!: steps k)
  show "Q (snd (handleAddr e r s))"
    unfolding handleAddr_def by (intro k) (auto simp: assms intro!: steps add_addresses_keeps k)
  show "Q (snd (handleVersion e ip r s))"
    unfolding handleVersion_def Let_def by (intro k) (auto simp: assms intro!: steps k)
qed

lemma dispatch_keeps: "Q s \<Longrightarrow> Q (waits s) \<Longrightarrow> Q (snd (dispatch e ip g cmd r s))"
  unfolding dispatch_def by (simp add: answering GetNodes_keeps authorised one_way)

end

interpretation channel: request_property "\<lambda>s :: 'm server_state. length (sv_chan s) \<le> blockBuilderBuffer"
  by unfold_locales (auto simp: server_NewTransaction_def bmk_NewTransaction_def blockBuilderBuffer_def)

interpretation mark: request_property "\<lambda>s :: 'm server_state. sv_HasResponse s = b" for b
  by unfold_locales (auto simp: server_NewTransaction_def)

section \<open>Who gets an answer\<close>

text \<open>Commands whose sender waits for an answer, and those that need the string of authorisation.\<close>

definition answered :: "string list" where
  "answered = [CommandGetBlock, ''getunspent'', ''gethistory'', CommandGetBalance, CommandGetFirstBlocks,
     CommandGetConsensusData, ''txdata'', ''txcurrequest'', ''txsqlrequest'', ''getnodes'', CommandGetUpdates,
     CommandGetTransaction, CommandCheckBlock]"

definition managing :: "string list" where
  "managing = [''addnode'', ''removenode'', CommandGetState]"

definition waits_for_answer :: "bool \<Rightarrow> string \<Rightarrow> bool" where
  "waits_for_answer authorised command \<longleftrightarrow> command \<in> set answered \<or> command \<in> set managing \<and> authorised"

lemma waits_mark: "sv_HasResponse (waits s)"
  by (simp add: waits_def)

lemma managing_refused:
  "\<not> g \<Longrightarrow> cmd \<in> set managing \<Longrightarrow> dispatch e ip g cmd r s = (Err errAuth, s)"
  by (auto simp: managing_def dispatch_def command_defs handleAddNode_def handleRemoveNode_def handleGetState_def)

lemma managing_mark:
  assumes "cmd \<in> set managing"
  shows "sv_HasResponse (snd (dispatch e ip True cmd r s))"
proof -
  note k = kept_bindS[where P = sv_HasResponse]
  note m = mark.steps[of _ True, unfolded eq_True]
  have "sv_HasResponse (snd (handleAddNode e True r s))" "sv_HasResponse (snd (handleRemoveNode e True r s))"
    "sv_HasResponse (snd (handleGetState e True s))"
    by (auto simp: handleAddNode_def handleRemoveNode_def handleGetState_def waits_mark intro!: m k)
  then show ?thesis using assms by (auto simp: managing_def dispatch_def command_defs)
qed

lemma dispatch_mark:
  assumes "\<not> sv_HasResponse s"
  shows "sv_HasResponse (snd (dispatch e ip g cmd r s)) \<longleftrightarrow> waits_for_answer g cmd"
proof (cases "cmd \<in> set managing")
  case True
  moreover have "cmd \<notin> set answered" using True by (auto simp: managing_def answered_def command_defs)
  ultimately show ?thesis using managing_refused[of g cmd e ip r s] managing_mark[of cmd e ip r s] assms
    by (cases g) (simp_all add: waits_for_answer_def)
next
  case False
  show ?thesis
  proof (cases "cmd \<in> set answered")
    case True
    have waiting: "sv_HasResponse (snd (handleGetUnspent e r s))" "sv_HasResponse (snd (handleGetHistory e r s))"
      "sv_HasResponse (snd (handleGetBalance e r s))" "sv_HasResponse (snd (handleTxData e r s))"
      "sv_HasResponse (snd (handleTxCurRequest e r s))" "sv_HasResponse (snd (handleTxSQLRequest e r s))"
      "sv_HasResponse (snd (handleGetTransaction e r s))" "sv_HasResponse (snd (handleCheckBlock e r s))"
      "sv_HasResponse (snd (handleGetFirstBlocks e s))" "sv_HasResponse (snd (handleGetConsensusData e s))"
      "sv_HasResponse (snd (handleGetBlock e r s))" "sv_HasResponse (snd (handleGetUpdates e r s))"
      "sv_HasResponse (snd (handleGetNodes e s))"
      using mark.answering[where b = True and s = s] mark.GetNodes_keeps[where b = True and s = s] waits_mark[of s] by simp_all
    have "sv_HasResponse (snd (dispatch e ip g cmd r s))"
      using True unfolding answered_def list.set insert_iff empty_iff
      by (elim disjE) (simp_all add: dispatch_def command_defs waiting)
    then show ?thesis using True by (simp add: waits_for_answer_def)
  next
    case no: False
    have silent: "\<not> sv_HasResponse (snd (handleGetBlocks e r s))" "\<not> sv_HasResponse (snd (handleGetBlocksUpper e r s))"
      "\<not> sv_HasResponse (snd (handleGetData e r s))" "\<not> sv_HasResponse (snd (handleBlock e r s))"
      "\<not> sv_HasResponse (snd (handleInv e r s))" "\<not> sv_HasResponse (snd (handleTx e r s))"
      "\<not> sv_HasResponse (snd (handleAddr e r s))" "\<not> sv_HasResponse (snd (handleVersion e ip r s))"
      using mark.one_way[where b = False and s = s] assms by simp_all
    have "\<not> sv_HasResponse (snd (dispatch e ip g cmd r s))"
      using False no unfolding answered_def managing_def dispatch_def by (simp add: silent assms)
    then show ?thesis using False no by (simp add: waits_for_answer_def)
  qed
qed

definition has_response :: "'m server_state \<Rightarrow> bool" where
  "has_response s \<longleftrightarrow> sv_Response s \<noteq> None"

lemma respond_ends: "ends (\<lambda>_. has_response) (respond e x s)"
  unfolding respond_def by (rule ends_bindS[where J = "\<lambda>_. True"]) (simp_all add: ends_def has_response_def)

lemma ends_then: "(\<And>x s. ends Q (f x s)) \<Longrightarrow> ends Q (bindS r f)"
  by (cases r; cases "fst r") (simp_all add: ends_def)

lemma ends_Err: "ends Q (Err x, s)"
  by (simp add: ends_def)

lemma answering_ends:
  "ends (\<lambda>_. has_response) (handleGetUnspent e r s)" "ends (\<lambda>_. has_response) (handleGetHistory e r s)"
  "ends (\<lambda>_. has_response) (handleGetBalance e r s)" "ends (\<lambda>_. has_response) (handleTxData e r s)"
  "ends (\<lambda>_. has_response) (handleTxCurRequest e r s)" "ends (\<lambda>_. has_response) (handleTxSQLRequest e r s)"
  "ends (\<lambda>_. has_response) (handleGetTransaction e r s)" "ends (\<lambda>_. has_response) (handleCheckBlock e r s)"
  "ends (\<lambda>_. has_response) (handleGetFirstBlocks e s)" "ends (\<lambda>_. has_response) (handleGetConsensusData e s)"
  "ends (\<lambda>_. has_response) (handleGetBlock e r s)" "ends (\<lambda>_. has_response) (handleGetUpdates e r s)"
  "ends (\<lambda>_. has_response) (handleGetNodes e s)"
  unfolding handleGetUnspent_def handleGetHistory_def handleGetBalance_def handleTxData_def handleTxCurRequest_def
    handleTxSQLRequest_def handleGetTransaction_def handleCheckBlock_def handleGetFirstBlocks_def handleGetConsensusData_def
    handleGetBlock_def handleGetUpdates_def handleGetNodes_def Let_def
  by (auto split: option.split prod.split intro!: ends_then respond_ends ends_Err)

lemma managing_ends:
  "ends (\<lambda>_. has_response) (handleAddNode e True r s)" "ends (\<lambda>_. has_response) (handleRemoveNode e True r s)"
  "ends (\<lambda>_. has_response) (handleGetState e True s)"
  by (auto simp: handleAddNode_def handleRemoveNode_def handleGetState_def ends_def[of _ "(Ok _, _)"] has_response_def[of "_\<lparr>sv_Response := _\<rparr>"]
      split: prod.split intro!: ends_then respond_ends)

lemma dispatch_answers:
  assumes "waits_for_answer g cmd" and "dispatch e ip g cmd r s = (Ok (), t)"
  shows "has_response t"
proof -
  have "ends (\<lambda>_. has_response) (dispatch e ip g cmd r s)"
  proof (cases "cmd \<in> set answered")
    case True
    then show ?thesis unfolding answered_def list.set insert_iff empty_iff
      by (elim disjE) (simp_all add: dispatch_def command_defs answering_ends)
  next
    case False
    then have "cmd \<in> set managing" "g" using assms(1) by (simp_all add: waits_for_answer_def)
    then show ?thesis unfolding managing_def list.set insert_iff empty_iff
      by (elim disjE) (simp_all add: dispatch_def command_defs managing_ends)
  qed
  then show ?thesis using assms(2) by (simp add: ends_def)
qed

lemma new_request_fields [simp]: "\<not> sv_HasResponse (new_request s)" "sv_own (new_request s) = sv_own s" "sv_chan (new_request s) = sv_chan s"
  by (simp_all add: new_request_def Let_def)

lemma end_request_fields [simp]:
  "sv_HasResponse (end_request s) = sv_HasResponse s" "sv_Response (end_request s) = sv_Response s"
  "sv_chan (end_request s) = sv_chan s" "nn_Nodes (sv_own (end_request s)) = nn_Nodes (sv_own s)" "sv_node (end_request s) = sv_node s"
  by (simp_all add: end_request_def)

text \<open>A request that was read is answered exactly when its sender waits for an answer.\<close>

text \<open>
  C7: A request that was read is answered exactly when its sender waits for an answer: for the
  commands that ask for data always, for those that manage the node when the string of authorisation
  is the one of the node and not empty.
\<close>

lemma connection_answers:
  assumes "fst (readRequest conn) = Ok (command, request, auth)" and "\<forall>t. \<exists>b. enc_error (codec_of e) t = Ok b"
    and "fst (handleConnection e ip conn s) = Ok ans"
  shows "ans \<noteq> None \<longleftrightarrow> waits_for_answer (auth = sn_NodeAuthStr e \<and> auth \<noteq> []) command"
proof -
  let ?g = "sn_NodeAuthStr e = auth \<and> 0 < length auth"
  obtain r t where d: "dispatch e ip ?g command request (new_request s) = (r, t)" by fastforce
  have m: "sv_HasResponse t \<longleftrightarrow> waits_for_answer ?g command"
    using dispatch_mark[of "new_request s" e ip ?g command request] d by simp
  have "?g = (auth = sn_NodeAuthStr e \<and> auth \<noteq> [])" by auto
  then have w: "waits_for_answer (auth = sn_NodeAuthStr e \<and> auth \<noteq> []) command = sv_HasResponse t" using m by simp
  have run: "handleConnection e ip conn s =
      (case r of Err er \<Rightarrow> (if sv_HasResponse t then sendErrorBack e (sn_errtext e er) else Ok None, end_request t)
       | Ok _ \<Rightarrow> (case sv_Response t of Some a \<Rightarrow> (Ok (if sv_HasResponse t then Some (1 # a) else None), end_request t)
                 | None \<Rightarrow> (Ok None, end_request t))
       | Panic \<Rightarrow> (Panic, end_request t) | Diverge \<Rightarrow> (Diverge, end_request t))"
    unfolding handleConnection_def assms(1) res.case prod.case Let_def d end_request_fields ..
  show ?thesis
  proof (cases r)
    case (Ok u)
    have "sv_HasResponse t \<Longrightarrow> sv_Response t \<noteq> None" using dispatch_answers[of _ command e ip request "new_request s" t] d Ok m by (simp add: has_response_def)
    then show ?thesis using assms(3) run Ok unfolding w by (cases "sv_Response t") (auto split: if_splits)
  next
    case (Err er)
    obtain b where "enc_error (codec_of e) (sn_errtext e er) = Ok b" using assms(2) by blast
    then show ?thesis using assms(3) run Err unfolding w by (auto simp: sendErrorBack_def split: if_splits)
  qed (use assms(3) run in simp_all)
qed

text \<open>Without the string of authorisation the list of nodes cannot be changed, and the sender gets no answer.\<close>

text \<open>
  C9: A command that manages the node and does not carry its string of authorisation gets no answer
  and changes neither the list of nodes nor the database nor what was sent.
\<close>

lemma management_refused:
  assumes "fst (readRequest conn) = Ok (command, request, auth)" and "command \<in> set managing"
    and "auth \<noteq> sn_NodeAuthStr e \<or> auth = []"
  shows "\<exists>s'. handleConnection e ip conn s = (Ok None, s') \<and> nn_Nodes (sv_own s') = nn_Nodes (sv_own s) \<and>
    db_of s' = (db_of s)\<lparr>db_opened := True\<rparr> \<and> nd_client (sv_node s') = nd_client (sv_node s)"
proof -
  let ?t = "end_request (new_request s)"
  have "\<not> (sn_NodeAuthStr e = auth \<and> 0 < length auth)" using assms(3) by auto
  note d = managing_refused[OF this assms(2), of e ip request "new_request s"]
  have "handleConnection e ip conn s = (Ok None, ?t)"
    unfolding handleConnection_def assms(1) res.case prod.case Let_def d by simp
  moreover have "nn_Nodes (sv_own ?t) = nn_Nodes (sv_own s)" by simp
  moreover have "db_of ?t = (db_of s)\<lparr>db_opened := True\<rparr>" "nd_client (sv_node ?t) = nd_client (sv_node s)"
    by (simp_all add: db_of_def new_request_def Let_def Clone_node_def InitNodes_def)
  ultimately show ?thesis by blast
qed

section \<open>What an answer holds\<close>

text \<open>The structure that a client expects as the answer to a command; \<^verbatim>\<open>addnode\<close> and \<^verbatim>\<open>removenode\<close> expect none.\<close>

definition answers :: "com \<Rightarrow> com_response \<Rightarrow> bool" where
  "answers x r \<longleftrightarrow>
     (case r of
        ResponseGetBlock _ \<Rightarrow> (case x of ComGetBlock _ \<Rightarrow> True | _ \<Rightarrow> False)
      | ResponseCheckBlock _ \<Rightarrow> (case x of ComCheckBlock _ \<Rightarrow> True | _ \<Rightarrow> False)
      | ResponseGetTransaction _ \<Rightarrow> (case x of ComGetTransaction _ \<Rightarrow> True | _ \<Rightarrow> False)
      | ResponseFirstBlocks _ \<Rightarrow> x = ComGetFirstBlocks
      | ResponseConsensusData _ \<Rightarrow> x = ComGetConsensusData
      | ResponseTransactionID _ \<Rightarrow> (case x of ComNewTransactionData _ \<Rightarrow> True | _ \<Rightarrow> False)
      | ResponseTransactionData _ \<Rightarrow> (case x of ComRequestTransaction _ \<Rightarrow> True | ComRequestSQLTransaction _ \<Rightarrow> True | _ \<Rightarrow> False)
      | ResponseUnspent _ \<Rightarrow> (case x of ComGetUnspent _ \<Rightarrow> True | _ \<Rightarrow> False)
      | ResponseHistory _ \<Rightarrow> (case x of ComGetHistory _ \<Rightarrow> True | _ \<Rightarrow> False)
      | ResponseBalance _ \<Rightarrow> (case x of ComGetBalance _ \<Rightarrow> True | _ \<Rightarrow> False)
      | ResponseNodes _ \<Rightarrow> x = ComGetNodes
      | ResponseState _ \<Rightarrow> x = ComGetState
      | ResponseUpdates _ \<Rightarrow> (case x of ComGetUpdates _ \<Rightarrow> True | _ \<Rightarrow> False))"

definition manages_nodes :: "com \<Rightarrow> bool" where
  "manages_nodes x \<longleftrightarrow> (case x of ComAddNode _ \<Rightarrow> True | ComRemoveNode _ \<Rightarrow> True | _ \<Rightarrow> False)"

definition typed_answer :: "('k, 'm) server_env \<Rightarrow> com \<Rightarrow> bytes \<Rightarrow> bool" where
  "typed_answer e x b \<longleftrightarrow> manages_nodes x \<and> b = [] \<or> (\<exists>r. answers x r \<and> enc_response (codec_of e) r = Ok b)"

definition answered_well :: "('k, 'm) server_env \<Rightarrow> com \<Rightarrow> 'm server_state \<Rightarrow> bool" where
  "answered_well e x t \<longleftrightarrow> (\<forall>b. sv_HasResponse t \<longrightarrow> sv_Response t = Some b \<longrightarrow> typed_answer e x b)"

lemma respond_typed: "answers x r \<Longrightarrow> ends (\<lambda>_. answered_well e x) (respond e r s)"
  unfolding respond_def by (rule ends_bindS[where J = "\<lambda>_. True"]) (auto simp: ends_def answered_well_def typed_answer_def)

lemma handlers_typed:
  "ends (\<lambda>_. answered_well e (ComGetUnspent d1)) (handleGetUnspent e r s)"
  "ends (\<lambda>_. answered_well e (ComGetHistory d2)) (handleGetHistory e r s)"
  "ends (\<lambda>_. answered_well e (ComGetBalance d3)) (handleGetBalance e r s)"
  "ends (\<lambda>_. answered_well e (ComNewTransactionData d4)) (handleTxData e r s)"
  "ends (\<lambda>_. answered_well e (ComRequestTransaction d5)) (handleTxCurRequest e r s)"
  "ends (\<lambda>_. answered_well e (ComRequestSQLTransaction d6)) (handleTxSQLRequest e r s)"
  "ends (\<lambda>_. answered_well e (ComGetTransaction d7)) (handleGetTransaction e r s)"
  "ends (\<lambda>_. answered_well e (ComCheckBlock d8)) (handleCheckBlock e r s)"
  "ends (\<lambda>_. answered_well e ComGetFirstBlocks) (handleGetFirstBlocks e s)"
  "ends (\<lambda>_. answered_well e ComGetConsensusData) (handleGetConsensusData e s)"
  "ends (\<lambda>_. answered_well e (ComGetBlock d9)) (handleGetBlock e r s)"
  "ends (\<lambda>_. answered_well e (ComGetUpdates d10)) (handleGetUpdates e r s)"
  "ends (\<lambda>_. answered_well e ComGetNodes) (handleGetNodes e s)"
  unfolding handleGetUnspent_def handleGetHistory_def handleGetBalance_def handleTxData_def handleTxCurRequest_def
    handleTxSQLRequest_def handleGetTransaction_def handleCheckBlock_def handleGetFirstBlocks_def handleGetConsensusData_def
    handleGetBlock_def handleGetUpdates_def handleGetNodes_def Let_def
  by (auto simp: answers_def split: option.split prod.split intro!: ends_then respond_typed ends_Err)

lemma unanswered_well: "\<not> sv_HasResponse t \<Longrightarrow> answered_well e x t"
  by (simp add: answered_well_def)

lemma managing_typed:
  "\<not> sv_HasResponse s \<Longrightarrow> ends (\<lambda>_. answered_well e (ComAddNode d)) (handleAddNode e g r s)"
  "\<not> sv_HasResponse s \<Longrightarrow> ends (\<lambda>_. answered_well e (ComRemoveNode d)) (handleRemoveNode e g r s)"
  "\<not> sv_HasResponse s \<Longrightarrow> ends (\<lambda>_. answered_well e ComGetState) (handleGetState e g s)"
  by (auto simp: handleAddNode_def handleRemoveNode_def handleGetState_def ends_def[of _ "(Ok _, _)"] ends_Err
      answered_well_def[of _ _ "_\<lparr>sv_Response := _\<rparr>"] typed_answer_def manages_nodes_def answers_def
      split: prod.split intro!: ends_then respond_typed)

lemma dispatch_typed:
  assumes "\<not> sv_HasResponse s"
  shows "ends (\<lambda>_. answered_well e x) (dispatch e ip g (com_command x) r s)"
proof (cases "waits_for_answer g (com_command x)")
  case True
  then show ?thesis
    by (cases x) (simp_all add: dispatch_def command_defs waits_for_answer_def answered_def managing_def handlers_typed managing_typed[OF assms])
next
  case False
  then have "\<not> sv_HasResponse (snd (dispatch e ip g (com_command x) r s))" by (simp add: dispatch_mark[OF assms])
  then show ?thesis by (auto simp: ends_def intro: unanswered_well)
qed

text \<open>
  C8: An answer without an error to a command of the client is the encoding of the structure that
  the client decodes for this command, or empty for the two commands that manage nodes.
\<close>

lemma answer_typed:
  assumes "fst (readRequest conn) = Ok (com_command x, request, auth)"
    and "fst (handleConnection e ip conn s) = Ok (Some (1 # b))"
  shows "typed_answer e x b"
proof -
  let ?g = "sn_NodeAuthStr e = auth \<and> 0 < length auth"
  obtain r t where d: "dispatch e ip ?g (com_command x) request (new_request s) = (r, t)" by fastforce
  have typed: "r = Ok () \<Longrightarrow> answered_well e x t"
    using dispatch_typed[of "new_request s" e x ip ?g request] d by (simp add: ends_def)
  have "fst (case r of Err er \<Rightarrow> (if sv_HasResponse t then sendErrorBack e (sn_errtext e er) else Ok None, end_request t)
       | Ok _ \<Rightarrow> (case sv_Response t of Some a \<Rightarrow> (Ok (if sv_HasResponse t then Some (1 # a) else None), end_request t)
                 | None \<Rightarrow> (Ok None, end_request t))
       | Panic \<Rightarrow> (Panic, end_request t) | Diverge \<Rightarrow> (Diverge, end_request t)) = Ok (Some (1 # b))"
    using assms(2) unfolding handleConnection_def assms(1) res.case prod.case Let_def d end_request_fields .
  then show ?thesis using typed
    by (cases r; cases "sv_Response t")
      (auto simp: answered_well_def sendErrorBack_def split: if_splits res.splits)
qed

end
