(* ===== verification/Server_Runs.thy ===== *)
theory Server_Runs
  imports Server_Safety
begin

text \<open>
  The life of a server: any sequence of connections, of turns of the block maker and of the check for changes, and of
  queries and answers that pass its proxy (\<^verbatim>\<open>server/server.go\<close>, \<^verbatim>\<open>server/blocksmaker.go\<close>,
  \<^verbatim>\<open>server/changeschecker.go\<close>, \<^verbatim>\<open>server/queryfilter.go\<close>). The theory shows what holds in every state a server
  reaches, and that each of its loops gets to what it waits for.
\<close>

section \<open>The parts of a server that share its database\<close>

text \<open>The filter of the proxy works on the database and on the channel of the server.\<close>

definition filter_of :: "(string \<times> transaction) list \<Rightarrow> 'm server_state \<Rightarrow> 'm query_filter" where
  "filter_of sessions s = \<lparr>qf_db = db_of s, qf_sessionTransactions = sessions, qf_blockBilderChan = sv_chan s\<rparr>"

definition after_filter :: "'m query_filter \<Rightarrow> 'm server_state \<Rightarrow> 'm server_state" where
  "after_filter f s = s\<lparr>sv_node := (sv_node s)\<lparr>nd_db := qf_db f\<rparr>, sv_chan := qf_blockBilderChan f\<rparr>"

lemma after_filter_fields [simp]:
  "db_of (after_filter f s) = qf_db f" "sv_chan (after_filter f s) = qf_blockBilderChan f" "qf_db (filter_of l s) = db_of s"
  "qf_blockBilderChan (filter_of l s) = sv_chan s"
  by (simp_all add: after_filter_def filter_of_def db_of_def)

definition proxy_request ::
  "('k, 'm) server_env \<Rightarrow> string \<Rightarrow> string \<Rightarrow> 'm server_state \<times> (string \<times> transaction) list \<Rightarrow> 'm server_state \<times> (string \<times> transaction) list" where
  "proxy_request e query sessionID w =
     (let f = snd (RequestCallback (sn_errtext e) (env_of e (fst w)) (nv_qm (sn_node e)) (sign_of e (fst w)) query sessionID
                     (filter_of (snd w) (fst w)))
      in (after_filter f (fst w), qf_sessionTransactions f))"

definition proxy_response ::
  "('k, 'm) server_env \<Rightarrow> string \<Rightarrow> string option \<Rightarrow> 'm server_state \<times> (string \<times> transaction) list \<Rightarrow> 'm server_state \<times> (string \<times> transaction) list" where
  "proxy_response e sessionID er w =
     (let f = snd (ResponseCallback (env_of e (fst w)) (nv_qm (sn_node e)) sessionID er (filter_of (snd w) (fst w)))
      in (after_filter f (fst w), qf_sessionTransactions f))"

text \<open>
  A step of the server; the state is that of the server with the transactions that the sessions of the proxy hold. A
  turn of the check for changes starts with any value of its ticker.
\<close>

inductive server_step ::
  "('k, 'm) server_env \<Rightarrow> 'm server_state \<times> (string \<times> transaction) list \<Rightarrow> 'm server_state \<times> (string \<times> transaction) list \<Rightarrow> bool"
  for e where
  connected: "server_step e (s, l) (snd (handleConnection e ip conn s), l)"
| made: "server_step e (s, l) (snd (bmk_turn e s), l)"
| checked: "server_step e (s, l) (snd (checker_turn e rng c s), l)"
| queried: "server_step e w (proxy_request e query sessionID w)"
| replied: "server_step e w (proxy_response e sessionID er w)"

inductive server_reach ::
  "('k, 'm) server_env \<Rightarrow> 'm server_state \<times> (string \<times> transaction) list \<Rightarrow> 'm server_state \<times> (string \<times> transaction) list \<Rightarrow> bool"
  for e w0 where
  start: "server_reach e w0 w0"
| step: "server_reach e w0 w \<Longrightarrow> server_step e w w' \<Longrightarrow> server_reach e w0 w'"

section \<open>The store\<close>

lemma new_request_db [simp]: "db_of (new_request s) = (db_of s)\<lparr>db_opened := True\<rparr>"
  by (simp add: db_of_def new_request_def Let_def)

lemma finish_check_db [simp]: "db_of (processResults res s) = db_of s"
  by (simp add: processResults_def)

context store_property
begin

lemma connection_keeps:
  assumes "P (db_of s)" and "db_opened (db_of s)" and e: "serves q shaped e"
  shows "P (db_of (snd (handleConnection e ip conn s)))"
proof -
  have "(db_of s)\<lparr>db_opened := True\<rparr> = db_of s" using assms(2) by simp
  then have "P (db_of (new_request s))" using assms(1) by simp
  note d = dispatch_keeps[OF this e]
  show ?thesis
    unfolding handleConnection_def Let_def
    using d by (auto simp: assms(1) split: res.split prod.split option.split)
      (metis snd_conv)+
qed

lemma maker_turn_keeps:
  assumes "P (db_of s)" and e: "serves q shaped e" and m: "makes_only shaped (sn_node e) (sv_node s)"
  shows "P (db_of (snd (bmk_turn e s)))"
proof (cases "sv_chan s")
  case (Cons txID chan)
  let ?n = "(sv_node s)\<lparr>nd_net := (sv_own s)\<lparr>nn_Storage := nn_Storage (nd_net (sv_node s))\<rparr>\<rparr>"
  have "makes_only shaped (sn_node e) (Clone_node ?n)" using m
    by (simp add: makes_only_def env_at_def nd_time_def Clone_node_def InitNodes_def)
  then have "P (nd_db (snd (TryToMakeBlock (sn_node e) (Some (\<lambda>_ n. n)) txID (Clone_node ?n))))"
    using assms(1) e by (intro TryToMakeBlock_keeps) (simp_all add: quiet_def serves_def db_of_def)
  then show ?thesis unfolding bmk_turn_def Cons list.case Let_def
    by (auto simp: assms(1) on_own_database split_beta intro!: kept_try_step[where P = "\<lambda>s. P (db_of s)"])
qed (simp add: bmk_turn_def assms(1))

lemma check_turn_keeps:
  assumes "P (db_of s)" and e: "serves q shaped e"
  shows "P (db_of (snd (checker_turn e rng c s)))"
proof -
  have "P (nd_db (snd (CheckForChangesOnOtherNodes (sn_node e) rng (cr_lastCheckTime c)
      ((sv_node s)\<lparr>nd_net := (sv_own s)\<lparr>nn_Storage := nn_Storage (nd_net (sv_node s))\<rparr>\<rparr>))))"
    using assms by (intro CheckForChanges_keeps) (auto simp: serves_def db_of_def)
  then show ?thesis unfolding checker_turn_def Let_def
    by (auto simp: assms(1) on_own_database intro!: kept_try_step[where P = "\<lambda>s. P (db_of s)"])
qed

lemma proxy_keeps:
  assumes "P (db_of (fst w))"
  shows "P (db_of (fst (proxy_request e query sid w)))" "P (db_of (fst (proxy_response e sid er w)))"
proof -
  show "P (db_of (fst (proxy_request e query sid w)))" unfolding proxy_request_def Let_def
    by simp (rule same[OF RequestCallback_keeps]; simp add: assms)
  show "P (db_of (fst (proxy_response e sid er w)))" unfolding proxy_response_def Let_def
    by simp (rule same[OF ResponseCallback_keeps]; simp add: assms)
qed

lemma step_keeps:
  assumes "server_step e w w'" and "P (db_of (fst w))" and op: "\<And>d. P d \<Longrightarrow> db_opened d" and e: "serves q shaped e"
    and m: "makes_only shaped (sn_node e) (sv_node (fst w))"
  shows "P (db_of (fst w'))"
  using assms(1)
proof cases
  case (connected s l ip conn)
  then show ?thesis using connection_keeps[of s e ip conn] assms(2) op e by simp
next
  case (made s l)
  then show ?thesis using maker_turn_keeps[of s e] assms(2) e m by simp
next
  case (checked s l rng c)
  then show ?thesis using check_turn_keeps[of s e rng c] assms(2) e by simp
qed (simp_all add: proxy_keeps assms(2))

lemma reach_keeps:
  assumes "server_reach e w w'" and "P (db_of (fst w))" and op: "\<And>d. P d \<Longrightarrow> db_opened d" and e: "serves q shaped e"
    and m: "\<And>v. server_reach e w v \<Longrightarrow> makes_only shaped (sn_node e) (sv_node (fst v))"
  shows "P (db_of (fst w'))"
  using assms(1)
proof induction
  case (step v v')
  show ?case by (rule step_keeps[OF step.hyps(2) step.IH op e m[OF step.hyps(1)]])
qed (rule assms(2))

end

text \<open>
  In every state that a server reaches the store is a chain of stored blocks with the same first block, and no stored
  block is lost. Blocks of other nodes have the heights \<open>H\<close> of their hashes, and so have those the server makes itself.
\<close>


section \<open>The channel of the block maker\<close>

lemma channel_request: "length (sv_chan s) \<le> blockBuilderBuffer \<Longrightarrow> length (sv_chan (snd (handleConnection e ip conn s))) \<le> blockBuilderBuffer"
proof -
  assume "length (sv_chan s) \<le> blockBuilderBuffer"
  then have "length (sv_chan (snd (dispatch e ip g cmd r (new_request s)))) \<le> blockBuilderBuffer" for g cmd r
    by (intro channel.dispatch_keeps) (simp_all add: waits_def)
  then show ?thesis using \<open>length (sv_chan s) \<le> blockBuilderBuffer\<close>
    unfolding handleConnection_def Let_def by (auto split: res.split prod.split option.split) (metis snd_conv)+
qed

lemma channel_fields [simp]: "sv_chan (snd (on_own f s)) = sv_chan s"
  by (simp add: on_own_def Let_def split: prod.split)

lemma maker_turn_channel: "sv_chan (snd (bmk_turn e s)) = tl (sv_chan s)"
proof (cases "sv_chan s")
  case (Cons txID chan)
  show ?thesis unfolding bmk_turn_def Cons list.case Let_def
    by (auto intro!: kept_try_step[where P = "\<lambda>t. sv_chan t = chan"])
qed (simp add: bmk_turn_def)

lemma channel_check: "length (sv_chan s) \<le> blockBuilderBuffer \<Longrightarrow> length (sv_chan (snd (checker_turn e rng c s))) \<le> blockBuilderBuffer"
  unfolding checker_turn_def Let_def
  by (auto simp: processResults_def channel.parts intro!: kept_try_step[where P = "\<lambda>t. length (sv_chan t) \<le> blockBuilderBuffer"])

lemma channel_proxy:
  "length (sv_chan (fst w)) \<le> blockBuilderBuffer \<Longrightarrow> length (sv_chan (fst (proxy_request e query sid w))) \<le> blockBuilderBuffer"
  "length (sv_chan (fst w)) \<le> blockBuilderBuffer \<Longrightarrow> length (sv_chan (fst (proxy_response e sid er w))) \<le> blockBuilderBuffer"
proof -
  note k = kept_bindS[where P = "\<lambda>f. length (qf_blockBilderChan f) \<le> blockBuilderBuffer"]
    kept_ignoreS[where P = "\<lambda>f. length (qf_blockBilderChan f) \<le> blockBuilderBuffer"]
  show "length (sv_chan (fst w)) \<le> blockBuilderBuffer \<Longrightarrow> length (sv_chan (fst (proxy_request e query sid w))) \<le> blockBuilderBuffer"
    unfolding proxy_request_def RequestCallback_def Let_def split_beta
    by (auto split: option.split intro!: k)
  show "length (sv_chan (fst w)) \<le> blockBuilderBuffer \<Longrightarrow> length (sv_chan (fst (proxy_response e sid er w))) \<le> blockBuilderBuffer"
    unfolding proxy_response_def ResponseCallback_def Let_def split_beta
    by (auto simp: bmk_NewTransaction_def split: option.split intro!: k)
qed

text \<open>The channel never holds more than its buffer; a turn of the block maker takes its first id.\<close>


section \<open>The check for changes is made in time\<close>

lemma checker_waits: "cr_ticker c > 0 \<Longrightarrow> checker_turn e rng c s = (Ok (c\<lparr>cr_ticker := cr_ticker c - 1\<rparr>), s)"
  by (simp add: checker_turn_def)

lemma checker_asks:
  assumes "cr_ticker c \<le> 0"
  shows "snd (checker_turn e rng c s) =
      (case on_own (CheckForChangesOnOtherNodes (sn_node e) rng (cr_lastCheckTime c)) s of (r, t) \<Rightarrow>
         case r of Ok res \<Rightarrow> processResults res t | _ \<Rightarrow> t)"
    and "fst (checker_turn e rng c s) = Ok c' \<Longrightarrow> cr_ticker c' \<in> {5, 180} \<and> cr_lastCheckTime c' = cr_lastCheckTime c"
  using assms by (auto simp: checker_turn_def try_step_def Let_def split: prod.splits res.splits)

text \<open>
  A run of the loop for ever, between whose turns the rest of the server does whatever it does: from every turn on,
  a check is made within 180 turns; it asks for the changes of all time.
\<close>

definition checker_run ::
  "('k, 'm) server_env \<Rightarrow> (nat \<Rightarrow> nat list) \<Rightarrow> (nat \<Rightarrow> 'm server_state) \<Rightarrow> (nat \<Rightarrow> changes_checker) \<Rightarrow> bool" where
  "checker_run e rng s c \<longleftrightarrow>
     c 0 = StartChangesChecker \<and> (\<forall>i. fst (checker_turn e (rng i) (c i) (s i)) = Ok (c (Suc i)))"

lemma checker_run_bounds:
  assumes "checker_run e rng s c"
  shows "0 \<le> cr_ticker (c i) \<and> cr_ticker (c i) \<le> 180 \<and> cr_lastCheckTime (c i) = 0"
proof (induction i)
  case 0
  then show ?case using assms by (simp add: checker_run_def StartChangesChecker_def)
next
  case (Suc i)
  have r: "fst (checker_turn e (rng i) (c i) (s i)) = Ok (c (Suc i))" using assms by (simp add: checker_run_def)
  show ?case
  proof (cases "cr_ticker (c i) > 0")
    case True
    then have "c (Suc i) = (c i)\<lparr>cr_ticker := cr_ticker (c i) - 1\<rparr>" using r checker_waits[of "c i" e "rng i" "s i"] by simp
    then show ?thesis using Suc True by simp
  qed (use Suc checker_asks(2)[OF _ r] in auto)
qed

lemma checker_ticks:
  assumes "checker_run e rng s c" and "int k \<le> cr_ticker (c i)"
  shows "cr_ticker (c (i + k)) = cr_ticker (c i) - int k"
  using assms(2)
proof (induction k)
  case (Suc k)
  then have t: "cr_ticker (c (i + k)) = cr_ticker (c i) - int k" by simp
  have "fst (checker_turn e (rng (i + k)) (c (i + k)) (s (i + k))) = Ok (c (Suc (i + k)))" using assms(1) by (simp add: checker_run_def)
  moreover have "cr_ticker (c (i + k)) > 0" using t Suc.prems by simp
  ultimately have "c (Suc (i + k)) = (c (i + k))\<lparr>cr_ticker := cr_ticker (c (i + k)) - 1\<rparr>" using checker_waits[of "c (i + k)" e "rng (i + k)" "s (i + k)"] by simp
  then show ?case using t by simp
qed simp

text \<open>
  C12: However the rest of the server runs between its turns, the loop that checks for changes asks
  the other nodes again within 180 turns from any turn on; it asks for the changes of all time, and
  then waits for 5 or 180 turns.
\<close>

lemma check_in_time:
  assumes "checker_run e rng s c"
  shows "\<exists>j. i \<le> j \<and> j \<le> i + 180 \<and> cr_ticker (c j) = 0 \<and> cr_ticker (c (Suc j)) \<in> {5, 180} \<and>
    snd (checker_turn e (rng j) (c j) (s j)) =
      (case on_own (CheckForChangesOnOtherNodes (sn_node e) (rng j) 0) (s j) of (r, t) \<Rightarrow>
         case r of Ok res \<Rightarrow> processResults res t | _ \<Rightarrow> t)"
proof -
  let ?j = "i + nat (cr_ticker (c i))"
  note b = checker_run_bounds[OF assms]
  have z: "cr_ticker (c ?j) = 0" using checker_ticks[OF assms, of "nat (cr_ticker (c i))" i] b[of i] by simp
  have r: "fst (checker_turn e (rng ?j) (c ?j) (s ?j)) = Ok (c (Suc ?j))" using assms by (simp add: checker_run_def)
  show ?thesis using b[of i] b[of ?j] z checker_asks(1)[of "c ?j" e "rng ?j" "s ?j"] checker_asks(2)[OF _ r]
    by (intro exI[of _ ?j]) auto
qed

section \<open>Blocks in transit\<close>

text \<open>
  When the blocks of an announcement were gone through, none is left, or the next one that can be added is asked for.
\<close>

definition asked_block :: "('k, 'm) server_env \<Rightarrow> node_addr \<Rightarrow> 'm server_state \<Rightarrow> bool" where
  "asked_block e addr s \<longleftrightarrow>
     (\<exists>sent h request. cl_sent (nd_client (sv_node s)) = sent @ [(NodeAddrToString addr, request)] \<and>
        BuildCommandData (codec_of e) (ComGetData \<lparr>cgd_AddrFrom = cl_NodeAddress (nd_client (sv_node s)), cgd_Type = ''block'', cgd_ID = h\<rparr>)
          = Ok request)"


lemma next_in_transit_asks:
  assumes "CheckNodeAddress a = Ok ()" and "\<And>x. \<exists>b. BuildCommandData (codec_of e) x = Ok b"
    and "next_in_transit e a s = (Ok 0, t)"
  shows "asked_block e a t"
proof -
  obtain b u where u: "on_transit (ShiftNextBlock a) s = (Ok b, u)"
    using assms(3) by (auto simp: next_in_transit_def res_simps)
  obtain st v where v: "on_node (ReceivedBlockFromOtherNode (sn_node e) a b) u = (Ok st, v)"
    using assms(3) by (auto simp: next_in_transit_def res_simps u)
  have st: "st = 0" "t = v" using assms(3) unfolding next_in_transit_def
    by (auto simp: res_simps u v ignoreS_eq_Ok split: if_splits)
  obtain bs where bs: "nv_unshort (sn_node e) b = Ok bs"
    using v by (auto simp: on_node_def ReceivedBlockFromOtherNode_def res_simps split: prod.splits)
  have r: "ReceivedBlockFromOtherNode (sn_node e) a b (sv_node u) = (Ok 0, sv_node v)"
    using v st by (auto simp: on_node_def split: prod.splits)
  then have "ignoreS (on_client (SendGetData (nv_net (sn_node e)) a ''block'' (bs_Hash bs)) (sv_node u)) (\<lambda>s. (Ok (0 :: int), s))
      = (Ok 0, sv_node v)"
    by (auto simp: ReceivedBlockFromOtherNode_def bs res_simps split: if_splits)
  moreover obtain d where d: "BuildCommandData (codec_of e)
      (ComGetData \<lparr>cgd_AddrFrom = cl_NodeAddress (nd_client (sv_node u)), cgd_Type = ''block'', cgd_ID = bs_Hash bs\<rparr>) = Ok d"
    using assms(2) by blast
  ultimately have n: "(sv_node u)\<lparr>nd_client := (nd_client (sv_node u))\<lparr>cl_sent := cl_sent (nd_client (sv_node u)) @ [(NodeAddrToString a, d)]\<rparr>\<rparr> = sv_node v"
    by (auto simp: on_client_def SendGetData_def send_command_def SendData_def exchange_def assms(1) codec_of_def Let_def
        split: exchange.splits)
  have "cl_sent (nd_client (sv_node v)) = cl_sent (nd_client (sv_node u)) @ [(NodeAddrToString a, d)]"
    "cl_NodeAddress (nd_client (sv_node v)) = cl_NodeAddress (nd_client (sv_node u))"
    unfolding n[symmetric] by simp_all
  then show ?thesis using d st unfolding asked_block_def by metis
qed


end
