(* ===== verification/Chain_Samples.thy ===== *)
theory Chain_Samples
  imports Chain
begin

text \<open>
  Sample data on which the properties are applied: a toy crypto record, three blocks with hashes of two
  bytes, and the database of a node that has the first two on its main chain and the third on a side branch.
\<close>

section \<open>Blocks and transactions\<close>

definition s_crypto :: "unit crypto" where
  "s_crypto = \<lparr>sha256 = (\<lambda>b. take 32 (0 # 0 # 0 # 0 # b @ replicate 32 0)), sha1 = (\<lambda>b. take 20 (b @ replicate 20 0)),
     ripemd160 = (\<lambda>b. take 20 (b @ replicate 20 0)), ecdsa_verify = (\<lambda>x y d r s. r = 1),
     ecdsa_sign = (\<lambda>i k d. Some ([1], [1])), base58_encode = string_of_bytes, base58_decode = bytes_of_string\<rparr>"

definition s_key :: bytes where "s_key = [7, 7]"
definition s_pkh :: bytes where "s_pkh = 0 # 0 # 0 # 0 # 7 # 7 # replicate 14 0"

definition s_tx :: "bytes \<Rightarrow> txinput list \<Rightarrow> sqlupdate \<Rightarrow> transaction" where
  "s_tx i ins q = \<lparr>tx_ID = i, tx_Time = 0, tx_Signature = signatureToDER [1] [1], tx_ByPubKey = s_key, tx_Vin = ins,
     tx_Vout = [\<lparr>vout_Value = 0x4024000000000000, vout_PubKeyHash = s_pkh\<rparr>], tx_SQLCommand = q, tx_SQLBaseTX = []\<rparr>"

text \<open>The input of a coinbase transaction, and a transaction of each block.\<close>

definition s_base :: "txinput list" where "s_base = [\<lparr>vin_Txid = [], vin_Vout = - 1\<rparr>]"
definition s_coinbase :: transaction where "s_coinbase = s_tx [10] s_base emptySQLUpdate"
definition s_coinbase2 :: transaction where "s_coinbase2 = s_tx [20] s_base emptySQLUpdate"
definition s_coinbase3 :: transaction where "s_coinbase3 = s_tx [30] s_base emptySQLUpdate"

definition s_block :: "bytes \<Rightarrow> bytes \<Rightarrow> int \<Rightarrow> transaction list \<Rightarrow> block" where
  "s_block h p k txs = \<lparr>blk_Timestamp = 0, blk_Transactions = txs, blk_PrevBlockHash = p, blk_Hash = h,
     blk_Nonce = 0, blk_Height = k\<rparr>"

definition s_genesis :: block where "s_genesis = s_block [1, 1] [] 0 [s_coinbase]"
definition s_main :: block where "s_main = s_block [2, 2] [1, 1] 1 [s_coinbase2]"
definition s_side :: block where "s_side = s_block [3, 3] [1, 1] 1 [s_coinbase3]"
definition s_new :: block where "s_new = s_block [4, 4] [3, 3] 2 [s_coinbase2]"

definition s_gob :: gob where
  "s_gob = \<lparr>gob_tx = tx_ID, gob_untx = (\<lambda>b. if b = [10] then Ok s_coinbase else Err (ErrNew ''gob'')),
     gob_block = blk_Hash\<rparr>"

text \<open>A transaction that spends the output of the first block.\<close>

definition s_spend :: transaction where
  "s_spend = s_tx [40] [\<lparr>vin_Txid = [10], vin_Vout = 0\<rparr>] emptySQLUpdate"

definition s_unspent :: "bytes \<Rightarrow> bytes \<Rightarrow> txoutput_independent" where
  "s_unspent i h = \<lparr>oi_Value = 0x4024000000000000, oi_DestPubKeyHash = s_pkh, oi_SendPubKeyHash = [], oi_TXID = i,
     oi_OIndex = 0, oi_IsBase = True, oi_BlockHash = h\<rparr>"

text \<open>The tables of transactions are those of the three blocks, the unspent outputs those of the main chain.\<close>

definition s_db :: "string list node_db" where
  "s_db = \<lparr>db_opened = True,
     db_blocks = [([1, 1], BlockData s_genesis), ([2, 2], BlockData s_main), ([3, 3], BlockData s_side),
       (topKey, HashData [2, 2]), (firstKey, HashData [1, 1])],
     db_chain = [([1, 1], [0, 0, 2, 2]), ([2, 2], [1, 1, 0, 0])],
     db_txblocks = [([10], [[1, 1]]), ([20], [[2, 2]]), ([30], [[3, 3]])], db_txspent = [],
     db_unspent = [([10], [s_unspent [10] [1, 1]]), ([20], [s_unspent [20] [2, 2]])],
     db_pool = [], db_rowrefs = [], db_txcache = Some [], db_pkcache = [],
     db_gob = s_gob, db_app = []\<rparr>"

lemmas s_blocks = s_genesis_def s_main_def s_side_def s_new_def s_block_def
lemma s_keys: "topKey = [108]" "firstKey = [102]" by code_simp+
lemma zeros_2: "zeros 2 = [0, 0]" by (simp add: zeros_def numeral_2_eq_2)

lemma s_get:
  "db_GetBlock s_db h = (if h = [1, 1] then Some (BlockData s_genesis) else if h = [2, 2] then Some (BlockData s_main)
     else if h = [3, 3] then Some (BlockData s_side) else if h = topKey then Some (HashData [2, 2])
     else if h = firstKey then Some (HashData [1, 1]) else None)"
  by (simp add: db_GetBlock_def s_db_def)

lemma s_chain: "chain_repr 2 (db_chain s_db) [[1, 1], [2, 2]]"
  by (auto simp: chain_repr_def chain_rec_def s_db_def zeros_2 less_Suc_eq)

lemma s_store: "store_inv 2 s_db [[1, 1], [2, 2]]"
  using s_chain
  by (auto simp: store_inv_def s_get block_ok_def prev_is_def s_keys zeros_2 s_blocks
        split: if_splits) (simp_all add: s_db_def)

lemma s_new_block: "new_block 2 s_db s_new"
  by (simp add: new_block_def s_get s_blocks zeros_2 s_keys)

lemma s_heights: "heights_count s_db [[1, 1], [2, 2]]"
  by (auto simp: heights_count_def s_get s_blocks split: if_splits)

section \<open>The chain on the sample store\<close>

text \<open>The new block is built on the side branch and is higher than the top: the branches are switched.\<close>

lemma AddBlock_outcome_witness:
  "\<exists>db' hs'. AddBlock s_db s_new = (Ok BCBAddState_addedToParallelTop, db') \<and> store_inv 2 db' hs' \<and>
     List.last hs' = [4, 4] \<and> db_GetBlock db' [4, 4] = Some (BlockData s_new)"
proof -
  have "List.last (xs @ [y :: bytes]) = y" "List.last (xs @ x # ys @ [y :: bytes]) = y" for xs x y ys by simp_all
  moreover have "blk_Hash s_new = [4, 4]" "topKey \<noteq> [4, 4]" by (simp_all add: s_blocks s_keys)
  ultimately show ?thesis
    using AddBlock_outcome[OF s_store s_new_block] by (fastforce simp: s_get s_blocks stores_block_def)
qed

lemma DeleteBlock_leaf_witness:
  "\<exists>db'. DeleteBlock s_db = (Ok s_main, db') \<and> store_inv 2 db' [[1, 1]]"
proof -
  have "\<forall>k x. db_GetBlock s_db k = Some (BlockData x) \<longrightarrow> blk_PrevBlockHash x \<noteq> [2, 2]"
    by (auto simp: s_get s_blocks split: if_splits)
  moreover have "db_GetBlock s_db [2, 2] = Some (BlockData s_main)" by (simp add: s_get)
  ultimately show ?thesis using DeleteBlock_leaf[of 2 s_db "[]" "[1, 1]" "[2, 2]" s_main] s_store by auto
qed

lemma s_anc: "anc s_db [3, 3] h \<longleftrightarrow> h = [3, 3] \<or> h = [1, 1]"
proof -
  have "down_path s_db [1, 1] bs h \<longleftrightarrow> bs = [] \<and> h = [1, 1]" for bs h
    by (cases bs) (auto simp: s_get s_blocks)
  then have "down_path s_db [3, 3] bs h \<longleftrightarrow> bs = [] \<and> h = [3, 3] \<or> bs = [s_side] \<and> h = [1, 1]" for bs h
    by (cases bs) (auto simp: s_get s_side_def s_block_def)
  then show ?thesis by (auto simp: anc_def)
qed

lemma ChooseHashUnderTip_spec_witness:
  "ChooseHashUnderTip s_db [[2, 2], [1, 1]] [3, 3] = Ok [1, 1]"
  using ChooseHashUnderTip_spec[OF s_store, of "[3, 3]" s_side "[[2, 2], [1, 1]]"]
  by (auto simp: s_get chosen_def s_anc split: if_splits)

lemma CheckBlockIsInRange_spec_witness:
  "CheckBlockIsInRange s_db [2, 2] [1, 1] [3, 3] = Ok False"
  using CheckBlockIsInRange_spec[OF s_store, of "[3, 3]" s_side "[1, 1]" "[2, 2]"] by (simp add: s_get s_anc)

lemma GetSideBranch_spec_witness:
  "\<exists>sides mains c. GetSideBranch s_db [3, 3] [2, 2] = Ok (sides, mains, c) \<and>
     down_path s_db [3, 3] sides (blk_Hash c) \<and> down_path s_db [2, 2] (rev mains) (blk_Hash c)"
  using GetSideBranch_spec[OF s_store s_heights, of "[3, 3]" s_side "[2, 2]" s_main]
  by (auto simp: s_get s_blocks)

lemma GetNextBlocks_spec_witness:
  "\<exists>bs. GetNextBlocks s_db [1, 1] 5 = Ok (map GetShortCopy bs) \<and> stored_at s_db [[1, 1], [2, 2]] bs"
  using GetNextBlocks_spec[OF s_store, of 0 5] by simp

lemma GetBlockAtHeight_spec_witness: "GetBlockAtHeight s_db 1 = Ok s_main"
  using GetBlockAtHeight_spec[OF s_store s_heights, of 1 s_main] by (simp add: s_get)

lemma GetBranchesReplacement_genesis_witness:
  "GetSideBranch s_db [1, 1] [2, 2] = Err (ErrNew ''Can not do this for genesis block'')"
  using GetBranchesReplacement_genesis[OF s_store, of "[1, 1]" s_genesis "[2, 2]" s_main] by (simp add: s_get s_blocks)

end
