(* ===== verification/Node_Samples.thy ===== *)
theory Node_Samples
  imports QueryManager Chain_Samples
begin

text \<open>
  The properties applied to sample data: the store of \<open>Chain_Samples\<close>, a server of the application's tables that
  records the statements it runs (\<open>s_sql\<close>), a pool with one transaction, and a block that the sample rules accept.
  Float operations are settled by the lemmas of \<open>Go_Float\<close>, the rest is evaluated.
\<close>

section \<open>Library and chain\<close>

lemma NewMerkleTree_inject_witness: "[[1], [2 :: 8 word]] = [[1], [2]]"
proof -
  have "merkle_inputs s_crypto [[1], [2]] = [[1], [2], (0 # 0 # 0 # 0 # 1 # replicate 27 0) @ 0 # 0 # 0 # 0 # 2 # replicate 27 0]"
    by code_simp
  then show ?thesis
    using NewMerkleTree_inject[of "[[1], [2 :: 8 word]]" "[[1], [2]]" s_crypto]
    by (simp add: s_crypto_def NewMerkleTree_def merkle_even_def index_def inj_on_def)
qed

lemma signature_roundtrip_witness: "signatureFromDER (signatureToDER [7] [1, 2]) = Ok ([7], [1, 2])"
  using signature_roundtrip[of "[7]" "[1, 2]"] by simp

lemma bytes_of_string_of_bytes: "bytes_of_string (string_of_bytes b) = b"
proof -
  have "word_of_nat (unat w mod 256) = w" for w :: "8 word" 
  proof -
    have "unat w < 2 ^ LENGTH(8)" by (rule unsigned_less)
    then show ?thesis by simp
  qed
  then show ?thesis by (induction b) (simp_all add: string_of_bytes_def bytes_of_string_def)
qed

lemma address_roundtrip_witness: "AddresToPubKeyHash s_crypto (PubKeyHashToAddres s_crypto s_pkh) = Ok s_pkh"
  using address_roundtrip[of s_crypto s_pkh] by (simp add: s_crypto_def s_pkh_def bytes_of_string_of_bytes)

lemma DBQuote_roundtrip_witness: "unquote (DBQuote quotePairs ''a'') = ''a''"
  using DBQuote_roundtrip[of quotePairs "''a''"] by (simp add: quotePairs_def)

definition s_qp :: query_parsed where
  "s_qp = new_query \<lparr>sp_originalQuery = ''drop table t'', sp_canonicalQuery = ''drop table t'', sp_kind = QueryKindDrop,
     sp_subkind = [], sp_table = ''t'', sp_comments = [], sp_updateColumns = [], sp_conditonText = [],
     sp_conditionColumns = []\<rparr>"

section \<open>The environment of a node\<close>

definition s_sql :: "string list sql_env" where
  "s_sql = \<lparr>sq_exec = (\<lambda>q m. (Ok (), if q = ''undo'' then tl m else q # m)),
     sq_query = (\<lambda>m q. Ok ([], [])), sq_order = unescapes, sq_compile = (\<lambda>_. None)\<rparr>"

definition s_env :: "(unit, string list) txm_env" where
  "s_env = \<lparr>te_crypto = s_crypto, te_sql = s_sql, te_coins = 0x4024000000000000, te_sort_outs = id, te_sort_txs = id,
     te_now = 0\<rparr>"

section \<open>Amounts\<close>

lemma s_amounts:
  "fdecode 0x4024000000000000 = FNum 5629499534213120 (- 49)" "fdecode 0x4034000000000000 = FNum 5629499534213120 (- 48)"
  by (simp_all add: fdecode_def fsign_def)

lemma s_sums [simp]:
  "fadd 0 0x4024000000000000 = 0x4024000000000000" "fadd 0 0x4034000000000000 = 0x4034000000000000"
  "fsub 0x4024000000000000 0x4024000000000000 = 0" "fsub 0x4034000000000000 0x4034000000000000 = 0"
  by (simp_all add: fadd_0_left[OF s_amounts(1)] fadd_0_left[OF s_amounts(2)] fsub_self[OF s_amounts(1)] fsub_self[OF s_amounts(2)])

lemma s_double_sum [simp]: "fadd 0x4024000000000000 0x4024000000000000 = 0x4034000000000000" 
  by code_simp

lemma s_unit: "fdecode CurrencySmallestUnit = FNum 6044629098073146 (- 79)"
  by (simp add: fdecode_def fsign_def CurrencySmallestUnit_def)

lemma s_zero: "fdecode 0 = FNum 0 (- 1074)" by (simp add: fdecode_def fsign_def)

lemma s_compare [simp]:
  "\<not> flt 0x4024000000000000 CurrencySmallestUnit" "\<not> flt 0x4034000000000000 CurrencySmallestUnit"
  by (simp_all add: flt_def s_amounts s_unit dy_less_def dy_align_def)

lemma s_compare0 [simp]: "\<not> fle CurrencySmallestUnit (fabs 0)"
  by (simp add: fle_def feq_def fabs_def fsign_def flt_def s_zero s_unit dy_less_def dy_align_def)

section \<open>Verification\<close>

lemma s_spend_inputs: "inputs_state s_db [] 0 (tx_Vin s_spend) ([], []) = Ok ([(0, Some s_coinbase)], [])"
  by code_simp

lemma s_spend_accepted: "tx_accepted s_crypto s_spend [(0, Some s_coinbase)]"
proof -
  have "VerifySignature s_crypto (tx_Signature s_spend) (sign_data s_spend) (tx_ByPubKey s_spend) = Ok True" by code_simp
  moreover have "spent_outputs [(0, Some s_coinbase)] 0 (tx_Vin s_spend) = Some (tx_Vout s_coinbase)" by code_simp
  moreover have "HashPubKey s_crypto s_key = s_pkh" by code_simp
  moreover have "prev_has_id [(0, Some s_coinbase)] 0" by code_simp
  ultimately show ?thesis
    by (simp add: tx_accepted_def s_spend_def s_coinbase_def s_tx_def fsum_def)
qed

lemma s_spend_run:
  "verify_transaction s_env opn s_spend prev [] TXFlagsNothing s_db = (Ok True, s_db)"
proof -
  have "\<not> IsCoinbaseTransfer s_spend" "\<not> IsSQLCommand s_spend" by code_simp+
  moreover from this have "Verify s_crypto s_spend [(0, Some s_coinbase)] c = Ok ()" for c
    using s_spend_accepted by (simp add: Verify_Ok_iff)
  ultimately show ?thesis
    using s_spend_inputs by (simp add: verify_transaction_def getCurrencyInputTransactionsState_def s_env_def)
qed


definition s_cfg :: consensus_config where
  "s_cfg = NewConfigDefault\<lparr>cfg_Settings := (cfg_Settings NewConfigDefault)\<lparr>ps_MaxMinNumberTransactionInBlock := 1\<rparr>\<rparr>"
definition s_cb :: transaction where "s_cb = s_tx [50] s_base emptySQLUpdate"
definition s_vblock :: block where
  "s_vblock = s_block [] [2, 2] 2 [s_spend, s_cb]"

lemma be_nat_less: "be_nat b < 256 ^ length b"
proof (induction b rule: rev_induct)
  case (snoc w b)
  have "unat w < 2 ^ LENGTH(8)" by (rule unsigned_less)
  with snoc show ?case by (simp add: be_nat_def)
qed (simp add: be_nat_def)

lemma s_target: "be_nat (sha256 s_crypto x) < 2 ^ 232"
proof -
  have "be_nat (sha256 s_crypto x) = be_nat (take 28 (x @ replicate 32 0))" by (simp add: s_crypto_def be_nat_def)
  also have "\<dots> < 256 ^ length (take 28 (x @ replicate 32 (0 :: 8 word)))" by (rule be_nat_less)
  also have "length (take 28 (x @ replicate 32 (0 :: 8 word))) = 28" by simp
  finally show ?thesis by simp
qed

lemma s_pow:
  "NewProofOfWork (Some s_vblock) (cfg_Settings s_cfg) =
     Ok \<lparr>pow_block = Some s_vblock, pow_target = 2 ^ 232, pow_settings_of = cfg_Settings s_cfg\<rparr>"
  by (simp add: NewProofOfWork_def s_cfg_def NewConfigDefault_def completeSettings_def emptySettings_def s_vblock_def
    s_block_def Let_def)

lemma s_merkle: "\<exists>h. HashTransactions s_crypto s_vblock = Ok h"
proof -
  have "(case HashTransactions s_crypto s_vblock of Ok h \<Rightarrow> True | _ \<Rightarrow> False)" by code_simp
  then show ?thesis by (auto split: res.splits)
qed

lemma s_valid:
  "bindR (NewProofOfWork (Some s_vblock) (cfg_Settings s_cfg)) (Validate s_crypto) = Ok True"
  using s_merkle s_target by (auto simp: s_pow Validate_def prepareData_def)

lemma s_not_coinbase: "\<not> IsCoinbaseTransfer s_spend" "\<not> IsSQLCommand s_spend"
  by code_simp+

lemma s_spend_top: "verify_transaction s_env opn s_spend prev [2, 2] flags s_db = (Ok True, s_db)"
proof -
  have "inputs_state s_db [2, 2] 0 (tx_Vin s_spend) ([], []) = Ok ([(0, Some s_coinbase)], [])" by code_simp
  moreover have "\<not> IsCoinbaseTransfer s_spend" "\<not> IsSQLCommand s_spend" by code_simp+
  moreover from this have "Verify s_crypto s_spend [(0, Some s_coinbase)] c = Ok ()" for c
    using s_spend_accepted by (simp add: Verify_Ok_iff)
  ultimately show ?thesis
    by (simp add: verify_transaction_def getCurrencyInputTransactionsState_def s_env_def)
qed

lemma s_coinbase_top: "verify_transaction s_env opn s_cb prev [2, 2] flags s_db = (Ok True, s_db)"
proof -
  have "IsCoinbaseTransfer s_cb" "\<not> IsSQLCommand s_cb"
    "\<not> fis_nan 0x4024000000000000" by code_simp+
  moreover from this have "Verify s_crypto s_cb t 0x4024000000000000 = Ok ()" for t
    by (simp add: Verify_coinbase_Ok_iff s_cb_def s_tx_def feq_def flt_def dy_less_def s_amounts)
  ultimately show ?thesis
    by (simp add: verify_transaction_def getCurrencyInputTransactionsState_def s_env_def)
qed

definition s_bm :: node_block_maker where
  "s_bm = \<lparr>bm_MinterAddress = PubKeyHashToAddres s_crypto s_pkh, bm_PreparedBlock = None, bm_config = s_cfg\<rparr>"

lemma s_txm: "txm_of s_cfg s_env = s_env"
  by (simp add: txm_of_def s_cfg_def NewConfigDefault_def ten_def s_env_def)

lemma s_state: "GetState s_db = Ok ([2, 2], 1)"
  by code_simp

lemma s_bm_verify:
  assumes "tx \<in> {s_spend, s_cb}"
  shows "bm_VerifyTransaction s_env s_cfg tx (Some prev) [2, 2] h flags s_db = (Ok (), s_db)"
proof -
  have "\<not> IsSQLCommand s_spend" "\<not> IsSQLCommand s_cb" by code_simp+
  then show ?thesis using assms s_spend_top s_coinbase_top
    by (auto simp: bm_VerifyTransaction_def s_state s_txm txm_VerifyTransaction_def)
qed

lemma s_vblock_verified: "VerifyBlock s_env s_cfg s_vblock 0 s_db = (Ok (), s_db)"
proof -
  have "getTransactionNumbersLimits s_db s_cfg (Some s_vblock) = Ok (1, 10000)"
    by (simp add: getTransactionNumbersLimits_def NewProofOfWork_def s_cfg_def NewConfigDefault_def completeSettings_def
      emptySettings_def s_vblock_def s_block_def Let_def GetTransactionLimitsPerBlock_def)
  moreover have "blk_Transactions s_vblock = [s_spend, s_cb]" "blk_PrevBlockHash s_vblock = [2, 2]"
    by (simp_all add: s_vblock_def s_block_def)
  moreover have "\<not> IsCoinbaseTransfer s_spend" "IsCoinbaseTransfer s_cb" by code_simp+
  moreover have "te_crypto s_env = s_crypto" by (simp add: s_env_def)
  ultimately show ?thesis using s_valid s_bm_verify
    by (simp add: VerifyBlock_def has_flag_def)
qed

lemma VerifyTransaction_sound_witness:
  "\<exists>inputTXs. tx_accepted s_crypto s_spend inputTXs \<and>
     backed s_db [2, 2] (source (open_pool s_db) (Some [])) (tx_Vin s_spend) inputTXs"
proof -
  have "txm_VerifyTransaction s_env s_spend (Some []) [2, 2] 0 s_db = (Ok True, s_db)"
    using s_spend_top by (simp add: txm_VerifyTransaction_def)
  from VerifyTransaction_sound[OF this] show ?thesis
    by (simp add: s_not_coinbase) (simp add: s_env_def)
qed

lemma VerifyBlock_sound_witness:
  "block_tx_valid s_env s_db [2, 2] [] s_spend \<and> block_tx_valid s_env s_db [2, 2] [s_spend] s_cb"
  using VerifyBlock_sound[OF s_vblock_verified] by (auto simp: s_txm s_vblock_def s_block_def less_Suc_eq numeral_2_eq_2)

definition s_double :: transaction where
  "s_double = s_spend\<lparr>tx_Vin := tx_Vin s_spend @ tx_Vin s_spend,
     tx_Vout := [\<lparr>vout_Value = 0x4034000000000000, vout_PubKeyHash = s_pkh\<rparr>]\<rparr>"

lemma double_input_verified_witness:
  "txm_VerifyTransaction s_env s_double None [2, 2] 0 s_db = (Ok True, s_db)"
proof -
  have "VerifySignature s_crypto (tx_Signature s_double) (sign_data s_double) (tx_ByPubKey s_double) = Ok True" by code_simp
  moreover have "spent_outputs [(0, Some s_coinbase), (1, Some s_coinbase)] 0 (tx_Vin s_double) =
      Some (tx_Vout s_coinbase @ tx_Vout s_coinbase)" by code_simp
  moreover have "HashPubKey s_crypto s_key = s_pkh" by code_simp
  moreover have "prev_has_id [(0, Some s_coinbase), (1, Some s_coinbase)] 0"
    "prev_has_id [(0, Some s_coinbase), (1, Some s_coinbase)] 1" by code_simp+
  ultimately have "tx_accepted (te_crypto s_env) s_double [(0, Some s_coinbase), (1, Some s_coinbase)]"
    by (simp add: tx_accepted_def s_double_def s_spend_def s_coinbase_def s_tx_def fsum_def s_env_def less_Suc_eq)
  moreover have "input_on_chain s_db [2, 2] \<lparr>vin_Txid = [10], vin_Vout = 0\<rparr> s_coinbase"
  proof -
    have "inputs_state s_db [2, 2] 0 [\<lparr>vin_Txid = [10], vin_Vout = 0\<rparr>] ([], []) = Ok ([(0, Some s_coinbase)], [])" by code_simp
    then show ?thesis unfolding inputs_state_step by (auto simp: table_simps)
  qed
  moreover have "\<not> IsCoinbaseTransfer s_double" "\<not> IsSQLCommand s_double" by code_simp+
  ultimately show ?thesis using double_input_verified[of s_double "\<lparr>vin_Txid = [10], vin_Vout = 0\<rparr>"]
    by (simp add: s_double_def s_spend_def s_tx_def)
qed

section \<open>Proof of work, rules, index\<close>

lemma s_conn: "getConnection s_db = Ok ()" "db_opened s_db"
  by (simp_all add: getConnection_def s_db_def)

lemma s_main_pre:
  assumes "pow_block pow = Some s_main"
  shows "\<exists>pre. prepareData s_crypto pow = Ok pre"
proof -
  have "(case HashTransactions s_crypto s_main of Ok h \<Rightarrow> True | _ \<Rightarrow> False)" by code_simp
  then show ?thesis using assms by (auto simp: prepareData_def split: res.splits)
qed

lemma Run_finds_witness:
  "\<exists>n h. Run 1 s_crypto \<lparr>pow_block = Some s_main, pow_target = 2 ^ 232, pow_settings_of = emptySettings\<rparr> = Ok (n, h)"
proof -
  obtain pre where "prepareData s_crypto \<lparr>pow_block = Some s_main, pow_target = 2 ^ 232, pow_settings_of = emptySettings\<rparr> = Ok pre"
    using s_main_pre by fastforce
  from Run_finds[OF this, of 0 1] s_target show ?thesis by (auto simp: maxNonce_def)
qed

lemma CompleteBlock_valid_witness:
  "\<exists>b' pow. NewProofOfWork (Some b') (cfg_Settings s_cfg) = Ok pow \<and> Validate s_crypto pow = Ok True"
proof -
  obtain pre where pre: "prepareData s_crypto \<lparr>pow_block = Some s_main, pow_target = 2 ^ 232,
      pow_settings_of = completeSettings (cfg_Settings s_cfg)\<rparr> = Ok pre"
    using s_main_pre by fastforce
  let ?bm = "s_bm\<lparr>bm_PreparedBlock := Some s_main\<rparr>"
  have pow: "NewProofOfWork (Some s_main) (cfg_Settings s_cfg) = Ok \<lparr>pow_block = Some s_main, pow_target = 2 ^ 232,
      pow_settings_of = completeSettings (cfg_Settings s_cfg)\<rparr>"
    by (simp add: NewProofOfWork_def s_cfg_def NewConfigDefault_def completeSettings_def emptySettings_def s_main_def
      s_block_def Let_def)
  obtain b' bm' where "CompleteBlock s_crypto 1 ?bm = Ok (b', bm')" "blk_Nonce b' = 0"
    using pow pre s_target[of "addNonceToPrepared pre 0"]
    by (auto simp: CompleteBlock_def s_bm_def Run_def maxNonce_def pow_loop_step Let_def simp del: power_numeral)
  with CompleteBlock_valid[OF this(1)] show ?thesis by (auto simp: maxNonce_def s_bm_def)
qed

lemma CheckExecutePermissions_spec_witness:
  "CheckExecutePermissions \<lparr>vm_previousBlockHeigh = 1, vm_config = NewConfigDefault\<lparr>cfg_AllowTableDrop := False\<rparr>\<rparr> s_qp [] = Ok False"
proof -
  have "IsUpdate s_qp" "\<not> config_allows (NewConfigDefault\<lparr>cfg_AllowTableDrop := False\<rparr>) (qp_kind s_qp)" by code_simp+
  then show ?thesis by (simp add: CheckExecutePermissions_spec NewConfigDefault_def)
qed

lemma verifyTransactionPaidSQL_Ok_witness: "verifyTransactionPaidSQL s_crypto s_cfg s_spend s_qp 1 = Ok ()"
  using s_not_coinbase by (simp add: verifyTransactionPaidSQL_Ok)

lemma index_remove_add_witness:
  "\<exists>db1 db2. index_BlockAdded s_vblock s_db = (Ok (), db1) \<and> index_BlockRemoved s_vblock db1 = (Ok (), db2) \<and>
     tget (db_txblocks db2) = tget (db_txblocks s_db)"
proof -
  have "blk_Hash s_vblock \<notin> set (tlist (db_txblocks s_db) k)" for k
    by (simp add: s_db_def tlist_def s_vblock_def s_block_def)
  moreover have "no_empty (db_txblocks s_db)" "no_empty (db_txspent s_db)" by (auto simp: s_db_def no_empty_def)
  moreover have "r \<notin> set (tlist (db_txspent s_db) k)" for k r by (simp add: s_db_def tlist_def)
  ultimately obtain db1 db2 where "index_BlockAdded s_vblock s_db = (Ok (), db1)" "index_BlockRemoved s_vblock db1 = (Ok (), db2)"
    "tget (db_txblocks db2) = tget (db_txblocks s_db)"
    using index_remove_add[of s_db s_vblock] s_conn by blast
  then show ?thesis by blast
qed

lemma UpdateOnBlockAdd_refines_witness:
  "\<exists>t. uo_UpdateOnBlockAdd s_crypto s_vblock s_db = (Ok (), s_db\<lparr>db_unspent := t\<rparr>)"
  using UpdateOnBlockAdd_refines[of s_db s_crypto s_vblock] by (auto simp: s_db_def)

lemma ChooseSpendableOutputs_spec_witness:
  "\<exists>a l. ChooseSpendableOutputs id s_db s_pkh 0x4024000000000000 [] = Ok (a, l) \<and>
    set l \<subseteq> {out \<in> set (all_outputs s_db). OI_IsLockedWithKey out s_pkh}"
proof -
  have "\<exists>r. ChooseSpendableOutputs id s_db s_pkh 0x4024000000000000 [] = Ok r"
    by (simp add: ChooseSpendableOutputs_def s_conn Let_def)
  then obtain a l where "ChooseSpendableOutputs id s_db s_pkh 0x4024000000000000 [] = Ok (a, l)" by auto
  with ChooseSpendableOutputs_spec[OF this] show ?thesis by fastforce
qed

section \<open>The pool\<close>

text \<open>A pool with one transaction, an SQL one that undoes its query, and a transaction in conflict with it.\<close>

definition s_update :: sqlupdate where
  "s_update = \<lparr>su_ReferenceID = [9], su_Query = bytes_of_string ''drop table t'', su_RollbackQuery = bytes_of_string ''undo'',
     su_PrevTransaction = []\<rparr>"

definition s_sqltx :: "bytes \<Rightarrow> transaction" where
  "s_sqltx i = (s_tx i [\<lparr>vin_Txid = [10], vin_Vout = 0\<rparr>] s_update)\<lparr>tx_SQLBaseTX := [5]\<rparr>"

definition s_pool :: "string list node_db" where
  "s_pool = s_db\<lparr>db_pool := [([40], s_sqltx [40])], db_txcache := Some [([40], s_sqltx [40])], db_app := [''drop table t'']\<rparr>"

lemma s_sqltx_simps [simp]:
  "tx_ID (s_sqltx i) = i" "tx_Vin (s_sqltx i) = [\<lparr>vin_Txid = [10], vin_Vout = 0\<rparr>]" "IsSQLCommand (s_sqltx i)"
  "tx_SQLCommand (s_sqltx i) = s_update" "\<not> IsCoinbaseTransfer (s_sqltx i)"
  by (simp_all add: s_sqltx_def s_tx_def IsSQLCommand_iff IsCoinbaseTransfer_iff s_update_def)

lemma s_conflict: "conflicts_with (s_sqltx [41]) (s_sqltx [40])"
  by (simp add: conflicts_with_def share_input_def)

lemma s_pool_fields [simp]:
  "db_opened s_pool" "db_pool s_pool = [([40], s_sqltx [40])]" "db_txcache s_pool = Some [([40], s_sqltx [40])]"
  "db_app s_pool = [''drop table t'']"
  by (simp_all add: s_pool_def s_conn)

lemma s_pool_ok: "pool_ok s_pool" "pool_free s_pool"
  by (simp_all add: pool_ok_def pool_free_def)

lemma s_open_pool: "open_pool s_pool = s_pool"
  by (simp add: open_pool_def renewCacheIfNeeded_def)

lemma s_answers: "server_answers s_sql"
  by (simp add: server_answers_def s_sql_def)

lemma pool_Add_conflict_free_witness:
  "fst (pool_Add (s_sqltx [41]) s_pool) \<noteq> Ok ()"
proof -
  obtain r db' where add: "pool_Add (s_sqltx [41]) s_pool = (r, db')" by fastforce
  show ?thesis using pool_Add_conflict_free[OF s_pool_ok(1) _ s_pool_ok(2) add] s_conflict add by simp
qed

lemma DetectConflicts_split_witness:
  "snd (DetectConflicts [s_spend, s_sqltx [41]]) \<noteq> []"
proof -
  obtain good bad where d: "DetectConflicts [s_spend, s_sqltx [41]] = (good, bad)" by fastforce
  show ?thesis using DetectConflicts_split[OF d] d by (simp add: inputs_of_def s_spend_def s_tx_def)
qed

lemma rollbackConflicting_spec_witness:
  "filter (\<lambda>p. conflicts_with (s_sqltx [41]) (snd p)) (db_pool (snd (rollbackConflictingFromPool s_env [s_sqltx [41]] s_pool))) = []"
proof -
  obtain r db' where run: "rollbackConflictingFromPool s_env [s_sqltx [41]] s_pool = (r, db')" by fastforce
  have "fst (rollbackConflictingFromPool s_env [s_sqltx [41]] s_pool) = Ok ()" by code_simp
  moreover have "pool_good s_pool" "server_answers (te_sql s_env)"
    using s_pool_ok s_answers by (simp_all add: pool_good_def s_env_def)
  ultimately show ?thesis using rollbackConflicting_spec[OF _ _ run] run by (simp add: filter_empty_conv)
qed

section \<open>Queries\<close>

definition s_qm :: "unit query_manager" where
  "s_qm = \<lparr>qm_pubKey = [], qm_privKey = (), qm_config = s_cfg\<rparr>"

definition s_coinquery :: transaction where
  "s_coinquery = s_coinbase\<lparr>tx_SQLCommand := s_update\<rparr>"

lemma unchecked_coinbase_query_witness:
  "fst (processQueryWithSignature s_env s_qm [10] [] 0 s_db) =
     Ok (CompleteTransaction s_crypto s_gob s_coinbase [])"
proof -
  have "IsCoinbaseTransfer s_coinbase" by code_simp
  moreover have "gob_untx (db_gob s_db) [10] = Ok s_coinbase" by (simp add: s_db_def s_gob_def)
  ultimately show ?thesis using unchecked_coinbase_query[of s_db "[10]" s_coinbase s_env s_qm "[]" 0]
    by (simp add: s_env_def s_db_def)
qed

lemma s_drop_query:
  "\<exists>su. ExecuteQuery s_sql s_pool ''drop table t'' = (Ok su, s_pool\<lparr>db_app := ''drop table t'' # db_app s_pool\<rparr>)"
proof -
  have "(case Parse unescapes ''drop table t'' of
      Ok q \<Rightarrow> sp_kind q = QueryKindDrop \<and> sp_comments q = [] \<and> sp_canonicalQuery q = ''drop table t'' | _ \<Rightarrow> False)"
    by code_simp
  then obtain q where q: "Parse unescapes ''drop table t'' = Ok q" "sp_kind q = QueryKindDrop" "sp_comments q = []"
    "sp_canonicalQuery q = ''drop table t''"
    by (auto split: res.splits)
  then obtain qp where "ParseQuery s_sql s_pool ''drop table t'' 0 = (Ok qp, s_pool)" "qp_kind qp = QueryKindDrop"
    "qp_SQL qp = ''drop table t''"
    using kind_neqs
    by (auto simp: ParseQuery_def s_sql_def checkQuerySyntax_def patchRowInfo_def qp_kind_def new_query_def
        parseInfoFromComments_def Let_def)
  then show ?thesis using kind_neqs
    by (simp add: ExecuteQuery_def ExecuteParsedQuery_def MakeSQLUpdateStructure_def buildRollbackSQL_def ExecuteSQL_def
        s_sql_def)
qed

lemma AddNewTransaction_executes_first_witness:
  "\<exists>d. AddNewTransaction s_env (s_sqltx [41]) TXFlagsExecute s_pool = (Err (ErrNew ''Can not add TX to the pool''), d) \<and>
     db_app d = [''drop table t'', ''drop table t'']"
proof -
  let ?d = "s_pool\<lparr>db_app := ''drop table t'' # db_app s_pool\<rparr>"
  obtain su where "ExecuteQuery (te_sql s_env) s_pool (GetSQLQuery (s_sqltx [41])) = (Ok su, ?d)"
    using s_drop_query by (auto simp: GetSQLQuery_def s_update_def s_env_def)
  moreover have "open_pool ?d = ?d" "pool_good ?d"
    using s_pool_ok by (simp_all add: open_pool_def renewCacheIfNeeded_def pool_good_def)
  moreover have "([40], s_sqltx [40]) \<in> set (db_pool ?d)" "conflicts_with (s_sqltx [41]) (snd ([40], s_sqltx [40]))"
    "has_flag TXFlagsExecute TXFlagsExecute" "\<not> has_flag TXFlagsExecute TXFlagsNoPool"
    using s_conflict by (simp_all add: has_flag_def tx_flags)
  ultimately show ?thesis
    using AddNewTransaction_executes_first[of "s_sqltx [41]" TXFlagsExecute s_env s_pool su ?d "([40], s_sqltx [40])"]
    by auto
qed


section \<open>A block from the pool\<close>

definition s_pooled :: "string list node_db" where
  "s_pooled = s_db\<lparr>db_pool := [([40], s_spend)], db_txcache := Some [([40], s_spend)]\<rparr>"

lemma s_pooled_fields [simp]:
  "db_opened s_pooled" "db_pool s_pooled = [([40], s_spend)]" "db_txcache s_pooled = Some [([40], s_spend)]"
  "db_gob s_pooled = s_gob"
  by (simp_all add: s_pooled_def s_conn) (simp add: s_db_def)

lemma s_pooled_spend: "verify_transaction s_env opn s_spend prev [] 0 s_pooled = (Ok True, s_pooled)"
proof -
  have "inputs_state s_pooled [] 0 (tx_Vin s_spend) ([], []) = Ok ([(0, Some s_coinbase)], [])" by code_simp
  moreover have "Verify s_crypto s_spend [(0, Some s_coinbase)] c = Ok ()" for c
    using s_spend_accepted s_not_coinbase by (simp add: Verify_Ok_iff)
  ultimately show ?thesis using s_not_coinbase
    by (simp add: verify_transaction_def getCurrencyInputTransactionsState_def s_env_def)
qed

lemma s_from_pool:
  "GetUnapprovedTransactionsForNewBlock s_env 1 s_pooled = (Ok [s_spend], s_pooled)"
proof -
  have "open_pool s_pooled = s_pooled" by (simp add: open_pool_def renewCacheIfNeeded_def)
  moreover have "pool_GetTransactions id s_pooled 1 = Ok [s_spend]" by code_simp
  moreover have "DetectConflicts [s_spend] = ([s_spend], [])" by code_simp
  moreover have "te_sort_txs s_env = id" by (simp add: s_env_def)
  ultimately show ?thesis using s_pooled_spend
    by (simp add: GetUnapprovedTransactionsForNewBlock_def tx_flags)
qed


section \<open>References of rows\<close>

lemma rr_cancel_deletes_witness:
  "tget (db_rowrefs (snd (rr_cancel_tx (s_sqltx [41]) (s_db\<lparr>db_rowrefs := [([9], [41])]\<rparr>)))) [9] = None"
proof -
  let ?db = "s_db\<lparr>db_rowrefs := [([9], [41])]\<rparr>"
  have "index_GetTransaction ?db [5] [] = Ok None" by code_simp
  moreover have "tx_SQLBaseTX (s_sqltx [41]) = [5]" by (simp add: s_sqltx_def)
  ultimately obtain db' where run: "rr_cancel_tx (s_sqltx [41]) ?db = (Ok (), db')"
    using that s_conn by (simp add: rr_cancel_tx_def s_update_def Let_def)
  have "tget (db_rowrefs db') (su_ReferenceID (tx_SQLCommand (s_sqltx [41]))) = None"
    by (rule rr_cancel_deletes[OF _ _ _ run]) (simp_all add: s_update_def)
  then show ?thesis using run by (simp add: s_update_def)
qed

end
