(* ===== verification/Machine_Samples.thy ===== *)
theory Machine_Samples
  imports Node_Machine Node_Samples Node_Net
begin

text \<open>
  The properties of the node applied to the sample store: a block with a transaction and its coinbase that is
  verified and becomes the top, and a node that is started with the sample genesis block and takes a few steps.
\<close>

definition s_top :: block where "s_top = s_block [5, 5] [2, 2] 2 [s_spend, s_cb]"

lemma s_top_pow: "bindR (NewProofOfWork (Some s_top) (cfg_Settings s_cfg)) (Validate s_crypto) = Ok True"
proof -
  have "(case HashTransactions s_crypto s_top of Ok h \<Rightarrow> True | _ \<Rightarrow> False)" by code_simp
  then obtain h where "HashTransactions s_crypto s_top = Ok h" by (auto split: res.splits)
  then show ?thesis using s_target
    by (auto simp: NewProofOfWork_def s_cfg_def NewConfigDefault_def completeSettings_def emptySettings_def s_top_def
      s_block_def Let_def Validate_def prepareData_def)
qed

lemma s_top_verified: "VerifyBlock s_env s_cfg s_top TXFlagsSkipSQLBaseCheckIfNotOnTop s_db = (Ok (), s_db)"
proof -
  have "getTransactionNumbersLimits s_db s_cfg (Some s_top) = Ok (1, 10000)"
    by (simp add: getTransactionNumbersLimits_def NewProofOfWork_def s_cfg_def NewConfigDefault_def completeSettings_def
      emptySettings_def s_top_def s_block_def Let_def GetTransactionLimitsPerBlock_def)
  moreover have "blk_Transactions s_top = [s_spend, s_cb]" "blk_PrevBlockHash s_top = [2, 2]"
    by (simp_all add: s_top_def s_block_def)
  moreover have "\<not> IsCoinbaseTransfer s_spend" "IsCoinbaseTransfer s_cb"
    "has_flag TXFlagsSkipSQLBaseCheckIfNotOnTop TXFlagsSkipSQLBaseCheckIfNotOnTop" by code_simp+
  moreover have "te_crypto s_env = s_crypto" by (simp add: s_env_def)
  ultimately show ?thesis using s_top_pow s_bm_verify s_state
    by (simp add: VerifyBlock_def)
qed

lemma s_top_shape: "block_shape 2 s_db s_top"
  by (simp add: block_shape_def s_top_def s_block_def s_get s_main_def zeros_2)

lemma s_top_added: "\<exists>d. node_AddBlock s_env s_qm 0 s_top s_db = (Ok BCBAddState_addedToTop, d)"
proof -
  have "CheckBlockState s_db (blk_Hash s_top) (blk_PrevBlockHash s_top) = Ok 0" by code_simp
  then have nbc: "nbc_AddBlock s_env (qm_config s_qm) s_top s_db = AddBlock s_db s_top"
    using s_top_verified by (simp add: nbc_AddBlock_def s_qm_def)
  have "(case AddBlock s_db s_top of (Ok st, d) \<Rightarrow>
      st = BCBAddState_addedToTop \<and> fst (txm_BlockAdded s_env s_top True d) = Ok () | _ \<Rightarrow> False)"
    by code_simp
  moreover obtain r d where rd: "AddBlock s_db s_top = (r, d)" by fastforce
  ultimately have "r = Ok BCBAddState_addedToTop" "fst (txm_BlockAdded s_env s_top True d) = Ok ()"
    by (cases r; simp)+
  with rd have d: "AddBlock s_db s_top = (Ok BCBAddState_addedToTop, d)"
    "fst (txm_BlockAdded s_env s_top True d) = Ok ()" by simp_all
  obtain d' where "txm_BlockAdded s_env s_top True d = (Ok (), d')" using d(2) by (metis prod.collapse)
  then show ?thesis using nbc d(1) s_state by (simp add: node_AddBlock_def s_txm s_qm_def)
qed


text \<open>A node that starts with the sample genesis block, reads a query of the proxy and cleans its pool.\<close>

lemma s_reached:
  "reachable_node 2 {(s_env, s_qm)} s_genesis (snd (addFirstBlock s_env s_cfg False s_genesis s_db))"
  using reach_first[of s_env s_qm "{(s_env, s_qm)}" s_genesis 2 s_db] by (simp add: s_blocks zeros_2 s_qm_def)


text \<open>The list of known nodes.\<close>

definition s_net :: node_network where
  "s_net = \<lparr>nn_Nodes = [NewNodeAddr ''localhost'' 8765], nn_hadInputConnects = False, nn_hadRecentInputConnects = False,
     nn_Storage = None\<rparr>"

lemma known_nodes_refine_witness:
  "known_keys (snd (AddNodeToKnown (NewNodeAddr '' 127.0.0.1'' 8765) s_net)) = {(''127.0.0.1'', 8765)}"
proof -
  have "addr_key (NewNodeAddr '' 127.0.0.1'' 8765) = (''127.0.0.1'', 8765)"
    "addr_key (NewNodeAddr ''localhost'' 8765) = (''127.0.0.1'', 8765)" by code_simp+
  then show ?thesis
    using known_nodes_refine[of s_net "NewNodeAddr '' 127.0.0.1'' 8765"] by (simp add: s_net_def known_keys_def)
qed

end
