(* ===== verification/Proxy_Samples.thy ===== *)
theory Proxy_Samples
  imports Proxy_Filter Node_Samples
begin

text \<open>The properties of the proxy applied to a connection that has seen both handshakes, over the sample store.\<close>

definition s_protocol :: protocol_info where
  "s_protocol = \<lparr>pi_clientInfo = Some \<lparr>h41_ClientCapabilities = clientDeprecateEOF, h41_ClientCharset = 33\<rparr>,
     pi_serverInfo = Some \<lparr>h10_ProtocolVersion = 10, h10_ServerVersion = ''8'', h10_ConnectionID = 1,
       h10_ServerCapabilities = clientDeprecateEOF, h10_AuthPlugin = ''''\<rparr>\<rparr>"

definition s_conn :: "string list proxy_conn" where
  "s_conn = \<lparr>pc_sessionID = ''a'', pc_requestInitial = True, pc_responseInitial = True, pc_protocol = s_protocol,
     pc_filter = \<lparr>qf_db = s_pool, qf_sessionTransactions = [(''a'', s_spend)], qf_blockBilderChan = []\<rparr>,
     pc_server = [], pc_client = []\<rparr>"

lemma s_deprecated: "deprecateEOFSet s_protocol = Ok True"
  by code_simp


text \<open>A query that needs no transaction.\<close>

definition s_select :: bytes where
  "s_select = [16, 0, 0, 0, comQuery] @ bytes_of_string ''select * from t''"

lemma s_select_query: "decodeQueryRequest s_select = Ok ''select * from t''" "s_select ! 4 = comQuery"
  by code_simp+


lemma prepared_statement_unfiltered_witness:
  "\<exists>s'. request_Write (\<lambda>_. '''') s_env s_qm 0 ([16, 0, 0, 0, comStmtPrepare] @ bytes_of_string ''drop table t'') s_conn = (Ok (), s') \<and>
     pc_server s' = [[16, 0, 0, 0, comStmtPrepare] @ bytes_of_string ''drop table t''] \<and> pc_filter s' = pc_filter s_conn"
proof -
  have "5 \<le> length ([16, 0, 0, 0, comStmtPrepare] @ bytes_of_string ''drop table t'')"
    "([16, 0, 0, 0, comStmtPrepare] @ bytes_of_string ''drop table t'') ! 4 = comStmtPrepare" by simp_all
  from prepared_statement_unfiltered[OF this, of "\<lambda>_. ''''" s_env s_qm 0 s_conn] show ?thesis
    by (auto simp: s_conn_def)
qed

text \<open>An error of the server: the transaction of the session is forgotten, the pool stays.\<close>

definition s_error :: bytes where "s_error = customResponseError_getPacket ''no such table'' 1146"

lemma response_settles_session_witness:
  "\<exists>s'. response_Write s_env s_qm s_error s_conn = (Ok (), s') \<and> qf_sessionTransactions (pc_filter s') = [] \<and>
     tget (qf_sessionTransactions (pc_filter s')) ''a'' = None \<and> qf_db (pc_filter s') = s_pool"
proof -
  obtain r s' where run: "response_Write s_env s_qm s_error s_conn = (r, s')" by fastforce
  have "fst (response_Write s_env s_qm s_error s_conn) = Ok () \<and>
      qf_sessionTransactions (pc_filter (snd (response_Write s_env s_qm s_error s_conn))) = []"
    by code_simp
  then have ok: "r = Ok ()" "qf_sessionTransactions (pc_filter s') = []" using run by simp_all
  have "tget (qf_sessionTransactions (pc_filter s_conn)) (pc_sessionID s_conn) = Some s_spend" by (simp add: s_conn_def)
  moreover have "s_error ! 4 = responseErr" by code_simp
  ultimately show ?thesis
    using response_settles_session[OF run[unfolded ok(1)]] run ok by (auto simp: s_conn_def)
qed

end
