(* ===== verification/Server_Samples.thy ===== *)
theory Server_Samples
  imports Server_Runs Machine_Samples Proxy_Samples
begin

text \<open>
  The properties of the server, of its client and of the loops applied to sample data: a node that pulls a block from
  another one, requests of each kind, and a server that is asked, makes turns of its loops and passes a query on.
\<close>

section \<open>A node and its environment\<close>

text \<open>An encoding in which a request is a number, and a peer that answers with the sample block.\<close>

definition s_updates :: response_updates where
  "s_updates = \<lparr>ru_CurrentBlockHeight = 2, ru_CountTransactionsInPool = 0, ru_Blocks = [[5, 5]], ru_TransactionsInPool = [],
     ru_Nodes = []\<rparr>"

definition s_codec :: com_codec where
  "s_codec = \<lparr>enc_com = (\<lambda>x. Ok [7]), dec_addresses = (\<lambda>b. Err (ErrNew ''gob'')), dec_getblock = (\<lambda>b. Err (ErrNew ''gob'')),
     dec_block = (\<lambda>b. Err (ErrNew ''gob'')), dec_inv = (\<lambda>b. Err (ErrNew ''gob'')), dec_getblocks = (\<lambda>b. Err (ErrNew ''gob'')),
     dec_getdata = (\<lambda>b. Err (ErrNew ''gob'')), dec_gettransaction = (\<lambda>b. Err (ErrNew ''gob'')),
     dec_checkblock = (\<lambda>b. Ok \<lparr>cck_BlockHash = b, cck_AddrFrom = NewNodeAddr ''peer'' 8766\<rparr>), dec_tx = (\<lambda>b. Err (ErrNew ''gob'')),
     dec_version = (\<lambda>b. Err (ErrNew ''gob'')), dec_address = (\<lambda>b. Err (ErrNew ''gob'')), dec_newtxdata = (\<lambda>b. Err (ErrNew ''gob'')),
     dec_requesttx = (\<lambda>b. Err (ErrNew ''gob'')), dec_requestsql = (\<lambda>b. Err (ErrNew ''gob'')),
     dec_getunspent = (\<lambda>b. Err (ErrNew ''gob'')), dec_managenode = (\<lambda>b. Ok (NewNodeAddr ''evil'' 8767)),
     dec_getupdates = (\<lambda>b. Err (ErrNew ''gob'')),
     enc_response = (\<lambda>r. case r of ResponseCheckBlock x \<Rightarrow> Ok [if x then 1 else 0] | _ \<Rightarrow> Ok [9]),
     dec_response = (\<lambda>c b. case c of ComGetUpdates _ \<Rightarrow> Ok (ResponseUpdates s_updates)
                         | ComGetBlock _ \<Rightarrow> Ok (ResponseGetBlock [5, 5]) | _ \<Rightarrow> Err (ErrNew ''gob'')),
     enc_error = (\<lambda>t. Ok (bytes_of_string t)), dec_error = (\<lambda>b. Ok (string_of_bytes b))\<rparr>"

definition s_node_env :: "(unit, string list) node_env" where
  "s_node_env = \<lparr>nv_env = (\<lambda>i. s_env), nv_sign = (\<lambda>i. 0), nv_qm = s_qm,
     nv_net = \<lparr>ne_codec = s_codec, ne_exchange = (\<lambda>i addr data. Answer [1])\<rparr>,
     nv_unblock = (\<lambda>d. if d = [5, 5] then Ok s_top else Err (ErrNew ''gob'')), nv_short = (\<lambda>b. bs_Hash b),
     nv_unshort = (\<lambda>d. if d = [5, 5] then Ok (GetShortCopy s_top) else Err (ErrNew ''gob'')),
     nv_minter = [], nv_random = None, nv_nonces = 0\<rparr>"

definition s_peers :: node_network where
  "s_peers = s_net\<lparr>nn_Nodes := [NewNodeAddr ''localhost'' 8765, (NewNodeAddr ''peer'' 8766)\<lparr>na_SuccessConnections := 1\<rparr>]\<rparr>"

definition s_node :: "string list node_state" where
  "s_node = \<lparr>nd_db = s_db, nd_net = s_peers,
     nd_client = \<lparr>cl_NodeAddress = NewNodeAddr ''localhost'' 8765, cl_NodeAuthStr = ''secret'', cl_sent = []\<rparr>\<rparr>"

text \<open>The heights of the sample blocks.\<close>

definition s_heights_of :: "bytes \<Rightarrow> int" where
  "s_heights_of h = (if h = [1, 1] then 0 else if h = [2, 2] \<or> h = [3, 3] then 1 else 2)"

lemma s_good: "node_good 2 [1, 1] s_heights_of s_db"
proof -
  have "node_inv 2 [1, 1] s_db [[1, 1], [2, 2]]"
    using s_store by (simp add: node_inv_def) (simp add: s_db_def db_GetBlock_def s_keys)
  moreover have "heights_by s_heights_of s_db"
    by (auto simp: heights_by_def db_GetBlock_def s_db_def s_heights_of_def s_blocks s_keys split: if_splits)
  ultimately show ?thesis by (auto simp: node_good_def)
qed

lemma s_peers_shape: "peers_shape 2 s_heights_of s_node_env"
  by (auto simp: peers_shape_def s_node_env_def block_by_def s_top_def s_block_def s_heights_of_def zeros_2 split: if_splits)

lemma s_pulled:
  "\<exists>s'. CheckForChangesOnOtherNodes s_node_env [0, 1] 0 s_node =
     (Ok \<lparr>pr_AddedTransactions = None, pr_AddedBlocks = Some [[5, 5]], pr_AddedNodes = []\<rparr>, s')"
proof -
  obtain d where d: "node_AddBlock s_env s_qm 0 s_top s_db = (Ok BCBAddState_addedToTop, d)" using s_top_added by blast
  have n: "GetConnecttionVerifiedNodeAddresses [0, 1] 10 (nd_net s_node) = [(NewNodeAddr ''peer'' 8766)\<lparr>na_SuccessConnections := 1\<rparr>]"
    by code_simp
  have c: "CheckBlockState s_db [5, 5] [2, 2] = Ok 0" by code_simp
  have t: "GetBCTopState s_db 5 = Ok (1, [[2, 2], [1, 1]])" by code_simp
  have b: "nd_db s_node = s_db" by (simp add: s_node_def)
  have self: "\<not> is_self ((NewNodeAddr ''peer'' 8766)\<lparr>na_SuccessConnections := 1\<rparr>) s_node" by code_simp
  have e: "nv_qm s_node_env = s_qm" "env_at s_node_env x = s_env" "sign_at s_node_env x = 0" for x
    by (simp_all add: s_node_env_def env_at_def sign_at_def)
  have u: "\<exists>c. SendGetUpdates (nv_net s_node_env) a 0 1 [[2, 2], [1, 1]] (nd_client s_node) = (Ok s_updates, c)"
    if "CheckNodeAddress a = Ok ()" for a
    using that by (simp add: SendGetUpdates_def request_command_def BuildCommandData_def GobEncode.simps doBuildCommandData_def s_node_env_def
      s_codec_def SendDataWaitResponse_def exchange_def decode_answer_def CommandToBytes_def CommandLength_def command_defs)
  have g: "\<exists>c'. SendGetBlock (nv_net s_node_env) a h c = (Ok [5, 5], c')"
    if "CheckNodeAddress a = Ok ()" for a h c
    using that by (simp add: SendGetBlock_def request_command_def BuildCommandData_def GobEncode.simps doBuildCommandData_def s_node_env_def
      s_codec_def SendDataWaitResponse_def exchange_def decode_answer_def CommandToBytes_def CommandLength_def command_defs)
  let ?p = "(NewNodeAddr ''peer'' 8766)\<lparr>na_SuccessConnections := 1\<rparr>"
  have us: "nv_unshort s_node_env [5, 5] = Ok (GetShortCopy s_top)" "nv_unblock s_node_env [5, 5] = Ok s_top"
    "bs_Hash (GetShortCopy s_top) = [5, 5]" "bs_PrevBlockHash (GetShortCopy s_top) = [2, 2]" "blk_Hash s_top = [5, 5]"
    "blk_PrevBlockHash s_top = [2, 2]" by (simp_all add: s_node_env_def GetShortCopy_def s_top_def s_block_def)
  have p: "CheckNodeAddress ?p = Ok ()" by code_simp
  obtain c1 where c1: "SendGetUpdates (nv_net s_node_env) ?p 0 1 [[2, 2], [1, 1]] (nd_client s_node) = (Ok s_updates, c1)"
    using u[OF p] by blast
  obtain c2 where c2: "SendGetBlock (nv_net s_node_env) ?p [5, 5] c1 = (Ok [5, 5], c2)" using g[OF p] by blast
  show ?thesis unfolding CheckForChangesOnOtherNodes_def n Let_def b t using d c c1 c2 p self e
    by (simp add: pullUpdatesFromNode_def on_client_def b processBlocksFromOtherNode_def s_updates_def try_step_def
      processTransactionsFromPoolOnOtherNode_def on_db_def ReceivedFullBlockFromOtherNode_def us
      mergeResults_def emptyPullResults_def merge_ids_def)
qed


lemma mergeResults_refines_witness:
  "no_duplicates (mergeResults (emptyPullResults\<lparr>pr_AddedBlocks := Some [[5, 5], [6, 6]]\<rparr>)
     (emptyPullResults\<lparr>pr_AddedBlocks := Some [[6, 6], [7, 7]]\<rparr>))"
  using mergeResults_refines[of "emptyPullResults\<lparr>pr_AddedBlocks := Some [[5, 5], [6, 6]]\<rparr>"
      "emptyPullResults\<lparr>pr_AddedBlocks := Some [[6, 6], [7, 7]]\<rparr>"]
  by (simp add: no_duplicates_def emptyPullResults_def ids_of_def)

section \<open>Requests\<close>

lemma request_roundtrip_witness:
  "\<exists>r c'. doBuildCommandData CommandCheckBlock [2, 2] (bytes_of_string ''key'') = Ok r \<and>
     readRequest [Got (take 9 r), Got (drop 9 r @ [1, 2])] = (Ok (CommandCheckBlock, [2, 2], ''key''), c') \<and> stream c' = [1, 2]"
proof -
  obtain r where r: "doBuildCommandData CommandCheckBlock [2, 2] (bytes_of_string ''key'') = Ok r" "9 < length r"
    by (simp add: doBuildCommandData_def CommandToBytes_def CommandLength_def command_defs)
  have s: "steady [Got (take 9 r), Got (drop 9 r @ [1, 2])]" "stream [Got (take 9 r), Got (drop 9 r @ [1, 2])] = r @ [1, 2]"
    using r(2) by auto
  have n: "CHR 0x00 \<notin> set CommandCheckBlock" "BytesToCommand (bytes_of_string ''key'') = ''key''"
    "length (bytes_of_string ''key'') = 3" by code_simp+
  show ?thesis using request_roundtrip[OF r(1) n(1) _ _ s] n r(1) by (simp, blast)
qed

lemma request_truncated_witness:
  "\<exists>r e c'. doBuildCommandData CommandCheckBlock [2, 2] [] = Ok r \<and>
     readRequest [Got (take 9 r), Got (butlast (drop 9 r))] = (Err e, c')"
proof -
  obtain r where r: "doBuildCommandData CommandCheckBlock [2, 2] [] = Ok r" "10 < length r"
    by (simp add: doBuildCommandData_def CommandToBytes_def CommandLength_def command_defs)
  have s: "steady [Got (take 9 r), Got (butlast (drop 9 r))]"
  proof -
    have "length (take 9 r) = 9" "length (butlast (drop 9 r)) > 0" using r(2) by simp_all
    then show ?thesis by (simp only: steady_simps) force
  qed
  have "drop 9 r \<noteq> []" using r(2) by simp
  then have "stream [Got (take 9 r), Got (butlast (drop 9 r))] @ [List.last (drop 9 r)] = r"
    by (simp del: drop_eq_Nil)
  then show ?thesis using request_truncated[OF r(1) _ _ s] r(1) by auto
qed

section \<open>A server\<close>

definition s_server_env :: "(unit, string list) server_env" where
  "s_server_env = \<lparr>sn_node = s_node_env, sn_NodeAuthStr = ''secret'', sn_errtext = (\<lambda>e. ''error''), sn_marshal = (\<lambda>c. [])\<rparr>"

definition s_server :: "string list server_state" where
  "s_server = \<lparr>sv_node = s_node, sv_own = s_peers, sv_transit = [], sv_MaxKnownHeigh = 0, sv_chan = [], sv_inProgress = [],
     sv_HasResponse = False, sv_Response = None\<rparr>"

definition s_ask :: "string \<Rightarrow> bytes \<Rightarrow> string \<Rightarrow> read_event list" where
  "s_ask command payload auth = (case doBuildCommandData command payload (bytes_of_string auth) of Ok r \<Rightarrow> [Got r] | _ \<Rightarrow> [])"

lemma s_server_db: "db_of s_server = s_db" "s_db\<lparr>db_opened := True\<rparr> = s_db"
  by (simp_all add: s_server_def db_of_def s_node_def) (simp add: s_db_def)

lemma s_peer_known: "CheckIsKnown s_peers (NewNodeAddr ''peer'' 8766)"
  by code_simp

lemma s_asked:
  "fst (readRequest (s_ask CommandCheckBlock [5, 5] [])) = Ok (CommandCheckBlock, [5, 5], [])"
  "fst (readRequest (s_ask ''addnode'' [1] ''guess'')) = Ok (''addnode'', [1], ''guess'')"
proof -
  have n: "length CommandCheckBlock \<le> 12" "CHR 0x00 \<notin> set CommandCheckBlock" "length ''addnode'' \<le> 12"
    "CHR 0x00 \<notin> set ''addnode''" by code_simp+
  obtain c1 where c1: "CommandToBytes CommandCheckBlock = Ok c1" "BytesToCommand c1 = CommandCheckBlock" "length c1 = 12"
    using command_roundtrip[OF n(1,2)] by blast
  obtain c2 where c2: "CommandToBytes ''addnode'' = Ok c2" "BytesToCommand c2 = ''addnode''" "length c2 = 12"
    using command_roundtrip[OF n(3,4)] by blast
  have k: "BytesToCommand [] = []" "BytesToCommand (bytes_of_string ''guess'') = ''guess''" "bytes_of_string [] = []"
    "length (bytes_of_string ''guess'') = 5" by code_simp+
  have "c1 \<noteq> []" "c2 \<noteq> []" using c1(3) c2(3) by auto
  then show "fst (readRequest (s_ask CommandCheckBlock [5, 5] [])) = Ok (CommandCheckBlock, [5, 5], [])"
    "fst (readRequest (s_ask ''addnode'' [1] ''guess'')) = Ok (''addnode'', [1], ''guess'')"
    using readRequest_main[OF c1(1,2), of "[5, 5]" "[]" "s_ask CommandCheckBlock [5, 5] []" "[]"]
      readRequest_main[OF c2(1,2), of "[1]" "bytes_of_string ''guess''" "s_ask ''addnode'' [1] ''guess''" "[]"]
    by (auto simp: s_ask_def doBuildCommandData_def c1 c2 k)
qed

text \<open>The sample server does not have the block it is asked for.\<close>

lemma s_checked: "fst (handleConnection s_server_env ''10.0.0.1'' (s_ask CommandCheckBlock [5, 5] []) s_server) = Ok (Some [1, 0])"
proof -
  have known: "CheckIsKnown (nd_net (sv_node (waits (new_request s_server)))) (NewNodeAddr ''peer'' 8766)"
    using s_peer_known by (simp add: waits_def new_request_def Let_def Clone_node_def InitNodes_def SetNodes_def s_server_def CheckIsKnown_def)
  obtain u where u: "server_knows s_server_env (NewNodeAddr ''peer'' 8766) (waits (new_request s_server)) = (Ok (), u)"
    using known by (simp add: server_knows_def CheckAddressKnown_def checkAddressKnown_def on_node_def)
  then have "db_of u = s_db"
    using server_parts_db(5)[of s_server_env "NewNodeAddr ''peer'' 8766" "waits (new_request s_server)"]
    by (simp add: s_server_db)
  moreover have "sv_HasResponse u"
    using mark.parts(4)[of "waits (new_request s_server)" True s_server_env "NewNodeAddr ''peer'' 8766"] u by (simp add: waits_mark)
  moreover have "CheckBlockState s_db [5, 5] [2, 2] = Ok 0" by code_simp
  ultimately have "handleCheckBlock s_server_env [5, 5] (new_request s_server) = (Ok (), u\<lparr>sv_Response := Some [0]\<rparr>)" "sv_HasResponse u"
    using u by (simp_all add: handleCheckBlock_def parseRequestData_def codec_of_def s_server_env_def s_node_env_def s_codec_def
      GetShortCopy_def s_top_def s_block_def respond_def)
  then have "dispatch s_server_env ''10.0.0.1'' False CommandCheckBlock [5, 5] (new_request s_server) = (Ok (), u\<lparr>sv_Response := Some [0]\<rparr>)"
    "sv_HasResponse u"
    by (simp_all add: dispatch_def command_defs)
  then show ?thesis by (simp add: handleConnection_def s_asked(1))
qed

lemma connection_answers_witness:
  "\<exists>a. fst (handleConnection s_server_env ''10.0.0.1'' (s_ask CommandCheckBlock [5, 5] []) s_server) = Ok (Some a)"
proof -
  have e: "\<forall>t. \<exists>b. enc_error (codec_of s_server_env) t = Ok b" by (simp add: codec_of_def s_server_env_def s_node_env_def s_codec_def)
  have "waits_for_answer (([] :: string) = sn_NodeAuthStr s_server_env \<and> ([] :: string) \<noteq> []) CommandCheckBlock"
    by code_simp
  then show ?thesis using connection_answers[OF s_asked(1) e s_checked] s_checked by auto
qed

lemma answer_typed_witness:
  "typed_answer s_server_env (ComCheckBlock \<lparr>cck_BlockHash = [5, 5], cck_AddrFrom = NewNodeAddr ''peer'' 8766\<rparr>) [0]"
proof (rule answer_typed)
  show "fst (readRequest (s_ask CommandCheckBlock [5, 5] [])) =
    Ok (com_command (ComCheckBlock \<lparr>cck_BlockHash = [5, 5], cck_AddrFrom = NewNodeAddr ''peer'' 8766\<rparr>), [5, 5], [])"
    using s_asked(1) by simp
qed (rule s_checked)

lemma management_refused_witness:
  "\<exists>s'. handleConnection s_server_env ''10.0.0.1'' (s_ask ''addnode'' [1] ''guess'') s_server = (Ok None, s') \<and>
     nn_Nodes (sv_own s') = nn_Nodes s_peers"
proof -
  have "''addnode'' \<in> set managing" "''guess'' \<noteq> sn_NodeAuthStr s_server_env \<or> ''guess'' = []" by code_simp+
  then show ?thesis using management_refused[OF s_asked(2), of s_server_env "''10.0.0.1''" s_server]
    by (auto simp: s_server_def)
qed

section \<open>A life of the server\<close>

lemma s_makes_nothing: "makes_only shaped s_node_env s"
  by (simp add: makes_only_def s_node_env_def)

definition s_refused :: "string list server_state" where
  "s_refused = snd (handleConnection s_server_env ''10.0.0.1'' (s_ask ''addnode'' [1] ''guess'') s_server)"

lemma s_runs: "server_reach s_server_env (s_server, []) (snd (checker_turn s_server_env [0, 1] (StartChangesChecker\<lparr>cr_ticker := 0\<rparr>) s_refused), [])"
proof -
  have "server_reach s_server_env (s_server, []) (s_refused, [])"
    unfolding s_refused_def by (rule server_reach.step[OF server_reach.start]) (rule server_step.connected)
  then show ?thesis by (rule server_reach.step) (rule server_step.checked)
qed



text \<open>A checker that runs for ever beside a server that knows no other node.\<close>

definition s_alone :: "string list server_state" where
  "s_alone = s_server\<lparr>sv_own := s_peers\<lparr>nn_Nodes := []\<rparr>\<rparr>"

primrec s_checker :: "nat \<Rightarrow> changes_checker" where
  "s_checker 0 = StartChangesChecker"
| "s_checker (Suc i) = (s_checker i)\<lparr>cr_ticker := (if cr_ticker (s_checker i) > 0 then cr_ticker (s_checker i) - 1 else 5)\<rparr>"

lemma s_alone_check: "\<exists>t. on_own (CheckForChangesOnOtherNodes s_node_env [] x) s_alone = (Ok emptyPullResults, t) \<and>
    sv_own t = s_peers\<lparr>nn_Nodes := []\<rparr>"
proof -
  have "GetBCTopState s_db 5 = Ok (1, [[2, 2], [1, 1]])" by code_simp
  then show ?thesis
    by (simp add: on_own_def s_alone_def s_server_def s_node_def s_peers_def s_net_def CheckForChangesOnOtherNodes_def
      GetConnecttionVerifiedNodeAddresses_def)
qed

lemma s_checker_run: "checker_run s_server_env (\<lambda>i. []) (\<lambda>i. s_alone) s_checker"
proof -
  have "fst (checker_turn s_server_env [] (s_checker i) s_alone) = Ok (s_checker (Suc i))" for i
    using s_alone_check[of "cr_lastCheckTime (s_checker i)"]
    by (auto simp: checker_turn_def try_step_def s_server_env_def processResults_def emptyPullResults_def ids_of_def CheckHadInputConnects_def s_peers_def s_net_def)
  then show ?thesis by (simp add: checker_run_def)
qed

lemma check_in_time_witness: "\<exists>j. 7 \<le> j \<and> j \<le> 187 \<and> cr_ticker (s_checker j) = 0"
  using check_in_time[OF s_checker_run, of 7] by auto

text \<open>An announced block that is asked for.\<close>

lemma s_requests: "\<forall>x. \<exists>b. BuildCommandData (codec_of s_server_env) x = Ok b"
proof
  fix x
  show "\<exists>b. BuildCommandData (codec_of s_server_env) x = Ok b"
    by (cases x) (simp_all add: BuildCommandData_def codec_of_def s_server_env_def s_node_env_def s_codec_def doBuildCommandData_def
      CommandToBytes_def CommandLength_def command_defs)
qed


section \<open>A node that makes a block\<close>

text \<open>A node of hashes of 32 bytes that has the first block and a transaction of its output in the pool.\<close>

definition o_crypto :: "unit crypto" where
  "o_crypto = s_crypto\<lparr>sha256 := (\<lambda>b. take 32 (0 # 0 # 0 # 1 # b @ replicate 32 0))\<rparr>"

definition o_pkh :: bytes where "o_pkh = 0 # 0 # 0 # 1 # 7 # 7 # replicate 14 0"
definition o_hash :: bytes where "o_hash = replicate 32 1"

definition o_tx :: "transaction \<Rightarrow> transaction" where
  "o_tx t = t\<lparr>tx_Vout := [\<lparr>vout_Value = 0x4024000000000000, vout_PubKeyHash = o_pkh\<rparr>]\<rparr>"

definition o_genesis :: block where "o_genesis = s_block o_hash [] 0 [o_tx s_coinbase]"

definition o_db :: "string list node_db" where
  "o_db = \<lparr>db_opened = True,
     db_blocks = [(o_hash, BlockData o_genesis), (topKey, HashData o_hash), (firstKey, HashData o_hash)],
     db_chain = [(o_hash, replicate 64 0)], db_txblocks = [([10], [o_hash])], db_txspent = [],
     db_unspent = [([10], [(s_unspent [10] o_hash)\<lparr>oi_DestPubKeyHash := o_pkh\<rparr>])],
     db_pool = [([40], o_tx s_spend)], db_rowrefs = [], db_txcache = Some [([40], o_tx s_spend)], db_pkcache = [],
     db_gob = s_gob, db_app = []\<rparr>"

definition o_env :: "(unit, string list) txm_env" where "o_env = s_env\<lparr>te_crypto := o_crypto\<rparr>"

definition o_node_env :: "(unit, string list) node_env" where
  "o_node_env = s_node_env\<lparr>nv_env := (\<lambda>i. o_env), nv_minter := PubKeyHashToAddres o_crypto o_pkh, nv_random := Some [1, 2, 3],
     nv_nonces := 1\<rparr>"

definition o_node :: "string list node_state" where
  "o_node = \<lparr>nd_db = o_db, nd_net = s_peers\<lparr>nn_Nodes := []\<rparr>,
     nd_client = \<lparr>cl_NodeAddress = NewNodeAddr ''localhost'' 8765, cl_NodeAuthStr = ''secret'', cl_sent = []\<rparr>\<rparr>"

lemma o_hash_len: "length o_hash = 32" "o_hash \<noteq> zeros 32" "o_hash \<noteq> topKey" "o_hash \<noteq> firstKey" "length topKey = 1"
  by code_simp+

lemma o_get:
  "db_GetBlock o_db h = (if h = o_hash then Some (BlockData o_genesis) else if h = topKey then Some (HashData o_hash)
     else if h = firstKey then Some (HashData o_hash) else None)"
  by (simp add: db_GetBlock_def o_db_def)

lemma o_open: "open_pool o_db = o_db" "db_opened o_db" "db_pool o_db = [([40], o_tx s_spend)]" "db_gob o_db = s_gob"
  by (simp_all add: o_db_def open_pool_def renewCacheIfNeeded_def)

lemma o_inv: "node_inv 32 o_hash o_db [o_hash]"
proof -
  have "chain_repr 32 (db_chain o_db) [o_hash]"
    using o_hash_len(2) by (auto simp: chain_repr_def chain_rec_def o_db_def o_hash_len(1) zeros_def replicate_add[symmetric])
  then have "store_inv 32 o_db [o_hash]"
    using o_open(2)
    by (auto simp: store_inv_def o_get block_ok_def o_hash_len o_hash_len(3)[symmetric] o_genesis_def s_block_def split: if_splits)
  then show ?thesis using o_hash_len by (simp add: node_inv_def o_get)
qed

lemma o_sha: "length (sha256 o_crypto x) = 32 \<and> sha256 o_crypto x \<noteq> zeros 32"
proof -
  have "sha256 o_crypto x ! 3 = 1" by (simp add: o_crypto_def)
  moreover have "zeros 32 ! 3 = 0" by (simp add: zeros_def)
  ultimately have "sha256 o_crypto x \<noteq> zeros 32" by (metis zero_neq_one)
  then show ?thesis by (simp add: o_crypto_def)
qed

lemma o_accepted: "tx_accepted o_crypto (o_tx s_spend) [(0, Some (o_tx s_coinbase))]"
proof -
  have "VerifySignature o_crypto (tx_Signature (o_tx s_spend)) (sign_data (o_tx s_spend)) (tx_ByPubKey (o_tx s_spend)) = Ok True"
    by code_simp
  moreover have "spent_outputs [(0, Some (o_tx s_coinbase))] 0 (tx_Vin (o_tx s_spend)) = Some (tx_Vout (o_tx s_coinbase))" by code_simp
  moreover have "HashPubKey o_crypto s_key = o_pkh" by code_simp
  moreover have "prev_has_id [(0, Some (o_tx s_coinbase))] 0" by code_simp
  ultimately show ?thesis
    by (simp add: tx_accepted_def o_tx_def s_spend_def s_coinbase_def s_tx_def fsum_def)
qed

lemma o_verified: "verify_transaction o_env opn (o_tx s_spend) prev [] 0 o_db = (Ok True, o_db)"
proof -
  have "inputs_state o_db [] 0 (tx_Vin (o_tx s_spend)) ([], []) = Ok ([(0, Some (o_tx s_coinbase))], [])" by code_simp
  moreover have k: "\<not> IsCoinbaseTransfer (o_tx s_spend)" "\<not> IsSQLCommand (o_tx s_spend)" by code_simp+
  moreover have "Verify o_crypto (o_tx s_spend) [(0, Some (o_tx s_coinbase))] (te_coins o_env) = Ok ()"
    using o_accepted Verify_Ok_iff[OF k(1)] by blast
  ultimately show ?thesis
    by (simp add: verify_transaction_def getCurrencyInputTransactionsState_def o_env_def)
qed

lemma o_pool: "GetUnapprovedTransactionsForNewBlock o_env 1 o_db = (Ok [o_tx s_spend], o_db)"
proof -
  have "pool_GetTransactions id o_db 1 = Ok [o_tx s_spend]" by code_simp
  moreover have "DetectConflicts [o_tx s_spend] = ([o_tx s_spend], [])" by code_simp
  moreover have "te_sort_txs o_env = id" by (simp add: o_env_def s_env_def)
  ultimately show ?thesis using o_verified o_open
    by (simp add: GetUnapprovedTransactionsForNewBlock_def tx_flags)
qed

lemma o_prepared: "\<exists>bm. bm_PrepareNewBlock o_env (Some [1, 2, 3]) (first_maker o_node_env) o_db = (Ok (BlockPrepare_Done, bm), o_db)"
proof -
  have state: "GetState o_db = Ok (o_hash, 0)" "GetBestHeight o_db = Ok 0" by code_simp+
  have "(case NewCoinbaseTransaction o_crypto s_gob 0 (Some [1, 2, 3]) (nv_minter o_node_env) '''' ten of
      Ok cb \<Rightarrow> True | _ \<Rightarrow> False)" by code_simp
  then obtain cb where cb: "NewCoinbaseTransaction o_crypto s_gob 0 (Some [1, 2, 3]) (nv_minter o_node_env) '''' ten = Ok cb"
    by (auto split: res.splits)
  have limits: "getTransactionNumbersLimits o_db s_cfg None = Ok (1, 10000)"
    by (simp add: getTransactionNumbersLimits_def NewProofOfWork_def s_cfg_def NewConfigDefault_def completeSettings_def
      emptySettings_def Let_def GetTransactionLimitsPerBlock_def state wrap64_def)
  have "GetUnapprovedCount o_db = (Ok 1, o_db)"
    by (simp add: GetUnapprovedCount_def o_open pool_GetCount_def)
  moreover have "txm_of s_cfg o_env = o_env" "cfg_CoinsForBlockMade s_cfg = ten" "qm_config (nv_qm o_node_env) = s_cfg" "db_gob o_db = s_gob"
    "te_crypto o_env = o_crypto" "te_now o_env = 0"
    by (simp_all add: txm_of_def s_cfg_def NewConfigDefault_def ten_def o_env_def s_env_def o_node_env_def s_node_env_def s_qm_def o_db_def)
  ultimately show ?thesis
    using cb by (auto simp: bm_PrepareNewBlock_def checkUnapprovedCache_def first_maker_def limits doPrepareNewBlock_def 
       o_pool makeNewBlockFromTransactions_def state Let_def)
qed

lemma own_block_added_witness:
  "(\<exists>bm. bm_PrepareNewBlock o_env (Some [1, 2, 3]) (first_maker o_node_env) o_db = (Ok (BlockPrepare_Done, bm), o_db)) \<and>
   ValidateAddress o_crypto (nv_minter o_node_env) \<and>
   (\<exists>hs. node_inv 32 o_hash (nd_db (snd (TryToMakeBlock o_node_env None [1] o_node))) hs)"
proof -
  have "ValidateAddress o_crypto (nv_minter o_node_env)" by code_simp
  moreover have inv: "node_inv 32 o_hash (nd_db o_node) [o_hash]" using o_inv by (simp add: o_node_def)
  have sha: "\<forall>x. length (sha256 (te_crypto (env_at o_node_env o_node)) x) = 32 \<and> sha256 (te_crypto (env_at o_node_env o_node)) x \<noteq> zeros 32"
    using o_sha by (simp add: env_at_def o_node_env_def o_env_def)
  have heights: "\<forall>h b. db_GetBlock (nd_db o_node) h = Some (BlockData b) \<longrightarrow> 0 \<le> blk_Height b \<and> blk_Height b < 2 ^ 63 - 1"
    by (auto simp: o_node_def o_get o_genesis_def s_block_def split: if_splits)
  obtain r s' where run: "TryToMakeBlock o_node_env None [1] o_node = (r, s')" by fastforce
  have "\<exists>hs. node_inv 32 o_hash (nd_db s') hs"
    using own_block_added[OF inv sha heights _ run] by (auto simp: quiet_def)
  ultimately show ?thesis using run o_prepared by simp
qed

end
