(* ===== verification/Db_Dump.thy ===== *)
theory Db_Dump
  imports DbQuery Node_Net
begin

text \<open>
  \<^verbatim>\<open>node/database/manager.go\<close> and \<^verbatim>\<open>node/nodemanager/database.go\<close>: the state of a connection, the queries that
  return many rows, and the dump of a table as the queries that make it again. The theory shows that the pieces in
  which a table is dumped are the pieces of one list.
\<close>

section \<open>Connections\<close>

text \<open>The connection to MySQL is made when it is first used; only whether it may be used is kept.\<close>

definition OpenConnection :: "'m node_db \<Rightarrow> 'm node_db" where
  "OpenConnection db = (if db_opened db then db else db\<lparr>db_opened := True\<rparr>)"

definition CloseConnection :: "'m node_db \<Rightarrow> 'm node_db" where
  "CloseConnection db = (if \<not> db_opened db then db else db\<lparr>db_opened := False\<rparr>)"

definition IsConnectionOpen :: "'m node_db \<Rightarrow> bool" where
  "IsConnectionOpen db = db_opened db"

definition CheckConnection :: "'m sql_env \<Rightarrow> 'm node_db \<Rightarrow> unit res" where
  "CheckConnection e db =
     bindR (getConnection db) (\<lambda>_. bindR (sq_query e (db_app db) ''SHOW TABLES'') (\<lambda>_. Ok ()))"

definition CheckDBExists :: "'m node_db \<Rightarrow> bool res" where
  "CheckDBExists db =
     (case bindR (getConnection db) (\<lambda>_. GetTopHash db) of
        Ok tophash \<Rightarrow> Ok (length tophash > 0)
      | Err _ \<Rightarrow> Ok False | Panic \<Rightarrow> Panic | Diverge \<Rightarrow> Diverge)"

section \<open>Rows\<close>

text \<open>A row as a map; \<open>NULL\<close> is read as an empty string.\<close>

definition row_map :: "string list \<Rightarrow> string option list \<Rightarrow> (string \<times> string) list" where
  "row_map cols row = foldl (\<lambda>data (c, v). tput data c (case v of None \<Rightarrow> [] | Some s \<Rightarrow> s)) [] (zip cols row)"

definition ExecuteSQLSelectRows :: "'m sql_env \<Rightarrow> 'm node_db \<Rightarrow> string \<Rightarrow> (string \<times> string) list list res" where
  "ExecuteSQLSelectRows e db sqlcommand =
     bindR (getConnection db) (\<lambda>_.
     bindR (sq_query e (db_app db) sqlcommand) (\<lambda>(cols, rows). Ok (map (row_map cols) rows)))"

text \<open>\<^verbatim>\<open>SHOW TABLES\<close> answers with one column; the value of any column is taken.\<close>

definition GetAllTables :: "'m sql_env \<Rightarrow> 'm node_db \<Rightarrow> string list res" where
  "GetAllTables e db =
     bindR (ExecuteSQLSelectRows e db ''SHOW TABLES'') (\<lambda>results.
       Ok (filter (\<lambda>table. table \<noteq> []) (map (\<lambda>row. case row of [] \<Rightarrow> [] | (_, t) # _ \<Rightarrow> t) results)))"

definition ExecuteSQLCountInTable :: "'m sql_env \<Rightarrow> 'm node_db \<Rightarrow> string \<Rightarrow> int res" where
  "ExecuteSQLCountInTable e db table =
     bindR (ExecuteSQLSelectRow e db (''SELECT count(*) as c FROM '' @ [CHR 0x60] @ table @ [CHR 0x60])) (\<lambda>row.
       Atoi (map_get row ''c''))"

section \<open>The dump of a table\<close>

fun Join :: "string list \<Rightarrow> string \<Rightarrow> string" where
  "Join [] sep = []"
| "Join [s] sep = s"
| "Join (s # ss) sep = s @ sep @ Join ss sep"

definition dump_value :: "string option \<Rightarrow> string" where
  "dump_value v = (case v of None \<Rightarrow> ''NULL'' | Some s \<Rightarrow> [CHR 0x27] @ DBQuote quotePairs s @ [CHR 0x27])"

definition dump_row :: "string \<Rightarrow> string list \<Rightarrow> string option list \<Rightarrow> string" where
  "dump_row table cols row =
     ''INSERT INTO '' @ table @ '' SET '' @
     Join (map (\<lambda>(colName, v). [CHR 0x60] @ colName @ [CHR 0x60] @ '' = '' @ dump_value v) (zip cols row)) '', ''"

definition dump_create :: "(string \<times> string) list \<Rightarrow> string" where
  "dump_create row = replace_all (replace_all (map_get row ''Create Table'') [CHR 0x0A] '' '') [CHR 0x0D] []"

text \<open>The query that creates the table is part of the dump from the start on, and takes one of the limit.\<close>

definition dump_rows :: "'m sql_env \<Rightarrow> 'm node_db \<Rightarrow> string \<Rightarrow> int \<Rightarrow> int \<Rightarrow> string list res" where
  "dump_rows e db table limit offset =
     bindR (getConnection db) (\<lambda>_.
     bindR (sq_query e (db_app db)
              (''SELECT * FROM '' @ table @ (if limit > 0 then '' LIMIT '' @ Itoa offset @ '','' @ Itoa limit else []))) (\<lambda>(cols, rows).
       Ok (map (dump_row table cols) rows)))"

definition ExecuteSQLTableDump :: "'m sql_env \<Rightarrow> 'm node_db \<Rightarrow> string \<Rightarrow> int \<Rightarrow> int \<Rightarrow> string list res" where
  "ExecuteSQLTableDump e db table limit offset =
     (if offset = 0 then
        bindR (ExecuteSQLSelectRow e db (''SHOW CREATE TABLE '' @ [CHR 0x60] @ table @ [CHR 0x60])) (\<lambda>row.
          let limit = wrap64 (limit - 1)
          in if limit = 0 then Ok [dump_create row]
             else bindR (dump_rows e db table limit offset) (\<lambda>sqls. Ok (dump_create row # sqls)))
      else dump_rows e db table limit (wrap64 (offset - 1)))"

section \<open>Pieces of a dump\<close>

text \<open>
  What MySQL answers about a table that nobody writes to: its definition, the number of its rows, and any part of them.
\<close>

record table_data =
  td_create :: "(string list \<times> string option list)"
  td_cols :: "string list"
  td_rows :: "string option list list"

definition serves_table :: "'m sql_env \<Rightarrow> string \<Rightarrow> table_data \<Rightarrow> bool" where
  "serves_table e table d \<longleftrightarrow>
     (\<forall>app. sq_query e app (''SELECT count(*) as c FROM '' @ [CHR 0x60] @ table @ [CHR 0x60]) =
              Ok ([''c''], [[Some (Itoa (int (length (td_rows d))))]]) \<and>
            sq_query e app (''SHOW CREATE TABLE '' @ [CHR 0x60] @ table @ [CHR 0x60]) = Ok (fst (td_create d), [snd (td_create d)]) \<and>
            (\<forall>offset limit. 0 < limit \<longrightarrow>
               sq_query e app (''SELECT * FROM '' @ table @ '' LIMIT '' @ Itoa (int offset) @ '','' @ Itoa (int limit)) =
                 Ok (td_cols d, take limit (drop offset (td_rows d)))))"

definition dump_of :: "string \<Rightarrow> table_data \<Rightarrow> string list" where
  "dump_of table d =
     dump_create (row_map (fst (td_create d)) (snd (td_create d))) # map (dump_row table (td_cols d)) (td_rows d)"

lemma select_row_map:
  "ExecuteSQLSelectRow e db sql =
     bindR (getConnection db) (\<lambda>_. bindR (sq_query e (db_app db) sql) (\<lambda>(cols, rows).
       case rows of [] \<Rightarrow> Err (ErrDB ''rownotfound'') | row # _ \<Rightarrow> Ok (row_map cols row)))"
  unfolding ExecuteSQLSelectRow_def row_map_def ..

lemma count_in_table:
  assumes "serves_table e table d" and "db_opened db" and "int (length (td_rows d)) < 2 ^ 63"
  shows "ExecuteSQLCountInTable e db table = Ok (int (length (td_rows d)))"
proof -
  have "Atoi (Itoa (int (length (td_rows d)))) = Ok (int (length (td_rows d)))"
    using assms(3) by (intro Atoi_Itoa) (simp add: in64_def)
  then show ?thesis using assms(1,2)
    by (simp add: ExecuteSQLCountInTable_def select_row_map serves_table_def row_map_def map_get_def table_simps)
qed

lemma dump_piece:
  assumes s: "serves_table e table d" and o: "db_opened db" and l: "0 < limit" "limit < 2 ^ 63" and off: "int off < 2 ^ 63"
  shows "ExecuteSQLTableDump e db table limit (int off) = Ok (take (nat limit) (drop off (dump_of table d)))"
proof -
  have rows: "dump_rows e db table k (int m) = Ok (map (dump_row table (td_cols d)) (take (nat k) (drop m (td_rows d))))"
    if "0 < k" for k m
  proof -
    have "sq_query e (db_app db) (''SELECT * FROM '' @ table @ '' LIMIT '' @ Itoa (int m) @ '','' @ Itoa (int (nat k))) =
        Ok (td_cols d, take (nat k) (drop m (td_rows d)))"
      using s that unfolding serves_table_def by (metis zero_less_nat_eq)
    then show ?thesis using that o by (simp add: dump_rows_def)
  qed
  have w: "wrap64 (limit - 1) = limit - 1" using l by (simp add: wrap64_id in64_def)
  show ?thesis
  proof (cases off)
    case 0
    have "ExecuteSQLSelectRow e db (''SHOW CREATE TABLE '' @ [CHR 0x60] @ table @ [CHR 0x60]) =
        Ok (row_map (fst (td_create d)) (snd (td_create d)))"
      using s o by (simp add: select_row_map serves_table_def)
    moreover have "nat limit = Suc (nat (limit - 1))" using l by simp
    ultimately show ?thesis using 0 l rows[of "limit - 1" 0] w
      by (auto simp: ExecuteSQLTableDump_def Let_def dump_of_def take_map)
  next
    case (Suc m)
    then have "wrap64 (int off - 1) = int m" using off by (simp add: wrap64_id in64_def)
    then show ?thesis using Suc rows[OF l(1), of m]
      by (simp add: ExecuteSQLTableDump_def dump_of_def take_map drop_map)
  qed
qed

lemma dump_of_length: "length (dump_of table d) = Suc (length (td_rows d))"
  by (simp add: dump_of_def)

end
