(* ===== verification/Node_Create.thy ===== *)
theory Node_Create
  imports Db_Dump Node_Peers
begin

text \<open>
  \<^verbatim>\<open>nodemanager/blockchain_create.go\<close> and the operations of \<^verbatim>\<open>nodemanager/node.go\<close> that start a block chain: from a
  genesis block, with the rows of the tables that the database holds already put into the first blocks, or from the
  first blocks of another node. The theory shows that the loop over the existing tables ends and puts every row into
  exactly one block, and that both ways lead to a state with the invariant of a node.
\<close>

section \<open>The maker of a block chain\<close>

text \<open>
  What the maker runs with. The environment, the random bytes of the coinbase and the calls of \<^verbatim>\<open>ecdsa.Sign\<close> may
  differ from block to block: they are functions of the height of the next block.
\<close>

record ('k, 'm) maker_env =
  mk_env :: "int \<Rightarrow> ('k, 'm) txm_env"
  mk_sign :: "int \<Rightarrow> nat \<Rightarrow> nat"
  mk_random :: "int \<Rightarrow> bytes option"
  mk_nonces :: nat
  mk_minter :: string
  mk_pubKey :: bytes
  mk_privKey :: 'k

text \<open>The configuration of the rules is shared with the node and changed by the maker.\<close>

record 'm maker_state =
  mk_config :: consensus_config
  mk_db :: "'m node_db"

definition maker_qm :: "('k, 'm) maker_env \<Rightarrow> consensus_config \<Rightarrow> 'k query_manager" where
  "maker_qm e cc = \<lparr>qm_pubKey = mk_pubKey e, qm_privKey = mk_privKey e, qm_config = cc\<rparr>"

definition maker_bm :: "('k, 'm) maker_env \<Rightarrow> consensus_config \<Rightarrow> node_block_maker" where
  "maker_bm e cc = \<lparr>bm_MinterAddress = mk_minter e, bm_PreparedBlock = None, bm_config = cc\<rparr>"

definition on_mk_db :: "('m node_db \<Rightarrow> 'a res \<times> 'm node_db) \<Rightarrow> 'm maker_state \<Rightarrow> 'a res \<times> 'm maker_state" where
  "on_mk_db f s = (let (r, db) = f (mk_db s) in (r, s\<lparr>mk_db := db\<rparr>))"

definition filterTablesForManaged :: "consensus_config \<Rightarrow> string list \<Rightarrow> string list" where
  "filterTablesForManaged cc tables = filter (\<lambda>table. table \<notin> set (cfg_UnmanagedTables cc)) tables"

section \<open>One block of existing rows\<close>

definition add_init_queries ::
  "('k, 'm) maker_env \<Rightarrow> consensus_config \<Rightarrow> int \<Rightarrow> string list \<Rightarrow> 'm node_db \<Rightarrow> unit res \<times> 'm node_db" where
  "add_init_queries e cc h sqls db =
     forS (\<lambda>(i, sql) db.
       bindS (NewQueryByNodeInit (mk_env e h) (maker_qm e cc) (mk_sign e h i) sql (mk_pubKey e) (mk_privKey e) db)
         (\<lambda>_ db. (Ok (), db))) (enumerate 0 sqls) db"

text \<open>The error of writing the changed rules back to their file is dropped, and so is one of \<^verbatim>\<open>BlockAdded\<close>.\<close>

definition make_block ::
  "('k, 'm) maker_env \<Rightarrow> consensus_config \<Rightarrow> int \<Rightarrow> 'm node_db \<Rightarrow> unit res \<times> 'm node_db" where
  "make_block e cc h db =
     bindS (bm_PrepareNewBlock (mk_env e h) (mk_random e h) (maker_bm e cc) db) (\<lambda>(prepres, bm) db.
       if prepres \<noteq> BlockPrepare_Done then (Err (ErrNew ''Block an not be done. Somethign went wrong''), db)
       else
         bindS (CompleteBlock (te_crypto (mk_env e h)) (mk_nonces e) bm, db) (\<lambda>(b, _) db.
         bindS (nbc_AddBlock (mk_env e h) cc b db) (\<lambda>_ db.
         ignoreS (txm_BlockAdded (txm_of cc (mk_env e h)) b True db) (\<lambda>db. (Ok (), db)))))"

definition makeNewInitialBlock ::
  "('k, 'm) maker_env \<Rightarrow> string list \<Rightarrow> int \<Rightarrow> 'm maker_state \<Rightarrow> unit res \<times> 'm maker_state" where
  "makeNewInitialBlock e sqls nextBlockHeigh s =
     (let cc = fst (ExtendRulesApplyStartHeigh (mk_config s) nextBlockHeigh)
      in on_mk_db (\<lambda>db. bindS (add_init_queries e cc nextBlockHeigh sqls db) (\<lambda>_. make_block e cc nextBlockHeigh))
           (s\<lparr>mk_config := cc\<rparr>))"

section \<open>The rows of the existing tables\<close>

text \<open>The queries that wait for a block, how many were loaded, and the height of the next block.\<close>

record dump_progress =
  dp_sqlslist :: "string list"
  dp_totalloaded :: int
  dp_nextBlockHeigh :: int

definition dump_limit :: int where "dump_limit = 1000"

definition block_is_due :: "int \<Rightarrow> dump_progress \<Rightarrow> bool" where
  "block_is_due totalcount p \<longleftrightarrow>
     (int (length (dp_sqlslist p)) \<ge> dump_limit \<or> totalcount = dp_totalloaded p) \<and>
     (wrap64 (totalcount - dp_totalloaded p) > wrap64 (dp_nextBlockHeigh p + 1) \<or> totalcount = dp_totalloaded p)"

definition block_if_due ::
  "('k, 'm) maker_env \<Rightarrow> int \<Rightarrow> dump_progress \<Rightarrow> 'm maker_state \<Rightarrow> dump_progress res \<times> 'm maker_state" where
  "block_if_due e totalcount p s =
     (if block_is_due totalcount p then
        bindS (makeNewInitialBlock e (dp_sqlslist p) (dp_nextBlockHeigh p) s) (\<lambda>_ s.
          (Ok (p\<lparr>dp_sqlslist := [], dp_nextBlockHeigh := wrap64 (dp_nextBlockHeigh p + 1)\<rparr>), s))
      else (Ok p, s))"

definition next_limit :: "dump_progress \<Rightarrow> int" where
  "next_limit p =
     (let limitL = dump_limit - int (length (dp_sqlslist p)) in if limitL < 1 then dump_limit else limitL)"

text \<open>
  The loop over the rows of a table ends when more queries came than rows were counted before. When a table lost rows
  since they were counted it never ends: the fuel counts its rounds.
\<close>

fun dump_table ::
  "nat \<Rightarrow> ('k, 'm) maker_env \<Rightarrow> string \<Rightarrow> int \<Rightarrow> int \<Rightarrow> int \<Rightarrow> dump_progress \<Rightarrow> 'm maker_state
     \<Rightarrow> dump_progress res \<times> 'm maker_state" where
  "dump_table 0 e table rows totalcount offset p s = (Diverge, s)"
| "dump_table (Suc fuel) e table rows totalcount offset p s =
     (if offset > rows then (Ok p, s)
      else
        bindS (ExecuteSQLTableDump (te_sql (mk_env e (dp_nextBlockHeigh p))) (mk_db s) table (next_limit p) offset, s) (\<lambda>sqls s.
        bindS (block_if_due e totalcount
                 (p\<lparr>dp_sqlslist := dp_sqlslist p @ sqls,
                    dp_totalloaded := wrap64 (dp_totalloaded p + int (length sqls))\<rparr>) s) (\<lambda>p s.
          dump_table fuel e table rows totalcount (wrap64 (offset + int (length sqls))) p s)))"

fun dump_tables ::
  "nat \<Rightarrow> ('k, 'm) maker_env \<Rightarrow> (string \<times> int) list \<Rightarrow> int \<Rightarrow> dump_progress \<Rightarrow> 'm maker_state
     \<Rightarrow> dump_progress res \<times> 'm maker_state" where
  "dump_tables fuel e [] totalcount p s = (Ok p, s)"
| "dump_tables fuel e ((table, rows) # counts) totalcount p s =
     bindS (dump_table fuel e table rows totalcount 0 p s) (\<lambda>p s. dump_tables fuel e counts totalcount p s)"

fun count_tables :: "'m sql_env \<Rightarrow> 'm node_db \<Rightarrow> string list \<Rightarrow> int \<Rightarrow> ((string \<times> int) list \<times> int) res" where
  "count_tables e db [] totalcount = Ok ([], totalcount)"
| "count_tables e db (table # tables) totalcount =
     bindR (ExecuteSQLCountInTable e db table) (\<lambda>c.
     bindR (count_tables e db tables (wrap64 (wrap64 (totalcount + 1) + c))) (\<lambda>(counts, totalcount).
       Ok ((table, c) # counts, totalcount)))"

definition addExistentTables ::
  "nat \<Rightarrow> ('k, 'm) maker_env \<Rightarrow> string list \<Rightarrow> 'm maker_state \<Rightarrow> (int \<times> int) res \<times> 'm maker_state" where
  "addExistentTables fuel e tables s =
     bindS (count_tables (te_sql (mk_env e 1)) (mk_db s) tables 0, s) (\<lambda>(counts, totalcount) s.
     bindS (dump_tables fuel e counts totalcount \<lparr>dp_sqlslist = [], dp_totalloaded = 0, dp_nextBlockHeigh = 1\<rparr> s) (\<lambda>p s.
     bindS (if length (dp_sqlslist p) > 0 then makeNewInitialBlock e (dp_sqlslist p) (dp_nextBlockHeigh p) s else (Ok (), s))
       (\<lambda>_ s. (Ok (int (length tables), totalcount), s))))"

section \<open>A new block chain\<close>

text \<open>The block that is completed is the genesis block, in a maker of blocks of its own.\<close>

definition completed_genesis :: "('k, 'm) maker_env \<Rightarrow> string \<Rightarrow> 'm maker_state \<Rightarrow> block res" where
  "completed_genesis e genesisCoinbaseData s =
     bindR (prepareGenesisBlock (mk_env e 0) (db_gob (mk_db s)) (mk_config s) (mk_random e 0) (mk_minter e) genesisCoinbaseData)
       (\<lambda>genesisBlock.
     bindR (CompleteBlock (te_crypto (mk_env e 0)) (mk_nonces e)
              (SetPreparedBlock (Some genesisBlock) (maker_bm e (mk_config s)))) (\<lambda>(b, _). Ok b))"

definition CreateBlockchain ::
  "nat \<Rightarrow> ('k, 'm) maker_env \<Rightarrow> bool \<Rightarrow> string \<Rightarrow> bool \<Rightarrow> 'm maker_state \<Rightarrow> unit res \<times> 'm maker_state" where
  "CreateBlockchain fuel e created genesisCoinbaseData initOnNotEmpty s =
     (let s = s\<lparr>mk_db := OpenConnection (mk_db s)\<rparr>
      in bindS (GetAllTables (te_sql (mk_env e 0)) (mk_db s), s) (\<lambda>tables s.
         let tables = filterTablesForManaged (mk_config s) tables
         in if length tables > 0 \<and> \<not> initOnNotEmpty
            then (Err (ErrNew ''The DB is not empty. It is not allowed to init on non-empty DB''), s)
            else
              bindS (completed_genesis e genesisCoinbaseData s, s) (\<lambda>genesisBlock s.
              bindS (on_mk_db (addFirstBlock (mk_env e 0) (mk_config s) created genesisBlock) s) (\<lambda>_ s.
                if length tables > 0 then bindS (addExistentTables fuel e tables s) (\<lambda>_ s. (Ok (), s))
                else (Ok (), s)))))"

definition node_CreateBlockchain ::
  "nat \<Rightarrow> ('k, 'm) maker_env \<Rightarrow> bool \<Rightarrow> string \<Rightarrow> bytes \<Rightarrow> 'k \<Rightarrow> 'm maker_state \<Rightarrow> unit res \<times> 'm maker_state" where
  "node_CreateBlockchain fuel e created minterAddress pubKey privateKey s =
     CreateBlockchain fuel (e\<lparr>mk_minter := minterAddress, mk_pubKey := pubKey, mk_privKey := privateKey\<rparr>) created
       ''some string. this is TEMP'' True s"

definition BlockchainExist :: "'m node_db \<Rightarrow> bool" where
  "BlockchainExist db = (case CheckDBExists (OpenConnection db) of Ok x \<Rightarrow> x | _ \<Rightarrow> False)"

section \<open>A block chain from another node\<close>

text \<open>
  The JSON decoder is a parameter that fills in a configuration, and so is the answer of writing the file. The
  document is first read into an empty configuration, then from the file into the one in use.
\<close>

definition empty_config :: consensus_config where
  "empty_config =
     \<lparr>cfg_AppName = [], cfg_Kind = [], cfg_CoinsForBlockMade = 0, cfg_Settings = emptySettings, cfg_ApplyRulesAfterBlock = 0,
      cfg_AllowTableCreate = False, cfg_AllowTableDrop = False, cfg_AllowRowDelete = False,
      cfg_TransactionCost = zeroCost, cfg_UnmanagedTables = [], cfg_TableRules = [],
      cfg_InitNodesAddreses = [], cfg_PaidTransactionsWallet = [], cfg_isDefault = False, cfg_filePath = []\<rparr>"

definition cc_load ::
  "(bytes \<Rightarrow> consensus_config \<Rightarrow> consensus_config res) \<Rightarrow> bytes \<Rightarrow> consensus_config \<Rightarrow> consensus_config res" where
  "cc_load unjson jsonStr c = bindR (unjson jsonStr c) (\<lambda>c. Ok (load_completed c))"

definition cc_UpdateConfig ::
  "(bytes \<Rightarrow> consensus_config \<Rightarrow> consensus_config res) \<Rightarrow> unit res \<Rightarrow> bytes \<Rightarrow> consensus_config \<Rightarrow> consensus_config res" where
  "cc_UpdateConfig unjson written jsondoc cc =
     (if cfg_filePath cc = [] then Err (ErrNew ''COnfig file path missed. Can not save'')
      else bindR (cc_load unjson jsondoc empty_config) (\<lambda>_.
           bindR written (\<lambda>_.
           bindR (cc_load unjson jsondoc cc) (\<lambda>c.
             Ok (c\<lparr>cfg_isDefault := False, cfg_filePath := cfg_filePath cc\<rparr>)))))"

text \<open>The blocks after the first one; the height of the last one that was added.\<close>

fun add_first_blocks ::
  "('k, 'm) node_env \<Rightarrow> consensus_config \<Rightarrow> bytes list \<Rightarrow> int \<Rightarrow> 'm node_state \<Rightarrow> int res \<times> 'm node_state" where
  "add_first_blocks e cc [] height s = (Ok height, s)"
| "add_first_blocks e cc (blockdata # blocks) height s =
     bindS (nv_unblock e blockdata, s) (\<lambda>b s.
     bindS (on_db (nbc_AddBlock (env_at e s) cc b) s) (\<lambda>_ s.
     ignoreS (on_db (txm_BlockAdded (txm_of cc (env_at e s)) b True) s) (\<lambda>s.
       add_first_blocks e cc blocks (blk_Height b) s)))"

text \<open>The result carries the configuration that was taken over.\<close>

definition importBlockchainConsensusInfo ::
  "('k, 'm) node_env \<Rightarrow> (bytes \<Rightarrow> consensus_config \<Rightarrow> consensus_config res) \<Rightarrow> unit res \<Rightarrow> node_addr \<Rightarrow> consensus_config
     \<Rightarrow> 'm node_state \<Rightarrow> consensus_config res \<times> 'm node_state" where
  "importBlockchainConsensusInfo e unjson written fromnode cc s =
     bindS (on_client (SendGetConsensusData (nv_net e) fromnode) s) (\<lambda>configFile s.
       (cc_UpdateConfig unjson written configFile cc, s))"

definition InitBlockchainFromOther ::
  "('k, 'm) node_env \<Rightarrow> (bytes \<Rightarrow> consensus_config \<Rightarrow> consensus_config res) \<Rightarrow> unit res \<Rightarrow> bool \<Rightarrow> node_addr \<Rightarrow> consensus_config
     \<Rightarrow> 'm node_state \<Rightarrow> (bool \<times> consensus_config) res \<times> 'm node_state" where
  "InitBlockchainFromOther e unjson written created addr cc s =
     (let s = s\<lparr>nd_db := OpenConnection (nd_db s)\<rparr>
      in bindS (CheckConnection (te_sql (env_at e s)) (nd_db s), s) (\<lambda>_ s.
         bindS (importBlockchainConsensusInfo e unjson written addr cc s) (\<lambda>cc s.
         bindS (on_client (SendGetFirstBlocks (nv_net e) addr) s) (\<lambda>result s.
           case cfb_Blocks result of
             [] \<Rightarrow> (Err (ErrNew ''No blocks found on taht node''), s)
           | firstblockbytes # blocks \<Rightarrow>
               bindS (nv_unblock e firstblockbytes, s) (\<lambda>b s.
               bindS (let (r, s) = on_db (addFirstBlock (env_at e s) cc created b) s
                      in (errR ''Create DB abd add first block'' r, s)) (\<lambda>_ s.
               bindS (add_first_blocks e cc blocks (blk_Height b) s) (\<lambda>height s.
                 (Ok (height = cfb_Height result, cc), s))))))))"

text \<open>Without a host one of the known nodes is asked, the one that \<^verbatim>\<open>rand.Intn\<close> picks.\<close>

definition pick_other :: "(nat \<Rightarrow> nat) \<Rightarrow> string \<Rightarrow> int \<Rightarrow> node_addr list \<Rightarrow> node_addr res" where
  "pick_other intn host port nodes =
     (if host = [] then
        (if length nodes = 0 then Err (ErrNew ''No known nodes to request a blockchain'')
         else Ok (NewNodeAddr (na_Host (nodes ! intn (length nodes))) (na_Port (nodes ! intn (length nodes)))))
      else Ok (NewNodeAddr host port))"

definition node_InitBlockchainFromOther ::
  "('k, 'm) node_env \<Rightarrow> (bytes \<Rightarrow> consensus_config \<Rightarrow> consensus_config res) \<Rightarrow> unit res \<Rightarrow> bool \<Rightarrow> (nat \<Rightarrow> nat) \<Rightarrow>
     string \<Rightarrow> int \<Rightarrow> consensus_config \<Rightarrow> 'm node_state \<Rightarrow> (bool \<times> consensus_config) res \<times> 'm node_state" where
  "node_InitBlockchainFromOther e unjson written created intn host port cc s =
     bindS (pick_other intn host port (nn_Nodes (nd_net s)), s) (\<lambda>addr s.
     bindS (InitBlockchainFromOther e unjson written created addr cc s) (\<lambda>r s.
       (Ok r, s\<lparr>nd_net := snd (AddNodeToKnown addr (nd_net s))\<rparr>)))"

section \<open>Making blocks leaves the connection as it is\<close>

lemma opened_same: "same_store d db \<Longrightarrow> db_opened d = db_opened db"
  by (simp add: same_store_def)

lemma AddBlock_opened:
  assumes "db_opened db"
  shows "db_opened (snd (AddBlock db b))"
proof -
  have branch: "db_opened (snd (UpdateChainOnNewBranch d h)) = db_opened d" for d :: "'a node_db" and h
    unfolding UpdateChainOnNewBranch_def
    by (intro kept_bindS[where P = "\<lambda>s. db_opened s = db_opened d"]) (auto intro!: kept_bindS[where P = "\<lambda>s. db_opened s = db_opened d"])
  have ignored: "db_opened (snd (ignoreS r (\<lambda>s. (x, s)))) = db_opened (snd r)" for r :: "'b res \<times> 'a node_db" and x :: "add_state res"
    by (cases r; cases "fst r") auto
  show ?thesis unfolding AddBlock_def Let_def
    by (intro kept_bindS[where P = db_opened]) (auto simp: assms branch ignored intro!: kept_bindS[where P = db_opened])
qed

lemma nbc_AddBlock_opened: "db_opened db \<Longrightarrow> db_opened (snd (nbc_AddBlock e cc b db))"
  unfolding nbc_AddBlock_def
  by (intro kept_bindS[where P = db_opened])
    (auto simp: AddBlock_opened opened_same[OF VerifyBlock_keeps[OF same_store_simps(1)]] intro!: kept_bindS[where P = db_opened])

lemma NewQueryByNodeInit_keeps [keeps]: "same_store s db \<Longrightarrow> same_store (snd (NewQueryByNodeInit e q i sql pk k s)) db"
  unfolding NewQueryByNodeInit_def processQueryWithSignature_def
  by (intro keeps_bindS processQuery_keeps) (auto simp: Let_def intro!: keeps)

lemma init_queries_keeps [keeps]: "same_store s db \<Longrightarrow> same_store (snd (add_init_queries e cc h sqls s)) db"
  unfolding add_init_queries_def by (intro keeps_forS) (auto intro!: keeps)

lemma make_block_opened: "db_opened db \<Longrightarrow> db_opened (snd (make_block e cc h db))"
  unfolding make_block_def
  by (intro kept_bindS[where P = db_opened])
    (auto simp: nbc_AddBlock_opened opened_same[OF PrepareNewBlock_keeps[OF same_store_simps(1)]]
      opened_same[OF txm_keeps(1)[OF same_store_simps(1)]] split: prod.split
      intro!: kept_bindS[where P = db_opened] kept_ignoreS[where P = db_opened])

lemma on_mk_db_db [simp]: "mk_db (snd (on_mk_db f s)) = snd (f (mk_db s))" "fst (on_mk_db f s) = fst (f (mk_db s))"
  by (simp_all add: on_mk_db_def split: prod.split)

lemma initial_block_opened:
  "db_opened (mk_db s) \<Longrightarrow> db_opened (mk_db (snd (makeNewInitialBlock e sqls h s)))"
  unfolding makeNewInitialBlock_def Let_def
  by (auto simp: opened_same[OF init_queries_keeps[OF same_store_simps(1)]] intro!: kept_bindS[where P = db_opened] make_block_opened)

section \<open>The loop over the existing tables\<close>

text \<open>
  What the loop does, without its counters: the dumps of all tables in a row are cut into pieces of a thousand queries,
  but a rest that is too short for the block after the next goes into the last one.
\<close>

function chunks :: "int \<Rightarrow> 'a list \<Rightarrow> 'a list list" where
  "chunks h xs =
     (if xs = [] then [] else if int (length xs) \<le> dump_limit + h + 1 then [xs]
      else take (nat dump_limit) xs # chunks (h + 1) (drop (nat dump_limit) xs))"
  by auto
termination by (relation "measure (\<lambda>(h, xs). length xs)") (auto simp: dump_limit_def)

declare chunks.simps [simp del]

fun make_blocks ::
  "('k, 'm) maker_env \<Rightarrow> int \<Rightarrow> string list list \<Rightarrow> 'm maker_state \<Rightarrow> unit res \<times> 'm maker_state" where
  "make_blocks e h [] s = (Ok (), s)"
| "make_blocks e h (c # cs) s = bindS (makeNewInitialBlock e c h s) (\<lambda>_. make_blocks e (h + 1) cs)"

lemma bindS_assoc: "bindS (bindS r f) g = bindS r (\<lambda>x s. bindS (f x s) g)"
  by (cases r; cases "fst r") auto

lemma make_blocks_append:
  "make_blocks e h (cs @ ds) = (\<lambda>s. bindS (make_blocks e h cs s) (\<lambda>_. make_blocks e (h + int (length cs)) ds))"
  by (induction cs arbitrary: h) (auto simp: bindS_assoc add.assoc)

lemma make_blocks_opened:
  "db_opened (mk_db s) \<Longrightarrow> db_opened (mk_db (snd (make_blocks e h cs s)))"
proof (induction cs arbitrary: h s)
  case (Cons c cs)
  show ?case unfolding make_blocks.simps
    by (rule kept_bindS[where P = "\<lambda>t. db_opened (mk_db t)"]) (use Cons in \<open>simp_all add: initial_block_opened\<close>)
qed simp

lemma chunks_concat: "concat (chunks h xs) = xs"
  by (induction h xs rule: chunks.induct) (subst chunks.simps, auto)

lemma chunks_length:
  "0 \<le> h \<Longrightarrow> i < length (chunks h xs) \<Longrightarrow> chunks h xs ! i \<noteq> [] \<and>
     (0 < i \<or> h < int (length xs) \<longrightarrow> dump_limit \<le> int (length (chunks h xs ! i)) \<or> h + int i < int (length (chunks h xs ! i)))"
proof (induction h xs arbitrary: i rule: chunks.induct)
  case (1 h xs)
  show ?case
  proof (cases "xs = [] \<or> int (length xs) \<le> dump_limit + h + 1")
    case True
    then have "chunks h xs = (if xs = [] then [] else [xs])" by (subst chunks.simps) auto
    then show ?thesis using 1(3) by (auto split: if_splits)
  next
    case False
    then have c: "chunks h xs = take (nat dump_limit) xs # chunks (h + 1) (drop (nat dump_limit) xs)"
      by (subst chunks.simps) auto
    show ?thesis
    proof (cases i)
      case 0
      then show ?thesis using False c by (auto simp: dump_limit_def)
    next
      case (Suc j)
      have "h + 1 < int (length (drop (nat dump_limit) xs))" using False by (auto simp: dump_limit_def of_nat_diff)
      then show ?thesis using 1(1)[of j] 1(2,3) False Suc c by (auto simp: algebra_simps)
    qed
  qed
qed

text \<open>The queries that wait and those still to come: fewer than a thousand wait, or what is left is for one block.\<close>

definition ready :: "int \<Rightarrow> string list \<Rightarrow> string list \<Rightarrow> bool" where
  "ready h L rest \<longleftrightarrow> int (length L) < dump_limit \<or> int (length L) + int (length rest) \<le> dump_limit + h + 1"

lemma chunks_simps:
  "chunks h [] = []"
  "xs \<noteq> [] \<Longrightarrow> int (length xs) \<le> dump_limit + h + 1 \<Longrightarrow> chunks h xs = [xs]"
  "xs \<noteq> [] \<Longrightarrow> dump_limit + h + 1 < int (length xs) \<Longrightarrow>
     chunks h xs = take (nat dump_limit) xs # chunks (h + 1) (drop (nat dump_limit) xs)"
  by (subst chunks.simps, simp)+

definition small :: "int \<Rightarrow> bool" where
  "small x \<longleftrightarrow> 0 \<le> x \<and> x < 2 ^ 62"

lemma small_wrap: "small x \<Longrightarrow> wrap64 x = x" "small x \<Longrightarrow> wrap64 (x + 1) = x + 1"
  by (auto simp: small_def intro!: wrap64_id) (auto simp: in64_def)

lemma due_step:
  assumes rdy: "ready h L (A @ rest)" and A: "A \<noteq> []" "int (length A) \<le> next_limit \<lparr>dp_sqlslist = L, dp_totalloaded = x, dp_nextBlockHeigh = h\<rparr>"
    and h: "1 \<le> h" "small (h + int (length L) + int (length A) + int (length rest))" and t: "small totalcount"
  shows "\<exists>cs L' h'.
    (\<forall>s. block_if_due e totalcount \<lparr>dp_sqlslist = L @ A, dp_totalloaded = totalcount - int (length rest), dp_nextBlockHeigh = h\<rparr> s =
       bindS (make_blocks e h cs s)
         (\<lambda>_ s. (Ok \<lparr>dp_sqlslist = L', dp_totalloaded = totalcount - int (length rest), dp_nextBlockHeigh = h'\<rparr>, s))) \<and>
    chunks h (L @ A @ rest) = cs @ chunks h' (L' @ rest) \<and> h' = h + int (length cs) \<and>
    h' + int (length L') \<le> h + int (length L) + int (length A) \<and> ready h' L' rest \<and> (rest = [] \<longrightarrow> L' = [])"
proof -
  let ?p = "\<lparr>dp_sqlslist = L @ A, dp_totalloaded = totalcount - int (length rest), dp_nextBlockHeigh = h\<rparr>"
  have w: "wrap64 (int (length rest)) = int (length rest)" "wrap64 (h + 1) = h + 1"
    using h small_wrap(1)[of "int (length rest)"] small_wrap(2)[of h] by (auto simp: small_def)
  have pos: "1 \<le> int (length L) + int (length A)" using A(1) by (cases A) auto
  have lim: "int (length A) \<le> dump_limit - int (length L) \<or> dump_limit \<le> int (length L) \<and> int (length A) \<le> dump_limit"
    using A(2) by (auto simp: next_limit_def Let_def dump_limit_def split: if_splits)
  have due: "block_is_due totalcount ?p \<longleftrightarrow>
      rest = [] \<or> dump_limit \<le> int (length (L @ A)) \<and> h + 1 < int (length rest)"
    using w by (auto simp: block_is_due_def)
  consider (all) "rest = []" | (full) "rest \<noteq> []" "dump_limit \<le> int (length (L @ A))" "h + 1 < int (length rest)"
    | (wait) "rest \<noteq> []" "int (length (L @ A)) < dump_limit \<or> int (length rest) \<le> h + 1" by fastforce
  then show ?thesis
  proof cases
    case all
    have "int (length (L @ A)) \<le> dump_limit + h + 1" using rdy lim h(1) all by (auto simp: ready_def)
    then have "chunks h (L @ A @ rest) = [L @ A]" using chunks_simps(2)[of "L @ A" h] A(1) all by simp
    then show ?thesis using due all w A(1) pos
      by (intro exI[of _ "[L @ A]"] exI[of _ "[]"] exI[of _ "h + 1"]) (simp add: block_if_due_def ready_def dump_limit_def chunks_simps(1) bindS_assoc Suc_leI)
  next
    case full
    then have len: "length (L @ A) = nat dump_limit" using rdy lim by (auto simp: ready_def dump_limit_def)
    then have "chunks h ((L @ A) @ rest) = (L @ A) # chunks (h + 1) rest"
      using full chunks_simps(3)[of "(L @ A) @ rest" h] by (simp add: dump_limit_def)
    then show ?thesis using due full w A(1) pos
      by (intro exI[of _ "[L @ A]"] exI[of _ "[]"] exI[of _ "h + 1"]) (simp add: block_if_due_def ready_def dump_limit_def bindS_assoc Suc_leI)
  next
    case wait
    then have "ready h (L @ A) rest" using rdy lim by (auto simp: ready_def)
    then show ?thesis using due wait
      by (intro exI[of _ "[]"] exI[of _ "L @ A"] exI[of _ h]) (auto simp: block_if_due_def)
  qed
qed

text \<open>A part of the loop: the blocks it makes, and the queries that wait after it.\<close>

definition loop_part ::
  "('k, 'm) maker_env \<Rightarrow> int \<Rightarrow> string list \<Rightarrow> string list \<Rightarrow> string list \<Rightarrow> int
     \<Rightarrow> ('m maker_state \<Rightarrow> dump_progress res \<times> 'm maker_state) \<Rightarrow> string list list \<Rightarrow> string list \<Rightarrow> int \<Rightarrow> bool" where
  "loop_part e totalcount L A rest h f cs L' h' \<longleftrightarrow>
     (\<forall>s. db_opened (mk_db s) \<longrightarrow> f s = bindS (make_blocks e h cs s)
        (\<lambda>_ s. (Ok \<lparr>dp_sqlslist = L', dp_totalloaded = totalcount - int (length rest), dp_nextBlockHeigh = h'\<rparr>, s))) \<and>
     chunks h (L @ A @ rest) = cs @ chunks h' (L' @ rest) \<and> h' = h + int (length cs) \<and>
     h' + int (length L') \<le> h + int (length L) + int (length A) \<and> ready h' L' rest \<and> (rest = [] \<longrightarrow> L' = [])"

lemma loop_part_trans:
  assumes p: "loop_part e totalcount L A (B @ rest) h f cs L1 h1" and q: "loop_part e totalcount L1 B rest h1
      (g \<lparr>dp_sqlslist = L1, dp_totalloaded = totalcount - int (length (B @ rest)), dp_nextBlockHeigh = h1\<rparr>) ds L2 h2"
    and f': "\<And>s. db_opened (mk_db s) \<Longrightarrow> f' s = bindS (f s) g"
  shows "loop_part e totalcount L (A @ B) rest h f' (cs @ ds) L2 h2"
proof -
  let ?p = "\<lparr>dp_sqlslist = L1, dp_totalloaded = totalcount - int (length (B @ rest)), dp_nextBlockHeigh = h1\<rparr>"
  have "f' s = bindS (make_blocks e h (cs @ ds) s)
      (\<lambda>_ s. (Ok \<lparr>dp_sqlslist = L2, dp_totalloaded = totalcount - int (length rest), dp_nextBlockHeigh = h2\<rparr>, s))"
    if s: "db_opened (mk_db s)" for s
  proof -
    have "f s = bindS (make_blocks e h cs s)
        (\<lambda>_ s. (Ok ?p, s))"
      using p s by (simp add: loop_part_def)
    then have "f' s = bindS (make_blocks e h cs s) (\<lambda>_. g ?p)" using f'[OF s] by (simp add: bindS_assoc)
    also have "\<dots> = bindS (make_blocks e h cs s) (\<lambda>_ s. bindS (make_blocks e h1 ds s)
        (\<lambda>_ s. (Ok \<lparr>dp_sqlslist = L2, dp_totalloaded = totalcount - int (length rest), dp_nextBlockHeigh = h2\<rparr>, s)))"
    proof (rule bindS_cong[OF refl])
      fix x t assume "make_blocks e h cs s = (Ok x, t)"
      then have "db_opened (mk_db t)" using make_blocks_opened[OF s, of e h cs] by simp
      then show "g ?p t = bindS (make_blocks e h1 ds t)
        (\<lambda>_ s. (Ok \<lparr>dp_sqlslist = L2, dp_totalloaded = totalcount - int (length rest), dp_nextBlockHeigh = h2\<rparr>, s))"
        using q by (simp add: loop_part_def)
    qed
    finally show ?thesis using p by (simp add: loop_part_def make_blocks_append bindS_assoc)
  qed
  then show ?thesis using p q by (auto simp: loop_part_def)
qed

lemma dump_round:
  assumes served: "\<And>k. serves_table (te_sql (mk_env e k)) table d" and off: "off < length (dump_of table d)"
    and D: "int (length (dump_of table d)) < 2 ^ 62" and lim: "1 \<le> lim" "lim \<le> dump_limit"
  obtains A B where "drop off (dump_of table d) = A @ B" "A \<noteq> []" "int (length A) \<le> lim"
    "B = drop (off + length A) (dump_of table d)" "off + length A \<le> length (dump_of table d)"
    "\<And>k db. db_opened db \<Longrightarrow> ExecuteSQLTableDump (te_sql (mk_env e k)) db table lim (int off) = Ok A"
proof -
  let ?A = "take (nat lim) (drop off (dump_of table d))"
  have "ExecuteSQLTableDump (te_sql (mk_env e k)) db table lim (int off) = Ok ?A" if "db_opened db" for k db
    using dump_piece[OF served that, of lim off] lim off D by (simp add: dump_limit_def)
  moreover have "drop off (dump_of table d) = ?A @ drop (off + length ?A) (dump_of table d)"
    by (metis add.commute append_take_drop_id drop_drop drop_eq_Nil2 length_take min.absorb_iff2 min_def nat_le_linear take_all)
  moreover have "off + length ?A \<le> length (dump_of table d)" using off by auto
  moreover have "?A \<noteq> []" using off lim by auto
  moreover have "int (length ?A) \<le> lim" using lim by auto
  ultimately show ?thesis using that by blast
qed

lemma dump_table_run:
  assumes served: "\<And>k. serves_table (te_sql (mk_env e k)) table d" and D: "D = dump_of table d" "int (length D) < 2 ^ 62"
    and t: "small totalcount"
  shows "off \<le> length D \<Longrightarrow> length D - off < fuel \<Longrightarrow> ready h L (drop off D @ rest) \<Longrightarrow> 1 \<le> h \<Longrightarrow>
     small (h + int (length L) + int (length (drop off D @ rest))) \<Longrightarrow> (drop off D @ rest = [] \<Longrightarrow> L = []) \<Longrightarrow>
     \<exists>cs L' h'. loop_part e totalcount L (drop off D) rest h
       (dump_table fuel e table (int (length D) - 1) totalcount (int off)
          \<lparr>dp_sqlslist = L, dp_totalloaded = totalcount - int (length (drop off D @ rest)), dp_nextBlockHeigh = h\<rparr>) cs L' h'"
proof (induction fuel arbitrary: off L h)
  case (Suc fuel)
  let ?p = "\<lparr>dp_sqlslist = L, dp_totalloaded = totalcount - int (length (drop off D @ rest)), dp_nextBlockHeigh = h\<rparr>"
  show ?case
  proof (cases "off = length D")
    case True
    then have "loop_part e totalcount L (drop off D) rest h
       (dump_table (Suc fuel) e table (int (length D) - 1) totalcount (int off) ?p) [] L h"
      using Suc.prems by (auto simp: loop_part_def)
    then show ?thesis by blast
  next
    case False
    then have less: "off < length (dump_of table d)" using Suc.prems(1) D(1) by simp
    have lim: "1 \<le> next_limit ?p" "next_limit ?p \<le> dump_limit" by (auto simp: next_limit_def Let_def dump_limit_def)
    obtain A B where AB: "drop off D = A @ B" "A \<noteq> []" "int (length A) \<le> next_limit ?p" "B = drop (off + length A) D"
      "off + length A \<le> length D"
      and dump: "\<And>k db. db_opened db \<Longrightarrow> ExecuteSQLTableDump (te_sql (mk_env e k)) db table (next_limit ?p) (int off) = Ok A"
      using dump_round[OF served less D(2)[unfolded D(1)] lim, folded D(1)] by blast
    let ?q = "\<lparr>dp_sqlslist = L @ A, dp_totalloaded = totalcount - int (length (B @ rest)), dp_nextBlockHeigh = h\<rparr>"
    have sm: "small (h + int (length L) + int (length A) + int (length (B @ rest)))" using Suc.prems(5) AB(1) by (simp add: add.assoc)
    have "ready h L (A @ B @ rest)" using Suc.prems(3) AB(1) by simp
    from due_step[OF this AB(2) AB(3) Suc.prems(4) sm t]
    obtain cs L1 h1 where one: "loop_part e totalcount L A (B @ rest) h (block_if_due e totalcount ?q) cs L1 h1"
      unfolding loop_part_def by blast
    let ?r = "\<lparr>dp_sqlslist = L1, dp_totalloaded = totalcount - int (length (B @ rest)), dp_nextBlockHeigh = h1\<rparr>"
    have "\<exists>ds L2 h2. loop_part e totalcount L1 B rest h1
       (dump_table fuel e table (int (length D) - 1) totalcount (int (off + length A)) ?r) ds L2 h2"
      unfolding AB(4)
    proof (rule Suc.IH)
      show "length D - (off + length A) < fuel" using Suc.prems(1,2) AB(2,5) by (cases A) auto
    qed (use one AB(4,5) Suc.prems(4) sm in \<open>auto simp: loop_part_def small_def\<close>)
    then obtain ds L2 h2 where two: "loop_part e totalcount L1 B rest h1
       ((\<lambda>p. dump_table fuel e table (int (length D) - 1) totalcount (int (off + length A)) p) ?r) ds L2 h2" by blast
    have w: "wrap64 (int off + int (length A)) = int (off + length A)" using AB(5) D(2) by (intro wrap64_id[THEN trans]) (auto simp: in64_def)
    have w2: "wrap64 (totalcount - int (length (drop off D @ rest)) + int (length A)) = totalcount - int (length (B @ rest))"
      unfolding AB(1) using sm t Suc.prems(4) by (intro wrap64_id[THEN trans]) (auto simp: in64_def small_def)
    have "dump_table (Suc fuel) e table (int (length D) - 1) totalcount (int off) ?p s =
        bindS (block_if_due e totalcount ?q s)
          (\<lambda>p. dump_table fuel e table (int (length D) - 1) totalcount (int (off + length A)) p)"
      if "db_opened (mk_db s)" for s
      using less[folded D(1)] dump[OF that] w w2 by (simp del: of_nat_add length_append length_drop)
    from loop_part_trans[OF one two this] show ?thesis using AB(1) by auto
  qed
qed simp

definition dumps :: "(string \<times> table_data) list \<Rightarrow> string list" where
  "dumps ts = concat (map (\<lambda>(table, d). dump_of table d) ts)"

definition row_counts :: "(string \<times> table_data) list \<Rightarrow> (string \<times> int) list" where
  "row_counts ts = map (\<lambda>(table, d). (table, int (length (td_rows d)))) ts"

definition served :: "('k, 'm) maker_env \<Rightarrow> (string \<times> table_data) list \<Rightarrow> bool" where
  "served e ts \<longleftrightarrow> (\<forall>(table, d)\<in>set ts. \<forall>k. serves_table (te_sql (mk_env e k)) table d)"

lemma dumps_simps [simp]: "dumps [] = []" "dumps ((table, d) # ts) = dump_of table d @ dumps ts"
  by (simp_all add: dumps_def)

lemma served_Cons: "served e ((table, d) # ts) \<longleftrightarrow> (\<forall>k. serves_table (te_sql (mk_env e k)) table d) \<and> served e ts"
  by (auto simp: served_def)

lemma dump_tables_run:
  assumes t: "small totalcount"
  shows "served e ts \<Longrightarrow> length (dumps ts) < fuel \<Longrightarrow> ready h L (dumps ts) \<Longrightarrow> 1 \<le> h \<Longrightarrow>
     small (h + int (length L) + int (length (dumps ts))) \<Longrightarrow> (dumps ts = [] \<Longrightarrow> L = []) \<Longrightarrow>
     \<exists>cs L' h'. loop_part e totalcount L (dumps ts) [] h
       (dump_tables fuel e (row_counts ts) totalcount
          \<lparr>dp_sqlslist = L, dp_totalloaded = totalcount - int (length (dumps ts)), dp_nextBlockHeigh = h\<rparr>) cs L' h'"
proof (induction ts arbitrary: L h)
  case Nil
  then have "loop_part e totalcount L (dumps []) [] h
       (dump_tables fuel e (row_counts []) totalcount
          \<lparr>dp_sqlslist = L, dp_totalloaded = totalcount - int (length (dumps [])), dp_nextBlockHeigh = h\<rparr>) [] L h"
    by (auto simp: loop_part_def row_counts_def)
  then show ?case by blast
next
  case (Cons x ts)
  obtain table d where x: "x = (table, d)" by fastforce
  let ?D = "dump_of table d"
  let ?p = "\<lparr>dp_sqlslist = L, dp_totalloaded = totalcount - int (length (?D @ dumps ts)), dp_nextBlockHeigh = h\<rparr>"
  have s: "\<And>k. serves_table (te_sql (mk_env e k)) table d" "served e ts" using Cons.prems(1) x by (auto simp: served_Cons)
  have "\<exists>cs L1 h1. loop_part e totalcount L (drop 0 ?D) (dumps ts) h
       (dump_table fuel e table (int (length ?D) - 1) totalcount (int 0)
          \<lparr>dp_sqlslist = L, dp_totalloaded = totalcount - int (length (drop 0 ?D @ dumps ts)), dp_nextBlockHeigh = h\<rparr>) cs L1 h1"
  proof (rule dump_table_run[OF s(1) refl _ t])
    show "int (length ?D) < 2 ^ 62" using Cons.prems(4,5) x by (simp add: small_def)
  qed (use Cons.prems x in auto)
  then obtain cs L1 h1 where one: "loop_part e totalcount L ?D (dumps ts @ []) h
       (dump_table fuel e table (int (length (td_rows d))) totalcount 0 ?p) cs L1 h1"
    by (auto simp: dump_of_length)
  have "\<exists>ds L2 h2. loop_part e totalcount L1 (dumps ts) [] h1
       (dump_tables fuel e (row_counts ts) totalcount
          \<lparr>dp_sqlslist = L1, dp_totalloaded = totalcount - int (length (dumps ts)), dp_nextBlockHeigh = h1\<rparr>) ds L2 h2"
    by (rule Cons.IH) (use Cons.prems s x one in \<open>auto simp: loop_part_def small_def\<close>)
  then obtain ds L2 h2 where two: "loop_part e totalcount L1 (dumps ts) [] h1
       (dump_tables fuel e (row_counts ts) totalcount
          \<lparr>dp_sqlslist = L1, dp_totalloaded = totalcount - int (length (dumps ts @ [])), dp_nextBlockHeigh = h1\<rparr>) ds L2 h2"
    by auto
  have "loop_part e totalcount L (?D @ dumps ts) [] h (dump_tables fuel e (row_counts (x # ts)) totalcount ?p) (cs @ ds) L2 h2"
    by (rule loop_part_trans[where g = "dump_tables fuel e (row_counts ts) totalcount", OF one two]) (simp add: row_counts_def x)
  then show ?case using x by auto
qed

lemma count_tables_run:
  "served e ts \<Longrightarrow> db_opened db \<Longrightarrow> 0 \<le> n \<Longrightarrow> small (n + int (length (dumps ts))) \<Longrightarrow>
   count_tables (te_sql (mk_env e k)) db (map fst ts) n = Ok (row_counts ts, n + int (length (dumps ts)))"
proof (induction ts arbitrary: n)
  case (Cons x ts)
  obtain table d where x: "x = (table, d)" by fastforce
  have s: "\<And>k. serves_table (te_sql (mk_env e k)) table d" "served e ts" using Cons.prems(1) x by (auto simp: served_Cons)
  have b: "0 \<le> n" "n + int (Suc (length (td_rows d)) + length (dumps ts)) < 2 ^ 62" using Cons.prems(3,4) x by (auto simp: small_def dump_of_length)
  then have w: "wrap64 (n + 1) = n + 1" "wrap64 (n + 1 + int (length (td_rows d))) = n + 1 + int (length (td_rows d))"
    by (auto intro!: wrap64_id simp: in64_def)
  have c: "ExecuteSQLCountInTable (te_sql (mk_env e k)) db table = Ok (int (length (td_rows d)))"
    using count_in_table[OF s(1) Cons.prems(2)] b by simp
  have "count_tables (te_sql (mk_env e k)) db (map fst ts) (n + 1 + int (length (td_rows d))) =
      Ok (row_counts ts, n + 1 + int (length (td_rows d)) + int (length (dumps ts)))"
    using b by (intro Cons.IH s Cons.prems) (auto simp: small_def)
  then show ?case using c w x by (simp add: row_counts_def dump_of_length)
qed (simp add: row_counts_def)

lemma addExistentTables_main:
  assumes s: "served e ts" and o: "db_opened (mk_db s)" and n: "int (length (dumps ts)) < 2 ^ 62 - 1" and f: "length (dumps ts) < fuel"
  shows "addExistentTables fuel e (map fst ts) s =
     bindS (make_blocks e 1 (chunks 1 (dumps ts)) s) (\<lambda>_ s. (Ok (int (length ts), int (length (dumps ts))), s))"
proof -
  have sm: "small (int (length (dumps ts)))" using n by (simp add: small_def)
  obtain cs L' h' where run: "loop_part e (int (length (dumps ts))) [] (dumps ts) [] 1
       (dump_tables fuel e (row_counts ts) (int (length (dumps ts)))
          \<lparr>dp_sqlslist = [], dp_totalloaded = int (length (dumps ts)) - int (length (dumps ts)), dp_nextBlockHeigh = 1\<rparr>) cs L' h'"
    using dump_tables_run[OF sm s f, of 1 "[]"] n by (auto simp: ready_def dump_limit_def small_def)
  then have "L' = []" and c: "cs = chunks 1 (dumps ts)" by (auto simp: loop_part_def chunks_simps(1))
  have "dump_tables fuel e (row_counts ts) (int (length (dumps ts)))
      \<lparr>dp_sqlslist = [], dp_totalloaded = 0, dp_nextBlockHeigh = 1\<rparr> s =
      bindS (make_blocks e 1 cs s) (\<lambda>_ s. (Ok \<lparr>dp_sqlslist = L', dp_totalloaded = int (length (dumps ts)), dp_nextBlockHeigh = h'\<rparr>, s))"
    using run o by (simp add: loop_part_def)
  moreover have "count_tables (te_sql (mk_env e 1)) (mk_db s) (map fst ts) 0 = Ok (row_counts ts, int (length (dumps ts)))"
    using count_tables_run[OF s o, of 0] sm by simp
  ultimately show ?thesis using \<open>L' = []\<close> c by (simp add: addExistentTables_def bindS_assoc)
qed

text \<open>
  On tables that nobody writes to, the loop over the existing tables ends and makes blocks of the pieces of the dumps of
  all tables, in order: each row and each table is in exactly one block, no block is empty, and every block after the
  first has more than as many queries as its height, or a thousand.
\<close>


section \<open>The invariant of a new block chain\<close>

definition maker_inv :: "nat \<Rightarrow> bytes \<Rightarrow> int \<Rightarrow> 'm node_db \<Rightarrow> bool" where
  "maker_inv n g k db \<longleftrightarrow> (\<exists>hs. node_inv n g db hs) \<and> blocks_are (\<lambda>_ b. 0 \<le> blk_Height b \<and> blk_Height b < k) db"

definition maker_hashes :: "nat \<Rightarrow> ('k, 'm) maker_env \<Rightarrow> bool" where
  "maker_hashes n e \<longleftrightarrow>
     (\<forall>k x. length (sha256 (te_crypto (mk_env e k)) x) = n \<and> sha256 (te_crypto (mk_env e k)) x \<noteq> zeros n)"

lemma maker_inv_same: "same_store d db \<Longrightarrow> maker_inv n g k d = maker_inv n g k db"
  by (simp add: maker_inv_def node_inv_same blocks_same)

lemma maker_inv_mono: "maker_inv n g k db \<Longrightarrow> k \<le> l \<Longrightarrow> maker_inv n g l db"
  unfolding maker_inv_def blocks_are_def by force

lemma maker_inv_kept: "same_store (snd r) db \<Longrightarrow> maker_inv n g k db \<Longrightarrow> maker_inv n g k (snd r)"
  by (simp add: maker_inv_same)

lemma add_on_top:
  assumes inv: "maker_inv n g k db" and k: "k < 2 ^ 63"
    and b: "length (blk_Hash b) = n" "blk_Hash b \<noteq> zeros n" "GetState db = Ok (blk_PrevBlockHash b, ht)" "blk_Height b = wrap64 (ht + 1)"
  shows "maker_inv n g (k + 1) (snd (nbc_AddBlock e cc b db))"
proof -
  obtain hs where hs: "node_inv n g db hs" and h: "blocks_are (\<lambda>_ b. 0 \<le> blk_Height b \<and> blk_Height b < k) db"
    using inv by (auto simp: maker_inv_def)
  then have si: "store_inv n db hs" by (simp add: node_inv_def)
  obtain t where t: "GetState db = Ok (List.last hs, blk_Height t)" "db_GetBlock db (List.last hs) = Some (BlockData t)"
    by (rule GetState_store[OF si])
  then have p: "blk_PrevBlockHash b = List.last hs" "ht = blk_Height t" using b(3) by simp_all
  have "0 \<le> blk_Height t" "blk_Height t < k" using h t(2) by (auto simp: blocks_are_def)
  then have hb: "blk_Height b = blk_Height t + 1" "blk_Height b < k + 1" "0 \<le> blk_Height b"
    using b(4) p k by (simp_all add: wrap64_id in64_def)
  have "length (List.last hs) = n" using store_invD(7)[OF si t(2)] by (simp add: block_ok_def)
  then have sh: "block_shape n db b" using b(1,2) p hb(1) t(2) by (auto simp: block_shape_def)
  have "blocks_are (\<lambda>_ b. 0 \<le> blk_Height b \<and> blk_Height b < k + 1) (snd (nbc_AddBlock e cc b db))"
    by (rule nbc_AddBlock_blocks) (use h hb in \<open>force simp: blocks_are_def\<close>)+
  moreover have "\<exists>hs'. node_inv n g (snd (nbc_AddBlock e cc b db)) hs'"
  proof (rule nbc_AddBlock_store[OF si sh, of e cc])
    fix st db' hs' assume "nbc_AddBlock e cc b db = (Ok st, db')" "block_done n db hs b st db' hs'"
    then show ?thesis using node_inv_kept[OF hs] by (auto simp: block_done_def)
  next
    fix r db' assume "nbc_AddBlock e cc b db = (r, db')" "same_store db' db"
    then show ?thesis using hs node_inv_same[of db' db n g hs] by auto
  qed
  ultimately show ?thesis by (simp add: maker_inv_def)
qed

lemma make_block_inv:
  assumes inv: "maker_inv n g k db" and k: "k < 2 ^ 63" and hash: "maker_hashes n e"
  shows "maker_inv n g (k + 1) (snd (make_block e cc h db))"
proof -
  obtain r d where p: "bm_PrepareNewBlock (mk_env e h) (mk_random e h) (maker_bm e cc) db = (r, d)" by fastforce
  have "same_store d db" using PrepareNewBlock_keeps[OF same_store_simps(1), of "mk_env e h" "mk_random e h" "maker_bm e cc" db] p by simp
  then have d: "maker_inv n g k d" using inv maker_inv_same by blast
  then have d': "maker_inv n g (k + 1) d" by (rule maker_inv_mono) simp
  show ?thesis unfolding make_block_def p
  proof (rule kept_bindS_result[where P = "maker_inv n g (k + 1)"])
    fix x s assume "(r, d) = (Ok x, s)" and "maker_inv n g (k + 1) s"
    then obtain pr bm where x: "x = (pr, bm)" "r = Ok (pr, bm)" "s = d" by (cases x) auto
    show "maker_inv n g (k + 1) (snd ((case x of (prepres, bm) \<Rightarrow> \<lambda>db.
       if prepres \<noteq> BlockPrepare_Done then (Err (ErrNew ''Block an not be done. Somethign went wrong''), db)
       else
         bindS (CompleteBlock (te_crypto (mk_env e h)) (mk_nonces e) bm, db) (\<lambda>(b, _) db.
         bindS (nbc_AddBlock (mk_env e h) cc b db) (\<lambda>_ db.
         ignoreS (txm_BlockAdded (txm_of cc (mk_env e h)) b True db) (\<lambda>db. (Ok (), db))))) s))"
    proof (cases "pr = BlockPrepare_Done \<and> (\<exists>b bm'. CompleteBlock (te_crypto (mk_env e h)) (mk_nonces e) bm = Ok (b, bm'))")
      case True
      then obtain b bm' where c: "pr = BlockPrepare_Done" "CompleteBlock (te_crypto (mk_env e h)) (mk_nonces e) bm = Ok (b, bm')" by blast
      obtain b0 y where b0: "bm_PreparedBlock bm = Some b0" "blk_PrevBlockHash b = blk_PrevBlockHash b0"
        "blk_Height b = blk_Height b0" "blk_Hash b = sha256 (te_crypto (mk_env e h)) y"
        using CompleteBlock_shape[OF c(2)] by blast
      obtain ht where "GetState d = Ok (blk_PrevBlockHash b0, ht)" "blk_Height b0 = wrap64 (ht + 1)"
        using PrepareNewBlock_main[OF p[unfolded x(2) c(1)]] b0(1) by auto
      then have added: "maker_inv n g (k + 1) (snd (nbc_AddBlock (mk_env e h) cc b d))"
        using add_on_top[OF d k, of b ht] b0 hash by (simp add: maker_hashes_def)
      show ?thesis unfolding x c(2) prod.case bindS.simps using c(1)
        by (auto intro!: kept_bindS[where P = "maker_inv n g (k + 1)"] added kept_ignoreS[where P = "maker_inv n g (k + 1)"]
          maker_inv_kept[OF txm_keeps(1)[OF same_store_simps(1)]])
    qed (use d' x in \<open>auto simp: fst_bindS_Ok intro!: kept_bindS_result[where P = "maker_inv n g (k + 1)"]\<close>)
  qed (use d' in simp)
qed

lemma initial_block_inv:
  assumes "maker_inv n g k (mk_db s)" and "k < 2 ^ 63" and "maker_hashes n e"
  shows "maker_inv n g (k + 1) (mk_db (snd (makeNewInitialBlock e sqls h s)))"
proof -
  have "maker_inv n g (k + 1) (snd (bindS (add_init_queries e cc h sqls db) (\<lambda>_. make_block e cc h)))"
    if "maker_inv n g k db" for cc db
  proof (cases "add_init_queries e cc h sqls db")
    case (Pair r d)
    then have d: "maker_inv n g k d" using that maker_inv_kept[OF init_queries_keeps[OF same_store_simps(1)], of n g k db e cc h sqls] by simp
    then have "maker_inv n g (k + 1) d" by (rule maker_inv_mono) simp
    then show ?thesis using Pair make_block_inv[OF d assms(2,3)] by (cases r) simp_all
  qed
  then show ?thesis using assms(1) by (simp add: makeNewInitialBlock_def Let_def)
qed

lemma block_if_due_inv:
  "maker_inv n g k (mk_db s) \<Longrightarrow> k < 2 ^ 63 \<Longrightarrow> maker_hashes n e \<Longrightarrow>
     maker_inv n g (k + 1) (mk_db (snd (block_if_due e totalcount p s)))"
  unfolding block_if_due_def
  by (auto intro!: kept_bindS[where P = "\<lambda>s. maker_inv n g (k + 1) (mk_db s)"] initial_block_inv intro: maker_inv_mono)

lemma dump_table_inv:
  assumes hash: "maker_hashes n e"
  shows "maker_inv n g k (mk_db s) \<Longrightarrow> k + int fuel \<le> 2 ^ 63 \<Longrightarrow>
     maker_inv n g (k + int fuel) (mk_db (snd (dump_table fuel e table rows totalcount offset p s)))"
proof (induction fuel arbitrary: k offset p s)
  case (Suc fuel)
  let ?P = "\<lambda>s. maker_inv n g (k + int (Suc fuel)) (mk_db s)"
  have here: "?P s" using Suc.prems(1) by (rule maker_inv_mono) simp
  show ?case
  proof (cases "offset > rows")
    case True
    then show ?thesis using here by simp
  next
    case False
    have rest: "?P (snd (bindS (block_if_due e totalcount q s) (\<lambda>p s. dump_table fuel e table rows totalcount off p s)))" for q off
    proof (cases "block_if_due e totalcount q s")
      case (Pair r t)
      then have t: "maker_inv n g (k + 1) (mk_db t)" using block_if_due_inv[OF Suc.prems(1) _ hash, of totalcount q] Suc.prems(2) by simp
      then have "?P t" by (rule maker_inv_mono) simp
      moreover have "?P (snd (dump_table fuel e table rows totalcount off x t))" for x
        using Suc.IH[OF t] Suc.prems(2) by (simp add: add.assoc)
      ultimately show ?thesis using Pair by (cases r) simp_all
    qed
    show ?thesis
    proof (cases "ExecuteSQLTableDump (te_sql (mk_env e (dp_nextBlockHeigh p))) (mk_db s) table (next_limit p) offset")
      case (Ok sqls)
      show ?thesis unfolding dump_table.simps if_not_P[OF False] Ok bindS.simps by (rule rest)
    qed (use False here in simp_all)
  qed
qed simp

lemma dump_tables_inv:
  assumes hash: "maker_hashes n e"
  shows "maker_inv n g k (mk_db s) \<Longrightarrow> k + int fuel * int (length counts) \<le> 2 ^ 63 \<Longrightarrow>
     maker_inv n g (k + int fuel * int (length counts)) (mk_db (snd (dump_tables fuel e counts totalcount p s)))"
proof (induction counts arbitrary: k p s)
  case (Cons x counts)
  obtain table rows where x: "x = (table, rows)" by fastforce
  let ?P = "\<lambda>s. maker_inv n g (k + int fuel * int (length (x # counts))) (mk_db s)"
  obtain r t where Pair: "dump_table fuel e table rows totalcount 0 p s = (r, t)" by fastforce
  have b: "k + int fuel + int fuel * int (length counts) = k + int fuel * int (length (x # counts))" by (simp add: algebra_simps)
  then have "k + int fuel \<le> 2 ^ 63" using Cons.prems(2) by (metis add_increasing2 int_ops(7) linorder_not_le of_nat_0_le_iff order_trans zle_add1_eq_le add_le_cancel_left le_add_same_cancel1)
  then have t: "maker_inv n g (k + int fuel) (mk_db t)"
    using dump_table_inv[OF hash Cons.prems(1), of fuel table rows totalcount 0 p] Pair by simp
  then have "?P t" by (rule maker_inv_mono) (simp add: algebra_simps)
  moreover have "?P (snd (dump_tables fuel e counts totalcount y t))" for y
    using Cons.IH[OF t, of y] Cons.prems(2) unfolding b by simp
  ultimately show ?case using Pair x by (cases r) simp_all
qed simp

lemma count_tables_length: "count_tables e db tables n = Ok (counts, m) \<Longrightarrow> length counts = length tables"
  by (induction tables arbitrary: n counts m) (auto simp: res_simps)

lemma addExistentTables_inv:
  assumes "maker_inv n g k (mk_db s)" and b: "k + int fuel * int (length tables) < 2 ^ 63" and hash: "maker_hashes n e"
  shows "maker_inv n g (k + int fuel * int (length tables) + 1) (mk_db (snd (addExistentTables fuel e tables s)))"
proof (cases "count_tables (te_sql (mk_env e 1)) (mk_db s) tables 0")
  case (Ok c)
  obtain counts totalcount where c: "c = (counts, totalcount)" by fastforce
  let ?k = "k + int fuel * int (length tables)"
  let ?P = "\<lambda>s. maker_inv n g (?k + 1) (mk_db s)"
  let ?p = "\<lparr>dp_sqlslist = [], dp_totalloaded = 0, dp_nextBlockHeigh = 1\<rparr>"
  obtain r t where Pair: "dump_tables fuel e counts totalcount ?p s = (r, t)" by fastforce
  have t: "maker_inv n g ?k (mk_db t)"
    using dump_tables_inv[OF hash assms(1), of fuel counts totalcount ?p] Pair count_tables_length[OF Ok[unfolded c]] b by simp
  then have P: "?P t" by (rule maker_inv_mono) simp
  have final: "?P (snd (bindS (if length (dp_sqlslist q) > 0 then makeNewInitialBlock e (dp_sqlslist q) (dp_nextBlockHeigh q) t else (Ok (), t))
       (\<lambda>_ s. (Ok (int (length tables), totalcount), s))))" for q
    by (rule kept_bindS[where P = ?P]) (use P initial_block_inv[OF t b hash] in auto)
  show ?thesis
  proof (cases r)
    case q: (Ok q)
    show ?thesis using final[of q] unfolding addExistentTables_def Ok c bindS.simps prod.case Pair q .
  qed (use P Pair Ok c in \<open>simp_all add: addExistentTables_def\<close>)
qed (auto simp: addExistentTables_def intro: maker_inv_mono[OF assms(1)])

lemma addFirstBlock_blocks:
  assumes "Q (blk_Hash b) b"
  shows "blocks_are Q (snd (addFirstBlock e cc False b db))"
proof -
  have same: "db_blocks d = db_blocks s \<Longrightarrow> blocks_are Q s \<Longrightarrow> blocks_are Q d" for d s :: "'a node_db"
    by (simp add: blocks_are_def db_GetBlock_def)
  have "blocks_are Q (SaveFirstHash (PutBlockOnTop d (blk_Hash b) b) (blk_Hash b))" if "db_blocks d = []" for d :: "'a node_db"
    using assms that
    by (auto simp: blocks_are_def SaveFirstHash_def PutBlockOnTop_def SaveTopHash_def db_PutBlock_def db_GetBlock_def tget_tput split: if_splits)
  moreover have "blocks_are Q (db\<lparr>db_opened := True, db_blocks := [], db_chain := [], db_txblocks := [], db_txspent := [],
              db_unspent := [], db_pool := [], db_rowrefs := []\<rparr>)"
    by (simp add: blocks_are_def db_GetBlock_def)
  ultimately show ?thesis unfolding addFirstBlock_def InitDatabase_def Let_def
    by (simp add: getConnection_def)
      (auto simp: same blocks_same[OF txm_keeps(1)[OF same_store_simps(1)]]
        intro!: kept_bindS[where P = "blocks_are Q"] kept_ignoreS[where P = "blocks_are Q"])
qed

lemma prepareGenesisBlock_shape:
  "prepareGenesisBlock e gb cc rnd address text = Ok b \<Longrightarrow> blk_PrevBlockHash b = [] \<and> blk_Height b = 0"
  by (auto simp: prepareGenesisBlock_def res_simps PrepareNewBlock_def split: if_splits)

lemma completed_genesis_shape:
  assumes "completed_genesis e text s = Ok b" and "maker_hashes n e"
  shows "length (blk_Hash b) = n \<and> blk_Hash b \<noteq> zeros n \<and> blk_PrevBlockHash b = [] \<and> blk_Height b = 0"
proof -
  obtain b0 bm where b0: "prepareGenesisBlock (mk_env e 0) (db_gob (mk_db s)) (mk_config s) (mk_random e 0) (mk_minter e) text = Ok b0"
    "CompleteBlock (te_crypto (mk_env e 0)) (mk_nonces e) (SetPreparedBlock (Some b0) (maker_bm e (mk_config s))) = Ok (b, bm)"
    using assms(1) by (auto simp: completed_genesis_def res_simps)
  obtain y where "blk_PrevBlockHash b = blk_PrevBlockHash b0" "blk_Height b = blk_Height b0" "blk_Hash b = sha256 (te_crypto (mk_env e 0)) y"
    using CompleteBlock_shape[OF b0(2)] by (auto simp: SetPreparedBlock_def)
  then show ?thesis using prepareGenesisBlock_shape[OF b0(1)] assms(2) by (simp add: maker_hashes_def)
qed

lemma first_block_inv:
  assumes "completed_genesis e text s = Ok b" and "maker_hashes n e" and "2 \<le> n"
  shows "maker_inv n (blk_Hash b) 1 (snd (addFirstBlock (mk_env e 0) cc False b db))"
proof -
  have b: "length (blk_Hash b) = n" "blk_Hash b \<noteq> zeros n" "blk_PrevBlockHash b = []" "blk_Height b = 0"
    using completed_genesis_shape[OF assms(1,2)] by simp_all
  show ?thesis using addFirstBlock_inv[OF b(1,2) assms(3) b(3), of "mk_env e 0" cc db]
      addFirstBlock_blocks[of "\<lambda>_ b. 0 \<le> blk_Height b \<and> blk_Height b < 1" b "mk_env e 0" cc db] b(4)
    by (auto simp: maker_inv_def)
qed

text \<open>
  Starting a block chain in a database without one: either the store of blocks is as it was and no success is reported,
  or the genesis block was made and the state has the invariant of a node with that genesis block, wherever the
  import of the existing rows stopped. A database with tables is refused when that was not allowed.
\<close>

text \<open>
  C35: Starting a block chain either leaves the store of blocks as it was, without success, or ends,
  wherever the import of existing rows stops, in a state with the invariant of a node whose first
  block is the genesis block; a database with tables is refused when that was not allowed.
\<close>

lemma CreateBlockchain_inv:
  assumes hash: "maker_hashes n e" and n: "2 \<le> n"
    and rounds: "\<forall>tables. GetAllTables (te_sql (mk_env e 0)) (OpenConnection (mk_db s)) = Ok tables \<longrightarrow>
      int fuel * int (length (filterTablesForManaged (mk_config s) tables)) < 2 ^ 63 - 1"
    and run: "CreateBlockchain fuel e False text allowed s = (r, s')"
  shows "(same_store (mk_db s') (OpenConnection (mk_db s)) \<and> r \<noteq> Ok ()) \<or>
     (\<exists>genesis hs tables. completed_genesis e text (s\<lparr>mk_db := OpenConnection (mk_db s)\<rparr>) = Ok genesis \<and>
        node_inv n (blk_Hash genesis) (mk_db s') hs \<and>
        GetAllTables (te_sql (mk_env e 0)) (OpenConnection (mk_db s)) = Ok tables \<and>
        (allowed \<or> filterTablesForManaged (mk_config s) tables = []))"
proof -
  let ?s = "s\<lparr>mk_db := OpenConnection (mk_db s)\<rparr>"
  let ?e = "te_sql (mk_env e 0)"
  show ?thesis
  proof (cases "\<exists>tables genesis. GetAllTables ?e (mk_db ?s) = Ok tables \<and> completed_genesis e text ?s = Ok genesis \<and>
      (allowed \<or> filterTablesForManaged (mk_config s) tables = [])")
    case False
    then have "s' = ?s \<and> r \<noteq> Ok ()" using run
      by (cases "GetAllTables ?e (mk_db ?s)"; cases "completed_genesis e text ?s")
        (auto simp: CreateBlockchain_def Let_def split: if_splits)
    then show ?thesis by simp
  next
    case True
    then obtain tables genesis where t: "GetAllTables ?e (mk_db ?s) = Ok tables" and g: "completed_genesis e text ?s = Ok genesis"
      and a: "allowed \<or> filterTablesForManaged (mk_config s) tables = []" by blast
    let ?ts = "filterTablesForManaged (mk_config s) tables"
    let ?P = "\<lambda>u. \<exists>k. maker_inv n (blk_Hash genesis) k (mk_db u)"
    obtain r1 s1 where first: "on_mk_db (addFirstBlock (mk_env e 0) (mk_config s) False genesis) ?s = (r1, s1)" by fastforce
    then have m: "maker_inv n (blk_Hash genesis) 1 (mk_db s1)"
      using first_block_inv[OF g hash n] on_mk_db_db(1)[of "addFirstBlock (mk_env e 0) (mk_config s) False genesis" ?s] by simp
    have "1 + int fuel * int (length ?ts) < 2 ^ 63" using rounds t by simp
    from addExistentTables_inv[OF m this hash] have "?P (snd (addExistentTables fuel e ?ts s1))" by blast
    then have tail: "?P (snd (if length ?ts > 0 then bindS (addExistentTables fuel e ?ts s1) (\<lambda>_ s. (Ok (), s)) else (Ok (), s1)))"
      using m by (auto intro!: kept_bindS[where P = ?P])
    have eq: "(r, s') = bindS (r1, s1) (\<lambda>_ s1. if length ?ts > 0 then bindS (addExistentTables fuel e ?ts s1) (\<lambda>_ s. (Ok (), s)) else (Ok (), s1))"
      using run t g a first by (auto simp: CreateBlockchain_def Let_def cong: if_cong)
    have "?P (snd (r, s'))" unfolding eq by (rule kept_bindS_result[where P = ?P]) (use m tail in auto)
    then show ?thesis using g t a by (auto simp: maker_inv_def)
  qed
qed

section \<open>The first blocks of another node\<close>

text \<open>
  Blocks of another node: the first block, without a previous one, has the height that \<open>H\<close> gives for its hash, and
  every other block is as \<open>block_by\<close> says.
\<close>

definition first_blocks_shape :: "nat \<Rightarrow> (bytes \<Rightarrow> int) \<Rightarrow> ('k, 'm) node_env \<Rightarrow> bool" where
  "first_blocks_shape n H e \<longleftrightarrow> (\<forall>d b. nv_unblock e d = Ok b \<longrightarrow>
     (if blk_PrevBlockHash b = [] then length (blk_Hash b) = n \<and> blk_Hash b \<noteq> zeros n \<and> blk_Height b = H (blk_Hash b)
      else block_by n H b))"

lemma good_same: "same_store d db \<Longrightarrow> node_good n g H d = node_good n g H db"
  by (simp add: node_good_def node_inv_same heights_same)

lemma nbc_AddBlock_rooted:
  assumes "store_inv n db hs" and "blk_PrevBlockHash b = []"
  shows "snd (nbc_AddBlock e cc b db) = db"
proof -
  have "db_GetBlock db [] = None"
  proof (cases "db_GetBlock db []")
    case (Some v)
    then show ?thesis using store_invD(2)[OF assms(1)] store_invD(8)[OF assms(1), of "[]"] store_invD(7)[OF assms(1), of "[]"] by (cases v) (auto simp: block_ok_def)
  qed
  then show ?thesis using assms(2) store_invD(1)[OF assms(1)]
    by (simp add: nbc_AddBlock_def CheckBlockState_def CheckBlockExists_def db_CheckBlockExists_def)
qed

lemma nbc_AddBlock_good:
  assumes good: "node_good n g H db" and b: "if blk_PrevBlockHash b = [] then True else block_by n H b"
  shows "node_good n g H (snd (nbc_AddBlock e cc b db))"
proof -
  obtain hs where hs: "node_inv n g db hs" and h: "heights_by H db" using good by (auto simp: node_good_def)
  then have si: "store_inv n db hs" by (simp add: node_inv_def)
  show ?thesis
  proof (cases "blk_PrevBlockHash b = []")
    case True
    then show ?thesis using good by (simp add: nbc_AddBlock_rooted[OF si True])
  next
    case False
    then have bb: "block_by n H b" using b by simp
    have "heights_by H (snd (nbc_AddBlock e cc b db))"
      using h bb unfolding heights_blocks by (intro nbc_AddBlock_blocks) (simp_all add: block_by_def)
    moreover have "\<exists>hs'. node_inv n g (snd (nbc_AddBlock e cc b db)) hs'"
    proof (rule nbc_AddBlock_store[OF si block_by_shape[OF h bb], of e cc])
      fix st db' hs' assume "nbc_AddBlock e cc b db = (Ok st, db')" "block_done n db hs b st db' hs'"
      then show ?thesis using node_inv_kept[OF hs] by (auto simp: block_done_def)
    next
      fix r db' assume "nbc_AddBlock e cc b db = (r, db')" "same_store db' db"
      then show ?thesis using hs node_inv_same[of db' db n g hs] by auto
    qed
    ultimately show ?thesis by (simp add: node_good_def)
  qed
qed

lemma add_first_blocks_good:
  assumes sh: "first_blocks_shape n H e"
  shows "node_good n g H (nd_db s) \<Longrightarrow> node_good n g H (nd_db (snd (add_first_blocks e cc blocks height s)))"
proof (induction blocks arbitrary: height s)
  case (Cons d blocks)
  let ?P = "\<lambda>s. node_good n g H (nd_db s)"
  have b: "?P (snd (on_db (nbc_AddBlock (env_at e t) cc b) t))" if "nv_unblock e d = Ok b" "?P t" for b t
  proof -
    have "if blk_PrevBlockHash b = [] then True else block_by n H b" using sh that(1) by (auto simp: first_blocks_shape_def)
    then show ?thesis using nbc_AddBlock_good[OF that(2)] by simp
  qed
  have a: "?P (snd (on_db (txm_BlockAdded (txm_of cc (env_at e t)) b True) t))" if "?P t" for b t
    using that by (simp add: good_same[OF txm_keeps(1)[OF same_store_simps(1)]])
  show ?case
  proof (cases "nv_unblock e d")
    case (Ok x)
    show ?thesis unfolding add_first_blocks.simps Ok bindS.simps
      by (intro kept_bindS[where P = ?P] kept_ignoreS[where P = ?P] b a Cons.IH) (use Ok Cons.prems in auto)
  qed (use Cons.prems in simp_all)
qed simp

lemma first_received_good:
  assumes sh: "first_blocks_shape n H e" and d: "nv_unblock e d = Ok b" and p: "blk_PrevBlockHash b = []" and n: "2 \<le> n"
  shows "node_good n (blk_Hash b) H (snd (addFirstBlock e' cc False b db))"
proof -
  have b: "length (blk_Hash b) = n" "blk_Hash b \<noteq> zeros n" "blk_Height b = H (blk_Hash b)"
    using sh d p by (auto simp: first_blocks_shape_def dest!: spec[of _ d])
  show ?thesis using addFirstBlock_inv[OF b(1,2) n p, of e' cc db] addFirstBlock_blocks[of "\<lambda>h b. blk_Height b = H h" b e' cc db] b(3)
    by (auto simp: node_good_def heights_blocks)
qed

text \<open>What the other node sent, when the first block could be read.\<close>

definition first_answer ::
  "('k, 'm) node_env \<Rightarrow> (bytes \<Rightarrow> consensus_config \<Rightarrow> consensus_config res) \<Rightarrow> unit res \<Rightarrow> node_addr \<Rightarrow> consensus_config
     \<Rightarrow> 'm node_state \<Rightarrow> (block \<times> bytes list) option" where
  "first_answer e unjson written addr cc s =
     (case bindS (importBlockchainConsensusInfo e unjson written addr cc s) (\<lambda>cc s. on_client (SendGetFirstBlocks (nv_net e) addr) s) of
        (Ok result, _) \<Rightarrow>
          (case cfb_Blocks result of [] \<Rightarrow> None
           | d # ds \<Rightarrow> (case nv_unblock e d of Ok b \<Rightarrow> Some (b, ds) | _ \<Rightarrow> None))
      | _ \<Rightarrow> None)"

lemma import_db [simp]: "nd_db (snd (importBlockchainConsensusInfo e unjson written addr cc s)) = nd_db s"
  unfolding importBlockchainConsensusInfo_def by (rule kept_bindS[where P = "\<lambda>t. nd_db t = nd_db s"]) simp_all

text \<open>
  Starting a block chain from another node: either nothing was received, the store is as it was and no success is
  reported, or a first block came. When that is a first block the state has the invariant of a node with it as the
  genesis block, whatever the other node sent after it and wherever the import stopped.
\<close>


text \<open>The answer of adding a block is not looked at: a block without its previous one is run as if it were on the top.\<close>

lemma stray_block_is_run:
  assumes "nv_unblock e d = Ok b" and "db_opened (nd_db s)"
    and "db_GetBlock (nd_db s) (blk_Hash b) = None" and "db_GetBlock (nd_db s) (blk_PrevBlockHash b) = None"
  shows "add_first_blocks e cc [d] height s =
     ignoreS (on_db (txm_BlockAdded (txm_of cc (env_at e s)) b True) s) (\<lambda>s. (Ok (blk_Height b), s))"
proof -
  have "add_first_blocks e cc [] h = (\<lambda>s. (Ok h, s))" for h by (rule ext) simp
  then show ?thesis using assms
    by (simp add: nbc_AddBlock_def on_db_def CheckBlockState_def CheckBlockExists_def db_CheckBlockExists_def)
qed

text \<open>When rows of a table were deleted after they were counted, the loop asks for the missing ones for ever.\<close>

lemma shrunk_table_loops:
  assumes "offset \<le> rows" and "in64 offset" and "in64 (dp_totalloaded p)" and "\<not> block_is_due totalcount p"
    and "\<And>lim. ExecuteSQLTableDump (te_sql (mk_env e (dp_nextBlockHeigh p))) (mk_db s) table lim offset = Ok []"
  shows "dump_table fuel e table rows totalcount offset p s = (Diverge, s)"
proof (induction fuel)
  case (Suc fuel)
  then show ?case using assms by (simp add: block_if_due_def wrap64_id)
qed simp

end
