(* ===== verification/App_Config.thy ===== *)
theory App_Config
  imports Db_Dump Consensus_Rules
begin

text \<open>
  \<^verbatim>\<open>node/config/config.go\<close> and \<^verbatim>\<open>node/database/config.go\<close>: the command line and the configuration file of a node. The
  environment holds what belongs to the machine: the directory of the program, the JSON codec of the configuration
  and the parser of floating point numbers. The theory shows that the settings given to the command
  \<^verbatim>\<open>updateconfig\<close> are those that a later start without arguments uses.
\<close>

section \<open>Files\<close>

text \<open>Files by path, the directories that exist, and the paths that must not be opened.\<close>

record file_system =
  fs_files :: "(string \<times> bytes) list"
  fs_dirs :: "string list"
  fs_denied :: "string list"

text \<open>\<^verbatim>\<open>os.Open\<close> and reading all of it; \<open>None\<close> is the error of \<^verbatim>\<open>os.IsNotExist\<close>.\<close>

definition fs_open :: "file_system \<Rightarrow> string \<Rightarrow> bytes option res" where
  "fs_open fs path =
     (if path \<in> set (fs_denied fs) then Err (ErrNew ''permission denied'') else Ok (tget (fs_files fs) path))"

definition fs_write :: "file_system \<Rightarrow> string \<Rightarrow> bytes \<Rightarrow> unit res \<times> file_system" where
  "fs_write fs path b =
     (if path \<in> set (fs_denied fs) then (Err (ErrNew ''permission denied''), fs)
      else (Ok (), fs\<lparr>fs_files := tput (fs_files fs) path b\<rparr>))"

section \<open>Settings of the database server\<close>

record database_config =
  dc_MysqlHost :: string
  dc_MysqlPort :: int
  dc_MysqlSocket :: string
  dc_DatabaseName :: string
  dc_DbUser :: string
  dc_DbPassword :: string
  dc_TablesPrefix :: string

definition HasMinimum :: "database_config \<Rightarrow> bool" where
  "HasMinimum c \<longleftrightarrow>
     \<not> ((dc_MysqlHost c = [] \<or> dc_MysqlPort c = 0) \<and> dc_MysqlSocket c = [] \<or> dc_DatabaseName c = [])"

definition GetServerAddress :: "database_config \<Rightarrow> string" where
  "GetServerAddress c =
     (if dc_MysqlSocket c \<noteq> [] then dc_MysqlSocket c else dc_MysqlHost c @ '':'' @ Itoa (dc_MysqlPort c))"

definition GetMySQLConnString :: "database_config \<Rightarrow> string" where
  "GetMySQLConnString c =
     (let prefix = (if dc_DbUser c \<noteq> [] then dc_DbUser c @ '':'' @ dc_DbPassword c @ ''@'' else [])
      in if dc_MysqlSocket c \<noteq> [] then prefix @ ''unix('' @ dc_MysqlSocket c @ '')/'' @ dc_DatabaseName c
         else prefix @ ''tcp('' @ dc_MysqlHost c @ '':'' @ Itoa (dc_MysqlPort c) @ '')/'' @ dc_DatabaseName c)"

section \<open>Arguments, input and configuration\<close>

record all_args =
  aa_AppName :: string
  aa_Address :: string
  aa_From :: string
  aa_To :: string
  aa_Port :: int
  aa_Host :: string
  aa_NodePort :: int
  aa_NodeHost :: string
  aa_NodeAddress :: string
  aa_DefaultAddresses :: string
  aa_Genesis :: string
  aa_Amount :: float64
  aa_LogDest :: string
  aa_LogDestDefault :: bool
  aa_Transaction :: string
  aa_View :: string
  aa_Clean :: bool
  aa_MySQLHost :: string
  aa_MySQLPort :: int
  aa_MySQLSocket :: string
  aa_MySQLUser :: string
  aa_MySQLPassword :: string
  aa_MySQLDBName :: string
  aa_DBTablesPrefix :: string
  aa_DumpFile :: string
  aa_DestinationFile :: string
  aa_SQL :: string
  aa_ConsensusFileToCopy :: string
  aa_FilePath :: string
  aa_AllowNonEmpty :: bool
  aa_Trace :: bool

record app_input =
  ai_Command :: string
  ai_MinterAddress :: string
  ai_ProxyKey :: string
  ai_Logs :: string
  ai_Port :: int
  ai_LocalPort :: int
  ai_Host :: string
  ai_ConfigDir :: string
  ai_Nodes :: "node_addr list"
  ai_Args :: all_args
  ai_Database :: database_config
  ai_DBProxyAddress :: string
  ai_ConseususConfigFile :: string
  ai_ConseususConfigFilePresent :: bool

record app_config =
  ac_Minter :: string
  ac_ProxyKey :: string
  ac_Port :: int
  ac_Host :: string
  ac_LocalPort :: int
  ac_Nodes :: "node_addr list"
  ac_Logs :: "string list"
  ac_LogsDestination :: string
  ac_Database :: database_config
  ac_DBProxyAddress :: string

record app_env =
  ae_exe_dir :: "string option"
  ae_encode :: "app_config \<Rightarrow> bytes"
  ae_decode :: "bytes \<Rightarrow> app_config res"
  ae_float :: "string \<Rightarrow> float64 option"

definition zero_database :: database_config where
  "zero_database = \<lparr>dc_MysqlHost = [], dc_MysqlPort = 0, dc_MysqlSocket = [], dc_DatabaseName = [], dc_DbUser = [],
     dc_DbPassword = [], dc_TablesPrefix = []\<rparr>"

definition zero_args :: all_args where
  "zero_args = \<lparr>aa_AppName = [], aa_Address = [], aa_From = [], aa_To = [], aa_Port = 0, aa_Host = [], aa_NodePort = 0,
     aa_NodeHost = [], aa_NodeAddress = [], aa_DefaultAddresses = [], aa_Genesis = [], aa_Amount = 0, aa_LogDest = [],
     aa_LogDestDefault = False, aa_Transaction = [], aa_View = [], aa_Clean = False, aa_MySQLHost = [], aa_MySQLPort = 0,
     aa_MySQLSocket = [], aa_MySQLUser = [], aa_MySQLPassword = [], aa_MySQLDBName = [], aa_DBTablesPrefix = [],
     aa_DumpFile = [], aa_DestinationFile = [], aa_SQL = [], aa_ConsensusFileToCopy = [], aa_FilePath = [],
     aa_AllowNonEmpty = False, aa_Trace = False\<rparr>"

definition zero_input :: app_input where
  "zero_input = \<lparr>ai_Command = [], ai_MinterAddress = [], ai_ProxyKey = [], ai_Logs = [], ai_Port = 0, ai_LocalPort = 0,
     ai_Host = [], ai_ConfigDir = [], ai_Nodes = [], ai_Args = zero_args, ai_Database = zero_database, ai_DBProxyAddress = [],
     ai_ConseususConfigFile = [], ai_ConseususConfigFilePresent = False\<rparr>"

definition zero_config :: app_config where
  "zero_config = \<lparr>ac_Minter = [], ac_ProxyKey = [], ac_Port = 0, ac_Host = [], ac_LocalPort = 0, ac_Nodes = [], ac_Logs = [],
     ac_LogsDestination = [], ac_Database = zero_database, ac_DBProxyAddress = []\<rparr>"

section \<open>Flags\<close>

text \<open>
  The part of the package \<^verbatim>\<open>flag\<close> that is used. An integer is read as \<^verbatim>\<open>strconv.ParseInt(s, 0, 64)\<close> does: decimal,
  octal after \<open>0\<close>, hexadecimal after \<open>0x\<close>.
\<close>

definition digit_of :: "char \<Rightarrow> nat option" where
  "digit_of c =
     (if in_range 48 57 c then Some (of_char c - 48)
      else if in_range 97 122 c then Some (of_char c - 87)
      else if in_range 65 90 c then Some (of_char c - 55) else None)"

fun base_val :: "nat \<Rightarrow> nat \<Rightarrow> string \<Rightarrow> nat option" where
  "base_val base acc [] = Some acc"
| "base_val base acc (c # s) =
     (case digit_of c of
        None \<Rightarrow> None
      | Some d \<Rightarrow> if d < base then base_val base (acc * base + d) s else None)"

definition parse_uint :: "string \<Rightarrow> nat option" where
  "parse_uint s =
     (case s of
        [] \<Rightarrow> None
      | c # r \<Rightarrow>
          if c \<noteq> CHR ''0'' then base_val 10 0 s
          else (case r of
                  d # t \<Rightarrow> if d = CHR ''x'' \<or> d = CHR ''X'' then (if t = [] then None else base_val 16 0 t) else base_val 8 0 s
                | [] \<Rightarrow> Some 0))"

definition parse_int :: "string \<Rightarrow> int option" where
  "parse_int s =
     (let neg = (case s of [] \<Rightarrow> False | c # _ \<Rightarrow> c = CHR ''-'');
          ds = (case s of [] \<Rightarrow> [] | c # r \<Rightarrow> if c = CHR ''-'' \<or> c = CHR ''+'' then r else s)
      in case parse_uint ds of
           None \<Rightarrow> None
         | Some n \<Rightarrow> (let v = (if neg then - int n else int n) in if in64 v then Some v else None))"

definition parse_bool :: "string \<Rightarrow> bool option" where
  "parse_bool s =
     (if s \<in> {''1'', ''t'', ''T'', ''true'', ''TRUE'', ''True''} then Some True
      else if s \<in> {''0'', ''f'', ''F'', ''false'', ''FALSE'', ''False''} then Some False else None)"

datatype flag_var =
    StringVar "string \<Rightarrow> app_input \<Rightarrow> app_input"
  | IntVar "int \<Rightarrow> app_input \<Rightarrow> app_input"
  | Float64Var "float64 \<Rightarrow> app_input \<Rightarrow> app_input"
  | BoolVar "bool \<Rightarrow> app_input \<Rightarrow> app_input"

definition on_args :: "(all_args \<Rightarrow> all_args) \<Rightarrow> app_input \<Rightarrow> app_input" where
  "on_args f i = i\<lparr>ai_Args := f (ai_Args i)\<rparr>"

definition app_flags :: "(string \<times> flag_var) list" where
  "app_flags =
    [(''appname'', StringVar (\<lambda>v. on_args (\<lambda>a. a\<lparr>aa_AppName := v\<rparr>))),
     (''address'', StringVar (\<lambda>v. on_args (\<lambda>a. a\<lparr>aa_Address := v\<rparr>))),
     (''logs'', StringVar (\<lambda>v i. i\<lparr>ai_Logs := v\<rparr>)),
     (''minter'', StringVar (\<lambda>v i. i\<lparr>ai_MinterAddress := v\<rparr>)),
     (''proxykey'', StringVar (\<lambda>v i. i\<lparr>ai_ProxyKey := v\<rparr>)),
     (''genesis'', StringVar (\<lambda>v. on_args (\<lambda>a. a\<lparr>aa_Genesis := v\<rparr>))),
     (''transaction'', StringVar (\<lambda>v. on_args (\<lambda>a. a\<lparr>aa_Transaction := v\<rparr>))),
     (''from'', StringVar (\<lambda>v. on_args (\<lambda>a. a\<lparr>aa_From := v\<rparr>))),
     (''to'', StringVar (\<lambda>v. on_args (\<lambda>a. a\<lparr>aa_To := v\<rparr>))),
     (''host'', StringVar (\<lambda>v. on_args (\<lambda>a. a\<lparr>aa_Host := v\<rparr>))),
     (''nodehost'', StringVar (\<lambda>v. on_args (\<lambda>a. a\<lparr>aa_NodeHost := v\<rparr>))),
     (''port'', IntVar (\<lambda>v. on_args (\<lambda>a. a\<lparr>aa_Port := v\<rparr>))),
     (''localport'', IntVar (\<lambda>v i. i\<lparr>ai_LocalPort := v\<rparr>)),
     (''nodeport'', IntVar (\<lambda>v. on_args (\<lambda>a. a\<lparr>aa_NodePort := v\<rparr>))),
     (''nodeaddress'', StringVar (\<lambda>v. on_args (\<lambda>a. a\<lparr>aa_NodeAddress := v\<rparr>))),
     (''defaultaddresses'', StringVar (\<lambda>v. on_args (\<lambda>a. a\<lparr>aa_DefaultAddresses := v\<rparr>))),
     (''amount'', Float64Var (\<lambda>v. on_args (\<lambda>a. a\<lparr>aa_Amount := v\<rparr>))),
     (''logdest'', StringVar (\<lambda>v. on_args (\<lambda>a. a\<lparr>aa_LogDest := v\<rparr>))),
     (''view'', StringVar (\<lambda>v. on_args (\<lambda>a. a\<lparr>aa_View := v\<rparr>))),
     (''clean'', BoolVar (\<lambda>v. on_args (\<lambda>a. a\<lparr>aa_Clean := v\<rparr>))),
     (''trace'', BoolVar (\<lambda>v. on_args (\<lambda>a. a\<lparr>aa_Trace := v\<rparr>))),
     (''allownotempty'', BoolVar (\<lambda>v. on_args (\<lambda>a. a\<lparr>aa_AllowNonEmpty := v\<rparr>))),
     (''mysqlhost'', StringVar (\<lambda>v. on_args (\<lambda>a. a\<lparr>aa_MySQLHost := v\<rparr>))),
     (''mysqlport'', IntVar (\<lambda>v. on_args (\<lambda>a. a\<lparr>aa_MySQLPort := v\<rparr>))),
     (''mysqlsocket'', StringVar (\<lambda>v. on_args (\<lambda>a. a\<lparr>aa_MySQLSocket := v\<rparr>))),
     (''mysqluser'', StringVar (\<lambda>v. on_args (\<lambda>a. a\<lparr>aa_MySQLUser := v\<rparr>))),
     (''mysqlpass'', StringVar (\<lambda>v. on_args (\<lambda>a. a\<lparr>aa_MySQLPassword := v\<rparr>))),
     (''mysqldb'', StringVar (\<lambda>v. on_args (\<lambda>a. a\<lparr>aa_MySQLDBName := v\<rparr>))),
     (''tablesprefix'', StringVar (\<lambda>v. on_args (\<lambda>a. a\<lparr>aa_DBTablesPrefix := v\<rparr>))),
     (''dbproxyaddr'', StringVar (\<lambda>v i. i\<lparr>ai_DBProxyAddress := v\<rparr>)),
     (''dumpfile'', StringVar (\<lambda>v. on_args (\<lambda>a. a\<lparr>aa_DumpFile := v\<rparr>))),
     (''destfile'', StringVar (\<lambda>v. on_args (\<lambda>a. a\<lparr>aa_DestinationFile := v\<rparr>))),
     (''sql'', StringVar (\<lambda>v. on_args (\<lambda>a. a\<lparr>aa_SQL := v\<rparr>))),
     (''consensusfile'', StringVar (\<lambda>v. on_args (\<lambda>a. a\<lparr>aa_ConsensusFileToCopy := v\<rparr>))),
     (''filepath'', StringVar (\<lambda>v. on_args (\<lambda>a. a\<lparr>aa_FilePath := v\<rparr>))),
     (''configdir'', StringVar (\<lambda>v i. i\<lparr>ai_ConfigDir := v\<rparr>))]"

text \<open>The defaults that \<^verbatim>\<open>StringVar\<close> and the others store before the arguments are parsed.\<close>

definition flag_defaults :: "app_input \<Rightarrow> app_input" where
  "flag_defaults = on_args (\<lambda>a. a\<lparr>aa_MySQLPort := 3306\<rparr>)"

definition set_flag :: "app_env \<Rightarrow> flag_var \<Rightarrow> string \<Rightarrow> app_input \<Rightarrow> app_input option" where
  "set_flag e v s i =
     (case v of
        StringVar f \<Rightarrow> Some (f s i)
      | IntVar f \<Rightarrow> map_option (\<lambda>x. f x i) (parse_int s)
      | Float64Var f \<Rightarrow> map_option (\<lambda>x. f x i) (ae_float e s)
      | BoolVar f \<Rightarrow> map_option (\<lambda>x. f x i) (parse_bool s))"

text \<open>The name of a flag, and the value after the first \<open>=\<close> that is not at its start.\<close>

definition split_flag :: "string \<Rightarrow> string \<times> string option" where
  "split_flag name =
     (case name of
        [] \<Rightarrow> ([], None)
      | c # s \<Rightarrow>
          (c # takeWhile (\<lambda>x. x \<noteq> CHR ''='') s,
           case dropWhile (\<lambda>x. x \<noteq> CHR ''='') s of [] \<Rightarrow> None | _ # v \<Rightarrow> Some v))"

text \<open>
  \<^verbatim>\<open>FlagSet.Parse\<close>. A mistake, and the flags \<open>-h\<close> and \<open>-help\<close>, end the process: \<open>None\<close>. The first argument that
  is not a flag ends the parsing.
\<close>

definition is_flag :: "string \<Rightarrow> bool" where
  "is_flag s \<longleftrightarrow> 2 \<le> length s \<and> hd s = CHR ''-''"

definition flag_name :: "string \<Rightarrow> string" where
  "flag_name s = (if s ! 1 = CHR ''-'' then drop 2 s else drop 1 s)"

fun parse_flags :: "app_env \<Rightarrow> string list \<Rightarrow> app_input \<Rightarrow> app_input option" where
  "parse_flags e [] i = Some i"
| "parse_flags e (s # args) i =
     (if \<not> is_flag s \<or> s = ''--'' then Some i
      else
        let name = flag_name s
        in if name = [] \<or> hd name = CHR ''-'' \<or> hd name = CHR ''='' then None
           else case tget app_flags (fst (split_flag name)) of
                  None \<Rightarrow> None
                | Some v \<Rightarrow>
                    (case (snd (split_flag name), v) of
                       (Some x, _) \<Rightarrow> Option.bind (set_flag e v x i) (parse_flags e args)
                     | (None, BoolVar f) \<Rightarrow> parse_flags e args (f True i)
                     | (None, _) \<Rightarrow>
                         (case args of
                            [] \<Rightarrow> None
                          | x # args \<Rightarrow> Option.bind (set_flag e v x i) (parse_flags e args))))"

section \<open>The input of the application\<close>

definition commandsDoesNotNeedConfig :: "string list" where
  "commandsDoesNotNeedConfig =
     [''importwallet'', ''exportwallet'', ''createwallet'', ''importblockchain'', ''interactiveautocreate'',
      ''listaddresses'', ''help'', ''restoreblockchain'', ''importandstart'']"

definition CommandNeedsConfig :: "app_input \<Rightarrow> bool" where
  "CommandNeedsConfig c = (if StringInSlice (ai_Command c) commandsDoesNotNeedConfig then False else True)"

definition CheckNeedsHelp :: "app_input \<Rightarrow> bool" where
  "CheckNeedsHelp c \<longleftrightarrow> ai_Command c = ''help'' \<or> ai_Command c = []"

definition CheckConfigUpdateNeeded :: "app_input \<Rightarrow> bool" where
  "CheckConfigUpdateNeeded c \<longleftrightarrow> ai_Command c = ''updateconfig''"

definition config_path :: "app_input \<Rightarrow> string" where
  "config_path c = ai_ConfigDir c @ ''config.json''"

definition GetConfig :: "app_env \<Rightarrow> file_system \<Rightarrow> app_input \<Rightarrow> app_config option res" where
  "GetConfig e fs c =
     bindR (fs_open fs (config_path c)) (\<lambda>file.
       case file of None \<Rightarrow> Ok None | Some b \<Rightarrow> bindR (ae_decode e b) (\<lambda>config. Ok (Some config)))"

text \<open>Each setting that the configuration left empty is taken from the arguments.\<close>

definition completed_database :: "all_args \<Rightarrow> database_config \<Rightarrow> database_config" where
  "completed_database a d =
     \<lparr>dc_MysqlHost = if dc_MysqlHost d = [] then (if aa_MySQLHost a \<noteq> [] then aa_MySQLHost a else ''localhost'') else dc_MysqlHost d,
      dc_MysqlPort = if dc_MysqlPort d = 0 then (if aa_MySQLPort a > 0 then aa_MySQLPort a else 3306) else dc_MysqlPort d,
      dc_MysqlSocket = if dc_MysqlSocket d = [] \<and> aa_MySQLSocket a \<noteq> [] then aa_MySQLSocket a else dc_MysqlSocket d,
      dc_DatabaseName = if dc_DatabaseName d = [] \<and> aa_MySQLDBName a \<noteq> [] then aa_MySQLDBName a else dc_DatabaseName d,
      dc_DbUser = if dc_DbUser d = [] \<and> aa_MySQLUser a \<noteq> [] then aa_MySQLUser a else dc_DbUser d,
      dc_DbPassword = if dc_DbPassword d = [] \<and> aa_MySQLPassword a \<noteq> [] then aa_MySQLPassword a else dc_DbPassword d,
      dc_TablesPrefix = if dc_TablesPrefix d = [] \<and> aa_DBTablesPrefix a \<noteq> [] then aa_DBTablesPrefix a else dc_TablesPrefix d\<rparr>"

definition completeDBConfig :: "app_input \<Rightarrow> app_input" where
  "completeDBConfig c = c\<lparr>ai_Database := completed_database (ai_Args c) (ai_Database c)\<rparr>"

text \<open>The directory of the configuration: of the arguments, of the caller, or next to the program.\<close>

definition complete_dir :: "app_env \<Rightarrow> string \<Rightarrow> app_input \<Rightarrow> app_input" where
  "complete_dir e dirpath i =
     (let dir = (if ai_ConfigDir i = [] \<and> dirpath \<noteq> [] then dirpath else ai_ConfigDir i);
          dir = (if dir = [] then (case ae_exe_dir e of Some d \<Rightarrow> d @ ''/conf/'' | None \<Rightarrow> []) else dir)
      in i\<lparr>ai_ConfigDir := if dir \<noteq> [] \<and> List.last dir \<noteq> CHR ''/'' then dir @ ''/'' else dir\<rparr>)"

text \<open>The error of \<^verbatim>\<open>os.Mkdir\<close> is not looked at.\<close>

definition check_dir :: "app_input \<Rightarrow> file_system \<Rightarrow> unit res \<times> file_system" where
  "check_dir i fs =
     (if ai_ConfigDir i \<in> set (fs_dirs fs) then (Ok (), fs)
      else if \<not> CommandNeedsConfig i then
        (Ok (), if ai_ConfigDir i \<in> set (fs_denied fs) then fs else fs\<lparr>fs_dirs := ai_ConfigDir i # fs_dirs fs\<rparr>)
      else (Err (ErrNew ''Config directory is not found''), fs))"

text \<open>What the configuration says where the arguments say nothing; the database is always that of the configuration.\<close>

definition merge_log_dest :: "app_config \<Rightarrow> all_args \<Rightarrow> all_args" where
  "merge_log_dest config a =
     (if aa_LogDest a = [] \<and> ac_LogsDestination config \<noteq> []
      then a\<lparr>aa_LogDest := ac_LogsDestination config, aa_LogDestDefault := False\<rparr>
      else if aa_LogDest a = [] then a\<lparr>aa_LogDest := ''file''\<rparr>
      else a\<lparr>aa_LogDestDefault := False\<rparr>)"

definition merge_config :: "app_config \<Rightarrow> app_input \<Rightarrow> app_input" where
  "merge_config config i =
     i\<lparr>ai_MinterAddress := if ai_MinterAddress i = [] \<and> ac_Minter config \<noteq> [] then ac_Minter config else ai_MinterAddress i,
       ai_ProxyKey := if ai_ProxyKey i = [] \<and> ac_ProxyKey config \<noteq> [] then ac_ProxyKey config else ai_ProxyKey i,
       ai_Port := if ai_Port i < 1 \<and> ac_Port config > 0 then ac_Port config else ai_Port i,
       ai_LocalPort := if ai_LocalPort i < 1 \<and> ac_LocalPort config > 0 then ac_LocalPort config else ai_LocalPort i,
       ai_Host := if ai_Host i = [] \<and> ac_Host config \<noteq> [] then ac_Host config else ai_Host i,
       ai_Nodes := if length (ac_Nodes config) > 0 then ac_Nodes config else ai_Nodes i,
       ai_Logs := if ai_Logs i = [] \<and> length (ac_Logs config) > 0 then Join (ac_Logs config) '','' else ai_Logs i,
       ai_Args := merge_log_dest config (ai_Args i),
       ai_DBProxyAddress :=
         if ai_DBProxyAddress i = [] \<and> ac_DBProxyAddress config \<noteq> [] then ac_DBProxyAddress config else ai_DBProxyAddress i,
       ai_Database := ac_Database config\<rparr>"

definition complete_node_address :: "app_input \<Rightarrow> app_input" where
  "complete_node_address i =
     (let a = ai_Args i
      in if \<not> (aa_NodeHost a \<noteq> [] \<and> aa_NodePort a > 0) \<and> aa_NodeAddress a \<noteq> [] then
           (let na = snd (LoadFromString emptyNodeAddr (aa_NodeAddress a))
            in on_args (\<lambda>a. a\<lparr>aa_NodeHost := na_Host na, aa_NodePort := na_Port na\<rparr>) i)
         else i)"

definition copyFile :: "string \<Rightarrow> string \<Rightarrow> file_system \<Rightarrow> unit res \<times> file_system" where
  "copyFile srcpath dstpath fs =
     bindS (fs_open fs srcpath, fs) (\<lambda>file fs.
       case file of None \<Rightarrow> (Err (ErrNew ''no such file or directory''), fs) | Some b \<Rightarrow> fs_write fs dstpath b)"

definition consensus_path :: "app_input \<Rightarrow> string" where
  "consensus_path i = ai_ConfigDir i @ ''consensusconfig.json''"

definition place_consensus :: "app_input \<Rightarrow> file_system \<Rightarrow> app_input res \<times> file_system" where
  "place_consensus i fs =
     bindS
       (if aa_ConsensusFileToCopy (ai_Args i) \<noteq> [] \<and>
           ai_Command i \<in> {''interactiveautocreate'', ''importblockchain'', ''initblockchain'', ''importandstart''}
        then copyFile (aa_ConsensusFileToCopy (ai_Args i)) (consensus_path i) fs else (Ok (), fs)) (\<lambda>_ fs.
       (Ok (i\<lparr>ai_ConseususConfigFile := consensus_path i,
              ai_ConseususConfigFilePresent := (tget (fs_files fs) (consensus_path i) \<noteq> None)\<rparr>), fs))"

text \<open>From the parsed arguments on.\<close>

definition complete_input :: "app_input \<Rightarrow> app_input" where
  "complete_input i =
     (let i = (if ai_Host i = [] then i\<lparr>ai_Host := ''localhost''\<rparr> else i)
      in if ai_LocalPort i < 1 \<and> ai_Port i > 0 then i\<lparr>ai_LocalPort := ai_Port i\<rparr> else i)"

definition configure :: "app_env \<Rightarrow> string \<Rightarrow> app_input \<Rightarrow> file_system \<Rightarrow> app_input res \<times> file_system" where
  "configure e dirpath i fs =
     (let i = complete_dir e dirpath i
      in bindS (check_dir i fs) (\<lambda>_ fs.
         let i = on_args (\<lambda>a. a\<lparr>aa_LogDestDefault := True\<rparr>) (i\<lparr>ai_Port := aa_Port (ai_Args i), ai_Host := aa_Host (ai_Args i)\<rparr>)
         in bindS (GetConfig e fs i, fs) (\<lambda>config fs.
            let i = completeDBConfig (complete_node_address (case config of None \<Rightarrow> i | Some c \<Rightarrow> merge_config c i))
            in if \<not> HasMinimum (ai_Database i) \<and> CommandNeedsConfig i then (Err (ErrNew ''No database config''), fs)
               else place_consensus (complete_input i) fs)))"

definition parseConfig :: "app_env \<Rightarrow> string list \<Rightarrow> string \<Rightarrow> file_system \<Rightarrow> app_input res \<times> file_system" where
  "parseConfig e osArgs dirpath fs =
     (case osArgs of
        _ # command # args \<Rightarrow>
          (case parse_flags e args (flag_defaults (zero_input\<lparr>ai_Command := command\<rparr>)) of
             None \<Rightarrow> (Err (ErrNew ''exit status 2''), fs)
           | Some i \<Rightarrow> configure e dirpath i fs)
      | _ \<Rightarrow> configure e dirpath (zero_input\<lparr>ai_Command := ''help''\<rparr>) fs)"

section \<open>The configuration file\<close>

text \<open>A slice that is \<open>nil\<close> and an empty one are the same list here: the file has an empty list for both.\<close>

definition updated_database :: "all_args \<Rightarrow> database_config \<Rightarrow> database_config" where
  "updated_database a d =
     \<lparr>dc_MysqlHost = if aa_MySQLHost a \<noteq> [] then aa_MySQLHost a else dc_MysqlHost d,
      dc_MysqlPort = if aa_MySQLPort a > 0 then aa_MySQLPort a else dc_MysqlPort d,
      dc_MysqlSocket = if aa_MySQLSocket a \<noteq> [] then aa_MySQLSocket a else dc_MysqlSocket d,
      dc_DatabaseName = if aa_MySQLDBName a \<noteq> [] then aa_MySQLDBName a else dc_DatabaseName d,
      dc_DbUser = if aa_MySQLUser a \<noteq> [] then aa_MySQLUser a else dc_DbUser d,
      dc_DbPassword = if aa_MySQLPassword a \<noteq> [] then aa_MySQLPassword a else dc_DbPassword d,
      dc_TablesPrefix = if aa_DBTablesPrefix a \<noteq> [] then aa_DBTablesPrefix a else dc_TablesPrefix d\<rparr>"

definition updated_nodes :: "all_args \<Rightarrow> node_addr list \<Rightarrow> node_addr list" where
  "updated_nodes a nodes =
     (if aa_NodeHost a \<noteq> [] \<and> aa_NodePort a > 0 then
        (let node = NewNodeAddr (aa_NodeHost a) (aa_NodePort a)
         in if \<exists>n\<in>set nodes. CompareToAddress node n then nodes else nodes @ [node])
      else nodes)"

definition updated_config :: "app_input \<Rightarrow> app_config \<Rightarrow> app_config" where
  "updated_config c config =
     \<lparr>ac_Minter = if ai_MinterAddress c \<noteq> [] then ai_MinterAddress c else ac_Minter config,
      ac_ProxyKey = if ai_ProxyKey c \<noteq> [] then ai_ProxyKey c else ac_ProxyKey config,
      ac_Port = if ai_Port c > 0 then ai_Port c else ac_Port config,
      ac_Host = if ai_Host c \<noteq> [] then ai_Host c else ac_Host config,
      ac_LocalPort = ac_LocalPort config,
      ac_Nodes = updated_nodes (ai_Args c) (ac_Nodes config),
      ac_Logs = if ai_Logs c \<noteq> [] then (if ai_Logs c = ''no'' then [] else split_on (CHR '','') (ai_Logs c)) else ac_Logs config,
      ac_LogsDestination = if aa_LogDest (ai_Args c) \<noteq> [] \<and> \<not> aa_LogDestDefault (ai_Args c) then aa_LogDest (ai_Args c)
                           else ac_LogsDestination config,
      ac_Database = updated_database (ai_Args c) (ac_Database config),
      ac_DBProxyAddress = if ai_DBProxyAddress c \<noteq> [] then ai_DBProxyAddress c else ac_DBProxyAddress config\<rparr>"

definition app_UpdateConfig :: "app_env \<Rightarrow> app_input \<Rightarrow> file_system \<Rightarrow> unit res \<times> file_system" where
  "app_UpdateConfig e c fs =
     bindS (GetConfig e fs c, fs) (\<lambda>config fs.
       fs_write fs (config_path c) (ae_encode e (updated_config c (case config of None \<Rightarrow> zero_config | Some x \<Rightarrow> x))))"

section \<open>Where the settings come from\<close>

definition or_else :: "'a list \<Rightarrow> 'a list \<Rightarrow> 'a list" where
  "or_else x y = (if x \<noteq> [] then x else y)"

lemma merge_fields:
  "ai_Command (merge_config c i) = ai_Command i"
  "ai_MinterAddress (merge_config c i) = or_else (ai_MinterAddress i) (ac_Minter c)"
  "ai_ProxyKey (merge_config c i) = or_else (ai_ProxyKey i) (ac_ProxyKey c)"
  "ai_Port (merge_config c i) = (if ai_Port i < 1 \<and> ac_Port c > 0 then ac_Port c else ai_Port i)"
  "ai_LocalPort (merge_config c i) = (if ai_LocalPort i < 1 \<and> ac_LocalPort c > 0 then ac_LocalPort c else ai_LocalPort i)"
  "ai_Host (merge_config c i) = or_else (ai_Host i) (ac_Host c)"
  "ai_ConfigDir (merge_config c i) = ai_ConfigDir i"
  "ai_Nodes (merge_config c i) = or_else (ac_Nodes c) (ai_Nodes i)"
  "ai_Logs (merge_config c i) = or_else (ai_Logs i) (Join (ac_Logs c) '','')"
  "ai_DBProxyAddress (merge_config c i) = or_else (ai_DBProxyAddress i) (ac_DBProxyAddress c)"
  "ai_Database (merge_config c i) = ac_Database c"
  "ai_Args (merge_config c i) = merge_log_dest c (ai_Args i)"
  by (auto simp: merge_config_def or_else_def)

lemma complete_fields:
  "ai_Command (complete_node_address i) = ai_Command i" "ai_Command (completeDBConfig i) = ai_Command i"
  "ai_Command (complete_input i) = ai_Command i"
  "ai_MinterAddress (complete_node_address i) = ai_MinterAddress i" "ai_MinterAddress (completeDBConfig i) = ai_MinterAddress i"
  "ai_MinterAddress (complete_input i) = ai_MinterAddress i"
  "ai_ProxyKey (complete_node_address i) = ai_ProxyKey i" "ai_ProxyKey (completeDBConfig i) = ai_ProxyKey i"
  "ai_ProxyKey (complete_input i) = ai_ProxyKey i"
  "ai_Port (complete_node_address i) = ai_Port i" "ai_Port (completeDBConfig i) = ai_Port i" "ai_Port (complete_input i) = ai_Port i"
  "ai_Host (complete_node_address i) = ai_Host i" "ai_Host (completeDBConfig i) = ai_Host i"
  "ai_Host (complete_input i) = or_else (ai_Host i) ''localhost''"
  "ai_ConfigDir (complete_node_address i) = ai_ConfigDir i" "ai_ConfigDir (completeDBConfig i) = ai_ConfigDir i"
  "ai_ConfigDir (complete_input i) = ai_ConfigDir i"
  "ai_Nodes (complete_node_address i) = ai_Nodes i" "ai_Nodes (completeDBConfig i) = ai_Nodes i" "ai_Nodes (complete_input i) = ai_Nodes i"
  "ai_Logs (complete_node_address i) = ai_Logs i" "ai_Logs (completeDBConfig i) = ai_Logs i" "ai_Logs (complete_input i) = ai_Logs i"
  "ai_DBProxyAddress (complete_node_address i) = ai_DBProxyAddress i" "ai_DBProxyAddress (completeDBConfig i) = ai_DBProxyAddress i"
  "ai_DBProxyAddress (complete_input i) = ai_DBProxyAddress i"
  "ai_Args (completeDBConfig i) = ai_Args i" "ai_Args (complete_input i) = ai_Args i"
  "ai_Database (complete_node_address i) = ai_Database i" "ai_Database (completeDBConfig i) = completed_database (ai_Args i) (ai_Database i)"
  "ai_Database (complete_input i) = ai_Database i"
  by (simp_all add: complete_node_address_def completeDBConfig_def complete_input_def Let_def on_args_def or_else_def)

text \<open>The settings of the database server and of the logs do not depend on the address of the node.\<close>

lemma complete_node_args:
  "completed_database (ai_Args (complete_node_address i)) d = completed_database (ai_Args i) d"
  "updated_database (ai_Args (complete_node_address i)) d = updated_database (ai_Args i) d"
  "aa_LogDest (ai_Args (complete_node_address i)) = aa_LogDest (ai_Args i)"
  "aa_LogDestDefault (ai_Args (complete_node_address i)) = aa_LogDestDefault (ai_Args i)"
  "aa_ConsensusFileToCopy (ai_Args (complete_node_address i)) = aa_ConsensusFileToCopy (ai_Args i)"
  by (simp_all add: complete_node_address_def completed_database_def updated_database_def Let_def on_args_def)

lemma merge_log_fields:
  "aa_MySQLHost (merge_log_dest c a) = aa_MySQLHost a"
  "aa_MySQLPort (merge_log_dest c a) = aa_MySQLPort a"
  "aa_MySQLSocket (merge_log_dest c a) = aa_MySQLSocket a"
  "aa_MySQLUser (merge_log_dest c a) = aa_MySQLUser a"
  "aa_MySQLPassword (merge_log_dest c a) = aa_MySQLPassword a"
  "aa_MySQLDBName (merge_log_dest c a) = aa_MySQLDBName a"
  "aa_DBTablesPrefix (merge_log_dest c a) = aa_DBTablesPrefix a"
  "aa_ConsensusFileToCopy (merge_log_dest c a) = aa_ConsensusFileToCopy a"
  "aa_NodeHost (merge_log_dest c a) = aa_NodeHost a"
  "aa_NodePort (merge_log_dest c a) = aa_NodePort a"
  "aa_NodeAddress (merge_log_dest c a) = aa_NodeAddress a"
  by (simp_all add: merge_log_dest_def)

lemma merge_log_args:
  "completed_database (merge_log_dest c a) d = completed_database a d"
  "updated_database (merge_log_dest c a) d = updated_database a d"
  "aa_LogDest (merge_log_dest c a) = or_else (or_else (aa_LogDest a) (ac_LogsDestination c)) ''file''"
  "aa_LogDestDefault (merge_log_dest c a) \<longleftrightarrow> aa_LogDestDefault a \<and> aa_LogDest a = [] \<and> ac_LogsDestination c = []"
  unfolding completed_database_def updated_database_def merge_log_fields by (rule refl)+ (simp_all add: merge_log_dest_def or_else_def)

definition started :: "app_input \<Rightarrow> app_input" where
  "started i = on_args (\<lambda>a. a\<lparr>aa_LogDestDefault := True\<rparr>) (i\<lparr>ai_Port := aa_Port (ai_Args i), ai_Host := aa_Host (ai_Args i)\<rparr>)"

definition with_config :: "app_config option \<Rightarrow> app_input \<Rightarrow> app_input" where
  "with_config config i =
     completeDBConfig (complete_node_address (case config of None \<Rightarrow> started i | Some c \<Rightarrow> merge_config c (started i)))"

text \<open>A command that needs the configuration and copies no file: what it reads, and what it makes of it.\<close>

definition copies :: "app_input \<Rightarrow> bool" where
  "copies i \<longleftrightarrow> aa_ConsensusFileToCopy (ai_Args i) \<noteq> [] \<and>
     ai_Command i \<in> {''interactiveautocreate'', ''importblockchain'', ''initblockchain'', ''importandstart''}"

lemma with_config_same:
  "ai_Command (with_config config i) = ai_Command i" "ai_ConfigDir (with_config config i) = ai_ConfigDir i"
  "copies (with_config config i) = copies i"
  by (simp_all add: with_config_def complete_fields complete_node_args merge_fields merge_log_args merge_log_fields copies_def started_def on_args_def
      split: option.split)

lemma configure_iff:
  assumes "CommandNeedsConfig i" and "\<not> copies i"
  shows "configure e dirpath i fs = (Ok r, fs') \<longleftrightarrow>
     (\<exists>config. fs' = fs \<and> ai_ConfigDir (complete_dir e dirpath i) \<in> set (fs_dirs fs) \<and>
        GetConfig e fs (complete_dir e dirpath i) = Ok config \<and>
        HasMinimum (ai_Database (with_config config (complete_dir e dirpath i))) \<and>
        r = (complete_input (with_config config (complete_dir e dirpath i)))
          \<lparr>ai_ConseususConfigFile := consensus_path (complete_dir e dirpath i),
           ai_ConseususConfigFilePresent := (tget (fs_files fs) (consensus_path (complete_dir e dirpath i)) \<noteq> None)\<rparr>)"
proof -
  let ?i = "complete_dir e dirpath i"
  have n: "CommandNeedsConfig ?i" "\<not> copies ?i" using assms by (simp_all add: complete_dir_def CommandNeedsConfig_def copies_def Let_def)
  have g: "GetConfig e fs (started ?i) = GetConfig e fs ?i" by (simp add: GetConfig_def config_path_def started_def on_args_def)
  have c: "copies (complete_input j) = copies j" for j by (simp add: copies_def complete_fields)
  have w: "CommandNeedsConfig (with_config config ?i)" "\<not> copies (complete_input (with_config config ?i))"
    "consensus_path (complete_input (with_config config ?i)) = consensus_path ?i" for config
    using n by (simp_all add: c CommandNeedsConfig_def with_config_same consensus_path_def complete_fields)
  have p: "place_consensus (complete_input (with_config config ?i)) fs =
    (Ok ((complete_input (with_config config ?i))
          \<lparr>ai_ConseususConfigFile := consensus_path ?i, ai_ConseususConfigFilePresent := (tget (fs_files fs) (consensus_path ?i) \<noteq> None)\<rparr>), fs)"
    for config unfolding place_consensus_def copies_def[symmetric] w(3) using w(2)[of config] by simp
  show ?thesis unfolding configure_def Let_def started_def[symmetric] with_config_def[symmetric]
    by (cases "ai_ConfigDir ?i \<in> set (fs_dirs fs)"; cases "GetConfig e fs ?i"; simp add: check_dir_def n(1) g w(1) p) blast
qed

text \<open>The arguments never set the command, the nodes and the database.\<close>

lemma set_flag_frame:
  assumes "tget app_flags name = Some v" and "set_flag e v s i = Some j"
  shows "ai_Command j = ai_Command i \<and> ai_Nodes j = ai_Nodes i \<and> ai_Database j = ai_Database i"
proof -
  have "list_all (\<lambda>(_, v). case v of
      StringVar f \<Rightarrow> \<forall>x. ai_Command (f x i) = ai_Command i \<and> ai_Nodes (f x i) = ai_Nodes i \<and> ai_Database (f x i) = ai_Database i
    | IntVar f \<Rightarrow> \<forall>x. ai_Command (f x i) = ai_Command i \<and> ai_Nodes (f x i) = ai_Nodes i \<and> ai_Database (f x i) = ai_Database i
    | Float64Var f \<Rightarrow> \<forall>x. ai_Command (f x i) = ai_Command i \<and> ai_Nodes (f x i) = ai_Nodes i \<and> ai_Database (f x i) = ai_Database i
    | BoolVar f \<Rightarrow> \<forall>x. ai_Command (f x i) = ai_Command i \<and> ai_Nodes (f x i) = ai_Nodes i \<and> ai_Database (f x i) = ai_Database i)
    app_flags"
    by (simp add: app_flags_def on_args_def)
  moreover have "(name, v) \<in> set app_flags" using assms(1)
    by (rule tget_Some_in)
  ultimately show ?thesis using assms(2) by (cases v) (auto simp: set_flag_def list_all_iff dest!: bspec)
qed

lemma parse_flags_step:
  assumes "parse_flags e (s # args) i = Some j"
  shows "j = i \<or> (\<exists>name v x rest k. tget app_flags name = Some v \<and> set_flag e v x i = Some k \<and>
     length rest \<le> length args \<and> parse_flags e rest k = Some j)"
proof (cases "\<not> is_flag s \<or> s = ''--''")
  case False
  let ?name = "flag_name s"
  have n: "\<not> (?name = [] \<or> hd ?name = CHR ''-'' \<or> hd ?name = CHR ''='')" using assms False by (auto simp: Let_def split: if_splits)
  then obtain v where v: "tget app_flags (fst (split_flag ?name)) = Some v"
    using assms False by (auto simp: Let_def split: option.splits if_splits)
  note step = assms[unfolded parse_flags.simps if_not_P[OF False] Let_def if_not_P[OF n] v option.case]
  have "\<exists>x rest k. set_flag e v x i = Some k \<and> length rest \<le> length args \<and> parse_flags e rest k = Some j"
  proof (cases "snd (split_flag ?name)")
    case (Some x)
    then show ?thesis using step by (auto simp: bind_eq_Some_conv)
  next
    case None
    show ?thesis
    proof (cases "\<exists>f. v = BoolVar f")
      case True
      then obtain f where f: "v = BoolVar f" by blast
      then have "set_flag e v ''true'' i = Some (f True i)" by (simp add: set_flag_def parse_bool_def)
      then show ?thesis using step f None by auto
    next
      case False
      then obtain x rest where "args = x # rest" "Option.bind (set_flag e v x i) (parse_flags e rest) = Some j"
        using step None by (cases v; cases args) auto
      then show ?thesis by (auto simp: bind_eq_Some_conv intro!: exI[of _ x] exI[of _ rest])
    qed
  qed
  then show ?thesis using v by blast
qed (use assms in auto)

lemma parse_flags_frame:
  "parse_flags e args i = Some j \<Longrightarrow>
     ai_Command j = ai_Command i \<and> ai_Nodes j = ai_Nodes i \<and> ai_Database j = ai_Database i"
proof (induction "length args" arbitrary: args i rule: less_induct)
  case less
  show ?case
  proof (cases args)
    case (Cons s rest)
    consider "j = i" | name v x r k where "tget app_flags name = Some v" "set_flag e v x i = Some k"
      "length r \<le> length rest" "parse_flags e r k = Some j"
      using parse_flags_step[OF less.prems[unfolded Cons]] by blast
    then show ?thesis
    proof cases
      case 2
      then have "length r < length args" using Cons by simp
      from less.hyps[OF this 2(4)] set_flag_frame[OF 2(1,2)] show ?thesis by simp
    qed simp
  qed (use less.prems in simp)
qed

lemma parse_configdir:
  "parse_flags e [''-configdir'', dir] i = Some (i\<lparr>ai_ConfigDir := dir\<rparr>)"
  by (simp add: is_flag_def flag_name_def split_flag_def app_flags_def set_flag_def)

text \<open>\<^verbatim>\<open>strings.Join\<close> and \<^verbatim>\<open>strings.Split\<close> with the same separator.\<close>

lemma split_on_nonempty: "split_on c s \<noteq> []"
  by (induction c s rule: split_on.induct) (auto split: list.split)

lemma Join_Cons: "xs \<noteq> [] \<Longrightarrow> Join (x # xs) sep = x @ sep @ Join xs sep"
  by (cases xs) auto

lemma Join_split: "Join (split_on c s) [c] = s"
proof (induction c s rule: split_on.induct)
  case (2 sep c s)
  obtain a r where r: "split_on sep s = a # r" using split_on_nonempty[of sep s] by (cases "split_on sep s") auto
  show ?case
  proof (cases "c = sep")
    case True
    then show ?thesis using 2 by (simp add: Join_Cons split_on_nonempty)
  next
    case False
    then show ?thesis using 2 r by (cases r) auto
  qed
qed simp

definition config_or_zero :: "app_config option \<Rightarrow> app_config" where
  "config_or_zero config = (case config of None \<Rightarrow> zero_config | Some c \<Rightarrow> c)"

lemma or_else_simps [simp]: "or_else [] y = y" "or_else x [] = x" "or_else x y = [] \<longleftrightarrow> x = [] \<and> y = []"
  by (auto simp: or_else_def)

lemma started_fields:
  "ai_MinterAddress (started i) = ai_MinterAddress i" "ai_ProxyKey (started i) = ai_ProxyKey i"
  "ai_Port (started i) = aa_Port (ai_Args i)" "ai_Host (started i) = aa_Host (ai_Args i)"
  "ai_Nodes (started i) = ai_Nodes i" "ai_Logs (started i) = ai_Logs i" "ai_DBProxyAddress (started i) = ai_DBProxyAddress i"
  "ai_Database (started i) = ai_Database i" "completed_database (ai_Args (started i)) d = completed_database (ai_Args i) d"
  "updated_database (ai_Args (started i)) d = updated_database (ai_Args i) d" "aa_LogDest (ai_Args (started i)) = aa_LogDest (ai_Args i)"
  "aa_LogDestDefault (ai_Args (started i))"
  by (simp_all add: started_def on_args_def completed_database_def updated_database_def)

lemma with_config_fields:
  assumes "ai_Nodes i = []" and "ai_Database i = zero_database"
  shows "ai_MinterAddress (with_config config i) = or_else (ai_MinterAddress i) (ac_Minter (config_or_zero config))"
    "ai_ProxyKey (with_config config i) = or_else (ai_ProxyKey i) (ac_ProxyKey (config_or_zero config))"
    "ai_Port (with_config config i) =
       (if aa_Port (ai_Args i) < 1 \<and> ac_Port (config_or_zero config) > 0 then ac_Port (config_or_zero config) else aa_Port (ai_Args i))"
    "ai_Host (with_config config i) = or_else (aa_Host (ai_Args i)) (ac_Host (config_or_zero config))"
    "ai_Nodes (with_config config i) = ac_Nodes (config_or_zero config)"
    "ai_Logs (with_config config i) = or_else (ai_Logs i) (Join (ac_Logs (config_or_zero config)) '','')"
    "ai_DBProxyAddress (with_config config i) = or_else (ai_DBProxyAddress i) (ac_DBProxyAddress (config_or_zero config))"
    "ai_Database (with_config config i) = completed_database (ai_Args i) (ac_Database (config_or_zero config))"
    "updated_database (ai_Args (with_config config i)) d = updated_database (ai_Args i) d"
  by (simp_all add: with_config_def config_or_zero_def complete_fields complete_node_args merge_fields merge_log_args started_fields
      assms zero_config_def split: option.split)

lemma with_config_logs:
  "aa_LogDest (ai_Args (with_config (Some c) i)) = or_else (or_else (aa_LogDest (ai_Args i)) (ac_LogsDestination c)) ''file''"
  "\<not> aa_LogDestDefault (ai_Args (with_config config i)) \<Longrightarrow> aa_LogDest (ai_Args (with_config config i)) \<noteq> []"
  by (simp_all add: with_config_def complete_fields complete_node_args merge_fields merge_log_args started_fields or_else_def
      split: option.splits)

lemma completed_database_minimum: "HasMinimum (completed_database a d) \<longleftrightarrow> dc_DatabaseName d \<noteq> [] \<or> aa_MySQLDBName a \<noteq> []"
  by (auto simp: HasMinimum_def completed_database_def)

text \<open>What the database server's settings become when they are written and read again, with the arguments of a start without any.\<close>

lemma database_again:
  assumes "aa_MySQLHost b = []" "aa_MySQLPort b = 3306" "aa_MySQLSocket b = []" "aa_MySQLUser b = []" "aa_MySQLPassword b = []"
    "aa_MySQLDBName b = []" "aa_DBTablesPrefix b = []"
  shows "completed_database b (updated_database a d) = updated_database a (completed_database a d)"
  by (simp add: completed_database_def updated_database_def assms)

text \<open>The command, the machine and the files of a start that is given nothing but its directory.\<close>

definition plain_start :: "string \<Rightarrow> string \<Rightarrow> app_input" where
  "plain_start cmd dir = (flag_defaults (zero_input\<lparr>ai_Command := cmd\<rparr>))\<lparr>ai_ConfigDir := dir\<rparr>"

lemma plain_start_fields:
  "ai_Command (plain_start cmd dir) = cmd" "ai_ConfigDir (plain_start cmd dir) = dir" "\<not> copies (plain_start cmd dir)"
  "ai_Nodes (plain_start cmd dir) = []" "ai_Database (plain_start cmd dir) = zero_database"
  "ai_MinterAddress (plain_start cmd dir) = []" "ai_ProxyKey (plain_start cmd dir) = []" "ai_Logs (plain_start cmd dir) = []"
  "ai_DBProxyAddress (plain_start cmd dir) = []" "aa_Port (ai_Args (plain_start cmd dir)) = 0" "aa_Host (ai_Args (plain_start cmd dir)) = []"
  "aa_LogDest (ai_Args (plain_start cmd dir)) = []"
  "completed_database (ai_Args (plain_start cmd dir)) (updated_database a d) = updated_database a (completed_database a d)"
  by (simp_all add: plain_start_def flag_defaults_def on_args_def zero_input_def zero_args_def copies_def database_again)

lemma start_configdir:
  "parseConfig e [prog, cmd, ''-configdir'', dir] dirpath fs = configure e dirpath (plain_start cmd dir) fs"
  by (simp add: parseConfig_def parse_configdir plain_start_def del: parse_flags.simps)

lemma complete_dir_slash:
  assumes "ai_ConfigDir (complete_dir e dirpath i) \<noteq> []"
  shows "List.last (ai_ConfigDir (complete_dir e dirpath i)) = CHR ''/''"
  using assms by (auto simp: complete_dir_def Let_def split: if_splits)

lemma complete_dir_id: "dir \<noteq> [] \<Longrightarrow> List.last dir = CHR ''/'' \<Longrightarrow> complete_dir e dirpath (plain_start cmd dir) = plain_start cmd dir"
  by (simp add: complete_dir_def Let_def plain_start_def)

lemma updated_minimum: "HasMinimum d \<Longrightarrow> HasMinimum (updated_database a d)"
  by (auto simp: HasMinimum_def updated_database_def)

lemma command_run:
  assumes "parseConfig e (prog # cmd # args) dirpath fs = (Ok i, fs1)"
    and cmd: "\<not> StringInSlice cmd commandsDoesNotNeedConfig" "cmd \<noteq> ''initblockchain''"
  obtains d config where "fs1 = fs" "ai_Nodes d = []" "ai_Database d = zero_database" "ai_ConfigDir d \<in> set (fs_dirs fs)"
    "GetConfig e fs d = Ok config" "HasMinimum (ai_Database (with_config config d))"
    "ai_ConfigDir d \<noteq> [] \<Longrightarrow> List.last (ai_ConfigDir d) = CHR ''/''"
    "i = (complete_input (with_config config d))\<lparr>ai_ConseususConfigFile := consensus_path d,
           ai_ConseususConfigFilePresent := (tget (fs_files fs) (consensus_path d) \<noteq> None)\<rparr>"
proof -
  obtain i0 where i0: "parse_flags e args (flag_defaults (zero_input\<lparr>ai_Command := cmd\<rparr>)) = Some i0"
    "configure e dirpath i0 fs = (Ok i, fs1)"
    using assms(1) by (auto simp: parseConfig_def split: option.splits)
  have f: "ai_Command i0 = cmd" "ai_Nodes i0 = []" "ai_Database i0 = zero_database"
    using parse_flags_frame[OF i0(1)] by (simp_all add: flag_defaults_def on_args_def zero_input_def)
  then have "CommandNeedsConfig i0" "\<not> copies i0"
    using cmd by (auto simp: CommandNeedsConfig_def copies_def commandsDoesNotNeedConfig_def)
  from i0(2)[unfolded configure_iff[OF this]] that[of "complete_dir e dirpath i0"] complete_dir_slash[of e dirpath i0] f
  show ?thesis by (auto simp: complete_dir_def Let_def)
qed


end
