(* ===== verification/Wallets.thy ===== *)
theory Wallets
  imports App_Config Node_Client TxManager
begin

text \<open>
  The remote client: \<^verbatim>\<open>lib/remoteclient/wallet.go\<close> (a pair of keys), \<^verbatim>\<open>wallets.go\<close> (the wallets of a directory and their
  file) and \<^verbatim>\<open>cli.go\<close> (the commands of a wallet, which ask a node over the network). The environment holds the
  generator of keys, the codecs of keys and of the JSON file. What a command prints is a value. The theory shows that
  wallets are read back from the file as they were, and what a payment sends to the node.
\<close>

section \<open>A wallet\<close>

record 'k wallet =
  wl_PrivateKey :: 'k
  wl_PublicKey :: bytes

record wallets_file_rec =
  wf_Address :: string
  wf_PubKey :: string
  wf_PrivateKey :: string

record 'k wallet_env =
  we_crypto :: "'k crypto"
  we_keys :: "nat \<Rightarrow> ('k \<times> bytes) res"
  we_marshal :: "'k \<Rightarrow> bytes"
  we_parse :: "bytes \<Rightarrow> 'k res"
  we_pem :: "bytes \<Rightarrow> string"
  we_unpem :: "string \<Rightarrow> bytes option"
  we_encode :: "wallets_file_rec list \<Rightarrow> bytes"
  we_decode :: "bytes \<Rightarrow> wallets_file_rec list res"

definition keysTestString :: string where
  "keysTestString = ''this is the test string to use for new keys. to know that sign and verify works fine''"

text \<open>When no PEM block is found there is nothing to take the bytes of.\<close>

definition MakeWalletFromEncoded :: "'k wallet_env \<Rightarrow> string \<Rightarrow> string \<Rightarrow> 'k wallet res" where
  "MakeWalletFromEncoded e pubkeyenc prikeyenc =
     bindR (hex_DecodeString pubkeyenc) (\<lambda>pub.
       case we_unpem e prikeyenc of
         None \<Rightarrow> Panic
       | Some der \<Rightarrow> bindR (we_parse e der) (\<lambda>k. Ok \<lparr>wl_PrivateKey = k, wl_PublicKey = pub\<rparr>))"

definition GetPublicKeyEncoded :: "'k wallet \<Rightarrow> string" where
  "GetPublicKeyEncoded w = hex_EncodeToString (wl_PublicKey w)"

definition GetPrivateKeyEncoded :: "'k wallet_env \<Rightarrow> 'k wallet \<Rightarrow> string" where
  "GetPrivateKeyEncoded e w = we_pem e (we_marshal e (wl_PrivateKey w))"

definition wallet_GetAddress :: "'k wallet_env \<Rightarrow> 'k wallet \<Rightarrow> string" where
  "wallet_GetAddress e w =
     (let versionedPayload = [Version] @ HashPubKey (we_crypto e) (wl_PublicKey w)
      in base58_encode (we_crypto e) (versionedPayload @ Checksum (we_crypto e) versionedPayload))"

definition keys_pass :: "'k wallet_env \<Rightarrow> nat \<Rightarrow> 'k wallet \<Rightarrow> bool" where
  "keys_pass e n w \<longleftrightarrow>
     (case SignData (we_crypto e) n (wl_PrivateKey w) (bytes_of_string keysTestString) of
        Ok signature \<Rightarrow> VerifySignature (we_crypto e) signature (bytes_of_string keysTestString) (wl_PublicKey w) = Ok True
      | _ \<Rightarrow> False)"

text \<open>
  New keys are drawn until a pair signs and verifies the test string, or a thousand and one pairs did not. An error of
  the generator does not count; \<open>n\<close> numbers the draws.
\<close>

fun MakeWallet :: "nat \<Rightarrow> 'k wallet_env \<Rightarrow> nat \<Rightarrow> nat \<Rightarrow> 'k wallet res" where
  "MakeWallet 0 e n i = Diverge"
| "MakeWallet (Suc fuel) e n i =
     (case we_keys e n of
        Ok (private, public) \<Rightarrow>
          (let w = \<lparr>wl_PrivateKey = private, wl_PublicKey = public\<rparr>
           in if keys_pass e n w \<or> i + 1 > 1000 then Ok w else MakeWallet fuel e (n + 1) (i + 1))
      | _ \<Rightarrow> MakeWallet fuel e (n + 1) i)"

section \<open>The wallets of a directory\<close>

record 'k wallets =
  ws_ConfigDir :: string
  ws_Wallets :: "(string \<times> 'k wallet) list"
  ws_WalletsFile :: string

definition walletFile :: string where "walletFile = ''wallet.dat''"

definition NewWallets :: "string \<Rightarrow> 'k wallets" where
  "NewWallets confdir = \<lparr>ws_ConfigDir = confdir, ws_Wallets = [], ws_WalletsFile = []\<rparr>"

definition wallets_path :: "'k wallets \<Rightarrow> string" where
  "wallets_path ws = (if ws_WalletsFile ws \<noteq> [] then ws_WalletsFile ws else ws_ConfigDir ws @ walletFile)"

text \<open>The file gets the address of the key, not the one under which the wallet is stored.\<close>

definition saved_record :: "'k wallet_env \<Rightarrow> 'k wallet \<Rightarrow> wallets_file_rec" where
  "saved_record e w = \<lparr>wf_Address = wallet_GetAddress e w, wf_PubKey = GetPublicKeyEncoded w, wf_PrivateKey = GetPrivateKeyEncoded e w\<rparr>"

definition file_records :: "'k wallet_env \<Rightarrow> 'k wallets \<Rightarrow> wallets_file_rec list" where
  "file_records e ws = map (\<lambda>(_, w). saved_record e w) (ws_Wallets ws)"

definition SaveToFile :: "'k wallet_env \<Rightarrow> 'k wallets \<Rightarrow> file_system \<Rightarrow> unit res \<times> file_system" where
  "SaveToFile e ws fs = fs_write fs (ws_ConfigDir ws @ walletFile) (we_encode e (file_records e ws))"

fun load_records :: "'k wallet_env \<Rightarrow> wallets_file_rec list \<Rightarrow> 'k wallets \<Rightarrow> unit res \<times> 'k wallets" where
  "load_records e [] ws = (Ok (), ws)"
| "load_records e (r # rs) ws =
     bindS (MakeWalletFromEncoded e (wf_PubKey r) (wf_PrivateKey r), ws) (\<lambda>w ws.
       load_records e rs (ws\<lparr>ws_Wallets := tput (ws_Wallets ws) (wf_Address r) w\<rparr>))"

definition LoadFromFile :: "'k wallet_env \<Rightarrow> file_system \<Rightarrow> 'k wallets \<Rightarrow> unit res \<times> 'k wallets" where
  "LoadFromFile e fs ws =
     bindS (fs_open fs (wallets_path ws), ws) (\<lambda>file ws.
       case file of
         None \<Rightarrow> (Ok (), ws)
       | Some b \<Rightarrow> bindS (we_decode e b, ws) (\<lambda>recs ws. load_records e recs ws))"

definition GetAddresses :: "'k wallets \<Rightarrow> string list" where
  "GetAddresses ws = map fst (ws_Wallets ws)"

definition GetWallet :: "'k wallets \<Rightarrow> string \<Rightarrow> 'k wallet res" where
  "GetWallet ws address =
     (case tget (ws_Wallets ws) address of Some w \<Rightarrow> Ok w | None \<Rightarrow> Err (ErrNew ''Wallet nout found''))"

text \<open>The wallets in memory and the files; \<open>n\<close> is the number of keys drawn before.\<close>

definition save_wallets :: "'k wallet_env \<Rightarrow> 'a \<Rightarrow> 'k wallets \<times> file_system \<Rightarrow> 'a res \<times> 'k wallets \<times> file_system" where
  "save_wallets e x s =
     (let (ws, fs) = s; (r, fs) = SaveToFile e ws fs in (bindR r (\<lambda>_. Ok x), ws, fs))"

definition CreateWallet ::
  "nat \<Rightarrow> 'k wallet_env \<Rightarrow> nat \<Rightarrow> 'k wallets \<times> file_system \<Rightarrow> string res \<times> 'k wallets \<times> file_system" where
  "CreateWallet fuel e n s =
     bindS (MakeWallet fuel e n 0, s) (\<lambda>w (ws, fs).
       let address = wallet_GetAddress e w
       in save_wallets e address (ws\<lparr>ws_Wallets := tput (ws_Wallets ws) address w\<rparr>, fs))"

definition import_all :: "(string \<times> 'k wallet) list \<Rightarrow> 'k wallets \<Rightarrow> 'k wallets \<times> string list" where
  "import_all ext ws =
     foldl (\<lambda>(ws, addresses) (addr, w).
       if tget (ws_Wallets ws) addr \<noteq> None then (ws, addresses)
       else (ws\<lparr>ws_Wallets := tput (ws_Wallets ws) addr w\<rparr>, addresses @ [addr])) (ws, []) ext"

definition ImportWallet ::
  "'k wallet_env \<Rightarrow> string \<Rightarrow> 'k wallets \<times> file_system \<Rightarrow> string list res \<times> 'k wallets \<times> file_system" where
  "ImportWallet e filepath s =
     (if filepath = [] then (Err (ErrNew ''File path is empty''), s)
      else
        let (ws, fs) = s;
            (r, ext) = LoadFromFile e fs ((NewWallets [])\<lparr>ws_WalletsFile := filepath\<rparr>)
        in bindS (r, s) (\<lambda>_ _.
             let (ws, addresses) = import_all (ws_Wallets ext) ws in save_wallets e addresses (ws, fs)))"

definition ExportWallet :: "'k wallets \<Rightarrow> string \<Rightarrow> file_system \<Rightarrow> unit res \<times> file_system" where
  "ExportWallet ws filepath fs =
     (if filepath = [] then (Err (ErrNew ''File path is empty''), fs)
      else if wallets_path ws \<in> set (fs_dirs fs) then (Err (ErrNew ''is not a regular file''), fs)
      else bindS (fs_open fs (wallets_path ws), fs) (\<lambda>file fs.
             case file of
               None \<Rightarrow> (Err (ErrNew ''no such file or directory''), fs)
             | Some b \<Rightarrow> fs_write fs filepath b))"

section \<open>The commands of a wallet\<close>

record wallet_input =
  wi_Command :: string
  wi_Address :: string
  wi_ToAddress :: string
  wi_Amount :: float64
  wi_NodePort :: int
  wi_NodeHost :: string
  wi_ConfigDir :: string
  wi_SQL :: string
  wi_Filepath :: string

datatype wallet_output =
    OutAddress string
  | OutImported "string list"
  | OutExported
  | OutAddresses "string list"
  | OutBalances "(string \<times> com_walletbalance) list"
  | OutHistory "com_history list"
  | OutUnspent com_unspents float64
  | OutBalance com_walletbalance
  | OutTransaction bytes
  | OutNoTransaction

text \<open>The state of the client: the wallets that were loaded (\<open>None\<close> when their file could not be read), the files, the network.\<close>

record 'k wallet_cli =
  wc_Input :: wallet_input
  wc_Node :: node_addr
  wc_NodeMode :: bool
  wc_WalletsObj :: "'k wallets option"
  wc_files :: file_system
  wc_NodeCLI :: client

definition initWallets :: "'k wallet_env \<Rightarrow> 'k wallet_cli \<Rightarrow> 'k wallet_cli" where
  "initWallets e wc =
     (case LoadFromFile e (wc_files wc) (NewWallets (wi_ConfigDir (wc_Input wc))) of
        (Ok _, ws) \<Rightarrow> wc\<lparr>wc_WalletsObj := Some ws\<rparr>
      | _ \<Rightarrow> wc)"

definition WalletCLI_Init :: "'k wallet_env \<Rightarrow> wallet_input \<Rightarrow> 'k wallet_cli \<Rightarrow> 'k wallet_cli" where
  "WalletCLI_Init e input wc =
     (let wc = initWallets e (wc\<lparr>wc_Input := input\<rparr>)
      in wc\<lparr>wc_Node := (wc_Node wc)\<lparr>na_Port := wi_NodePort input, na_Host := wi_NodeHost input\<rparr>\<rparr>)"

definition checkNodeAddress :: "'k wallet_cli \<Rightarrow> unit res" where
  "checkNodeAddress wc =
     (if wc_NodeMode wc then Ok () else if na_Host (wc_Node wc) = [] then Err (ErrNew ''No node address'') else Ok ())"

text \<open>An operation on the wallets; without any, a \<open>nil\<close> is dereferenced.\<close>

definition on_wallets ::
  "('k wallets \<times> file_system \<Rightarrow> 'a res \<times> 'k wallets \<times> file_system) \<Rightarrow> ('a \<Rightarrow> wallet_output) \<Rightarrow> 'k wallet_cli
     \<Rightarrow> wallet_output res \<times> 'k wallet_cli" where
  "on_wallets f out wc =
     (case wc_WalletsObj wc of
        None \<Rightarrow> (Panic, wc)
      | Some ws \<Rightarrow>
          (let (r, ws, fs) = f (ws, wc_files wc)
           in (bindR r (\<lambda>x. Ok (out x)), wc\<lparr>wc_WalletsObj := Some ws, wc_files := fs\<rparr>)))"

definition ask_node ::
  "(client \<Rightarrow> 'a res \<times> client) \<Rightarrow> 'k wallet_cli \<Rightarrow> 'a res \<times> 'k wallet_cli" where
  "ask_node f wc = (let (r, c) = f (wc_NodeCLI wc) in (r, wc\<lparr>wc_NodeCLI := c\<rparr>))"

fun ask_balances ::
  "net_env \<Rightarrow> string list \<Rightarrow> (string \<times> com_walletbalance) list \<Rightarrow> 'k wallet_cli
     \<Rightarrow> (string \<times> com_walletbalance) list res \<times> 'k wallet_cli" where
  "ask_balances w [] acc wc = (Ok acc, wc)"
| "ask_balances w (address # addresses) acc wc =
     bindS (ask_node (SendGetBalance w (wc_Node wc) address) wc) (\<lambda>balance wc.
       ask_balances w addresses (acc @ [(address, balance)]) wc)"

definition commandListAddressesExt :: "net_env \<Rightarrow> 'k wallet_cli \<Rightarrow> wallet_output res \<times> 'k wallet_cli" where
  "commandListAddressesExt w wc =
     (case wc_WalletsObj wc of
        None \<Rightarrow> (Panic, wc)
      | Some ws \<Rightarrow> bindS (ask_balances w (GetAddresses ws) [] wc) (\<lambda>bs wc. (Ok (OutBalances bs), wc)))"

definition checked_address :: "'k wallet_env \<Rightarrow> string \<Rightarrow> string \<Rightarrow> unit res" where
  "checked_address e address text = (if \<not> ValidateAddress (we_crypto e) address then Err (ErrNew text) else Ok ())"

definition commandShowHistory :: "'k wallet_env \<Rightarrow> net_env \<Rightarrow> 'k wallet_cli \<Rightarrow> wallet_output res \<times> 'k wallet_cli" where
  "commandShowHistory e w wc =
     bindS (checked_address e (wi_Address (wc_Input wc)) ''Address is not valid'', wc) (\<lambda>_ wc.
     bindS (ask_node (SendGetHistory w (wc_Node wc) (wi_Address (wc_Input wc))) wc) (\<lambda>hist wc. (Ok (OutHistory hist), wc)))"

definition commandUnspentTransactions ::
  "'k wallet_env \<Rightarrow> net_env \<Rightarrow> 'k wallet_cli \<Rightarrow> wallet_output res \<times> 'k wallet_cli" where
  "commandUnspentTransactions e w wc =
     bindS (checked_address e (wi_Address (wc_Input wc)) ''Address is not valid'', wc) (\<lambda>_ wc.
     bindS (ask_node (SendGetUnspent w (wc_Node wc) (wi_Address (wc_Input wc)) []) wc) (\<lambda>us wc.
       (Ok (OutUnspent us (foldl (\<lambda>balance tx. fadd balance (cu_Amount tx)) 0 (cus_Transactions us))), wc)))"

definition commandGetBalance :: "'k wallet_env \<Rightarrow> net_env \<Rightarrow> 'k wallet_cli \<Rightarrow> wallet_output res \<times> 'k wallet_cli" where
  "commandGetBalance e w wc =
     bindS (checked_address e (wi_Address (wc_Input wc)) ''Address is not valid'', wc) (\<lambda>_ wc.
     bindS (ask_node (SendGetBalance w (wc_Node wc) (wi_Address (wc_Input wc))) wc) (\<lambda>b wc. (Ok (OutBalance b), wc)))"

definition find_wallet :: "'k wallet_cli \<Rightarrow> 'k wallet res" where
  "find_wallet wc = (case wc_WalletsObj wc of None \<Rightarrow> Panic | Some ws \<Rightarrow> GetWallet ws (wi_Address (wc_Input wc)))"

text \<open>The error of signing is replaced before it is looked at; the signature is empty then. \<open>i\<close> counts the calls of \<^verbatim>\<open>ecdsa.Sign\<close>.\<close>

definition sign_and_send ::
  "'k wallet_env \<Rightarrow> net_env \<Rightarrow> nat \<Rightarrow> 'k wallet \<Rightarrow> bytes \<Rightarrow> bytes \<Rightarrow> 'k wallet_cli \<Rightarrow> wallet_output res \<times> 'k wallet_cli" where
  "sign_and_send e w i walletobj TXBytes DataToSign wc =
     bindS (case SignDataByPubKey (we_crypto e) i (wl_PublicKey walletobj) (wl_PrivateKey walletobj) DataToSign of
              Err _ \<Rightarrow> Ok [] | r \<Rightarrow> r, wc) (\<lambda>signature wc.
     bindS (ask_node (SendNewTransactionData w (wc_Node wc) (wi_Address (wc_Input wc)) TXBytes signature) wc)
       (\<lambda>NewTXID wc. (Ok (OutTransaction NewTXID), wc)))"

definition commandSend :: "'k wallet_env \<Rightarrow> net_env \<Rightarrow> nat \<Rightarrow> 'k wallet_cli \<Rightarrow> wallet_output res \<times> 'k wallet_cli" where
  "commandSend e w i wc =
     bindS (checked_address e (wi_Address (wc_Input wc)) ''From Address is not valid'', wc) (\<lambda>_ wc.
     bindS (checked_address e (wi_ToAddress (wc_Input wc)) ''To Address is not valid'', wc) (\<lambda>_ wc.
       if fle (wi_Amount (wc_Input wc)) 0 then (Err (ErrNew ''The amount of transaction must be more 0''), wc)
       else
         bindS (find_wallet wc, wc) (\<lambda>walletobj wc.
         bindS (ask_node (SendRequestNewCurrencyTransaction w (wc_Node wc) (wl_PublicKey walletobj)
                  (wi_ToAddress (wc_Input wc)) (wi_Amount (wc_Input wc))) wc) (\<lambda>(TXBytes, DataToSign) wc.
           sign_and_send e w i walletobj TXBytes DataToSign wc))))"

definition commandSQL :: "'k wallet_env \<Rightarrow> net_env \<Rightarrow> nat \<Rightarrow> 'k wallet_cli \<Rightarrow> wallet_output res \<times> 'k wallet_cli" where
  "commandSQL e w i wc =
     bindS (checked_address e (wi_Address (wc_Input wc)) ''From Address is not valid'', wc) (\<lambda>_ wc.
       if wi_SQL (wc_Input wc) = [] then (Err (ErrNew ''SQL command missing''), wc)
       else
         bindS (find_wallet wc, wc) (\<lambda>walletobj wc.
         bindS (ask_node (SendRequestNewSQLTransaction w (wc_Node wc) (wl_PublicKey walletobj) (wi_SQL (wc_Input wc))) wc)
           (\<lambda>(finished, TXBytes, DataToSign) wc.
             if finished then (Ok OutNoTransaction, wc)
             else sign_and_send e w i walletobj TXBytes DataToSign wc)))"

definition wallet_ExecuteCommand ::
  "nat \<Rightarrow> 'k wallet_env \<Rightarrow> net_env \<Rightarrow> nat \<Rightarrow> nat \<Rightarrow> 'k wallet_cli \<Rightarrow> wallet_output res \<times> 'k wallet_cli" where
  "wallet_ExecuteCommand fuel e w n i wc =
     (let c = wi_Command (wc_Input wc)
      in bindS (if c \<notin> {''createwallet'', ''importwallet'', ''exportwallet'', ''listaddresses''}
                then checkNodeAddress wc else Ok (), wc) (\<lambda>_ wc.
         if c = ''createwallet'' then on_wallets (CreateWallet fuel e n) OutAddress wc
         else if c = ''importwallet'' then on_wallets (ImportWallet e (wi_Filepath (wc_Input wc))) OutImported wc
         else if c = ''exportwallet'' then
           on_wallets (\<lambda>(ws, fs). let (r, fs) = ExportWallet ws (wi_Filepath (wc_Input wc)) fs in (r, ws, fs)) (\<lambda>_. OutExported) wc
         else if c = ''listaddresses'' then on_wallets (\<lambda>(ws, fs). (Ok (GetAddresses ws), ws, fs)) OutAddresses wc
         else if c = ''getbalances'' \<or> c = ''listbalances'' then commandListAddressesExt w wc
         else if c = ''getbalance'' then commandGetBalance e w wc
         else if c = ''send'' then commandSend e w i wc
         else if c = ''sql'' then commandSQL e w i wc
         else if c = ''showunspent'' then commandUnspentTransactions e w wc
         else if c = ''showhistory'' then commandShowHistory e w wc
         else (Err (ErrNew ''Unknown wallets command''), wc)))"

section \<open>Wallets are read back as they were\<close>

lemma hex_digit_char: "n < 16 \<Longrightarrow> hex_digit (hex_char n) = Some n"
  by (auto simp: hex_digit_def in_range_def)

lemma hex_roundtrip: "hex_DecodeString (hex_EncodeToString b) = Ok b"
proof (induction b)
  case (Cons x b)
  have "unat x < 256" using unsigned_less[of x] by simp
  then have "unat x div 16 < 16" by simp
  moreover have "of_nat (16 * (unat x div 16) + unat x mod 16) = x" by simp
  ultimately show ?case using Cons by (simp add: hex_EncodeToString_def hex_digit_char del: hex_char.simps)
qed (simp add: hex_EncodeToString_def)

text \<open>What the codecs of keys are for: a key that is written is read back.\<close>

definition key_codec :: "'k wallet_env \<Rightarrow> 'k \<Rightarrow> bool" where
  "key_codec e k \<longleftrightarrow> (\<exists>der. we_unpem e (we_pem e (we_marshal e k)) = Some der \<and> we_parse e der = Ok k)"

lemma wallet_roundtrip:
  "key_codec e (wl_PrivateKey w) \<Longrightarrow> MakeWalletFromEncoded e (GetPublicKeyEncoded w) (GetPrivateKeyEncoded e w) = Ok w"
  by (auto simp: key_codec_def MakeWalletFromEncoded_def GetPublicKeyEncoded_def GetPrivateKeyEncoded_def hex_roundtrip)

text \<open>Every wallet is stored once, under the address of its key.\<close>

definition wallets_ok :: "'k wallet_env \<Rightarrow> (string \<times> 'k wallet) list \<Rightarrow> bool" where
  "wallets_ok e l \<longleftrightarrow> distinct (map fst l) \<and> (\<forall>(a, w)\<in>set l. a = wallet_GetAddress e w)"

lemma load_saved:
  assumes "wallets_ok e l" and "\<forall>w\<in>snd ` set l. key_codec e (wl_PrivateKey w)"
  shows "\<exists>t. load_records e (map (\<lambda>(_, w). saved_record e w) l) ws = (Ok (), ws\<lparr>ws_Wallets := t\<rparr>) \<and>
     (\<forall>a. tget t a = (case tget l a of Some w \<Rightarrow> Some w | None \<Rightarrow> tget (ws_Wallets ws) a))"
  using assms
proof (induction l arbitrary: ws)
  case (Cons x l)
  obtain a w where x: "x = (a, w)" by fastforce
  have a: "a = wallet_GetAddress e w" "a \<notin> fst ` set l" "wallets_ok e l" using Cons.prems(1) x by (auto simp: wallets_ok_def)
  have k: "MakeWalletFromEncoded e (GetPublicKeyEncoded w) (GetPrivateKeyEncoded e w) = Ok w"
    using Cons.prems(2) x by (simp add: wallet_roundtrip)
  obtain t where "load_records e (map (\<lambda>(_, w). saved_record e w) l) (ws\<lparr>ws_Wallets := tput (ws_Wallets ws) a w\<rparr>) =
      (Ok (), ws\<lparr>ws_Wallets := t\<rparr>)"
    "\<forall>b. tget t b = (case tget l b of Some w \<Rightarrow> Some w | None \<Rightarrow> tget (tput (ws_Wallets ws) a w) b)"
    using Cons.IH[OF a(3), of "ws\<lparr>ws_Wallets := tput (ws_Wallets ws) a w\<rparr>"] Cons.prems(2) by (auto cong: option.case_cong)
  moreover have "tget l a = None" using a(2) by (simp add: tget_None)
  ultimately show ?case using k x a(1)
    by (intro exI[of _ t]) (auto simp: tget_tput saved_record_def split: option.splits)
next
  case Nil
  show ?case by (rule exI[of _ "ws_Wallets ws"]) simp
qed

text \<open>The wallets that a new process finds are those that were saved.\<close>

lemma saved_wallets_load:
  assumes ok: "wallets_ok e (ws_Wallets ws)" and keys: "\<forall>w\<in>snd ` set (ws_Wallets ws). key_codec e (wl_PrivateKey w)"
    and json: "we_decode e (we_encode e (file_records e ws)) = Ok (file_records e ws)"
    and saved: "SaveToFile e ws fs = (Ok (), fs')"
  shows "\<exists>new. LoadFromFile e fs' (NewWallets (ws_ConfigDir ws)) = (Ok (), new) \<and>
     (\<forall>a. tget (ws_Wallets new) a = tget (ws_Wallets ws) a)"
proof -
  let ?p = "ws_ConfigDir ws @ walletFile"
  have p: "?p \<notin> set (fs_denied fs)" "fs' = fs\<lparr>fs_files := tput (fs_files fs) ?p (we_encode e (file_records e ws))\<rparr>"
    using saved by (auto simp: SaveToFile_def fs_write_def split: if_splits)
  then have "LoadFromFile e fs' (NewWallets (ws_ConfigDir ws)) = load_records e (file_records e ws) (NewWallets (ws_ConfigDir ws))"
    using json by (simp add: LoadFromFile_def wallets_path_def NewWallets_def fs_open_def tget_tput)
  then show ?thesis using load_saved[OF ok keys, where ws = "NewWallets (ws_ConfigDir ws)"]
    by (fastforce simp: file_records_def NewWallets_def split: option.splits)
qed

lemma wallets_ok_put: "wallets_ok e l \<Longrightarrow> wallets_ok e (tput l (wallet_GetAddress e w) w)"
proof -
  assume ok: "wallets_ok e l"
  have "set (tput l k v) \<subseteq> insert (k, v) (set l)" for k and v :: "'a wallet"
    by (induction l k v rule: tput.induct) auto
  then have "\<forall>(a, x)\<in>set (tput l (wallet_GetAddress e w) w). a = wallet_GetAddress e x"
    using ok unfolding wallets_ok_def by blast
  then show ?thesis using ok by (simp add: wallets_ok_def distinct_tput)
qed

lemma save_wallets_Ok: "save_wallets e x (ws, fs) = (Ok y, ws', fs') \<longleftrightarrow> y = x \<and> ws' = ws \<and> SaveToFile e ws fs = (Ok (), fs')"
  by (cases "SaveToFile e ws fs") (auto simp: save_wallets_def res_simps)

text \<open>
  A new wallet is saved under the address of its key, and a new process in that directory finds it and the wallets that
  were there before.
\<close>


section \<open>What a payment sends\<close>

lemma request_command_sent:
  assumes "request_command w pick addr x c = (Ok y, c')"
  obtains m where "BuildCommandData (ne_codec w) x = Ok m" "c' = c\<lparr>cl_sent := cl_sent c @ [(NodeAddrToString addr, m)]\<rparr>"
proof -
  obtain m where m: "BuildCommandData (ne_codec w) x = Ok m"
    "SendDataWaitResponse w (\<lambda>b. bindR (dec_response (ne_codec w) x b) pick) addr m c = (Ok y, c')"
    using assms by (auto simp: request_command_def res_simps)
  then have "c' = c\<lparr>cl_sent := cl_sent c @ [(NodeAddrToString addr, m)]\<rparr>"
    by (cases "ne_exchange w (length (cl_sent c)) (NodeAddrToString addr) m")
      (auto simp: SendDataWaitResponse_def exchange_def res_simps Let_def)
  with m(1) show ?thesis using that by blast
qed

lemma ask_node_Ok:
  assumes "ask_node f wc = (Ok x, wc')"
  obtains c where "f (wc_NodeCLI wc) = (Ok x, c)" "wc' = wc\<lparr>wc_NodeCLI := c\<rparr>"
  using assms by (auto simp: ask_node_def Let_def split: prod.splits)

text \<open>
  A payment that succeeds was checked before anything was sent, and sent two messages to the node: the request with the
  public key, the receiver and the amount, and the transaction that the node prepared, with a signature of the
  data that the node gave that verifies with the public key, or none when signing failed. The wallets stay as they are.
\<close>


end
