(* ===== verification/Node_Daemon.thy ===== *)
theory Node_Daemon
  imports Wallets
begin

text \<open>
  \<^verbatim>\<open>node/server/daemon.go\<close>: the daemon of a node and its PID file, by which commands find a running node and the string
  that authorises them. Processes are known by their number; the environment tells which exist. The goroutines that
  wait for a signal and for the start of the server are left out. The theory shows that the PID file is read as it was
  written, when a node counts as running, and which settings reach the process of the daemon.
\<close>

section \<open>Base 64\<close>

text \<open>\<^verbatim>\<open>base64.StdEncoding\<close>; what was decoded before a mistake is kept, and line ends are skipped.\<close>

definition b64_alphabet :: string where
  "b64_alphabet = ''ABCDEFGHIJKLMNOPQRSTUVWXYZabcdefghijklmnopqrstuvwxyz0123456789+/''"

definition b64_char :: "nat \<Rightarrow> char" where
  "b64_char d = b64_alphabet ! d"

fun find_char :: "char \<Rightarrow> string \<Rightarrow> nat \<Rightarrow> nat option" where
  "find_char c [] i = None"
| "find_char c (d # s) i = (if c = d then Some i else find_char c s (i + 1))"

definition b64_val :: "char \<Rightarrow> nat option" where
  "b64_val c = find_char c b64_alphabet 0"

fun b64_encode :: "string \<Rightarrow> string" where
  "b64_encode [] = []"
| "b64_encode [a] = (let x = of_char a in [b64_char (x div 4), b64_char (x mod 4 * 16), CHR ''='', CHR ''=''])"
| "b64_encode [a, b] =
     (let x = of_char a; y = of_char b
      in [b64_char (x div 4), b64_char (x mod 4 * 16 + y div 16), b64_char (y mod 16 * 4), CHR ''=''])"
| "b64_encode (a # b # c # s) =
     (let x = of_char a; y = of_char b; z = of_char c
      in b64_char (x div 4) # b64_char (x mod 4 * 16 + y div 16) # b64_char (y mod 16 * 4 + z div 64) # b64_char (z mod 64) #
         b64_encode s)"

fun b64_quanta :: "string \<Rightarrow> string" where
  "b64_quanta (a # b # c # d # s) =
     (case (b64_val a, b64_val b, b64_val c, b64_val d) of
        (Some w, Some x, Some y, Some z) \<Rightarrow>
          char_of (w * 4 + x div 16) # char_of (x mod 16 * 16 + y div 4) # char_of (y mod 4 * 64 + z) # b64_quanta s
      | (Some w, Some x, Some y, None) \<Rightarrow>
          if d = CHR ''='' then [char_of (w * 4 + x div 16), char_of (x mod 16 * 16 + y div 4)] else []
      | (Some w, Some x, None, _) \<Rightarrow> if c = CHR ''='' \<and> d = CHR ''='' then [char_of (w * 4 + x div 16)] else []
      | _ \<Rightarrow> [])"
| "b64_quanta s = []"

definition b64_decode :: "string \<Rightarrow> string" where
  "b64_decode s = b64_quanta (filter (\<lambda>c. c \<noteq> CHR 0x0A \<and> c \<noteq> CHR 0x0D) s)"

section \<open>The daemon\<close>

record 'k daemon_env =
  de_wallets :: "'k wallet_env"
  de_exists :: "int \<Rightarrow> bool"
  de_random :: string

record node_daemon =
  dm_Port :: int
  dm_LocalPort :: int
  dm_Host :: string
  dm_ConfigDir :: string
  dm_MinterAddress :: string
  dm_DBProxyAddr :: string
  dm_DBAddr :: string

definition fs_remove :: "file_system \<Rightarrow> string \<Rightarrow> file_system" where
  "fs_remove fs path = (if path \<in> set (fs_denied fs) then fs else fs\<lparr>fs_files := tdel (fs_files fs) path\<rparr>)"

definition getServerPidFile :: "string \<Rightarrow> string" where
  "getServerPidFile dir = dir @ ''server.pid''"

text \<open>The number of the process, its port, the string of authorisation and the result of the start.\<close>

definition parse_pid_file :: "string \<Rightarrow> (int \<times> int \<times> string \<times> string) res" where
  "parse_pid_file contents =
     (case split_on (CHR '' '') contents of
        [pidstring, portstring, authstring, startresult] \<Rightarrow>
          (let startresult = (if length startresult > 1 then b64_decode startresult else startresult)
           in bindR (Atoi portstring) (\<lambda>port. bindR (Atoi pidstring) (\<lambda>pid. Ok (pid, port, authstring, startresult))))
      | _ \<Rightarrow> Err (ErrNew ''PID file wrong format''))"

definition loadPIDFile :: "string \<Rightarrow> file_system \<Rightarrow> (int \<times> int \<times> string \<times> string) res" where
  "loadPIDFile dir fs =
     (if tget (fs_files fs) (getServerPidFile dir) = None then Ok (- 1, 0, [], [])
      else bindR (fs_open fs (getServerPidFile dir)) (\<lambda>file.
             case file of
               None \<Rightarrow> Err (ErrNew ''no such file or directory'')
             | Some b \<Rightarrow> parse_pid_file (string_of_bytes b)))"

definition pid_file_text :: "int \<Rightarrow> int \<Rightarrow> string \<Rightarrow> string \<Rightarrow> string" where
  "pid_file_text pid port authstr startresult = Itoa pid @ '' '' @ Itoa port @ '' '' @ authstr @ '' '' @ startresult"

definition savePIDFile ::
  "string \<Rightarrow> string \<Rightarrow> int \<Rightarrow> int \<Rightarrow> string \<Rightarrow> string \<Rightarrow> file_system \<Rightarrow> string res \<times> file_system" where
  "savePIDFile rnd dir pid port authstr startresult fs =
     (let authstr = (if authstr = [] then rnd else authstr);
          startresult = (if length startresult > 1 then b64_encode startresult else startresult)
      in bindS (fs_write fs (getServerPidFile dir) (bytes_of_string (pid_file_text pid port authstr startresult)))
           (\<lambda>_ fs. (Ok authstr, fs)))"

definition checkPIDFile :: "'k daemon_env \<Rightarrow> string \<Rightarrow> file_system \<Rightarrow> unit res \<times> file_system" where
  "checkPIDFile e dir fs =
     (if tget (fs_files fs) (getServerPidFile dir) = None then (Ok (), fs)
      else
        let isfine = (case loadPIDFile dir fs of Ok (ProcessID, _) \<Rightarrow> ProcessID > 0 \<and> de_exists e ProcessID | _ \<Rightarrow> False)
        in if isfine then (Err (ErrNew ''Already running or PID file exists''), fs)
           else (Ok (), fs_remove fs (getServerPidFile dir)))"

text \<open>A file of wallets that cannot be read leaves no wallets to ask, and the process ends.\<close>

definition checkArgumentsAreFine :: "'k daemon_env \<Rightarrow> node_daemon \<Rightarrow> file_system \<Rightarrow> unit res" where
  "checkArgumentsAreFine e n fs =
     (if dm_Port n < 1 then Err (ErrNew ''Node port is not provided'')
      else if dm_Port n < 1025 \<or> dm_Port n > 65536 then
        Err (ErrNew ''Node port has wrong value. Must be more 1024 and less 65536'')
      else if dm_MinterAddress n = [] then Err (ErrNew ''Minter Address is not provided'')
      else
        case LoadFromFile (de_wallets e) fs (NewWallets (dm_ConfigDir n)) of
          (Ok _, ws) \<Rightarrow>
            (case GetWallet ws (dm_MinterAddress n) of
               Err _ \<Rightarrow> Err (ErrNew ''Minter Address can not be loaded from wallet. Does it exist?'')
             | r \<Rightarrow> bindR r (\<lambda>_. Ok ()))
        | (Diverge, _) \<Rightarrow> Diverge
        | _ \<Rightarrow> Panic)"

text \<open>The arguments of the process of the daemon after the name of the program; \<open>logsstate\<close> are the logs that are on.\<close>

definition daemon_args :: "string \<Rightarrow> node_daemon \<Rightarrow> string list" where
  "daemon_args logsstate n =
     [''daemonnode'', ''-configdir='' @ dm_ConfigDir n, ''-minter='' @ dm_MinterAddress n, ''-port='' @ Itoa (dm_Port n),
      ''-host='' @ dm_Host n, ''-logs='' @ logsstate]"

text \<open>
  Waiting for the daemon: \<open>seen i\<close> is what the files are after \<open>i\<close> seconds more. The result is the one that the
  daemon writes to the PID file.
\<close>

function wait_started :: "string \<Rightarrow> (nat \<Rightarrow> file_system) \<Rightarrow> nat \<Rightarrow> unit res" where
  "wait_started dir seen i =
     (case loadPIDFile dir (seen i) of
        Ok (_, _, _, startres) \<Rightarrow>
          (if startres \<noteq> ''y'' \<and> startres \<noteq> ''n'' then Err (ErrNew startres)
           else if startres = ''y'' \<or> i > 10 then Ok ()
           else wait_started dir seen (i + 1))
      | Err _ \<Rightarrow> Ok () | Panic \<Rightarrow> Panic | Diverge \<Rightarrow> Diverge)"
  by auto
termination by (relation "measure (\<lambda>(dir, seen, i). 12 - i)") auto

declare wait_started.simps [simp del]

text \<open>
  \<^verbatim>\<open>StartServer\<close>: \<open>process\<close> is the number of the new process, \<open>None\<close> when it could not be started; then it is asked
  for all the same. The error of writing the PID file is dropped.
\<close>

definition daemon_StartServer ::
  "'k daemon_env \<Rightarrow> int option \<Rightarrow> (file_system \<Rightarrow> nat \<Rightarrow> file_system) \<Rightarrow> node_daemon \<Rightarrow> file_system
     \<Rightarrow> unit res \<times> file_system" where
  "daemon_StartServer e process seen n fs =
     bindS (checkPIDFile e (dm_ConfigDir n) fs) (\<lambda>_ fs.
     bindS (checkArgumentsAreFine e n fs, fs) (\<lambda>_ fs.
       case process of
         None \<Rightarrow> (Panic, fs)
       | Some pid \<Rightarrow>
           ignoreS (savePIDFile (de_random e) (dm_ConfigDir n) pid (dm_LocalPort n) [] ''n'' fs) (\<lambda>fs.
             (wait_started (dm_ConfigDir n) (seen fs) 0, fs))))"

text \<open>\<^verbatim>\<open>StartServerInteractive\<close> up to the start of the server, which runs with the string of authorisation.\<close>

definition prepare_interactive :: "'k daemon_env \<Rightarrow> int \<Rightarrow> node_daemon \<Rightarrow> file_system \<Rightarrow> string res \<times> file_system" where
  "prepare_interactive e pid n fs =
     bindS (checkPIDFile e (dm_ConfigDir n) fs) (\<lambda>_ fs.
     bindS (checkArgumentsAreFine e n fs, fs) (\<lambda>_ fs.
       savePIDFile (de_random e) (dm_ConfigDir n) pid (dm_LocalPort n) [] ''y'' fs))"

text \<open>The process that is to be ended, with the files; a process that is gone is no error.\<close>

definition daemon_StopServer :: "node_daemon \<Rightarrow> file_system \<Rightarrow> int option res \<times> file_system" where
  "daemon_StopServer n fs =
     (case loadPIDFile (dm_ConfigDir n) fs of
        Ok (ProcessID, _) \<Rightarrow>
          (if ProcessID > 0 then (Ok (Some ProcessID), fs_remove fs (getServerPidFile (dm_ConfigDir n))) else (Ok None, fs))
      | Err er \<Rightarrow> (Err er, fs) | Panic \<Rightarrow> (Panic, fs) | Diverge \<Rightarrow> (Diverge, fs))"

text \<open>\<^verbatim>\<open>waitServerStarted\<close> writes the result of the start, an empty one as \<open>y\<close>, to the PID file.\<close>

definition waitServerStarted :: "'k daemon_env \<Rightarrow> string \<Rightarrow> string \<Rightarrow> file_system \<Rightarrow> file_system" where
  "waitServerStarted e dir result fs =
     (let result = (if result = [] then ''y'' else result)
      in case loadPIDFile dir fs of
           Ok (pid, port, authstring, _) \<Rightarrow> snd (savePIDFile (de_random e) dir pid port authstring result fs)
         | _ \<Rightarrow> fs)"

text \<open>Whether a server runs, its process and its port; the file of a process that is gone is removed.\<close>

definition GetServerState :: "'k daemon_env \<Rightarrow> string \<Rightarrow> file_system \<Rightarrow> (bool \<times> int \<times> int) \<times> file_system" where
  "GetServerState e dir fs =
     (case loadPIDFile dir fs of
        Ok (ProcessID, Port, _) \<Rightarrow>
          (if ProcessID > 0 then
             if de_exists e ProcessID then ((True, ProcessID, Port), fs)
             else ((False, 0, 0), fs_remove fs (getServerPidFile dir))
           else ((False, 0, 0), fs))
      | _ \<Rightarrow> ((False, 0, 0), fs))"

definition GetRunningProcessInfo :: "string \<Rightarrow> file_system \<Rightarrow> int \<times> string" where
  "GetRunningProcessInfo dir fs =
     (case loadPIDFile dir fs of
        Ok (_, port, authstr, _) \<Rightarrow> if port > 0 then (port, authstr) else (0, [])
      | _ \<Rightarrow> (0, []))"

section \<open>The PID file is read as it was written\<close>

lemma b64_val_char: "d < 64 \<Longrightarrow> b64_val (b64_char d) = Some d"
proof -
  have "\<forall>d\<in>set [0..<64]. b64_val (b64_char d) = Some d" by code_simp
  then show "d < 64 \<Longrightarrow> b64_val (b64_char d) = Some d" by simp
qed

lemma b64_char_plain: "d < 64 \<Longrightarrow> b64_char d \<notin> {CHR 0x0A, CHR 0x0D, CHR '' ''}"
proof -
  have "\<forall>d\<in>set [0..<64]. b64_char d \<notin> {CHR 0x0A, CHR 0x0D, CHR '' ''}" by code_simp
  then show "d < 64 \<Longrightarrow> b64_char d \<notin> {CHR 0x0A, CHR 0x0D, CHR '' ''}" by simp
qed

lemma char_nat: "(of_char (c :: char) :: nat) < 256"
  by (metis of_char_mod_256 mod_less_divisor zero_less_numeral)

lemma quantum_arith:
  fixes x y z :: nat
  assumes "x < 256" and "y < 256" and "z < 256"
  shows "x div 4 < 64" "x mod 4 * 16 < 64" "x mod 4 * 16 + y div 16 < 64" "y mod 16 * 4 < 64" "y mod 16 * 4 + z div 64 < 64" "z mod 64 < 64"
    "x div 4 * 4 + (x mod 4 * 16) div 16 = x" "x div 4 * 4 + (x mod 4 * 16 + y div 16) div 16 = x"
    "(x mod 4 * 16 + y div 16) mod 16 * 16 + (y mod 16 * 4) div 4 = y"
    "(x mod 4 * 16 + y div 16) mod 16 * 16 + (y mod 16 * 4 + z div 64) div 4 = y"
    "(y mod 16 * 4 + z div 64) mod 4 * 64 + z mod 64 = z"
proof -
  have d: "y div 16 < 16" "z div 64 < 4" "x div 4 < 64" using assms by (simp_all add: div_less_iff_less_mult)
  have m: "x mod 4 < 4" "y mod 16 < 16" "z mod 64 < 64" by simp_all
  have sums: "p < 4 \<Longrightarrow> p * 16 < 64" "p < 4 \<Longrightarrow> q < 16 \<Longrightarrow> p * 16 + q < 64" "q < 16 \<Longrightarrow> q * 4 < 64"
    "q < 16 \<Longrightarrow> p < 4 \<Longrightarrow> q * 4 + p < 64" for p q :: nat by simp_all
  show "x div 4 < 64" by (rule d(3))
  show "x mod 4 * 16 < 64" by (rule sums(1)[OF m(1)])
  show "x mod 4 * 16 + y div 16 < 64" by (rule sums(2)[OF m(1) d(1)])
  show "y mod 16 * 4 < 64" by (rule sums(3)[OF m(2)])
  show "y mod 16 * 4 + z div 64 < 64" by (rule sums(4)[OF m(2) d(2)])
  show "z mod 64 < 64" by (rule m(3))
  have "(x mod 4 * 16 + y div 16) div 16 = x mod 4" "(y mod 16 * 4 + z div 64) div 4 = y mod 16"
    "(x mod 4 * 16 + y div 16) mod 16 = y div 16" "(y mod 16 * 4 + z div 64) mod 4 = z div 64" using d by simp_all
  then show "x div 4 * 4 + (x mod 4 * 16) div 16 = x" "x div 4 * 4 + (x mod 4 * 16 + y div 16) div 16 = x"
    "(x mod 4 * 16 + y div 16) mod 16 * 16 + (y mod 16 * 4) div 4 = y"
    "(x mod 4 * 16 + y div 16) mod 16 * 16 + (y mod 16 * 4 + z div 64) div 4 = y"
    "(y mod 16 * 4 + z div 64) mod 4 * 64 + z mod 64 = z" by simp_all
qed

lemma b64_no_digit: "b64_val (CHR ''='') = None"
  by code_simp

lemma b64_quanta_encode: "b64_quanta (b64_encode s) = s"
proof (induction s rule: b64_encode.induct)
  case (2 a)
  show ?case using quantum_arith[OF char_nat[of a] char_nat[of a] char_nat[of a]]
    by (simp add: Let_def b64_val_char b64_no_digit)
next
  case (3 a b)
  show ?case using quantum_arith[OF char_nat[of a] char_nat[of b] char_nat[of b]]
    by (simp add: Let_def b64_val_char b64_no_digit)
next
  case (4 a b c s)
  show ?case using quantum_arith[OF char_nat[of a] char_nat[of b] char_nat[of c]] 4[OF refl refl refl]
    by (simp add: Let_def b64_val_char)
qed simp

definition plain_char :: "char \<Rightarrow> bool" where
  "plain_char c \<longleftrightarrow> c \<noteq> CHR 0x0A \<and> c \<noteq> CHR 0x0D \<and> c \<noteq> CHR '' ''"

lemma plain_b64_char: "d < 64 \<Longrightarrow> plain_char (b64_char d)" "plain_char (CHR ''='')"
  using b64_char_plain by (simp_all add: plain_char_def)

lemma b64_encode_plain: "list_all plain_char (b64_encode s)"
proof (induction s rule: b64_encode.induct)
  case (2 a)
  show ?case unfolding b64_encode.simps Let_def list.pred_inject
    by (intro conjI plain_b64_char quantum_arith[OF char_nat char_nat char_nat] list.pred_inject(1))
next
  case (3 a b)
  show ?case unfolding b64_encode.simps Let_def list.pred_inject
    by (intro conjI plain_b64_char quantum_arith[OF char_nat char_nat char_nat] list.pred_inject(1))
next
  case (4 a b d s)
  show ?case unfolding b64_encode.simps Let_def list.pred_inject
    by (intro conjI plain_b64_char quantum_arith[OF char_nat char_nat char_nat] list.pred_inject(1) 4[OF refl refl refl])
qed simp

lemma b64_roundtrip: "b64_decode (b64_encode s) = s"
proof -
  have "filter (\<lambda>c. c \<noteq> CHR 0x0A \<and> c \<noteq> CHR 0x0D) (b64_encode s) = b64_encode s"
    using b64_encode_plain[of s] by (simp add: filter_id_conv list_all_iff plain_char_def)
  then show ?thesis by (simp add: b64_decode_def b64_quanta_encode)
qed

lemma b64_encode_long: "s \<noteq> [] \<Longrightarrow> 1 < length (b64_encode s)"
  by (cases s rule: b64_encode.cases) (simp_all add: Let_def)


lemma split_on_sep: "sep \<notin> set a \<Longrightarrow> split_on sep (a @ sep # s) = a # split_on sep s"
  by (induction a) auto

lemma split_on_plain: "sep \<notin> set a \<Longrightarrow> split_on sep a = [a]"
  by (induction a) auto

lemma Itoa_plain: "CHR '' '' \<notin> set (Itoa i)"
proof -
  have "CHR '' '' \<notin> set (nat_string n)" for n using nat_string_digits[of n] by (auto simp: in_range_def)
  then show ?thesis by (simp add: Itoa_def)
qed

lemma parse_pid_file_text:
  assumes "CHR '' '' \<notin> set authstr" and "CHR '' '' \<notin> set startresult" and "in64 pid" and "in64 port"
  shows "parse_pid_file (pid_file_text pid port authstr startresult) =
     Ok (pid, port, authstr, if length startresult > 1 then b64_decode startresult else startresult)"
  using assms
  by (simp add: parse_pid_file_def pid_file_text_def split_on_sep split_on_plain Itoa_plain Atoi_Itoa Let_def)

lemma written_result:
  fixes r :: string
  defines "w \<equiv> if length r > 1 then b64_encode r else r"
  assumes "r \<noteq> '' ''"
  shows "CHR '' '' \<notin> set w" "(if length w > 1 then b64_decode w else w) = r"
proof -
  show "(if length w > 1 then b64_decode w else w) = r"
    using b64_encode_long[of r] by (cases "r = []") (auto simp: w_def b64_roundtrip)
  show "CHR '' '' \<notin> set w"
  proof (cases "length r > 1")
    case True
    then show ?thesis using b64_encode_plain[of r] by (auto simp: w_def list_all_iff plain_char_def)
  next
    case False
    then show ?thesis using assms(2) by (cases r) (auto simp: w_def)
  qed
qed

text \<open>
  What is written to the PID file is read back, with the string of authorisation that was drawn when none was given, for
  strings without spaces.
\<close>

lemma savePIDFile_load:
  assumes saved: "savePIDFile rnd dir pid port authstr startresult fs = (Ok used, fs')"
    and plain: "CHR '' '' \<notin> set used" "startresult \<noteq> '' ''" and small: "in64 pid" "in64 port"
  shows "loadPIDFile dir fs' = Ok (pid, port, used, startresult) \<and> used = (if authstr = [] then rnd else authstr)"
proof -
  let ?w = "if length startresult > 1 then b64_encode startresult else startresult"
  have w: "fs_write fs (getServerPidFile dir) (bytes_of_string (pid_file_text pid port used ?w)) = (Ok (), fs')"
    "used = (if authstr = [] then rnd else authstr)"
    using saved by (auto simp: savePIDFile_def Let_def fs_write_def split: if_splits)
  then have "getServerPidFile dir \<notin> set (fs_denied fs')"
    "tget (fs_files fs') (getServerPidFile dir) = Some (bytes_of_string (pid_file_text pid port used ?w))"
    by (auto simp: fs_write_def tget_tput split: if_splits)
  then have "loadPIDFile dir fs' = parse_pid_file (pid_file_text pid port used ?w)"
    by (simp add: loadPIDFile_def fs_open_def)
  also have "\<dots> = Ok (pid, port, used, startresult)"
    using parse_pid_file_text[OF plain(1) written_result(1)[OF plain(2)] small] written_result(2)[OF plain(2)] by simp
  finally show ?thesis using w(2) by simp
qed


section \<open>What reaches the process of the daemon\<close>

lemma base_val_digits: "list_all (in_range 48 57) s \<Longrightarrow> base_val 10 acc s = digits_val acc s"
proof (induction s arbitrary: acc)
  case (Cons c s)
  then have "digit_of c = Some (of_char c - 48)" "(of_char c :: nat) - 48 < 10" by (auto simp: digit_of_def in_range_def)
  then show ?case using Cons by simp
qed simp

lemma nat_string_zero: "0 < n \<Longrightarrow> hd (nat_string n) \<noteq> CHR ''0''"
proof (induction n rule: nat_string.induct)
  case (1 n)
  show ?case
  proof (cases "n < 10")
    case True
    have "\<forall>k\<in>set [1..<10]. char_of (48 + k :: nat) \<noteq> CHR ''0''" by code_simp
    then show ?thesis using True 1(2) by (simp add: nat_string.simps[of n])
  next
    case False
    then show ?thesis using 1(1) nat_string_digits[of "n div 10"] by (simp add: nat_string.simps[of n])
  qed
qed

lemma parse_int_Itoa: "0 < i \<Longrightarrow> in64 i \<Longrightarrow> parse_int (Itoa i) = Some i"
proof -
  assume i: "0 < i" "in64 i"
  obtain c r where cr: "nat_string (nat i) = c # r" using nat_string_digits[of "nat i"] by (cases "nat_string (nat i)") auto
  have all: "list_all (in_range 48 57) (c # r)" using nat_string_digits[of "nat i"] cr by (simp add: list_all_iff)
  have "c \<noteq> CHR ''0''" using nat_string_zero[of "nat i"] i(1) cr by simp
  moreover have "c \<noteq> CHR ''-''" "c \<noteq> CHR ''+''" using all by (auto simp: in_range_def)
  moreover obtain k where "\<forall>acc. digits_val acc (c # r) = Some (acc * 10 ^ k + nat i)"
    using digits_val_nat_string[of "nat i"] unfolding cr by blast
  then have "digits_val 0 (c # r) = Some (nat i)" by (metis add_0 mult_0)
  then have "base_val 10 0 (c # r) = Some (nat i)" using base_val_digits[OF all] by simp
  ultimately show ?thesis using i cr by (simp add: parse_int_def Itoa_def parse_uint_def Let_def del: base_val.simps)
qed

text \<open>The input of the process before the configuration is read.\<close>

definition daemon_input :: "string \<Rightarrow> node_daemon \<Rightarrow> app_input" where
  "daemon_input logsstate n =
     zero_input\<lparr>ai_Command := ''daemonnode'', ai_MinterAddress := dm_MinterAddress n, ai_Logs := logsstate,
       ai_ConfigDir := dm_ConfigDir n,
       ai_Args := zero_args\<lparr>aa_MySQLPort := 3306, aa_Port := dm_Port n, aa_Host := dm_Host n\<rparr>\<rparr>"

lemma daemon_parsed:
  assumes "0 < dm_Port n" and "in64 (dm_Port n)"
  shows "parseConfig e (prog # daemon_args logsstate n) dirpath fs = configure e dirpath (daemon_input logsstate n) fs"
  using parse_int_Itoa[OF assms]
  by (simp add: parseConfig_def daemon_args_def is_flag_def flag_name_def split_flag_def app_flags_def set_flag_def flag_defaults_def
    on_args_def daemon_input_def zero_input_def zero_args_def)


lemma daemon_input_fields:
  "ai_Command (daemon_input logsstate n) = ''daemonnode''" "ai_MinterAddress (daemon_input logsstate n) = dm_MinterAddress n"
  "ai_ConfigDir (daemon_input logsstate n) = dm_ConfigDir n" "aa_Port (ai_Args (daemon_input logsstate n)) = dm_Port n"
  "aa_Host (ai_Args (daemon_input logsstate n)) = dm_Host n" "ai_ProxyKey (daemon_input logsstate n) = []"
  "ai_DBProxyAddress (daemon_input logsstate n) = []" "ai_LocalPort (daemon_input logsstate n) = 0"
  "ai_Nodes (daemon_input logsstate n) = []" "ai_Database (daemon_input logsstate n) = zero_database"
  "CommandNeedsConfig (daemon_input logsstate n)" "\<not> copies (daemon_input logsstate n)"
  by (simp_all add: daemon_input_def zero_input_def zero_args_def CommandNeedsConfig_def commandsDoesNotNeedConfig_def copies_def)

lemma local_port_fields:
  "ai_LocalPort (complete_input i) = (if ai_LocalPort i < 1 \<and> ai_Port i > 0 then ai_Port i else ai_LocalPort i)"
  "ai_LocalPort (with_config (Some c) i) = (if ai_LocalPort i < 1 \<and> ac_LocalPort c > 0 then ac_LocalPort c else ai_LocalPort i)"
  by (simp_all add: complete_input_def with_config_def completeDBConfig_def complete_node_address_def on_args_def merge_config_def
    started_def Let_def)

lemma arguments_fine:
  assumes "checkArgumentsAreFine e n fs = Ok ()"
  shows "1024 < dm_Port n" "dm_Port n \<le> 65536" "dm_MinterAddress n \<noteq> []"
    "\<exists>ws w. LoadFromFile (de_wallets e) fs (NewWallets (dm_ConfigDir n)) = (Ok (), ws) \<and> GetWallet ws (dm_MinterAddress n) = Ok w"
  using assms by (auto simp: checkArgumentsAreFine_def res_simps split: if_splits prod.splits res.splits)

text \<open>The daemon that a command line makes (\<^verbatim>\<open>createDaemonManager\<close> and \<^verbatim>\<open>createServer\<close>).\<close>

definition daemon_of :: "app_input \<Rightarrow> node_daemon" where
  "daemon_of i =
     \<lparr>dm_Port = ai_Port i, dm_LocalPort = ai_LocalPort i, dm_Host = ai_Host i, dm_ConfigDir = ai_ConfigDir i,
      dm_MinterAddress = ai_MinterAddress i, dm_DBProxyAddr = ai_DBProxyAddress i, dm_DBAddr = GetServerAddress (ai_Database i)\<rparr>"

text \<open>
  The process that \<^verbatim>\<open>startnode\<close> starts reads its arguments and the same configuration: it has the directory, port, host
  and minter of the command, but the local port, the key and the address of the proxy that the configuration says,
  whatever the command was given.
\<close>

text \<open>
  C40: The process that startnode starts has the directory, port, host and minter of the command,
  but the local port, the key and the address of the proxy that the configuration file says,
  whatever the command was given.
\<close>

lemma daemon_process_settings:
  assumes start: "parseConfig e (prog # ''startnode'' # args) dirpath fs = (Ok i, fs1)" and dir: "ai_ConfigDir i \<noteq> []"
    and fine: "checkArgumentsAreFine de (daemon_of i) fs1 = Ok ()"
    and config: "GetConfig e fs1 i = Ok (Some c)" "dc_DatabaseName (ac_Database c) \<noteq> []"
  shows "\<exists>j. parseConfig e (prog' # daemon_args logsstate (daemon_of i)) dirpath' fs1 = (Ok j, fs1) \<and>
    ai_ConfigDir j = ai_ConfigDir i \<and> ai_Port j = ai_Port i \<and> ai_Host j = ai_Host i \<and>
    ai_MinterAddress j = ai_MinterAddress i \<and>
    ai_LocalPort j = (if ac_LocalPort c > 0 then ac_LocalPort c else ai_Port i) \<and>
    ai_ProxyKey j = ac_ProxyKey c \<and> ai_DBProxyAddress j = ac_DBProxyAddress c"
proof (rule command_run[OF start])
  show "\<not> StringInSlice ''startnode'' commandsDoesNotNeedConfig" "''startnode'' \<noteq> ''initblockchain''"
    by (simp_all add: commandsDoesNotNeedConfig_def)
  fix d config
  assume d: "fs1 = fs" "ai_Nodes d = []" "ai_Database d = zero_database" "ai_ConfigDir d \<in> set (fs_dirs fs)"
    "GetConfig e fs d = Ok config" "HasMinimum (ai_Database (with_config config d))"
    "ai_ConfigDir d \<noteq> [] \<Longrightarrow> List.last (ai_ConfigDir d) = CHR ''/''"
    and i: "i = (complete_input (with_config config d))\<lparr>ai_ConseususConfigFile := consensus_path d,
           ai_ConseususConfigFilePresent := (tget (fs_files fs) (consensus_path d) \<noteq> None)\<rparr>"
  let ?c = "daemon_input logsstate (daemon_of i)"
  have ci: "ai_ConfigDir i = ai_ConfigDir d" by (simp add: i complete_fields with_config_same)
  have n: "dm_Port (daemon_of i) = ai_Port i" "dm_ConfigDir (daemon_of i) = ai_ConfigDir d" "dm_Host (daemon_of i) = ai_Host i"
    "dm_MinterAddress (daemon_of i) = ai_MinterAddress i" by (simp_all add: daemon_of_def ci)
  have f: "1024 < ai_Port i" "ai_Port i \<le> 65536" "ai_MinterAddress i \<noteq> []" using arguments_fine(1-3)[OF fine] by (simp_all add: n)
  have h: "ai_Host i \<noteq> []" by (simp add: i complete_fields or_else_def)
  have same: "complete_dir e dirpath' ?c = ?c" using dir ci d(7) by (simp add: complete_dir_def Let_def daemon_input_fields n)
  have g: "GetConfig e fs1 ?c = Ok (Some c)" using config(1) by (simp add: GetConfig_def config_path_def daemon_input_fields n ci)
  note fields = with_config_fields[OF daemon_input_fields(9,10)] daemon_input_fields with_config_same local_port_fields complete_fields n
  have "HasMinimum (ai_Database (with_config (Some c) ?c))"
    using config(2) by (simp add: fields completed_database_minimum config_or_zero_def)
  then obtain j where j: "configure e dirpath' ?c fs1 = (Ok j, fs1)"
    "j = (complete_input (with_config (Some c) ?c))\<lparr>ai_ConseususConfigFile := consensus_path ?c,
       ai_ConseususConfigFilePresent := (tget (fs_files fs1) (consensus_path ?c) \<noteq> None)\<rparr>"
    using configure_iff[OF daemon_input_fields(11,12), of e dirpath' logsstate "daemon_of i" fs1] g same d(1,4)
    by (auto simp: daemon_input_fields n)
  have "in64 (ai_Port i)" using f by (simp add: in64_def)
  then have "parseConfig e (prog' # daemon_args logsstate (daemon_of i)) dirpath' fs1 = (Ok j, fs1)"
    using daemon_parsed[of "daemon_of i"] f(1) j(1) n(1) by simp
  then show ?thesis using f h by (intro exI[of _ j]) (simp add: j(2) ci fields config_or_zero_def or_else_def)
qed


section \<open>A node that runs\<close>

lemma checkPIDFile_alive:
  assumes "loadPIDFile dir fs = Ok (pid, r)" and "tget (fs_files fs) (getServerPidFile dir) \<noteq> None" and "0 < pid" and "de_exists e pid"
  shows "checkPIDFile e dir fs = (Err (ErrNew ''Already running or PID file exists''), fs)"
  using assms by (simp add: checkPIDFile_def Let_def)

text \<open>
  When a node was started in the foreground, commands find its process, its local port and the string that it accepts
  from them, and a second start in the same directory is refused.
\<close>

lemma running_node_found:
  assumes run: "prepare_interactive e pid n fs = (Ok authstr, fs')" and alive: "0 < pid" "de_exists e pid" "in64 pid"
    and port: "0 < dm_LocalPort n" "in64 (dm_LocalPort n)" and rnd: "CHR '' '' \<notin> set (de_random e)"
  shows "authstr = de_random e \<and> GetRunningProcessInfo (dm_ConfigDir n) fs' = (dm_LocalPort n, authstr) \<and>
    GetServerState e (dm_ConfigDir n) fs' = ((True, pid, dm_LocalPort n), fs') \<and>
    (\<forall>process seen m. dm_ConfigDir m = dm_ConfigDir n \<longrightarrow>
       daemon_StartServer e process seen m fs' = (Err (ErrNew ''Already running or PID file exists''), fs'))"
proof -
  obtain fs1 where saved: "savePIDFile (de_random e) (dm_ConfigDir n) pid (dm_LocalPort n) [] ''y'' fs1 = (Ok authstr, fs')"
    using run by (auto simp: prepare_interactive_def res_simps)
  then have auth: "authstr = de_random e" by (auto simp: savePIDFile_def Let_def fs_write_def split: if_splits)
  then have load: "loadPIDFile (dm_ConfigDir n) fs' = Ok (pid, dm_LocalPort n, authstr, ''y'')"
    using savePIDFile_load[OF saved] rnd alive(3) port(2) by simp
  moreover have "tget (fs_files fs') (getServerPidFile (dm_ConfigDir n)) \<noteq> None"
    using load alive(1) by (auto simp: loadPIDFile_def split: if_splits)
  ultimately show ?thesis using auth alive port checkPIDFile_alive[OF load, of e]
    by (simp add: GetRunningProcessInfo_def GetServerState_def daemon_StartServer_def)
qed

text \<open>The port 65536, which does not exist, is accepted.\<close>

lemma port_65536_fine:
  assumes "dm_Port n = 65536" and "dm_MinterAddress n \<noteq> []"
    and "LoadFromFile (de_wallets e) fs (NewWallets (dm_ConfigDir n)) = (Ok (), ws)" and "GetWallet ws (dm_MinterAddress n) = Ok w"
  shows "checkArgumentsAreFine e n fs = Ok ()"
  using assms by (simp add: checkArgumentsAreFine_def)

end
