(* ===== verification/Create_Samples.thy ===== *)
theory Create_Samples
  imports Server_Samples Node_Create Node_Daemon
begin

text \<open>
  The properties of \<open>Node_Create\<close>, \<open>App_Config\<close>, \<open>Wallets\<close> and \<open>Node_Daemon\<close> applied to sample data: a database with two empty
  tables, one without tables, a node that receives the first block of another one, and a configuration and a file of
  wallets that are written and read again.
\<close>

section \<open>New block chains\<close>

text \<open>A server with two tables without rows, and one without tables.\<close>

definition c_sql :: "string list sql_env" where
  "c_sql = s_sql\<lparr>sq_query := (\<lambda>m q. if take 12 q = ''SELECT count'' then Ok ([''c''], [[Some ''0'']])
     else if take 4 q = ''SHOW'' then Ok ([''Create Table''], [[Some ''create table'']]) else Ok ([], []))\<rparr>"

definition c_maker :: "string list sql_env \<Rightarrow> (unit, string list) maker_env" where
  "c_maker sql = \<lparr>mk_env = (\<lambda>h. o_env\<lparr>te_sql := sql\<rparr>), mk_sign = (\<lambda>h i. 0), mk_random = (\<lambda>h. Some [1, 2, 3]), mk_nonces = 1,
     mk_minter = PubKeyHashToAddres o_crypto o_pkh, mk_pubKey = s_key, mk_privKey = ()\<rparr>"

definition c_state :: "string list maker_state" where
  "c_state = \<lparr>mk_config = s_cfg, mk_db = o_db\<lparr>db_blocks := [], db_chain := [], db_txblocks := [], db_unspent := [], db_pool := [],
     db_txcache := None\<rparr>\<rparr>"


lemma c_hashes: "maker_hashes 32 (c_maker sql)"
  using o_sha by (simp add: maker_hashes_def c_maker_def o_env_def)

lemma c_tables: "GetAllTables (te_sql (mk_env (c_maker s_sql) 0)) (OpenConnection (mk_db c_state)) = Ok []"
  by code_simp

lemma o_target: "be_nat (sha256 o_crypto x) < 2 ^ 240"
proof -
  have "be_nat (sha256 o_crypto x) = be_nat (1 # take 28 (x @ replicate 32 0))" by (simp add: o_crypto_def be_nat_def)
  also have "\<dots> < 256 ^ length (1 # take 28 (x @ replicate 32 (0 :: 8 word)))" by (rule be_nat_less)
  also have "length (1 # take 28 (x @ replicate 32 (0 :: 8 word))) = 29" by simp
  finally show ?thesis by simp
qed

text \<open>The first block of a chain of hashes of 32 bytes.\<close>

lemma c_genesis: "\<exists>b. completed_genesis (c_maker s_sql) ''first'' c_state = Ok b"
proof -
  have "(case prepareGenesisBlock o_env s_gob s_cfg (Some [1, 2, 3]) (PubKeyHashToAddres o_crypto o_pkh) ''first'' of
      Ok b \<Rightarrow> (case HashTransactions o_crypto b of Ok h \<Rightarrow> True | _ \<Rightarrow> False) | _ \<Rightarrow> False)" by code_simp
  then obtain b h where b: "prepareGenesisBlock o_env s_gob s_cfg (Some [1, 2, 3]) (PubKeyHashToAddres o_crypto o_pkh) ''first'' = Ok b"
    "HashTransactions o_crypto b = Ok h" by (auto split: res.splits)
  let ?pow = "\<lparr>pow_block = Some b, pow_target = 2 ^ 240, pow_settings_of = completeSettings (cfg_Settings s_cfg)\<rparr>"
  have height: "blk_Height b = 0" using prepareGenesisBlock_shape[OF b(1)] by simp
  have pow: "NewProofOfWork (Some b) (cfg_Settings s_cfg) = Ok ?pow"
    by (simp add: NewProofOfWork_def s_cfg_def NewConfigDefault_def completeSettings_def emptySettings_def Let_def height)
  obtain pre where "prepareData o_crypto ?pow = Ok pre" using b(2) by (auto simp: prepareData_def)
  then obtain n y where "Run 1 o_crypto ?pow = Ok (n, y)"
    using o_target[of "addNonceToPrepared pre 0"] by (auto simp: Run_def maxNonce_def pow_loop_step Let_def simp del: power_numeral)
  then have "Run (mk_nonces (c_maker s_sql)) o_crypto ?pow = Ok (n, y)" by (simp add: c_maker_def)
  then show ?thesis using b(1) pow
    by (simp add: completed_genesis_def c_maker_def c_state_def o_env_def s_env_def maker_bm_def SetPreparedBlock_def CompleteBlock_def o_db_def Let_def)
qed


lemma CreateBlockchain_inv_witness:
  "\<exists>genesis hs. completed_genesis (c_maker s_sql) ''first'' c_state = Ok genesis \<and>
     node_inv 32 (blk_Hash genesis) (mk_db (snd (CreateBlockchain 0 (c_maker s_sql) False ''first'' False c_state))) hs"
proof -
  obtain b where b: "completed_genesis (c_maker s_sql) ''first'' c_state = Ok b" using c_genesis by blast
  obtain r s' where run: "CreateBlockchain 0 (c_maker s_sql) False ''first'' False c_state = (r, s')" by fastforce
  have same: "OpenConnection (mk_db c_state) = mk_db c_state" by (simp add: c_state_def OpenConnection_def o_db_def)
  then have opened: "c_state\<lparr>mk_db := OpenConnection (mk_db c_state)\<rparr> = c_state" by simp
  obtain f s1 where f: "on_mk_db (addFirstBlock (mk_env (c_maker s_sql) 0) (mk_config c_state) False b) c_state = (f, s1)" by fastforce
  have get: "db_GetBlock (mk_db s1) firstKey \<noteq> None"
  proof -
    have "maker_inv 32 (blk_Hash b) 1 (mk_db s1)"
      using first_block_inv[OF b c_hashes, of "mk_config c_state" "mk_db c_state"] f
        on_mk_db_db(1)[of "addFirstBlock (mk_env (c_maker s_sql) 0) (mk_config c_state) False b" c_state] by simp
    then show ?thesis by (auto simp: maker_inv_def node_inv_def)
  qed
  have "CreateBlockchain 0 (c_maker s_sql) False ''first'' False c_state = bindS (f, s1) (\<lambda>_ s. (Ok (), s))"
    using c_tables[unfolded same] b f by (simp add: CreateBlockchain_def Let_def opened filterTablesForManaged_def)
  then have "s' = s1" using run by (cases f) auto
  moreover have "db_GetBlock (mk_db c_state) firstKey = None" by (simp add: c_state_def db_GetBlock_def)
  ultimately have changed: "\<not> same_store (mk_db s') (OpenConnection (mk_db c_state))"
    using get opened by (auto simp: same_store_def db_GetBlock_def c_state_def o_db_def OpenConnection_def)
  show ?thesis using CreateBlockchain_inv[OF c_hashes _ _ run] changed run b by (auto simp: opened)
qed


text \<open>A peer that sends its rules and its first block, and a node without blocks.\<close>

definition c_codec :: com_codec where
  "c_codec = s_codec\<lparr>dec_response := (\<lambda>c b. case c of ComGetConsensusData \<Rightarrow> Ok (ResponseConsensusData [123, 125])
     | ComGetFirstBlocks \<Rightarrow> Ok (ResponseFirstBlocks \<lparr>cfb_Blocks = [[1, 1]], cfb_Height = 0\<rparr>) | _ \<Rightarrow> Err (ErrNew ''gob''))\<rparr>"

definition c_node_env :: "(unit, string list) node_env" where
  "c_node_env = s_node_env\<lparr>nv_net := \<lparr>ne_codec = c_codec, ne_exchange = (\<lambda>i addr data. Answer [1])\<rparr>,
     nv_unblock := (\<lambda>d. if d = [1, 1] then Ok s_genesis else if d = [2, 2] then Ok s_main else Err (ErrNew ''gob''))\<rparr>"

definition c_node :: "string list node_state" where
  "c_node = s_node\<lparr>nd_db := mk_db c_state\<rparr>"

lemma c_shape: "first_blocks_shape 2 s_heights_of c_node_env"
  by (auto simp: first_blocks_shape_def c_node_env_def block_by_def s_blocks s_heights_of_def zeros_2 split: if_splits)



section \<open>A configuration that is updated\<close>

text \<open>The arguments of \<open>updateconfig\<close>, the input they give and the configuration that is written.\<close>

definition c_given :: "string list" where
  "c_given = [''-configdir'', ''conf'', ''-mysqldb'', ''bc'', ''-port'', ''8765'', ''-minter'', ''1abc'', ''-logs'', ''trace,info'']"

definition c_input :: app_input where
  "c_input = zero_input\<lparr>ai_Command := ''updateconfig'', ai_MinterAddress := ''1abc'', ai_Logs := ''trace,info'', ai_Port := 8765,
     ai_LocalPort := 8765, ai_Host := ''localhost'', ai_ConfigDir := ''conf/'',
     ai_Args := zero_args\<lparr>aa_Port := 8765, aa_LogDestDefault := True, aa_MySQLPort := 3306, aa_MySQLDBName := ''bc''\<rparr>,
     ai_Database := zero_database\<lparr>dc_MysqlHost := ''localhost'', dc_MysqlPort := 3306, dc_DatabaseName := ''bc''\<rparr>,
     ai_ConseususConfigFile := ''conf/consensusconfig.json''\<rparr>"

definition c_app :: app_env where
  "c_app = \<lparr>ae_exe_dir = None, ae_encode = (\<lambda>c. [123, 125]), ae_decode = (\<lambda>b. Ok (updated_config c_input zero_config)),
     ae_float = (\<lambda>s. None)\<rparr>"

definition c_files :: file_system where "c_files = \<lparr>fs_files = [], fs_dirs = [''conf/''], fs_denied = []\<rparr>"
definition c_written :: file_system where "c_written = c_files\<lparr>fs_files := [(''conf/config.json'', [123, 125])]\<rparr>"

lemma c_parsed: "parseConfig c_app (''oursql'' # ''updateconfig'' # c_given) [] c_files = (Ok c_input, c_files)"
  by code_simp

lemma c_updated: "GetConfig c_app c_files c_input = Ok None" "app_UpdateConfig c_app c_input c_files = (Ok (), c_written)"
  by code_simp+


section \<open>Wallets\<close>

text \<open>Keys that are one byte long, and a file of wallets with one record.\<close>

definition c_wallet :: "unit wallet" where "c_wallet = \<lparr>wl_PrivateKey = (), wl_PublicKey = s_key\<rparr>"

definition c_address :: string where "c_address = PubKeyHashToAddres o_crypto o_pkh"

definition c_wallet_env :: "unit wallet_env" where
  "c_wallet_env = \<lparr>we_crypto = o_crypto, we_keys = (\<lambda>n. Ok ((), s_key)), we_marshal = (\<lambda>k. [1]), we_parse = (\<lambda>b. Ok ()),
     we_pem = string_of_bytes, we_unpem = (\<lambda>s. Some (bytes_of_string s)), we_encode = (\<lambda>l. [123, 125]),
     we_decode = (\<lambda>b. Ok [\<lparr>wf_Address = c_address, wf_PubKey = hex_EncodeToString s_key, wf_PrivateKey = string_of_bytes [1]\<rparr>])\<rparr>"

definition c_no_files :: file_system where "c_no_files = \<lparr>fs_files = [], fs_dirs = [], fs_denied = []\<rparr>"

lemma c_created: "CreateWallet 1 c_wallet_env 0 (NewWallets ''conf/'', c_no_files) =
   (Ok c_address, (NewWallets ''conf/'')\<lparr>ws_Wallets := [(c_address, c_wallet)]\<rparr>,
    c_no_files\<lparr>fs_files := [(''conf/wallet.dat'', [123, 125])]\<rparr>)"
  by code_simp


text \<open>A node that prepares a transaction and takes it.\<close>

definition c_wallet_net :: net_env where
  "c_wallet_net = \<lparr>ne_codec = s_codec\<lparr>dec_response := (\<lambda>c b. case c of
       ComRequestTransaction _ \<Rightarrow> Ok (ResponseTransactionData \<lparr>crd_Finished = False, crd_TX = [1], crd_DataToSign = [2]\<rparr>)
     | ComNewTransactionData _ \<Rightarrow> Ok (ResponseTransactionID [3]) | _ \<Rightarrow> Err (ErrNew ''gob''))\<rparr>,
     ne_exchange = (\<lambda>i addr data. Answer [1])\<rparr>"

definition c_wallet_cli :: "unit wallet_cli" where
  "c_wallet_cli = \<lparr>wc_Input = \<lparr>wi_Command = ''send'', wi_Address = c_address, wi_ToAddress = c_address, wi_Amount = ten,
       wi_NodePort = 8766, wi_NodeHost = ''peer'', wi_ConfigDir = ''conf/'', wi_SQL = [], wi_Filepath = []\<rparr>,
     wc_Node = NewNodeAddr ''peer'' 8766, wc_NodeMode = False,
     wc_WalletsObj = Some ((NewWallets ''conf/'')\<lparr>ws_Wallets := [(c_address, c_wallet)]\<rparr>), wc_files = c_no_files,
     wc_NodeCLI = nd_client s_node\<rparr>"


lemma c_sent: "fst (commandSend c_wallet_env c_wallet_net 0 c_wallet_cli) = Ok (OutTransaction [3])"
proof -
  have "\<not> fle ten 0" by (simp add: ten_def fle_def feq_def flt_def s_amounts s_zero dy_less_def dy_align_def)
  moreover have "ValidateAddress o_crypto c_address" by code_simp
  moreover have "CheckNodeAddress (NewNodeAddr ''peer'' 8766) = Ok ()" by code_simp
  moreover have "SignDataByPubKey o_crypto 0 s_key () [2] = Ok (signatureToDER [1] [1])" by code_simp
  ultimately show ?thesis
    by (simp add: commandSend_def checked_address_def c_wallet_cli_def c_wallet_env_def find_wallet_def GetWallet_def NewWallets_def
      c_wallet_def ask_node_def SendRequestNewCurrencyTransaction_def SendNewTransactionData_def sign_and_send_def
      request_command_def BuildCommandData_def GobEncode.simps doBuildCommandData_def c_wallet_net_def s_codec_def
      SendDataWaitResponse_def exchange_def decode_answer_def CommandToBytes_def CommandLength_def command_defs)
qed


section \<open>A daemon\<close>

text \<open>The configuration names a local port of its own, which the command overrides.\<close>

definition c_config :: app_config where
  "c_config = zero_config\<lparr>ac_Minter := ''1abc'', ac_Port := 8765, ac_LocalPort := 8000,
     ac_Database := zero_database\<lparr>dc_DatabaseName := ''bc''\<rparr>\<rparr>"

definition c_start_app :: app_env where
  "c_start_app = c_app\<lparr>ae_decode := (\<lambda>b. Ok c_config)\<rparr>"

definition c_start_files :: file_system where
  "c_start_files = c_files\<lparr>fs_files := [(''conf/config.json'', [123, 125]), (''conf/wallet.dat'', [123, 125])]\<rparr>"

definition c_daemon :: "unit daemon_env" where
  "c_daemon = \<lparr>de_wallets = c_wallet_env\<lparr>we_decode := (\<lambda>b. Ok [\<lparr>wf_Address = ''1abc'',
     wf_PubKey = hex_EncodeToString s_key, wf_PrivateKey = string_of_bytes [1]\<rparr>])\<rparr>, de_exists = (\<lambda>pid. pid = 4711), de_random = ''abcdefghijkl''\<rparr>"

text \<open>The input that the arguments give before the configuration is read, and the daemon that is made in the end.\<close>

definition c_start :: app_input where
  "c_start = zero_input\<lparr>ai_Command := ''startnode'', ai_ConfigDir := ''conf/'', ai_LocalPort := 9000,
     ai_Args := zero_args\<lparr>aa_MySQLPort := 3306\<rparr>\<rparr>"

definition c_node_daemon :: node_daemon where
  "c_node_daemon = \<lparr>dm_Port = 8765, dm_LocalPort = 9000, dm_Host = ''localhost'', dm_ConfigDir = ''conf/'',
     dm_MinterAddress = ''1abc'', dm_DBProxyAddr = [], dm_DBAddr = ''localhost:3306''\<rparr>"

lemma c_start_config: "GetConfig c_start_app c_start_files c_start = Ok (Some c_config)"
  by code_simp

lemma c_start_read:
  "\<exists>i. parseConfig c_start_app [''oursql'', ''startnode'', ''-configdir'', ''conf/'', ''-localport'', ''9000''] [] c_start_files =
     (Ok i, c_start_files) \<and> ai_ConfigDir i = ''conf/'' \<and> daemon_of i = c_node_daemon"
proof -
  have p: "parse_int ''9000'' = Some 9000" by code_simp
  have parsed: "parseConfig c_start_app [''oursql'', ''startnode'', ''-configdir'', ''conf/'', ''-localport'', ''9000''] [] c_start_files =
      configure c_start_app [] c_start c_start_files"
    using p by (simp add: parseConfig_def is_flag_def flag_name_def split_flag_def app_flags_def set_flag_def flag_defaults_def on_args_def
      c_start_def zero_input_def zero_args_def)
  have dir: "complete_dir c_start_app [] c_start = c_start" by (simp add: complete_dir_def c_start_def)
  have n: "CommandNeedsConfig c_start" "\<not> copies c_start"
    by (simp_all add: CommandNeedsConfig_def commandsDoesNotNeedConfig_def copies_def c_start_def zero_args_def)
  have z: "ai_Nodes c_start = []" "ai_Database c_start = zero_database" by (simp_all add: c_start_def zero_input_def)
  have args: "ai_Args c_start = zero_args\<lparr>aa_MySQLPort := 3306\<rparr>" "aa_MySQLHost zero_args = []" "aa_MySQLSocket zero_args = []"
    "aa_MySQLUser zero_args = []" "aa_MySQLPassword zero_args = []" "aa_MySQLDBName zero_args = []" "aa_DBTablesPrefix zero_args = []"
    "aa_Port zero_args = 0" "aa_Host zero_args = []"
    by (simp_all add: c_start_def zero_args_def)
  have fields: "ai_ConfigDir c_start = ''conf/''" "ai_MinterAddress c_start = []" "ai_LocalPort c_start = 9000" "ai_DBProxyAddress c_start = []"
    "ac_Minter c_config = ''1abc''" "ac_Port c_config = 8765" "ac_Host c_config = []" "ac_DBProxyAddress c_config = []"
    by (simp_all add: c_start_def zero_input_def c_config_def zero_config_def)
  have d: "ac_Database c_config = zero_database\<lparr>dc_DatabaseName := ''bc''\<rparr>" by (simp add: c_config_def)
  have db: "ai_Database (with_config (Some c_config) c_start) =
      zero_database\<lparr>dc_MysqlHost := ''localhost'', dc_MysqlPort := 3306, dc_DatabaseName := ''bc''\<rparr>"
    by (simp add: with_config_fields[OF z] config_or_zero_def d completed_database_def zero_database_def args)
  then have "HasMinimum (ai_Database (with_config (Some c_config) c_start))" by (simp add: HasMinimum_def)
  moreover have "ai_ConfigDir c_start \<in> set (fs_dirs c_start_files)" by code_simp
  ultimately obtain i where i: "configure c_start_app [] c_start c_start_files = (Ok i, c_start_files)"
    "i = (complete_input (with_config (Some c_config) c_start))\<lparr>ai_ConseususConfigFile := consensus_path c_start,
       ai_ConseususConfigFilePresent := (tget (fs_files c_start_files) (consensus_path c_start) \<noteq> None)\<rparr>"
    using configure_iff[OF n, of c_start_app "[]" c_start_files] c_start_config by (auto simp: dir)
  have a: "GetServerAddress (zero_database\<lparr>dc_MysqlHost := ''localhost'', dc_MysqlPort := 3306, dc_DatabaseName := ''bc''\<rparr>) =
      ''localhost:3306''" by code_simp
  have "daemon_of i = c_node_daemon" unfolding i(2)
    by (simp add: daemon_of_def c_node_daemon_def complete_fields local_port_fields with_config_same with_config_fields(1-7)[OF z] db
        or_else_def config_or_zero_def args fields a)
  moreover have "ai_ConfigDir i = ''conf/''" by (simp add: i(2) complete_fields with_config_same fields)
  ultimately show ?thesis using i(1) parsed by auto
qed

lemma c_start_fine: "checkArgumentsAreFine c_daemon c_node_daemon c_start_files = Ok ()"
  by code_simp

lemma daemon_process_settings_witness:
  "\<exists>i j. parseConfig c_start_app [''oursql'', ''startnode'', ''-configdir'', ''conf/'', ''-localport'', ''9000''] [] c_start_files =
       (Ok i, c_start_files) \<and>
     parseConfig c_start_app (''oursql'' # daemon_args ''info'' (daemon_of i)) [] c_start_files = (Ok j, c_start_files) \<and>
     ai_LocalPort j = 8000 \<and> dm_LocalPort (daemon_of i) = 9000"
proof -
  obtain i where i: "parseConfig c_start_app [''oursql'', ''startnode'', ''-configdir'', ''conf/'', ''-localport'', ''9000''] []
      c_start_files = (Ok i, c_start_files)" "ai_ConfigDir i = ''conf/''" "daemon_of i = c_node_daemon" using c_start_read by blast
  have "GetConfig c_start_app c_start_files i = GetConfig c_start_app c_start_files c_start"
    by (simp add: GetConfig_def config_path_def i(2) c_start_def)
  then have c: "GetConfig c_start_app c_start_files i = Ok (Some c_config)" by (simp add: c_start_config)
  have f: "dc_DatabaseName (ac_Database c_config) \<noteq> []" "ac_LocalPort c_config = 8000" "dm_LocalPort c_node_daemon = 9000"
    by (simp_all add: c_config_def c_node_daemon_def)
  have dir: "ai_ConfigDir i \<noteq> []" using i(2) by simp
  have "checkArgumentsAreFine c_daemon (daemon_of i) c_start_files = Ok ()" using c_start_fine i(3) by simp
  from daemon_process_settings[OF i(1) dir this c f(1), of "''oursql''" "''info''" "[]"] show ?thesis using i(1,3) f by auto
qed

lemma running_node_found_witness:
  "GetServerState c_daemon ''conf/'' (snd (prepare_interactive c_daemon 4711 c_node_daemon c_start_files)) =
     ((True, 4711, 9000), snd (prepare_interactive c_daemon 4711 c_node_daemon c_start_files))"
proof -
  have "tget (fs_files c_start_files) ''conf/server.pid'' = None" "''conf/server.pid'' \<notin> set (fs_denied c_start_files)" by code_simp+
  then have "fst (prepare_interactive c_daemon 4711 c_node_daemon c_start_files) = Ok ''abcdefghijkl''"
    using c_start_fine
    by (simp add: prepare_interactive_def checkPIDFile_def getServerPidFile_def savePIDFile_def fs_write_def Let_def)
      (simp add: c_node_daemon_def c_daemon_def)
  then obtain fs where run: "prepare_interactive c_daemon 4711 c_node_daemon c_start_files = (Ok ''abcdefghijkl'', fs)"
    by (cases "prepare_interactive c_daemon 4711 c_node_daemon c_start_files") simp
  have "de_exists c_daemon 4711" "CHR '' '' \<notin> set (de_random c_daemon)" by (simp_all add: c_daemon_def)
  moreover have "dm_LocalPort c_node_daemon = 9000" "dm_ConfigDir c_node_daemon = ''conf/''" by (simp_all add: c_node_daemon_def)
  ultimately show ?thesis using running_node_found[OF run] run by (simp add: in64_def)
qed

end
