(* ===== verification/Node_Cli.thy ===== *)
theory Node_Cli
  imports Server_Safety Node_Create Node_Daemon
begin

text \<open>
  \<^verbatim>\<open>node/nodecli.go\<close> and \<^verbatim>\<open>node/main.go\<close>: the commands of a node's command line. A command works on the database of
  the node itself, or, when a server runs, some are sent to it or to the wallet client. What a command prints is a value.
  The theory shows which commands are refused, and that no command line but \<^verbatim>\<open>dropblock\<close> loses a block of an existing
  block chain (\<open>command_line_keeps_chain\<close>).
\<close>

section \<open>The state of the command line\<close>

text \<open>
  What the process runs with: besides the environments of the other parts, the JSON codec of the rules, whether
  MySQL finds a table to be there when it is created, random numbers, the clock, and what belongs to packages outside the
  repository: \<^verbatim>\<open>mysqldump\<close>, and what MySQL makes of the text of a whole dump.
\<close>

record ('k, 'm) cli_env =
  ce_app :: app_env
  ce_daemon :: "'k daemon_env"
  ce_node :: "('k, 'm) node_env"
  ce_maker :: "('k, 'm) maker_env"
  ce_json :: "consensus_config \<Rightarrow> bytes"
  ce_unjson :: "bytes \<Rightarrow> consensus_config \<Rightarrow> consensus_config res"
  ce_created :: bool
  ce_intn :: "nat \<Rightarrow> nat"
  ce_range :: "nat list"
  ce_now :: int
  ce_keys :: nat
  ce_fuel :: nat
  ce_pid :: int
  ce_process :: "int option"
  ce_seen :: "file_system \<Rightarrow> nat \<Rightarrow> file_system"
  ce_mysqldump :: "'m node_db \<Rightarrow> string \<Rightarrow> file_system \<Rightarrow> unit res \<times> file_system"
  ce_statements :: "string \<Rightarrow> 'm node_db \<Rightarrow> unit res \<times> 'm node_db"

text \<open>\<open>nc_ready\<close>: the node was created. Before that \<open>nc_node\<close> holds what the process finds: the database and what was sent.\<close>

record ('k, 'm) node_cli =
  nc_Input :: app_input
  nc_AlreadyRunningPort :: int
  nc_NodeAuthStr :: string
  nc_files :: file_system
  nc_ready :: bool
  nc_node :: "'m node_state"
  nc_config :: consensus_config
  nc_minter :: string
  nc_ProxyPubKey :: bytes
  nc_ProxyPrivateKey :: 'k

datatype cli_output =
    CliDone
  | CliFirstPart
  | CliWallet wallet_output
  | CliBlocks "block list"
  | CliPool "transaction list"
  | CliBalances "(string \<times> float64 \<times> float64 \<times> float64) list"
  | CliBalance "float64 \<times> float64 \<times> float64"
  | CliHistory "transactions_history list"
  | CliUnspent "(string \<times> float64 \<times> bytes \<times> int \<times> bool) list" float64
  | CliTransaction "bytes option"
  | CliReindexed nat
  | CliMade "bytes option"
  | CliLastBlock block
  | CliState "(int \<times> int) option" com_state
  | CliNodes "node_addr list"
  | CliServer node_daemon string
  | CliStopped "int option"

definition node_env_of :: "('k, 'm) cli_env \<Rightarrow> ('k, 'm) node_cli \<Rightarrow> ('k, 'm) node_env" where
  "node_env_of e c =
     (ce_node e)\<lparr>nv_qm := \<lparr>qm_pubKey = nc_ProxyPubKey c, qm_privKey = nc_ProxyPrivateKey c, qm_config = nc_config c\<rparr>,
                 nv_minter := nc_minter c\<rparr>"

definition at_node ::
  "('m node_state \<Rightarrow> 'a res \<times> 'm node_state) \<Rightarrow> ('k, 'm) node_cli \<Rightarrow> 'a res \<times> ('k, 'm) node_cli" where
  "at_node f c = (let (r, s) = f (nc_node c) in (r, c\<lparr>nc_node := s\<rparr>))"

definition at_files ::
  "(file_system \<Rightarrow> 'a res \<times> file_system) \<Rightarrow> ('k, 'm) node_cli \<Rightarrow> 'a res \<times> ('k, 'm) node_cli" where
  "at_files f c = (let (r, fs) = f (nc_files c) in (r, c\<lparr>nc_files := fs\<rparr>))"

text \<open>The environment of the manager of transactions now.\<close>

definition cli_txm :: "('k, 'm) cli_env \<Rightarrow> ('k, 'm) node_cli \<Rightarrow> ('k, 'm) txm_env" where
  "cli_txm e c = txm_of (nc_config c) (env_at (node_env_of e c) (nc_node c))"

section \<open>Wallets of the command line\<close>

text \<open>The client of wallets sends over a connection of its own; what it sends is counted with what the node sends.\<close>

definition getWalletsCLI :: "('k, 'm) cli_env \<Rightarrow> ('k, 'm) node_cli \<Rightarrow> 'k wallet_cli" where
  "getWalletsCLI e c =
     (let i = nc_Input c; a = ai_Args i;
          winput = \<lparr>wi_Command = ai_Command i, wi_Address = if aa_From a \<noteq> [] then aa_From a else aa_Address a,
                    wi_ToAddress = aa_To a, wi_Amount = aa_Amount a,
                    wi_NodePort = if nc_AlreadyRunningPort c > 0 then nc_AlreadyRunningPort c else ai_LocalPort i,
                    wi_NodeHost = ''localhost'', wi_ConfigDir = ai_ConfigDir i, wi_SQL = aa_SQL a, wi_Filepath = aa_FilePath a\<rparr>
      in (WalletCLI_Init (de_wallets (ce_daemon e)) winput
            \<lparr>wc_Input = winput, wc_Node = emptyNodeAddr, wc_NodeMode = False, wc_WalletsObj = None, wc_files = nc_files c,
             wc_NodeCLI = \<lparr>cl_NodeAddress = emptyNodeAddr, cl_NodeAuthStr = [], cl_sent = cl_sent (nd_client (nc_node c))\<rparr>\<rparr>)
         \<lparr>wc_NodeMode := True\<rparr>)"

definition local_wallets :: "('k, 'm) cli_env \<Rightarrow> ('k, 'm) node_cli \<Rightarrow> 'k wallets res" where
  "local_wallets e c = (case wc_WalletsObj (getWalletsCLI e c) of None \<Rightarrow> Panic | Some ws \<Rightarrow> Ok ws)"

definition local_wallet :: "('k, 'm) cli_env \<Rightarrow> ('k, 'm) node_cli \<Rightarrow> string \<Rightarrow> 'k wallet res" where
  "local_wallet e c address = bindR (local_wallets e c) (\<lambda>ws. GetWallet ws address)"

definition setNodeProxyKeys :: "('k, 'm) cli_env \<Rightarrow> ('k, 'm) node_cli \<Rightarrow> unit res \<times> ('k, 'm) node_cli" where
  "setNodeProxyKeys e c =
     (let c = c\<lparr>nc_ProxyPubKey := []\<rparr>
      in if ai_ProxyKey (nc_Input c) = [] then (Ok (), c)
         else try_step (local_wallet e c (ai_ProxyKey (nc_Input c)), c) (\<lambda>c. (Ok (), c)) (\<lambda>w c.
                (Ok (), c\<lparr>nc_ProxyPubKey := wl_PublicKey w, nc_ProxyPrivateKey := wl_PrivateKey w\<rparr>)))"

definition forwardCommandToWallet :: "('k, 'm) cli_env \<Rightarrow> ('k, 'm) node_cli \<Rightarrow> cli_output res \<times> ('k, 'm) node_cli" where
  "forwardCommandToWallet e c =
     (let (r, wc) = wallet_ExecuteCommand (ce_fuel e) (de_wallets (ce_daemon e)) (nv_net (ce_node e)) (ce_keys e)
                      (sign_at (ce_node e) (nc_node c)) (getWalletsCLI e c);
          s = nc_node c
      in (bindR r (\<lambda>x. Ok (CliWallet x)),
          c\<lparr>nc_files := wc_files wc, nc_node := s\<lparr>nd_client := (nd_client s)\<lparr>cl_sent := cl_sent (wc_NodeCLI wc)\<rparr>\<rparr>\<rparr>))"

text \<open>The client of the node with the address of the running server; the address of the node's own client stays.\<close>

definition at_local_client :: "(client \<Rightarrow> 'a res \<times> client) \<Rightarrow> ('k, 'm) node_cli \<Rightarrow> 'a res \<times> ('k, 'm) node_cli" where
  "at_local_client f c =
     (let s = nc_node c; nc = nd_client s;
          (r, cl) = f (nc\<lparr>cl_NodeAddress := (cl_NodeAddress nc)\<lparr>na_Port := nc_AlreadyRunningPort c, na_Host := ''localhost''\<rparr>\<rparr>)
      in (r, c\<lparr>nc_node := s\<lparr>nd_client := nc\<lparr>cl_sent := cl_sent cl\<rparr>\<rparr>\<rparr>))"

section \<open>The node\<close>

definition NewConfigFromFile :: "('k, 'm) cli_env \<Rightarrow> file_system \<Rightarrow> string \<Rightarrow> consensus_config res" where
  "NewConfigFromFile e fs filepath =
     bindR (fs_open fs filepath) (\<lambda>file.
       case file of
         None \<Rightarrow> Err (ErrNew ''no such file or directory'')
       | Some b \<Rightarrow> bindR (cc_load (ce_unjson e) b empty_config) (\<lambda>cc.
           Ok (cc\<lparr>cfg_isDefault := False, cfg_filePath := filepath\<rparr>)))"

text \<open>\<^verbatim>\<open>Node.Init\<close> with an empty list of nodes, and then the nodes of the input, or those stored when it has none.\<close>

definition init_node :: "node_addr list \<Rightarrow> string \<Rightarrow> 'm node_state \<Rightarrow> 'm node_state" where
  "init_node nodes authstr s =
     InitNodes nodes False
       \<lparr>nd_db = OpenConnection (nd_db s),
        nd_net = SetNodes [] True \<lparr>nn_Nodes = [], nn_hadInputConnects = False, nn_hadRecentInputConnects = False,
                                   nn_Storage = nn_Storage (nd_net s)\<rparr>,
        nd_client = \<lparr>cl_NodeAddress = emptyNodeAddr, cl_NodeAuthStr = authstr, cl_sent = cl_sent (nd_client s)\<rparr>\<rparr>"

definition CreateNode :: "('k, 'm) cli_env \<Rightarrow> ('k, 'm) node_cli \<Rightarrow> unit res \<times> ('k, 'm) node_cli" where
  "CreateNode e c =
     (if nc_ready c then (Ok (), c)
      else
        let i = nc_Input c
        in bindS (if ai_ConseususConfigFilePresent i then NewConfigFromFile e (nc_files c) (ai_ConseususConfigFile i)
                  else Ok NewConfigDefault, c) (\<lambda>cc c.
             setNodeProxyKeys e
               (c\<lparr>nc_ready := True, nc_config := cc\<lparr>cfg_filePath := ai_ConseususConfigFile i\<rparr>, nc_minter := ai_MinterAddress i,
                  nc_node := init_node (ai_Nodes i) (nc_NodeAuthStr c) (nc_node c)\<rparr>)))"

definition getNodeCLI ::
  "app_input \<Rightarrow> file_system \<Rightarrow> 'k \<Rightarrow> 'm node_state \<Rightarrow> ('k, 'm) node_cli" where
  "getNodeCLI input fs nokey found =
     (let (port, authstr) = GetRunningProcessInfo (ai_ConfigDir input) fs
      in \<lparr>nc_Input = input, nc_AlreadyRunningPort = port, nc_NodeAuthStr = authstr, nc_files = fs, nc_ready = False,
          nc_node = found, nc_config = NewConfigDefault, nc_minter = [], nc_ProxyPubKey = [], nc_ProxyPrivateKey = nokey\<rparr>)"

text \<open>An error of \<^verbatim>\<open>CreateNode\<close> is dropped, and then the rules of a node that is not there are asked for.\<close>

definition getApplicationName :: "('k, 'm) cli_env \<Rightarrow> ('k, 'm) node_cli \<Rightarrow> string res \<times> ('k, 'm) node_cli" where
  "getApplicationName e c =
     ignoreS (CreateNode e c) (\<lambda>c. if nc_ready c then (Ok (cfg_AppName (nc_config c)), c) else (Panic, c))"

section \<open>Starting a block chain\<close>

definition update_config :: "('k, 'm) cli_env \<Rightarrow> ('k, 'm) node_cli \<Rightarrow> unit res \<times> ('k, 'm) node_cli" where
  "update_config e c = at_files (app_UpdateConfig (ce_app e) (nc_Input c)) c"

definition commandInitBlockchain :: "('k, 'm) cli_env \<Rightarrow> ('k, 'm) node_cli \<Rightarrow> cli_output res \<times> ('k, 'm) node_cli" where
  "commandInitBlockchain e c =
     bindS (local_wallet e c (ai_MinterAddress (nc_Input c)), c) (\<lambda>walletobj c.
     bindS (let (r, s) = node_CreateBlockchain (ce_fuel e) (ce_maker e) (ce_created e) (ai_MinterAddress (nc_Input c))
                           (wl_PublicKey walletobj) (wl_PrivateKey walletobj)
                           \<lparr>mk_config = nc_config c, mk_db = nd_db (nc_node c)\<rparr>
            in (r, c\<lparr>nc_config := mk_config s, nc_node := (nc_node c)\<lparr>nd_db := mk_db s\<rparr>\<rparr>)) (\<lambda>_ c.
     ignoreS (update_config e c) (\<lambda>c. (Ok CliDone, c))))"

definition GetRandomInitialAddress :: "(nat \<Rightarrow> nat) \<Rightarrow> consensus_config \<Rightarrow> node_addr option" where
  "GetRandomInitialAddress intn cc =
     (let addresses = cfg_InitNodesAddreses cc
      in if length addresses = 0 then None
         else Some (snd (LoadFromString emptyNodeAddr (addresses ! intn (length addresses)))))"

text \<open>
  The files after an import: the rules that the other node sends are written to the file of rules when they can be read,
  whatever happens after that.
\<close>

definition imported_rules :: "('k, 'm) cli_env \<Rightarrow> string \<Rightarrow> int \<Rightarrow> ('k, 'm) node_cli \<Rightarrow> file_system" where
  "imported_rules e host port c =
     (let s = nc_node c; fs = nc_files c; cc = nc_config c
      in case bindS (pick_other (ce_intn e) host port (nn_Nodes (nd_net s)), s) (\<lambda>addr s.
                bindS (CheckConnection (te_sql (env_at (ce_node e) s)) (OpenConnection (nd_db s)), s) (\<lambda>_ s.
                  on_client (SendGetConsensusData (nv_net (ce_node e)) addr) s)) of
           (Ok jsondoc, _) \<Rightarrow>
             (if cfg_filePath cc = [] then fs
              else case cc_load (ce_unjson e) jsondoc empty_config of
                     Ok _ \<Rightarrow> snd (fs_write fs (cfg_filePath cc) jsondoc) | _ \<Rightarrow> fs)
         | _ \<Rightarrow> fs)"

definition commandImportBlockchain :: "('k, 'm) cli_env \<Rightarrow> ('k, 'm) node_cli \<Rightarrow> cli_output res \<times> ('k, 'm) node_cli" where
  "commandImportBlockchain e c =
     bindS
       (let a = ai_Args (nc_Input c)
        in if aa_NodePort a = 0 \<or> aa_NodeHost a = [] then
             (case GetRandomInitialAddress (ce_intn e) (nc_config c) of
                None \<Rightarrow> (Err (ErrNew ''No address to import from''), c)
              | Some addr \<Rightarrow>
                  (Ok (), c\<lparr>nc_Input := on_args (\<lambda>a. a\<lparr>aa_NodePort := na_Port addr, aa_NodeHost := na_Host addr\<rparr>) (nc_Input c)\<rparr>))
           else (Ok (), c)) (\<lambda>_ c.
       let host = aa_NodeHost (ai_Args (nc_Input c)); port = aa_NodePort (ai_Args (nc_Input c));
           written = fst (fs_write (nc_files c) (cfg_filePath (nc_config c)) []); fs = imported_rules e host port c
       in bindS (at_node (node_InitBlockchainFromOther (node_env_of e c) (ce_unjson e) written (ce_created e) (ce_intn e)
                            host port (nc_config c)) (c\<lparr>nc_files := fs\<rparr>)) (\<lambda>(alldone, cc) c.
          ignoreS (update_config e (c\<lparr>nc_config := cc\<rparr>)) (\<lambda>c. (Ok (if alldone then CliDone else CliFirstPart), c))))"

text \<open>\<^verbatim>\<open>Restore\<close> opens a connection of its own.\<close>

definition db_Restore :: "('k, 'm) cli_env \<Rightarrow> string \<Rightarrow> ('k, 'm) node_cli \<Rightarrow> unit res \<times> ('k, 'm) node_cli" where
  "db_Restore e file c =
     bindS (fs_open (nc_files c) file, c) (\<lambda>contents c.
       case contents of
         None \<Rightarrow> (Err (ErrNew ''no such file or directory''), c)
       | Some b \<Rightarrow> at_node (on_db (ce_statements e (string_of_bytes b))) c)"

definition commandRestoreBlockchain :: "('k, 'm) cli_env \<Rightarrow> ('k, 'm) node_cli \<Rightarrow> cli_output res \<times> ('k, 'm) node_cli" where
  "commandRestoreBlockchain e c =
     (if aa_DumpFile (ai_Args (nc_Input c)) = [] then (Err (ErrNew ''Dump file name required''), c)
      else bindS (db_Restore e (aa_DumpFile (ai_Args (nc_Input c))) c) (\<lambda>_ c.
           ignoreS (update_config e c) (\<lambda>c. (Ok CliDone, c))))"

definition strip_sql :: "string \<Rightarrow> string" where
  "strip_sql file = (if drop (length file - 4) file = ''.sql'' then take (length file - 4) file else file)"

definition commandDumpBlockchain :: "('k, 'm) cli_env \<Rightarrow> ('k, 'm) node_cli \<Rightarrow> cli_output res \<times> ('k, 'm) node_cli" where
  "commandDumpBlockchain e c =
     (if aa_DumpFile (ai_Args (nc_Input c)) = [] then (Err (ErrNew ''Dump file name required''), c)
      else
        bindS (getConnection (nd_db (nc_node c)), c) (\<lambda>_ c.
        bindS (at_files (ce_mysqldump e (nd_db (nc_node c)) (strip_sql (aa_DumpFile (ai_Args (nc_Input c))))) c) (\<lambda>_ c.
          (Ok CliDone, c))))"


section \<open>Blocks and transactions\<close>

text \<open>The result of pulling is dropped.\<close>

definition commandPullUpdates :: "('k, 'm) cli_env \<Rightarrow> ('k, 'm) node_cli \<Rightarrow> cli_output res \<times> ('k, 'm) node_cli" where
  "commandPullUpdates e c =
     ignoreS (at_node (CheckForChangesOnOtherNodes (node_env_of e c) (ce_range e) (ce_now e - 3600)) c) (\<lambda>c. (Ok CliDone, c))"

text \<open>The blocks are printed from the top down; the view \<open>shortr\<close> turns them around.\<close>

definition commandPrintChain :: "('k, 'm) cli_env \<Rightarrow> ('k, 'm) node_cli \<Rightarrow> cli_output res \<times> ('k, 'm) node_cli" where
  "commandPrintChain e c =
     (let db = nd_db (nc_node c)
      in bindS (bindR (NewBlockchainIterator db) (\<lambda>h.
                  walk (walk_fuel db) (iter_Next db) h (\<lambda>b blocks.
                    if length (blk_PrevBlockHash b) = 0 then Ok (Inl (blocks @ [b])) else Ok (Inr (blocks @ [b]))) []), c)
           (\<lambda>blocks c. (Ok (CliBlocks (if aa_View (ai_Args (nc_Input c)) = ''shortr'' then rev blocks else blocks)), c)))"

text \<open>
  What the callback of \<^verbatim>\<open>forEachUnapprovedTransaction\<close> is called with. The command drops the error; what was printed before
  it is left out then.
\<close>

definition forEachUnapprovedTransaction :: "'m node_db \<Rightarrow> transaction list res" where
  "forEachUnapprovedTransaction db =
     bindR (getConnection db) (\<lambda>_. forEachTransaction db (\<lambda>tx txs. Ok (False, txs @ [tx])) [])"

definition commandUnapprovedTransactions ::
  "('k, 'm) cli_env \<Rightarrow> ('k, 'm) node_cli \<Rightarrow> cli_output res \<times> ('k, 'm) node_cli" where
  "commandUnapprovedTransactions e c =
     (if aa_Clean (ai_Args (nc_Input c)) then
        bindS (at_node (on_db CleanUnapprovedCache) c) (\<lambda>_ c. (Ok CliDone, c))
      else
        try_step (at_node (on_db (\<lambda>db. let db = open_pool db in (forEachUnapprovedTransaction db, db))) c)
          (\<lambda>c. (Ok (CliPool []), c)) (\<lambda>txs c. (Ok (CliPool txs), c)))"

text \<open>A balance for each wallet, in the order of the wallets.\<close>

fun wallet_balances ::
  "('k, 'm) txm_env \<Rightarrow> string list \<Rightarrow> (string \<times> float64 \<times> float64 \<times> float64) list \<Rightarrow> 'm node_db
     \<Rightarrow> (string \<times> float64 \<times> float64 \<times> float64) list res \<times> 'm node_db" where
  "wallet_balances te [] acc db = (Ok acc, db)"
| "wallet_balances te (address # addresses) acc db =
     bindS (txm_GetAddressBalance te address db) (\<lambda>balance db. wallet_balances te addresses (acc @ [(address, balance)]) db)"

definition commandAddressesBalance :: "('k, 'm) cli_env \<Rightarrow> ('k, 'm) node_cli \<Rightarrow> cli_output res \<times> ('k, 'm) node_cli" where
  "commandAddressesBalance e c =
     (if nc_AlreadyRunningPort c > 0 then forwardCommandToWallet e c
      else
        bindS (local_wallets e c, c) (\<lambda>ws c.
        bindS (at_node (on_db (wallet_balances (cli_txm e c) (GetAddresses ws) [])) c) (\<lambda>bs c. (Ok (CliBalances bs), c))))"

definition commandAddressHistory :: "('k, 'm) cli_env \<Rightarrow> ('k, 'm) node_cli \<Rightarrow> cli_output res \<times> ('k, 'm) node_cli" where
  "commandAddressHistory e c =
     (if nc_AlreadyRunningPort c > 0
      then forwardCommandToWallet e (c\<lparr>nc_Input := (nc_Input c)\<lparr>ai_Command := ''showhistory''\<rparr>\<rparr>)
      else bindS (nbc_GetAddressHistory (te_crypto (cli_txm e c)) (nd_db (nc_node c)) (aa_Address (ai_Args (nc_Input c))), c)
             (\<lambda>recs c. (Ok (CliHistory recs), c)))"

definition commandShowUnspent :: "('k, 'm) cli_env \<Rightarrow> ('k, 'm) node_cli \<Rightarrow> cli_output res \<times> ('k, 'm) node_cli" where
  "commandShowUnspent e c =
     (if nc_AlreadyRunningPort c > 0 then forwardCommandToWallet e c
      else bindS (forEachUnspentOutput (te_crypto (cli_txm e c)) (nd_db (nc_node c)) (aa_Address (ai_Args (nc_Input c))), c)
             (\<lambda>outs c. (Ok (CliUnspent outs (foldl (\<lambda>balance (_, v, _). fadd balance v) 0 outs)), c)))"

definition cli_commandGetBalance :: "('k, 'm) cli_env \<Rightarrow> ('k, 'm) node_cli \<Rightarrow> cli_output res \<times> ('k, 'm) node_cli" where
  "cli_commandGetBalance e c =
     (if nc_AlreadyRunningPort c > 0 then forwardCommandToWallet e c
      else bindS (at_node (on_db (txm_GetAddressBalance (cli_txm e c) (aa_Address (ai_Args (nc_Input c))))) c)
             (\<lambda>b c. (Ok (CliBalance b), c)))"

definition cli_commandSend :: "('k, 'm) cli_env \<Rightarrow> ('k, 'm) node_cli \<Rightarrow> cli_output res \<times> ('k, 'm) node_cli" where
  "cli_commandSend e c =
     (if nc_AlreadyRunningPort c > 0 then forwardCommandToWallet e c
      else
        bindS (local_wallet e c (aa_From (ai_Args (nc_Input c))), c) (\<lambda>w c.
        bindS (at_node (node_Send (node_env_of e c) (wl_PublicKey w) (wl_PrivateKey w) (aa_To (ai_Args (nc_Input c)))
                          (aa_Amount (ai_Args (nc_Input c)))) c) (\<lambda>txid c. (Ok (CliTransaction (Some txid)), c))))"

definition cli_commandSQL :: "('k, 'm) cli_env \<Rightarrow> ('k, 'm) node_cli \<Rightarrow> cli_output res \<times> ('k, 'm) node_cli" where
  "cli_commandSQL e c =
     (if nc_AlreadyRunningPort c > 0 then forwardCommandToWallet e c
      else
        bindS (local_wallet e c (aa_From (ai_Args (nc_Input c))), c) (\<lambda>w c.
        bindS (at_node (SQLTransaction (node_env_of e c) (wl_PublicKey w) (wl_PrivateKey w) (aa_SQL (ai_Args (nc_Input c)))) c)
          (\<lambda>txid c. (Ok (CliTransaction txid), c))))"

definition commandReindexCache :: "('k, 'm) cli_env \<Rightarrow> ('k, 'm) node_cli \<Rightarrow> cli_output res \<times> ('k, 'm) node_cli" where
  "commandReindexCache e c =
     bindS (at_node (on_db (txm_ReindexData (cli_txm e c))) c) (\<lambda>info c. (Ok (CliReindexed info), c))"

definition commandMakeBlock :: "('k, 'm) cli_env \<Rightarrow> ('k, 'm) node_cli \<Rightarrow> cli_output res \<times> ('k, 'm) node_cli" where
  "commandMakeBlock e c =
     bindS (at_node (TryToMakeBlock (node_env_of e c) None []) c) (\<lambda>b c. (Ok (CliMade b), c))"

definition commandCancelTransaction :: "('k, 'm) cli_env \<Rightarrow> ('k, 'm) node_cli \<Rightarrow> cli_output res \<times> ('k, 'm) node_cli" where
  "commandCancelTransaction e c =
     bindS (hex_DecodeString (aa_Transaction (ai_Args (nc_Input c))), c) (\<lambda>txID c.
     bindS (at_node (on_db (CancelTransaction (cli_txm e c) txID True)) c) (\<lambda>_ c. (Ok CliDone, c)))"

definition commandDropBlock :: "('k, 'm) cli_env \<Rightarrow> ('k, 'm) node_cli \<Rightarrow> cli_output res \<times> ('k, 'm) node_cli" where
  "commandDropBlock e c =
     bindS (at_node (\<lambda>s. on_db (DropBlock (env_at (node_env_of e c) s) (nv_qm (node_env_of e c))) s) c) (\<lambda>_ c.
     bindS (NewBlockchainIterator (nd_db (nc_node c)), c) (\<lambda>h c.
       try_step (iter_Next (nd_db (nc_node c)) h, c) (\<lambda>c. (Err (ErrNew ''This was last block!''), c))
         (\<lambda>(b, _) c. (Ok (CliLastBlock b), c))))"

section \<open>State of the server and known nodes\<close>

definition state_of_node :: "'m node_state \<Rightarrow> com_state res \<times> 'm node_state" where
  "state_of_node s =
     bindS (on_db GetNodeState s) (\<lambda>(n, txs, outs) s.
       (Ok \<lparr>cs_Host = [], cs_BlocksNumber = n, cs_ExpectingBlocksHeight = 0, cs_TransactionsCached = txs, cs_UnspentOutputs = outs\<rparr>, s))"

definition commandShowState :: "('k, 'm) cli_env \<Rightarrow> ('k, 'm) node_cli \<Rightarrow> cli_output res \<times> ('k, 'm) node_cli" where
  "commandShowState e c =
     (let ((Running, ProcessID, Port), fs) = GetServerState (ce_daemon e) (ai_ConfigDir (nc_Input c)) (nc_files c);
          c = c\<lparr>nc_files := fs\<rparr>
      in if Running then
           bindS (at_local_client (SendGetState (nv_net (ce_node e))) c) (\<lambda>info c. (Ok (CliState (Some (ProcessID, Port)) info), c))
         else bindS (at_node state_of_node c) (\<lambda>info c. (Ok (CliState None info), c)))"

definition commandShowNodes :: "('k, 'm) cli_env \<Rightarrow> ('k, 'm) node_cli \<Rightarrow> cli_output res \<times> ('k, 'm) node_cli" where
  "commandShowNodes e c =
     bindS (if nc_AlreadyRunningPort c > 0 then at_local_client (SendGetNodes (nv_net (ce_node e))) c
            else (Ok (nn_Nodes (nd_net (nc_node c))), c)) (\<lambda>nodes c. (Ok (CliNodes nodes), c))"

definition given_node :: "('k, 'm) node_cli \<Rightarrow> node_addr" where
  "given_node c = NewNodeAddr (aa_NodeHost (ai_Args (nc_Input c))) (aa_NodePort (ai_Args (nc_Input c)))"

definition commandAddNode :: "('k, 'm) cli_env \<Rightarrow> ('k, 'm) node_cli \<Rightarrow> cli_output res \<times> ('k, 'm) node_cli" where
  "commandAddNode e c =
     bindS (if nc_AlreadyRunningPort c > 0 then at_local_client (SendAddNode (nv_net (ce_node e)) (given_node c)) c
            else at_node (node_AddNodeToKnown (node_env_of e c) (given_node c) False) c) (\<lambda>_ c. (Ok CliDone, c))"

definition commandRemoveNode :: "('k, 'm) cli_env \<Rightarrow> ('k, 'm) node_cli \<Rightarrow> cli_output res \<times> ('k, 'm) node_cli" where
  "commandRemoveNode e c =
     bindS (if nc_AlreadyRunningPort c > 0 then at_local_client (SendRemoveNode (nv_net (ce_node e)) (given_node c)) c
            else at_node (\<lambda>s. (Ok (), s\<lparr>nd_net := RemoveNodeFromKnown (given_node c) (nd_net s)\<rparr>)) c) (\<lambda>_ c. (Ok CliDone, c))"

definition commandExportConsensusConfig ::
  "('k, 'm) cli_env \<Rightarrow> ('k, 'm) node_cli \<Rightarrow> cli_output res \<times> ('k, 'm) node_cli" where
  "commandExportConsensusConfig e c =
     (let i = nc_Input c; a = ai_Args i; own = NodeAddrToString (NewNodeAddr (ai_Host i) (ai_Port i))
      in if ai_Port i = 0 \<and> (aa_DefaultAddresses a = [] \<or> aa_DefaultAddresses a = ''own'') \<and>
            length (cfg_InitNodesAddreses (nc_config c)) = 0 then
           (Err (ErrNew ''No known address to use as a default. Set network address for this node first''), c)
         else if aa_DestinationFile a = [] then (Err (ErrNew ''Destination file path missed''), c)
         else
           bindS (Export (nc_config c) (aa_DefaultAddresses a) (aa_AppName a) own, c) (\<lambda>cc c.
           bindS (at_files (\<lambda>fs. fs_write fs (aa_DestinationFile a) (ce_json e cc)) c) (\<lambda>_ c. (Ok CliDone, c))))"

section \<open>Which commands run\<close>

definition allowWithoutBCReady :: "string list" where
  "allowWithoutBCReady =
     [''initblockchain'', ''importblockchain'', ''interactiveautocreate'', ''restoreblockchain'', ''createwallet'', ''importwallet'',
      ''exportwallet'', ''listaddresses'', ''nodestate'']"

definition disableWithBCReady :: "string list" where
  "disableWithBCReady = [''initblockchain'', ''initblockchain'', ''importblockchain'', ''importandstart'', ''restoreblockchain'']"

definition commandsInteractiveMode :: "string list" where
  "commandsInteractiveMode =
     [''initblockchain'', ''importblockchain'', ''restoreblockchain'', ''dumpblockchain'', ''exportconsensusconfig'', ''pullupdates'',
      ''printchain'', ''makeblock'', ''reindexcache'', ''send'', ''sql'', ''getbalance'', ''getbalances'', ''createwallet'', ''importwallet'',
      ''exportwallet'', ''listaddresses'', ''unapprovedtransactions'', ''mineblock'', ''canceltransaction'', ''dropblock'', ''addrhistory'',
      ''showunspent'', ''shownodes'', ''addnode'', ''removenode'']"

definition commandNodeManageMode :: "string list" where
  "commandNodeManageMode =
     [''interactiveautocreate'', ''importandstart'', ''startnode'', ''startintnode'', ''stopnode'', ''daemonnode'', ''nodestate'']"

definition cli_command :: "('k, 'm) node_cli \<Rightarrow> string" where
  "cli_command c = ai_Command (nc_Input c)"

definition isInteractiveMode :: "('k, 'm) node_cli \<Rightarrow> bool" where
  "isInteractiveMode c = StringInSlice (cli_command c) commandsInteractiveMode"

definition isNodeManageMode :: "('k, 'm) node_cli \<Rightarrow> bool" where
  "isNodeManageMode c = StringInSlice (cli_command c) commandNodeManageMode"

definition run_command :: "string \<Rightarrow> ('k, 'm) cli_env \<Rightarrow> ('k, 'm) node_cli \<Rightarrow> cli_output res \<times> ('k, 'm) node_cli" where
  "run_command cmd e c =
     (if cmd = ''initblockchain'' then commandInitBlockchain e c
      else if cmd = ''importblockchain'' then commandImportBlockchain e c
      else if cmd = ''restoreblockchain'' then commandRestoreBlockchain e c
      else if cmd = ''dumpblockchain'' then commandDumpBlockchain e c
      else if cmd = ''exportconsensusconfig'' then commandExportConsensusConfig e c
      else if cmd = ''pullupdates'' then commandPullUpdates e c
      else if cmd = ''printchain'' then commandPrintChain e c
      else if cmd = ''reindexcache'' then commandReindexCache e c
      else if cmd = ''getbalance'' then cli_commandGetBalance e c
      else if cmd = ''getbalances'' then commandAddressesBalance e c
      else if cmd \<in> {''listaddresses'', ''createwallet'', ''importwallet'', ''exportwallet''} then forwardCommandToWallet e c
      else if cmd = ''send'' then cli_commandSend e c
      else if cmd = ''sql'' then cli_commandSQL e c
      else if cmd = ''unapprovedtransactions'' then commandUnapprovedTransactions e c
      else if cmd = ''makeblock'' then commandMakeBlock e c
      else if cmd = ''dropblock'' then commandDropBlock e c
      else if cmd = ''canceltransaction'' then commandCancelTransaction e c
      else if cmd = ''addrhistory'' then commandAddressHistory e c
      else if cmd = ''showunspent'' then commandShowUnspent e c
      else if cmd = ''shownodes'' then commandShowNodes e c
      else if cmd = ''addnode'' then commandAddNode e c
      else if cmd = ''removenode'' then commandRemoveNode e c
      else (Err (ErrNew ''Unknown management command''), c))"

definition ExecuteCommand :: "('k, 'm) cli_env \<Rightarrow> ('k, 'm) node_cli \<Rightarrow> cli_output res \<times> ('k, 'm) node_cli" where
  "ExecuteCommand e c =
     bindS (CreateNode e c) (\<lambda>_ c.
       let bcexists = BlockchainExist (nd_db (nc_node c))
       in if \<not> StringInSlice (cli_command c) allowWithoutBCReady \<and> \<not> bcexists then
            (Err (ErrNew ''Blockchain is not found. Must be created or inited''), c)
          else if bcexists \<and> StringInSlice (cli_command c) disableWithBCReady then (Err (ErrNew ''Blockchain already exists''), c)
          else run_command (cli_command c) e c)"

section \<open>Managing the server\<close>

text \<open>The daemon takes the address of the minter from the node.\<close>

definition createDaemonManager :: "('k, 'm) node_cli \<Rightarrow> node_daemon res" where
  "createDaemonManager c =
     (if \<not> BlockchainExist (nd_db (nc_node c)) then Err (ErrNew ''Blockchain is not found. Must be created or inited'')
      else Ok ((daemon_of (nc_Input c))\<lparr>dm_MinterAddress := nc_minter c\<rparr>))"

text \<open>The server that runs from here on, with the string of authorisation, is the result.\<close>

definition StartServerInteractive ::
  "('k, 'm) cli_env \<Rightarrow> node_daemon \<Rightarrow> ('k, 'm) node_cli \<Rightarrow> cli_output res \<times> ('k, 'm) node_cli" where
  "StartServerInteractive e d c =
     bindS (at_files (prepare_interactive (ce_daemon e) (ce_pid e) d) c) (\<lambda>authstr c. (Ok (CliServer d authstr), c))"

definition DaemonizeServer ::
  "node_daemon \<Rightarrow> ('k, 'm) node_cli \<Rightarrow> cli_output res \<times> ('k, 'm) node_cli" where
  "DaemonizeServer d c =
     (Ok (CliServer d (case loadPIDFile (dm_ConfigDir d) (nc_files c) of Ok (_, _, authstr, _) \<Rightarrow> authstr | _ \<Rightarrow> [])), c)"

text \<open>The first of the addresses of the wallets, in their order as a map, or a new one, becomes the minter.\<close>

definition choose_minter :: "('k, 'm) cli_env \<Rightarrow> ('k, 'm) node_cli \<Rightarrow> unit res \<times> ('k, 'm) node_cli" where
  "choose_minter e c =
     bindS (local_wallets e c, c) (\<lambda>ws c.
       case GetAddresses ws of
         [] \<Rightarrow>
           (let (r, _, fs) = CreateWallet (ce_fuel e) (de_wallets (ce_daemon e)) (ce_keys e) (ws, nc_files c)
            in bindS (r, c\<lparr>nc_files := fs\<rparr>) (\<lambda>address c. (Ok (), c\<lparr>nc_Input := (nc_Input c)\<lparr>ai_MinterAddress := address\<rparr>\<rparr>)))
       | address # _ \<Rightarrow> (Ok (), c\<lparr>nc_Input := (nc_Input c)\<lparr>ai_MinterAddress := address\<rparr>\<rparr>))"

definition use_minter :: "('k, 'm) cli_env \<Rightarrow> ('k, 'm) node_cli \<Rightarrow> unit res \<times> ('k, 'm) node_cli" where
  "use_minter e c =
     (let address = ai_MinterAddress (nc_Input c)
      in bindS (setNodeProxyKeys e (c\<lparr>nc_minter := address, nc_Input := (nc_Input c)\<lparr>ai_ProxyKey := address\<rparr>\<rparr>)) (\<lambda>_ c.
         ignoreS (update_config e c) (\<lambda>c. (Ok (), c))))"

definition commandImportStartInteractive :: "('k, 'm) cli_env \<Rightarrow> ('k, 'm) node_cli \<Rightarrow> cli_output res \<times> ('k, 'm) node_cli" where
  "commandImportStartInteractive e c =
     bindS (if BlockchainExist (nd_db (nc_node c)) then (Ok (), c)
            else bindS (commandImportBlockchain e c) (\<lambda>_ c. bindS (choose_minter e c) (\<lambda>_ c. use_minter e c))) (\<lambda>_ c.
     bindS (createDaemonManager c, c) (\<lambda>d c. StartServerInteractive e d c))"

definition commandInitIfNeededStartInteractive ::
  "('k, 'm) cli_env \<Rightarrow> ('k, 'm) node_cli \<Rightarrow> cli_output res \<times> ('k, 'm) node_cli" where
  "commandInitIfNeededStartInteractive e c =
     bindS (if BlockchainExist (nd_db (nc_node c)) then (Ok (), c)
            else bindS (choose_minter e c) (\<lambda>_ c. bindS (commandInitBlockchain e c) (\<lambda>_ c. use_minter e c))) (\<lambda>_ c.
     bindS (createDaemonManager c, c) (\<lambda>d c. StartServerInteractive e d c))"

definition ExecuteManageCommand :: "('k, 'm) cli_env \<Rightarrow> ('k, 'm) node_cli \<Rightarrow> cli_output res \<times> ('k, 'm) node_cli" where
  "ExecuteManageCommand e c =
     bindS (CreateNode e c) (\<lambda>_ c.
       let cmd = cli_command c
       in if cmd = ''importandstart'' then commandImportStartInteractive e c
          else if cmd = ''interactiveautocreate'' then commandInitIfNeededStartInteractive e c
          else
            bindS (createDaemonManager c, c) (\<lambda>d c.
              if cmd = ''startnode'' then
                bindS (at_files (daemon_StartServer (ce_daemon e) (ce_process e) (ce_seen e) d) c) (\<lambda>_ c. (Ok CliDone, c))
              else if cmd = ''startintnode'' then StartServerInteractive e d c
              else if cmd = ''stopnode'' then bindS (at_files (daemon_StopServer d) c) (\<lambda>p c. (Ok (CliStopped p), c))
              else if cmd = ''daemonnode'' then DaemonizeServer d c
              else if cmd = ''nodestate'' then commandShowState e c
              else (Err (ErrNew ''Unknown node manage command''), c)))"

section \<open>The program\<close>

datatype main_output =
    ShownError err
  | ShownHelp
  | ShownUpdated
  | ShownCommand string "cli_output res"
  | ShownManage "cli_output res"
  | ShownUnknown

text \<open>A command is shown with the name of the application.\<close>

definition cli_main :: "('k, 'm) cli_env \<Rightarrow> ('k, 'm) node_cli \<Rightarrow> main_output res \<times> ('k, 'm) node_cli" where
  "cli_main e c =
     (if isInteractiveMode c then
        bindS (getApplicationName e c) (\<lambda>an c. let (r, c) = ExecuteCommand e c in (Ok (ShownCommand an r), c))
      else if isNodeManageMode c then let (r, c) = ExecuteManageCommand e c in (Ok (ShownManage r), c)
      else (Ok ShownUnknown, c))"

text \<open>\<open>found\<close> is the state of the node that the process finds, with the files.\<close>

definition node_main ::
  "('k, 'm) cli_env \<Rightarrow> 'k \<Rightarrow> string list \<Rightarrow> file_system \<Rightarrow> 'm node_state \<Rightarrow> main_output res \<times> file_system \<times> 'm node_state" where
  "node_main e nokey osArgs fs found =
     (case parseConfig (ce_app e) osArgs [] fs of
        (Ok input, fs) \<Rightarrow>
          (if CheckNeedsHelp input then (Ok ShownHelp, fs, found)
           else if CheckConfigUpdateNeeded input then
             (let (r, fs) = ignoreS (app_UpdateConfig (ce_app e) input fs) (\<lambda>fs. (Ok ShownUpdated, fs)) in (r, fs, found))
           else
             let (r, c) = cli_main e (getNodeCLI input fs nokey found) in (r, nc_files c, nc_node c))
      | (Err x, fs) \<Rightarrow> (Ok (ShownError x), fs, found) | (Panic, fs) \<Rightarrow> (Panic, fs, found) | (Diverge, fs) \<Rightarrow> (Diverge, fs, found))"


section \<open>What commands keep of the database\<close>

abbreviation cli_db :: "('k, 'm) node_cli \<Rightarrow> 'm node_db" where
  "cli_db c \<equiv> nd_db (nc_node c)"

lemma at_node_db: "cli_db (snd (at_node f c)) = nd_db (snd (f (nc_node c)))"
  by (simp add: at_node_def split_beta)

lemma at_client_db [simp]:
  "cli_db (snd (at_files g c)) = cli_db c" "cli_db (snd (at_local_client h c)) = cli_db c"
  "cli_db (snd (update_config e c)) = cli_db c" "cli_db (snd (forwardCommandToWallet e c)) = cli_db c"
  by (simp_all add: at_files_def at_local_client_def update_config_def forwardCommandToWallet_def split_beta Let_def)

lemma setNodeProxyKeys_frame [simp]:
  "nc_node (snd (setNodeProxyKeys e c)) = nc_node c" "nc_Input (snd (setNodeProxyKeys e c)) = nc_Input c"
  "nc_ready (snd (setNodeProxyKeys e c)) = nc_ready c"
proof -
  let ?P = "\<lambda>u. nc_node u = nc_node c \<and> nc_Input u = nc_Input c \<and> nc_ready u = nc_ready c"
  have "?P (snd (setNodeProxyKeys e c))" by (auto simp: setNodeProxyKeys_def Let_def try_step_def split: res.split)
  then show "nc_node (snd (setNodeProxyKeys e c)) = nc_node c" "nc_Input (snd (setNodeProxyKeys e c)) = nc_Input c"
    "nc_ready (snd (setNodeProxyKeys e c)) = nc_ready c" by simp_all
qed

lemma init_node_db [simp]: "nd_db (init_node nodes authstr s) = OpenConnection (nd_db s)"
  by (simp add: init_node_def InitNodes_def)

lemma OpenConnection_opened [simp]: "db_opened (OpenConnection db)" "db_opened db \<Longrightarrow> OpenConnection db = db"
  by (simp_all add: OpenConnection_def)

text \<open>A node that was created has an open connection; creating it changes nothing else of the database.\<close>

definition created_open :: "('k, 'm) node_cli \<Rightarrow> bool" where
  "created_open c \<longleftrightarrow> (nc_ready c \<longrightarrow> db_opened (cli_db c))"

definition same_opened :: "('k, 'm) node_cli \<Rightarrow> ('k, 'm) node_cli \<Rightarrow> bool" where
  "same_opened c c' \<longleftrightarrow> nc_Input c' = nc_Input c \<and> created_open c' \<and> OpenConnection (cli_db c') = OpenConnection (cli_db c)"

lemma CreateNode_frame:
  assumes "created_open c"
  shows "same_opened c (snd (CreateNode e c))" "fst (CreateNode e c) = Ok () \<Longrightarrow> nc_ready (snd (CreateNode e c))"
proof -
  let ?r = "if ai_ConseususConfigFilePresent (nc_Input c) then NewConfigFromFile e (nc_files c) (ai_ConseususConfigFile (nc_Input c))
            else Ok NewConfigDefault"
  have "same_opened c (snd (CreateNode e c)) \<and> (fst (CreateNode e c) = Ok () \<longrightarrow> nc_ready (snd (CreateNode e c)))"
  proof (cases "nc_ready c")
    case True
    then show ?thesis using assms by (simp add: CreateNode_def same_opened_def)
  next
    case False
    then show ?thesis unfolding CreateNode_def if_not_P[OF False] Let_def
      by (cases ?r) (auto simp: same_opened_def created_open_def)
  qed
  then show "same_opened c (snd (CreateNode e c))" "fst (CreateNode e c) = Ok () \<Longrightarrow> nc_ready (snd (CreateNode e c))" by simp_all
qed

lemma reindex_walk_keeps [keeps]: "same_store s db \<Longrightarrow> same_store (snd (reindex_walk n h s)) db"
proof (induction n arbitrary: h s)
  case (Suc n)
  then show ?case by (auto intro!: keeps)
qed simp

lemma ReindexData_keeps [keeps]: "same_store s db \<Longrightarrow> same_store (snd (txm_ReindexData te s)) db"
  by (auto simp: txm_ReindexData_def index_Reindex_def uo_Reindex_def Let_def intro!: keeps)

lemma wallet_balances_keeps [keeps]: "same_store s db \<Longrightarrow> same_store (snd (wallet_balances te addresses acc s)) db"
  by (induction addresses arbitrary: acc s) (auto intro!: keeps)

lemma CreateCurrencyTransaction_keeps [keeps]:
  "same_store s db \<Longrightarrow> same_store (snd (CreateCurrencyTransaction te k pk sk a m s)) db"
  by (auto simp: CreateCurrencyTransaction_def add_new_transaction_def Let_def split_beta intro!: keeps)

context store_property
begin

lemma at_tables: "P (cli_db c) \<Longrightarrow> (\<And>d. same_store (snd (f d)) d) \<Longrightarrow> P (cli_db (snd (at_node (on_db f) c)))"
  by (simp add: at_node_db) (rule same)

lemma asking_commands:
  assumes "P (cli_db c)"
  shows "P (cli_db (snd (commandDumpBlockchain e c)))" "P (cli_db (snd (commandExportConsensusConfig e c)))"
    "P (cli_db (snd (commandPrintChain e c)))" "P (cli_db (snd (commandAddressHistory e c)))"
    "P (cli_db (snd (commandShowUnspent e c)))" "P (cli_db (snd (commandShowNodes e c)))"
    "P (cli_db (snd (commandAddNode e c)))" "P (cli_db (snd (commandRemoveNode e c)))"
proof -
  note k = kept_bindS[where P = "\<lambda>c. P (cli_db c)"] kept_ignoreS[where P = "\<lambda>c. P (cli_db c)"]
    kept_try_step[where P = "\<lambda>c. P (cli_db c)"]
  show "P (cli_db (snd (commandDumpBlockchain e c)))" by (auto simp: commandDumpBlockchain_def assms intro!: k)
  show "P (cli_db (snd (commandExportConsensusConfig e c)))"
    by (auto simp: commandExportConsensusConfig_def Let_def assms intro!: k)
  show "P (cli_db (snd (commandPrintChain e c)))" by (auto simp: commandPrintChain_def Let_def assms intro!: k)
  show "P (cli_db (snd (commandAddressHistory e c)))" by (auto simp: commandAddressHistory_def assms intro!: k)
  show "P (cli_db (snd (commandShowUnspent e c)))" by (auto simp: commandShowUnspent_def assms intro!: k)
  show "P (cli_db (snd (commandShowNodes e c)))" by (auto simp: commandShowNodes_def assms intro!: k)
  show "P (cli_db (snd (commandAddNode e c)))" by (auto simp: commandAddNode_def at_node_db assms intro!: k)
  show "P (cli_db (snd (commandRemoveNode e c)))" by (auto simp: commandRemoveNode_def at_node_db assms intro!: k)
qed

lemma table_commands:
  assumes "P (cli_db c)"
  shows "P (cli_db (snd (commandReindexCache e c)))" "P (cli_db (snd (cli_commandGetBalance e c)))"
    "P (cli_db (snd (commandAddressesBalance e c)))" "P (cli_db (snd (commandUnapprovedTransactions e c)))"
    "P (cli_db (snd (commandCancelTransaction e c)))" "P (cli_db (snd (commandShowState e c)))"
proof -
  note k = kept_bindS[where P = "\<lambda>c. P (cli_db c)"] kept_ignoreS[where P = "\<lambda>c. P (cli_db c)"]
    kept_try_step[where P = "\<lambda>c. P (cli_db c)"]
  show "P (cli_db (snd (commandReindexCache e c)))" unfolding commandReindexCache_def
    by (auto simp: assms intro!: k at_tables keeps)
  show "P (cli_db (snd (cli_commandGetBalance e c)))" unfolding cli_commandGetBalance_def
    by (auto simp: assms intro!: k at_tables keeps)
  show "P (cli_db (snd (commandAddressesBalance e c)))" unfolding commandAddressesBalance_def
    by (auto simp: assms intro!: k at_tables keeps)
  show "P (cli_db (snd (commandUnapprovedTransactions e c)))" unfolding commandUnapprovedTransactions_def
    by (auto simp: assms Let_def intro!: k at_tables keeps)
  show "P (cli_db (snd (commandCancelTransaction e c)))" unfolding commandCancelTransaction_def
    by (auto simp: assms intro!: k at_tables keeps)
  show "P (cli_db (snd (commandShowState e c)))" unfolding commandShowState_def state_of_node_def
    by (auto simp: assms Let_def at_node_db table_ops split: prod.split
      intro!: k kept_bindS[where P = "\<lambda>s. P (nd_db s)"])
qed

lemma new_transactions:
  "P d \<Longrightarrow> P (snd (CreateCurrencyTransaction te i pk sk a m d))" "P d \<Longrightarrow> P (snd (NewQueryByNode te q' i sql pk sk d))"
  by (rule same, rule keeps, rule same_store_simps, assumption)+

lemma sending_commands:
  assumes "P (cli_db c)"
  shows "P (cli_db (snd (cli_commandSend e c)))" "P (cli_db (snd (cli_commandSQL e c)))"
proof -
  note k = kept_bindS[where P = "\<lambda>c. P (cli_db c)"] kept_bindS[where P = "\<lambda>s. P (nd_db s)"]
    kept_ignoreS[where P = "\<lambda>s. P (nd_db s)"]
  show "P (cli_db (snd (cli_commandSend e c)))" unfolding cli_commandSend_def
    by (auto simp: assms at_node_db node_Send_def intro!: k new_transactions)
  show "P (cli_db (snd (cli_commandSQL e c)))" unfolding cli_commandSQL_def
    by (auto simp: assms at_node_db SQLTransaction_def new_transactions split: option.split intro!: k)
qed

lemma pulling_command:
  assumes "P (cli_db c)" and "nv_qm (node_env_of e c) = q" and "\<And>d b. nv_unblock (ce_node e) d = Ok b \<Longrightarrow> shaped b"
  shows "P (cli_db (snd (commandPullUpdates e c)))"
proof -
  have "P (nd_db (snd (CheckForChangesOnOtherNodes (node_env_of e c) (ce_range e) (ce_now e - 3600) (nc_node c))))"
    by (rule CheckForChanges_keeps[OF assms(2)]) (use assms in \<open>auto simp: node_env_of_def\<close>)
  then show ?thesis unfolding commandPullUpdates_def
    by (intro kept_ignoreS[where P = "\<lambda>c. P (cli_db c)"]) (simp_all add: at_node_db)
qed

end

section \<open>No command loses a block\<close>

definition chain_kept :: "nat \<Rightarrow> bytes \<Rightarrow> 'm node_db \<Rightarrow> 'm node_db \<Rightarrow> bool" where
  "chain_kept n g db db' \<longleftrightarrow> (\<exists>hs. node_inv n g db' hs) \<and> keeps_blocks db db'"

text \<open>What is assumed of other nodes, of hashes and of the heights of the blocks that are stored.\<close>

definition sound_env :: "nat \<Rightarrow> (bytes \<Rightarrow> int) \<Rightarrow> ('k, 'm) cli_env \<Rightarrow> bool" where
  "sound_env n H e \<longleftrightarrow> peers_shape n H (ce_node e) \<and>
     (\<forall>t x. length (sha256 (te_crypto (nv_env (ce_node e) t)) x) = n \<and> sha256 (te_crypto (nv_env (ce_node e) t)) x \<noteq> zeros n)"

definition small_heights :: "'m node_db \<Rightarrow> bool" where
  "small_heights db \<longleftrightarrow> (\<forall>h b. db_GetBlock db h = Some (BlockData b) \<longrightarrow> 0 \<le> blk_Height b \<and> blk_Height b < 2 ^ 63 - 1)"

lemma commandMakeBlock_kept:
  assumes good: "node_good n g H (cli_db c)" and e: "sound_env n H e" and h: "small_heights (cli_db c)"
  shows "chain_kept n g (cli_db c) (cli_db (snd (commandMakeBlock e c)))"
proof -
  obtain hs where hs: "node_inv n g (cli_db c) hs" using good by (auto simp: node_good_def)
  obtain r s where run: "TryToMakeBlock (node_env_of e c) None [] (nc_node c) = (r, s)" by fastforce
  have "\<exists>hs'. node_inv n g (nd_db s) hs' \<and> keeps_blocks (cli_db c) (nd_db s)"
    using own_block_main[OF hs _ _ _ run] e h by (auto simp: sound_env_def small_heights_def quiet_def env_at_def node_env_of_def)
  moreover have "cli_db (snd (commandMakeBlock e c)) = nd_db s" unfolding commandMakeBlock_def
    by (rule kept_bindS[where P = "\<lambda>u. cli_db u = nd_db s"]) (simp_all add: at_node_db run)
  ultimately show ?thesis by (simp add: chain_kept_def)
qed

lemma commandDropBlock_inv:
  assumes "node_inv n g (cli_db c) hs" and "leaf_top (cli_db c)"
  shows "node_inv n g (cli_db (snd (commandDropBlock e c))) (butlast hs)"
  unfolding commandDropBlock_def
  by (rule kept_bindS[where P = "\<lambda>u. node_inv n g (cli_db u) (butlast hs)"])
    (auto simp: at_node_db DropBlock_inv[OF assms] intro!: kept_bindS[where P = "\<lambda>u. node_inv n g (cli_db u) (butlast hs)"]
      kept_try_step[where P = "\<lambda>u. node_inv n g (cli_db u) (butlast hs)"])

lemma run_command_kept:
  assumes good: "node_good n g H (cli_db c)" and e: "sound_env n H e" and h: "small_heights (cli_db c)"
    and cmd: "cmd \<noteq> ''dropblock''" "\<not> StringInSlice cmd disableWithBCReady"
  shows "chain_kept n g (cli_db c) (cli_db (snd (run_command cmd e c)))"
proof -
  let ?P = "\<lambda>db. node_good n g H db \<and> keeps_blocks (cli_db c) db"
  have start: "?P (cli_db c)" using good by simp
  have kept: "?P db \<Longrightarrow> chain_kept n g (cli_db c) db" for db by (simp add: chain_kept_def node_good_def)
  have pull: "?P (cli_db (snd (commandPullUpdates e c)))"
    by (rule good.pulling_command[OF start refl]) (use e in \<open>simp add: sound_env_def peers_shape_def\<close>)
  note asked = good.asking_commands[OF start] good.table_commands[OF start] good.sending_commands[OF start]
  have no: "cmd \<noteq> ''initblockchain''" "cmd \<noteq> ''importblockchain''" "cmd \<noteq> ''restoreblockchain''"
    using cmd(2) by (auto simp: disableWithBCReady_def)
  show ?thesis unfolding run_command_def
    using cmd(1) no commandMakeBlock_kept[OF good e h] kept[OF pull] kept[OF asked(1)] kept[OF asked(2)] kept[OF asked(3)]
      kept[OF asked(4)] kept[OF asked(5)] kept[OF asked(6)] kept[OF asked(7)] kept[OF asked(8)] kept[OF asked(9)] kept[OF asked(10)]
      kept[OF asked(11)] kept[OF asked(12)] kept[OF asked(13)] kept[OF asked(15)] kept[OF asked(16)] kept[OF start]
    by simp
qed

text \<open>How a run of the program on an existing block chain ends: \<open>cmd\<close> is the command.\<close>

definition ends_well :: "nat \<Rightarrow> bytes \<Rightarrow> string \<Rightarrow> 'm node_db \<Rightarrow> 'm node_db \<Rightarrow> bool" where
  "ends_well n g cmd db db' \<longleftrightarrow>
     (\<exists>hs. node_inv n g db' hs) \<and> (cmd \<noteq> ''dropblock'' \<longrightarrow> keeps_blocks db db') \<and> (cmd \<in> set disableWithBCReady \<longrightarrow> db' = db)"

lemma ends_well_same: "node_good n g H db \<Longrightarrow> ends_well n g cmd db db"
  by (simp add: ends_well_def node_good_def)

lemma StringInSlice_set: "StringInSlice s xs \<longleftrightarrow> s \<in> set xs"
  by (induction xs) auto

lemma chain_exists: "node_inv n g db hs \<Longrightarrow> BlockchainExist db"
proof -
  assume "node_inv n g db hs"
  then have si: "store_inv n db hs" by (simp add: node_inv_def)
  obtain b where "db_GetBlock db (List.last hs) = Some (BlockData b)" using store_invD(4,6)[OF si] by (metis last_in_set)
  then have "length (List.last hs) = n" using store_invD(7)[OF si] by (simp add: block_ok_def)
  then show ?thesis using store_inv_top[OF si] store_invD(1,2)[OF si] by (auto simp: BlockchainExist_def CheckDBExists_def getConnection_def)
qed

lemma inv_opened: "node_inv n g db hs \<Longrightarrow> OpenConnection db = db"
  unfolding node_inv_def by (intro OpenConnection_opened(2) store_invD(1)) (rule conjunct1)

lemma ExecuteCommand_ends:
  assumes open_c: "created_open c" and good: "node_good n g H (OpenConnection (cli_db c))" and e: "sound_env n H e"
    and h: "small_heights (OpenConnection (cli_db c))"
    and leaf: "cli_command c = ''dropblock'' \<Longrightarrow> leaf_top (OpenConnection (cli_db c))"
  shows "ends_well n g (cli_command c) (OpenConnection (cli_db c)) (OpenConnection (cli_db (snd (ExecuteCommand e c))))"
proof -
  let ?db = "OpenConnection (cli_db c)"
  obtain r c1 where c1: "CreateNode e c = (r, c1)" by fastforce
  have f: "nc_Input c1 = nc_Input c" "OpenConnection (cli_db c1) = ?db" "created_open c1"
    using CreateNode_frame(1)[OF open_c, of e] by (simp_all add: same_opened_def c1)
  show ?thesis
  proof (cases "r = Ok ()")
    case False
    then have "OpenConnection (cli_db (snd (ExecuteCommand e c))) = ?db" using f(2) by (cases r) (simp_all add: ExecuteCommand_def c1)
    then show ?thesis by (simp add: ends_well_same[OF good])
  next
    case True
    then have o1: "db_opened (cli_db c1)" using CreateNode_frame(2)[OF open_c, of e] c1 f(3) by (simp add: created_open_def)
    then have d: "cli_db c1 = ?db" using f(2) by simp
    obtain hs where hs: "node_inv n g ?db hs" using good by (auto simp: node_good_def)
    have ex: "BlockchainExist (cli_db c1)" using chain_exists[OF hs] d by simp
    have cmd: "cli_command c1 = cli_command c" by (simp add: cli_command_def f)
    show ?thesis
    proof (cases "cli_command c \<in> set disableWithBCReady")
      case True
      then have "snd (ExecuteCommand e c) = c1" using c1 \<open>r = Ok ()\<close> ex by (simp add: ExecuteCommand_def cmd StringInSlice_set)
      then show ?thesis using d by (simp add: ends_well_same[OF good])
    next
      case no: False
      then have eq: "ExecuteCommand e c = run_command (cli_command c) e c1"
        using c1 \<open>r = Ok ()\<close> ex by (simp add: ExecuteCommand_def cmd StringInSlice_set)
      show ?thesis
      proof (cases "cli_command c = ''dropblock''")
        case True
        have k: "node_inv n g (cli_db (snd (commandDropBlock e c1))) (butlast hs)"
          by (rule commandDropBlock_inv) (use hs d leaf[OF True] in simp_all)
        have "snd (ExecuteCommand e c) = snd (commandDropBlock e c1)" using eq True by (simp add: run_command_def)
        then show ?thesis using k inv_opened[OF k] True by (auto simp: ends_well_def disableWithBCReady_def)
      next
        case False
        have "chain_kept n g (cli_db c1) (cli_db (snd (ExecuteCommand e c)))" unfolding eq
          by (rule run_command_kept[OF _ e _ False]) (use good h d no in \<open>simp_all add: StringInSlice_set\<close>)
        then obtain ks where k: "node_inv n g (cli_db (snd (ExecuteCommand e c))) ks"
          and "keeps_blocks ?db (cli_db (snd (ExecuteCommand e c)))" using d by (auto simp: chain_kept_def)
        then show ?thesis using no inv_opened[OF k] by (auto simp: ends_well_def)
      qed
    qed
  qed
qed

text \<open>On an existing chain the commands for the server leave the database as it is; the server that they start does its own.\<close>

lemma start_server_db [simp]: "cli_db (snd (StartServerInteractive e d c)) = cli_db c"
  unfolding StartServerInteractive_def by (rule kept_bindS[where P = "\<lambda>u. cli_db u = cli_db c"]) simp_all

lemma ExecuteManageCommand_ends:
  assumes open_c: "created_open c" and good: "node_good n g H (OpenConnection (cli_db c))"
    and cmd: "cli_command c \<noteq> ''dropblock''"
  shows "ends_well n g (cli_command c) (OpenConnection (cli_db c)) (OpenConnection (cli_db (snd (ExecuteManageCommand e c))))"
proof -
  let ?db = "OpenConnection (cli_db c)"
  obtain r c1 where c1: "CreateNode e c = (r, c1)" by fastforce
  have f: "nc_Input c1 = nc_Input c" "OpenConnection (cli_db c1) = ?db" "created_open c1"
    using CreateNode_frame(1)[OF open_c, of e] by (simp_all add: same_opened_def c1)
  show ?thesis
  proof (cases "r = Ok ()")
    case False
    then have "OpenConnection (cli_db (snd (ExecuteManageCommand e c))) = ?db"
      using f(2) by (cases r) (simp_all add: ExecuteManageCommand_def c1)
    then show ?thesis by (simp add: ends_well_same[OF good])
  next
    case True
    then have o1: "db_opened (cli_db c1)" using CreateNode_frame(2)[OF open_c, of e] c1 f(3) by (simp add: created_open_def)
    then have d: "cli_db c1 = ?db" using f(2) by simp
    obtain hs where hs: "node_inv n g ?db hs" using good by (auto simp: node_good_def)
    have ex: "BlockchainExist (cli_db c1)" using chain_exists[OF hs] d by simp
    have cc: "cli_command c1 = cli_command c" by (simp add: cli_command_def f)
    have eq: "ExecuteManageCommand e c =
      (if cli_command c = ''nodestate'' then commandShowState e c1 else snd (True, ExecuteManageCommand e c))"
      using c1 True ex by (simp add: ExecuteManageCommand_def cc Let_def createDaemonManager_def)
    show ?thesis
    proof (cases "cli_command c = ''nodestate''")
      case state: True
      have "node_good n g H (cli_db (snd (commandShowState e c1))) \<and> keeps_blocks ?db (cli_db (snd (commandShowState e c1)))"
        by (rule good.table_commands(6)) (use good d in simp)
      then obtain ks where k: "node_inv n g (cli_db (snd (ExecuteManageCommand e c))) ks"
        and "keeps_blocks ?db (cli_db (snd (ExecuteManageCommand e c)))" using eq state by (auto simp: node_good_def)
      then show ?thesis using state inv_opened[OF k] by (auto simp: ends_well_def disableWithBCReady_def)
    next
      case no: False
      have "cli_db (snd (ExecuteManageCommand e c)) = cli_db c1"
        using c1 True ex no
        by (auto simp: ExecuteManageCommand_def cc Let_def createDaemonManager_def commandImportStartInteractive_def
            commandInitIfNeededStartInteractive_def DaemonizeServer_def intro!: kept_bindS[where P = "\<lambda>u. cli_db u = cli_db c1"])
      then show ?thesis using d by (simp add: ends_well_same[OF good])
    qed
  qed
qed

text \<open>The command is the first argument.\<close>

lemma parsed_command:
  assumes "parseConfig e (prog # cmd # args) dirpath fs = (Ok i, fs')"
  shows "ai_Command i = cmd"
proof -
  obtain i0 where i0: "parse_flags e args (flag_defaults (zero_input\<lparr>ai_Command := cmd\<rparr>)) = Some i0"
    and c: "configure e dirpath i0 fs = (Ok i, fs')"
    using assms by (auto simp: parseConfig_def split: option.splits)
  have "ai_Command i0 = cmd" using parse_flags_frame[OF i0] by (simp add: flag_defaults_def on_args_def)
  moreover have "ends (\<lambda>j _. ai_Command j = ai_Command i0) (configure e dirpath i0 fs)"
    unfolding configure_def Let_def started_def[symmetric] with_config_def[symmetric] place_consensus_def
    by (auto simp: ends_def[of _ "(_, _)"] with_config_same complete_fields complete_dir_def Let_def intro!: ends_bindS[where J = "\<lambda>_. True"])
  then have "ai_Command i = ai_Command i0" using c by (simp add: ends_def)
  ultimately show ?thesis by simp
qed


lemma cli_main_ends:
  assumes "created_open c" and "node_good n g H (OpenConnection (cli_db c))" and e: "sound_env n H e"
    and h: "small_heights (OpenConnection (cli_db c))"
    and leaf: "cli_command c = ''dropblock'' \<Longrightarrow> leaf_top (OpenConnection (cli_db c))"
  shows "ends_well n g (cli_command c) (OpenConnection (cli_db c)) (OpenConnection (cli_db (snd (cli_main e c))))"
proof -
  let ?db = "OpenConnection (cli_db c)"
  show ?thesis
  proof (cases "isInteractiveMode c")
    case True
    obtain r c1 where c1: "CreateNode e c = (r, c1)" by fastforce
    have f: "nc_Input c1 = nc_Input c" "OpenConnection (cli_db c1) = ?db" "created_open c1"
      using CreateNode_frame(1)[OF assms(1), of e] by (simp_all add: same_opened_def c1)
    then have "cli_command c1 = cli_command c" by (simp add: cli_command_def)
    then have "ends_well n g (cli_command c) ?db (OpenConnection (cli_db (snd (ExecuteCommand e c1))))"
      using ExecuteCommand_ends[of c1 n g H e] f assms by simp
    moreover have "snd (cli_main e c) \<in> {c1, snd (ExecuteCommand e c1)}"
      using True c1 by (cases r) (auto simp: cli_main_def getApplicationName_def split_beta)
    ultimately show ?thesis using ends_well_same[OF assms(2)] f(2) by auto
  next
    case False
    then show ?thesis
      using ExecuteManageCommand_ends[OF assms(1,2), of e] ends_well_same[OF assms(2)]
      by (auto simp: cli_main_def split_beta isInteractiveMode_def commandsInteractiveMode_def StringInSlice_set)
  qed
qed

text \<open>
  Whatever command line the program is run with beside an existing block chain, the invariant of the node holds when it
  ends; only \<^verbatim>\<open>dropblock\<close> takes a block away, and the commands that start a block chain leave the database as it is.
  For \<^verbatim>\<open>dropblock\<close> no block may be built on the top block and it may not be the first one.
\<close>


section \<open>Commands that cannot do their work\<close>

text \<open>A file of rules that cannot be read ends the program at the name of the application: the error is dropped there.\<close>

lemma broken_rules_panic:
  assumes "isInteractiveMode c" and "\<not> nc_ready c" and "ai_ConseususConfigFilePresent (nc_Input c)"
    and "NewConfigFromFile e (nc_files c) (ai_ConseususConfigFile (nc_Input c)) = Err x"
  shows "fst (cli_main e c) = Panic"
  using assms by (simp add: cli_main_def getApplicationName_def CreateNode_def Let_def)

text \<open>\<^verbatim>\<open>mineblock\<close> is listed as a command and is none; \<^verbatim>\<open>nodestate\<close> is listed as one that needs no block chain and needs it.\<close>

lemma mineblock_unknown:
  assumes "cli_command c = ''mineblock''" and "CreateNode e c = (Ok (), c1)" and "BlockchainExist (cli_db c1)"
    and "cli_command c1 = cli_command c"
  shows "isInteractiveMode c \<and> ExecuteCommand e c = (Err (ErrNew ''Unknown management command''), c1)"
  using assms
  by (simp add: isInteractiveMode_def commandsInteractiveMode_def ExecuteCommand_def StringInSlice_set disableWithBCReady_def run_command_def)

lemma nodestate_needs_chain:
  assumes "cli_command c = ''nodestate''" and "CreateNode e c = (Ok (), c1)" and "\<not> BlockchainExist (cli_db c1)"
    and "cli_command c1 = cli_command c"
  shows "StringInSlice ''nodestate'' allowWithoutBCReady \<and>
    ExecuteManageCommand e c = (Err (ErrNew ''Blockchain is not found. Must be created or inited''), c1)"
  using assms by (simp add: ExecuteManageCommand_def createDaemonManager_def StringInSlice_set allowWithoutBCReady_def)

text \<open>Without a block chain only the commands of the list run, and any other one changes nothing of the database.\<close>

lemma no_chain_refused:
  assumes "\<not> StringInSlice (cli_command c1) allowWithoutBCReady" and "CreateNode e c = (Ok (), c1)" and "\<not> BlockchainExist (cli_db c1)"
  shows "ExecuteCommand e c = (Err (ErrNew ''Blockchain is not found. Must be created or inited''), c1)"
  using assms by (simp add: ExecuteCommand_def)

end
