(* ===== verification/Cli_Samples.thy ===== *)
theory Cli_Samples
  imports Create_Samples Node_Cli
begin

text \<open>
  The property of \<open>Node_Cli\<close> applied to sample data: \<^verbatim>\<open>makeblock\<close> on the command line of a node that holds a chain and a
  transaction to put into a block.
\<close>

definition l_env :: "(unit, string list) cli_env" where
  "l_env = \<lparr>ce_app = c_start_app, ce_daemon = c_daemon, ce_node = o_node_env\<lparr>nv_unblock := (\<lambda>d. Err (ErrNew ''gob''))\<rparr>,
     ce_maker = c_maker c_sql, ce_json = (\<lambda>c. [123, 125]), ce_unjson = (\<lambda>b c. Ok c), ce_created = False, ce_intn = (\<lambda>n. 0),
     ce_range = [], ce_now = 0, ce_keys = 0, ce_fuel = 1, ce_pid = 4711, ce_process = None, ce_seen = (\<lambda>fs i. fs),
     ce_mysqldump = (\<lambda>db file fs. (Ok (), fs)), ce_statements = (\<lambda>s db. (Ok (), db))\<rparr>"

definition l_args :: "string list" where "l_args = [''-configdir'', ''conf/'']"

lemma l_parsed:
  "\<exists>i. parseConfig c_start_app (''oursql'' # ''makeblock'' # l_args) [] c_start_files = (Ok i, c_start_files)"
proof -
  have "case fst (parseConfig c_start_app (''oursql'' # ''makeblock'' # l_args) [] c_start_files) of Ok i \<Rightarrow> True | _ \<Rightarrow> False"
    by code_simp
  moreover have "snd (parseConfig c_start_app (''oursql'' # ''makeblock'' # l_args) [] c_start_files) = c_start_files" by code_simp
  ultimately show ?thesis
    by (cases "parseConfig c_start_app (''oursql'' # ''makeblock'' # l_args) [] c_start_files") (auto split: res.splits)
qed

lemma l_good: "node_good 32 o_hash (\<lambda>h. 0) o_db"
proof -
  have "heights_by (\<lambda>h. 0) o_db" by (auto simp: heights_by_def o_get o_genesis_def s_block_def split: if_splits)
  then show ?thesis using o_inv by (auto simp: node_good_def)
qed

lemma l_sound: "sound_env 32 H l_env"
  using o_sha by (simp add: sound_env_def peers_shape_def l_env_def o_node_env_def o_env_def)


end
